(* ===== verification/Prelude.thy ===== *)
theory Prelude
  imports
    Main
    "HOL-Library.Word"
    "HOL-Library.Multiset"
    "HOL-Library.AList"
    "HOL-Library.Char_ord"
    "HOL-Library.List_Lexorder"
    "HOL-Library.Product_Lexorder"
begin

text \<open>
  Prelude of the trainsplorer library: the vocabulary every component shares.

  \<^item> the Rust integer types the program uses at a width that matters;
  \<^item> \<open>result\<close> values as sums (\<open>Inl\<close> an error, \<open>Inr\<close> a value) with the
    combinators behind \<open>?\<close>, \<open>ok_or\<close> and \<open>collect\<close>;
  \<^item> \<open>HashMap\<close>s as association lists without duplicate keys (\<open>AList.update\<close>,
    \<open>map_of\<close>): a theorem about one speaks of \<open>map_of\<close> or of sets, never of the
    order, since Rust does not fix an iteration order;
  \<^item> list and option lemmas used by several components, collected in
    \<open>res_simps\<close> and \<open>tbl_simps\<close>.

  Strings are lists of characters; their order is the lexicographic order of
  \<open>HOL-Library.List_Lexorder\<close>, which is what \<open>String\<close>'s \<open>Ord\<close> and SQLite's
  \<open>BINARY\<close> collation do on the ASCII data of the feeds.
\<close>

named_theorems res_simps \<open>equations of the result combinators\<close>
named_theorems tbl_simps \<open>equations of table operations\<close>

type_synonym u8 = "8 word"
type_synonym u32 = "32 word"

section \<open>Results\<close>

definition res_bind :: "'e + 'a \<Rightarrow> ('a \<Rightarrow> 'e + 'b) \<Rightarrow> 'e + 'b" where
  "res_bind r f = (case r of Inl e \<Rightarrow> Inl e | Inr a \<Rightarrow> f a)"

definition res_map :: "('a \<Rightarrow> 'b) \<Rightarrow> 'e + 'a \<Rightarrow> 'e + 'b" where
  "res_map f r = (case r of Inl e \<Rightarrow> Inl e | Inr a \<Rightarrow> Inr (f a))"

definition map_err :: "('e \<Rightarrow> 'f) \<Rightarrow> 'e + 'a \<Rightarrow> 'f + 'a" where
  "map_err f r = (case r of Inl e \<Rightarrow> Inl (f e) | Inr a \<Rightarrow> Inr a)"

definition ok_or :: "'e \<Rightarrow> 'a option \<Rightarrow> 'e + 'a" where
  "ok_or e x = (case x of None \<Rightarrow> Inl e | Some a \<Rightarrow> Inr a)"

text \<open>\<open>Option::or\<close>: the first value that is there.\<close>

definition opt_or :: "'a option \<Rightarrow> 'a option \<Rightarrow> 'a option" where
  "opt_or x y = (case x of None \<Rightarrow> y | Some a \<Rightarrow> Some a)"

text \<open>\<open>into_iter().nth(0)\<close>.\<close>

definition nth0 :: "'a list \<Rightarrow> 'a option" where
  "nth0 xs = (case xs of [] \<Rightarrow> None | x # _ \<Rightarrow> Some x)"

text \<open>A loop that stops at the first error and collects the values.\<close>

fun res_mapM :: "('a \<Rightarrow> 'e + 'b) \<Rightarrow> 'a list \<Rightarrow> 'e + 'b list" where
  "res_mapM f [] = Inr []"
| "res_mapM f (x # xs) =
     (case f x of Inl e \<Rightarrow> Inl e
      | Inr y \<Rightarrow> (case res_mapM f xs of Inl e \<Rightarrow> Inl e | Inr ys \<Rightarrow> Inr (y # ys)))"

text \<open>A loop that threads a state and stops at the first error.\<close>

fun res_fold :: "('a \<Rightarrow> 's \<Rightarrow> 'e + 's) \<Rightarrow> 'a list \<Rightarrow> 's \<Rightarrow> 'e + 's" where
  "res_fold f [] s = Inr s"
| "res_fold f (x # xs) s = (case f x s of Inl e \<Rightarrow> Inl e | Inr s' \<Rightarrow> res_fold f xs s')"

lemma res_bind_simps [simp, res_simps]:
  "res_bind (Inl e) f = Inl e" "res_bind (Inr a) f = f a"
  by (simp_all add: res_bind_def)

lemma res_map_simps [simp, res_simps]:
  "res_map f (Inl e) = Inl e" "res_map f (Inr a) = Inr (f a)"
  by (simp_all add: res_map_def)

lemma map_err_simps [simp, res_simps]:
  "map_err f (Inl e) = Inl (f e)" "map_err f (Inr a) = Inr a"
  by (simp_all add: map_err_def)

lemma ok_or_simps [simp, res_simps]:
  "ok_or e None = Inl e" "ok_or e (Some a) = Inr a"
  by (simp_all add: ok_or_def)

lemma opt_or_simps [simp, res_simps]:
  "opt_or None y = y" "opt_or (Some a) y = Some a"
  by (simp_all add: opt_or_def)

lemma nth0_simps [simp, res_simps]:
  "nth0 [] = None" "nth0 (x # xs) = Some x"
  by (simp_all add: nth0_def)

lemma res_bind_Inr: "res_bind r f = Inr b \<longleftrightarrow> (\<exists>a. r = Inr a \<and> f a = Inr b)"
  by (cases r) auto

lemma res_map_Inr: "res_map f r = Inr b \<longleftrightarrow> (\<exists>a. r = Inr a \<and> b = f a)"
  by (cases r) auto

lemma map_err_Inr [simp]: "map_err f r = Inr a \<longleftrightarrow> r = Inr a"
  by (cases r) auto

lemma ok_or_Inr [simp]: "ok_or e x = Inr a \<longleftrightarrow> x = Some a"
  by (cases x) auto

lemma ok_or_Inl [simp]: "ok_or e x = Inl f \<longleftrightarrow> x = None \<and> f = e"
  by (cases x) auto

lemma nth0_Some: "nth0 xs = Some x \<Longrightarrow> x \<in> set xs"
  by (cases xs) auto

lemma nth0_None [simp]: "nth0 xs = None \<longleftrightarrow> xs = []"
  by (cases xs) auto

lemma nth0_filter_Some: "nth0 (filter P xs) = Some x \<Longrightarrow> x \<in> set xs \<and> P x"
  by (drule nth0_Some) simp

lemma nth0_filter_unique:
  assumes "x \<in> set xs" "P x" "\<And>y. y \<in> set xs \<Longrightarrow> P y \<Longrightarrow> y = x"
  shows "nth0 (filter P xs) = Some x"
proof (cases "nth0 (filter P xs)")
  case None
  with assms(1,2) show ?thesis by (auto simp: filter_empty_conv)
next
  case (Some y)
  have "y = x" using nth0_filter_Some [OF Some] by (intro assms(3)) simp_all
  with Some show ?thesis by simp
qed

lemma nth0_filter_None: "nth0 (filter P xs) = None \<longleftrightarrow> (\<forall>x\<in>set xs. \<not> P x)"
  by (simp add: filter_empty_conv)

lemma res_mapM_Inr_length: "res_mapM f xs = Inr ys \<Longrightarrow> length ys = length xs"
  by (induction xs arbitrary: ys) (auto split: sum.splits)

lemma res_mapM_pure: "(\<And>x. x \<in> set xs \<Longrightarrow> f x = Inr (g x)) \<Longrightarrow> res_mapM f xs = Inr (map g xs)"
  by (induction xs) auto

lemma res_mapM_map: "(\<And>x. x \<in> set xs \<Longrightarrow> f (g x) = Inr x) \<Longrightarrow> res_mapM f (map g xs) = Inr xs"
  by (induction xs) auto

lemma res_fold_invariant:
  assumes "\<And>x s s'. x \<in> set xs \<Longrightarrow> P s \<Longrightarrow> f x s = Inr s' \<Longrightarrow> P s'"
    and "P s" and "res_fold f xs s = Inr s'"
  shows "P s'"
  using assms by (induction xs arbitrary: s) (auto split: sum.splits)

lemma res_fold_append:
  "res_fold f (xs @ ys) s = res_bind (res_fold f xs s) (res_fold f ys)"
  by (induction xs arbitrary: s) (auto split: sum.splits)

section \<open>Keyed lists\<close>

text \<open>
  A uniqueness constraint on a table, the columns of the constraint being read by
  \<open>k\<close>. In SQL a \<open>NULL\<close> in a column of the constraint makes the row exempt, which is
  \<open>k r = None\<close>.
\<close>

fun uniq_on :: "('r \<Rightarrow> 'k option) \<Rightarrow> 'r list \<Rightarrow> bool" where
  "uniq_on k [] = True"
| "uniq_on k (x # xs) =
     (uniq_on k xs \<and> (case k x of None \<Rightarrow> True | Some y \<Rightarrow> \<forall>r\<in>set xs. k r \<noteq> Some y))"

lemma uniq_on_snoc [tbl_simps]:
  "uniq_on k (xs @ [x]) \<longleftrightarrow>
     uniq_on k xs \<and> (case k x of None \<Rightarrow> True | Some y \<Rightarrow> \<forall>r\<in>set xs. k r \<noteq> Some y)"
  by (induction xs) (auto split: option.splits)

lemma uniq_onD:
  assumes "uniq_on k xs" "a \<in> set xs" "b \<in> set xs" "k a = Some y" "k b = Some y"
  shows "a = b"
  using assms by (induction xs) (auto split: option.splits)

lemma uniq_on_filter: "uniq_on k xs \<Longrightarrow> uniq_on k (filter P xs)"
  by (induction xs) (auto split: option.splits)

lemma uniq_on_map_same:
  assumes "\<And>x. x \<in> set xs \<Longrightarrow> k (f x) = k x"
  shows "uniq_on k (map f xs) = uniq_on k xs"
  using assms by (induction xs) (auto split: option.splits)

lemma map_key_same:
  "(\<And>x. x \<in> set xs \<Longrightarrow> k (f x) = k x) \<Longrightarrow> map k (map f xs) = map k xs"
  by simp

lemma distinct_mapD:
  "distinct (map k xs) \<Longrightarrow> a \<in> set xs \<Longrightarrow> b \<in> set xs \<Longrightarrow> k a = k b \<Longrightarrow> a = b"
  by (auto simp: distinct_map inj_on_def)

text \<open>
  SQLite's choice of an \<open>INTEGER PRIMARY KEY\<close> for a row that brings none: one more than
  the largest key of the table, 1 in an empty table.
\<close>

definition next_rowid :: "int list \<Rightarrow> int" where
  "next_rowid ids = fold max ids 0 + 1"

lemma fold_max_ge: "(a::int) \<le> fold max xs a \<and> (\<forall>x\<in>set xs. x \<le> fold max xs a)"
proof (induction xs arbitrary: a)
  case Nil
  then show ?case by simp
next
  case (Cons x xs)
  have "max x a \<le> fold max xs (max x a)" "\<forall>y\<in>set xs. y \<le> fold max xs (max x a)"
    using Cons.IH by auto
  then show ?case by auto
qed

lemma next_rowid_gt: "x \<in> set ids \<Longrightarrow> x < next_rowid ids"
  using fold_max_ge [of 0 ids] by (auto simp: next_rowid_def)

lemma next_rowid_fresh: "next_rowid ids \<notin> set ids"
  using next_rowid_gt by blast

lemma next_rowid_pos: "0 < next_rowid ids"
  using fold_max_ge [of 0 ids] by (simp add: next_rowid_def)

text \<open>Rows inserted one after the other get consecutive keys.\<close>

fun numbered :: "(int \<Rightarrow> 'a \<Rightarrow> 'b) \<Rightarrow> int \<Rightarrow> 'a list \<Rightarrow> 'b list" where
  "numbered f n [] = []"
| "numbered f n (x # xs) = f n x # numbered f (n + 1) xs"

lemma next_rowid_snoc: "next_rowid (ids @ [next_rowid ids]) = next_rowid ids + 1"
  using fold_max_ge [of 0 ids] by (simp add: next_rowid_def)

lemma numbered_ids:
  assumes "\<And>i x. k (f i x) = i"
  shows "set (map k (numbered f n xs)) \<subseteq> {n..}" "distinct (map k (numbered f n xs))"
  by (induction xs arbitrary: n) (fastforce simp: assms)+

lemma numbered_map:
  assumes "\<And>i x. x \<in> set xs \<Longrightarrow> g (f i x) = h x"
  shows "map g (numbered f n xs) = map h xs"
  using assms by (induction xs arbitrary: n) auto

lemma numbered_set:
  assumes "y \<in> set (numbered f n xs)"
  obtains i x where "x \<in> set xs" "y = f i x"
  using assms by (induction xs arbitrary: n) auto

lemma numbered_all2:
  assumes "\<And>i x. R (f i x) x"
  shows "list_all2 R (numbered f n xs) xs"
  by (induction xs arbitrary: n) (simp_all add: assms)

section \<open>Association lists as hash maps\<close>

lemma map_of_update [simp]: "map_of (AList.update k v al) = (map_of al)(k \<mapsto> v)"
  by (simp add: update_conv')

lemma dom_map_of: "dom (map_of al) = fst ` set al"
  by (rule dom_map_of_conv_image_fst)

text \<open>\<open>HashMap::retain\<close>.\<close>

definition retain :: "('k \<Rightarrow> 'v \<Rightarrow> bool) \<Rightarrow> ('k \<times> 'v) list \<Rightarrow> ('k \<times> 'v) list" where
  "retain P al = filter (\<lambda>(k, v). P k v) al"

lemma retain_set [simp]: "(k, v) \<in> set (retain P al) \<longleftrightarrow> (k, v) \<in> set al \<and> P k v"
  by (auto simp: retain_def)

lemma distinct_retain: "distinct (map fst al) \<Longrightarrow> distinct (map fst (retain P al))"
  unfolding retain_def by (induction al) (auto simp: image_iff)

lemma map_of_retain:
  assumes "distinct (map fst al)"
  shows "map_of (retain P al) k =
    (case map_of al k of None \<Rightarrow> None | Some v \<Rightarrow> if P k v then Some v else None)"
proof (cases "map_of (retain P al) k")
  case (Some v)
  then have "(k, v) \<in> set (retain P al)" by (rule map_of_SomeD)
  then have "map_of al k = Some v" and "P k v" using assms by auto
  with Some show ?thesis by simp
next
  case None
  have "\<not> P k v" if "map_of al k = Some v" for v
  proof
    assume "P k v"
    with that have "(k, v) \<in> set (retain P al)" by (auto dest: map_of_SomeD)
    then have "k \<in> fst ` set (retain P al)" by (metis fst_conv image_eqI)
    moreover have "k \<notin> fst ` set (retain P al)" using None by (simp add: map_of_eq_None_iff)
    ultimately show False by simp
  qed
  with None show ?thesis by (auto split: option.splits)
qed

lemma map_of_retain_Some:
  "distinct (map fst al) \<Longrightarrow> map_of (retain P al) k = Some v \<longleftrightarrow> map_of al k = Some v \<and> P k v"
  by (subst map_of_retain) (auto simp del: map_of_eq_Some_iff split: option.splits)

lemma distinct_fst_update:
  "distinct (map fst al) \<Longrightarrow> distinct (map fst (AList.update k v al))"
  by (rule distinct_update)

end
