(* ===== verification/Chrono.thy ===== *)
theory Chrono
  imports Prelude
begin

text \<open>
  Dates and times. \<open>NaiveTime\<close>, \<open>NaiveDate\<close> and \<open>NaiveDateTime\<close> are value types of the
  \<open>chrono\<close> crate, which is not part of this repository: they are modelled as plain data with
  the order the program compares them by. The calendar operations the program calls are
  the fields of a record, an argument of every definition that needs one; what the
  program relies on about them is the locale \<open>chrono_laws\<close>, and \<open>chrono_civil\<close> is an
  instance (the proleptic Gregorian day count) that satisfies it.

  \<open>tspl-util/src/time.rs\<close> is modelled here: \<open>calculate_non_midnight_aware_times\<close>.
\<close>

section \<open>Value types\<close>

text \<open>Seconds since midnight and nanoseconds of the second.\<close>

datatype naive_time = NaiveTime (nt_secs: nat) (nt_frac: nat)

text \<open>Days since 31 December of the year 0.\<close>

datatype naive_date = NaiveDate (nd_days: int)

datatype naive_datetime = NaiveDateTime (dt_date: naive_date) (dt_time: naive_time)

instantiation naive_time :: linorder
begin

definition less_eq_naive_time :: "naive_time \<Rightarrow> naive_time \<Rightarrow> bool" where
  "less_eq_naive_time t u \<longleftrightarrow>
     nt_secs t < nt_secs u \<or> nt_secs t = nt_secs u \<and> nt_frac t \<le> nt_frac u"

definition less_naive_time :: "naive_time \<Rightarrow> naive_time \<Rightarrow> bool" where
  "less_naive_time t u \<longleftrightarrow>
     nt_secs t < nt_secs u \<or> nt_secs t = nt_secs u \<and> nt_frac t < nt_frac u"

instance
  by intro_classes (auto simp: less_eq_naive_time_def less_naive_time_def naive_time.expand)

end

instantiation naive_date :: linorder
begin

definition less_eq_naive_date :: "naive_date \<Rightarrow> naive_date \<Rightarrow> bool" where
  "less_eq_naive_date a b \<longleftrightarrow> nd_days a \<le> nd_days b"

definition less_naive_date :: "naive_date \<Rightarrow> naive_date \<Rightarrow> bool" where
  "less_naive_date a b \<longleftrightarrow> nd_days a < nd_days b"

instance
  by intro_classes (auto simp: less_eq_naive_date_def less_naive_date_def naive_date.expand)

end

instantiation naive_datetime :: linorder
begin

definition less_eq_naive_datetime :: "naive_datetime \<Rightarrow> naive_datetime \<Rightarrow> bool" where
  "less_eq_naive_datetime a b \<longleftrightarrow>
     dt_date a < dt_date b \<or> dt_date a = dt_date b \<and> dt_time a \<le> dt_time b"

definition less_naive_datetime :: "naive_datetime \<Rightarrow> naive_datetime \<Rightarrow> bool" where
  "less_naive_datetime a b \<longleftrightarrow>
     dt_date a < dt_date b \<or> dt_date a = dt_date b \<and> dt_time a < dt_time b"

instance
  by intro_classes (auto simp: less_eq_naive_datetime_def less_naive_datetime_def naive_datetime.expand)

end

lemmas chrono_orders =
  less_eq_naive_time_def less_naive_time_def
  less_eq_naive_date_def less_naive_date_def
  less_eq_naive_datetime_def less_naive_datetime_def

text \<open>\<open>NaiveTime::from_hms\<close> on arguments in range.\<close>

definition from_hms :: "nat \<Rightarrow> nat \<Rightarrow> nat \<Rightarrow> naive_time" where
  "from_hms h m s = NaiveTime (3600 * h + 60 * m + s) 0"

definition wf_time :: "naive_time \<Rightarrow> bool" where
  "wf_time t \<longleftrightarrow> nt_secs t < 86400"

lemma midnight_least: "from_hms 0 0 0 \<le> t"
  by (auto simp: from_hms_def less_eq_naive_time_def)

section \<open>Calendar operations\<close>

text \<open>
  \<open>dt_add\<close> is \<open>NaiveDateTime + Duration::seconds(n)\<close> (\<open>- Duration\<close> is the same with \<open>-n\<close>),
  \<open>iso_weekday\<close> is \<open>weekday().number_from_monday()\<close>, \<open>date_pred\<close> is \<open>NaiveDate::pred\<close>,
  \<open>day_of_month\<close> is \<open>Datelike::day\<close>, and \<open>hours_since t u\<close> is
  \<open>t.signed_duration_since(u).num_hours()\<close>.
\<close>

record chrono =
  dt_add :: "naive_datetime \<Rightarrow> int \<Rightarrow> naive_datetime"
  iso_weekday :: "naive_date \<Rightarrow> nat"
  date_pred :: "naive_date \<Rightarrow> naive_date"
  day_of_month :: "naive_date \<Rightarrow> nat"
  hours_since :: "naive_time \<Rightarrow> naive_time \<Rightarrow> int"

locale chrono_laws =
  fixes C :: chrono
  assumes add_mono: "0 \<le> n \<Longrightarrow> wf_time (dt_time ts) \<Longrightarrow> ts \<le> dt_add C ts n"
    and sub_mono: "0 \<le> n \<Longrightarrow> wf_time (dt_time ts) \<Longrightarrow> dt_add C ts (- n) \<le> ts"
    and weekday_range: "1 \<le> iso_weekday C d \<and> iso_weekday C d \<le> 7"
    and pred_less: "date_pred C d < d"
    and pred_adjacent: "date_pred C d < e \<Longrightarrow> d \<le> e"
    and next_day: "day_of_month C (date_pred C d) \<noteq> day_of_month C d"

section \<open>\<open>tspl-util/src/time.rs\<close>\<close>

text \<open>
  The window of a movement query: from \<open>within_dur\<close> before to \<open>within_dur\<close> after the
  given moment, cut off at the day's limits.
\<close>

definition calculate_non_midnight_aware_times ::
    "chrono \<Rightarrow> naive_datetime \<Rightarrow> int \<Rightarrow> naive_time \<times> naive_time" where
  "calculate_non_midnight_aware_times C ts within_dur =
     (let start_ts = dt_add C ts (- within_dur);
          start_time =
            (if dt_date start_ts \<noteq> dt_date ts then from_hms 0 0 0 else dt_time start_ts);
          end_ts = dt_add C ts within_dur;
          end_time =
            (if dt_date end_ts \<noteq> dt_date ts then from_hms 23 59 59 else dt_time end_ts)
      in (start_time, end_time))"

context chrono_laws
begin

lemma start_le:
  assumes "0 \<le> n" "wf_time (dt_time ts)"
  shows "fst (calculate_non_midnight_aware_times C ts n) \<le> dt_time ts"
  using sub_mono [OF assms] midnight_least
  by (auto simp: calculate_non_midnight_aware_times_def Let_def less_eq_naive_datetime_def)

lemma end_ge:
  assumes "0 \<le> n" "wf_time (dt_time ts)" and "dt_time ts \<le> from_hms 23 59 59"
  shows "dt_time ts \<le> snd (calculate_non_midnight_aware_times C ts n)"
  using add_mono [OF assms(1,2)] assms(3)
  by (auto simp: calculate_non_midnight_aware_times_def Let_def less_eq_naive_datetime_def)

end

section \<open>The Gregorian day count\<close>

text \<open>
  Seconds are added on the line of seconds since the epoch of the day count, whole days
  being 86400 seconds. \<open>num_hours\<close> truncates towards zero. The day of the month is
  found by counting years of 365 or 366 days and then the months.
\<close>

definition civil_dt_add :: "naive_datetime \<Rightarrow> int \<Rightarrow> naive_datetime" where
  "civil_dt_add ts n =
     (let t = int (nt_secs (dt_time ts)) + n
      in NaiveDateTime (NaiveDate (nd_days (dt_date ts) + t div 86400))
           (NaiveTime (nat (t mod 86400)) (nt_frac (dt_time ts))))"

definition civil_hours_since :: "naive_time \<Rightarrow> naive_time \<Rightarrow> int" where
  "civil_hours_since t u =
     (let d = (int (nt_secs t) - int (nt_secs u)) * 1000000000 + (int (nt_frac t) - int (nt_frac u))
      in if 0 \<le> d then d div 3600000000000 else - ((- d) div 3600000000000))"

text \<open>
  The day of the month of a day number, counted in years that begin on 1 March: a cycle of
  400 years is cut into centuries, those into runs of four years, those into years, and a
  year into months (five of them have 153 days).
\<close>

definition cut :: "nat \<Rightarrow> nat \<Rightarrow> nat \<Rightarrow> nat" where
  "cut m k x = x - m * min k (x div m)"

definition civil_doy :: "int \<Rightarrow> nat" where
  "civil_doy z = cut 365 3 (cut 1461 24 (cut 36524 3 (nat (z mod 146097))))"

definition civil_month_day :: "nat \<Rightarrow> nat" where
  "civil_month_day doy = doy - (153 * ((5 * doy + 2) div 153) + 2) div 5 + 1"

definition civil_day_of_month :: "naive_date \<Rightarrow> nat" where
  "civil_day_of_month d = civil_month_day (civil_doy (nd_days d + 305))"

definition chrono_civil :: chrono where
  "chrono_civil =
     \<lparr>dt_add = civil_dt_add,
      iso_weekday = (\<lambda>d. nat ((nd_days d - 1) mod 7) + 1),
      date_pred = (\<lambda>d. NaiveDate (nd_days d - 1)),
      day_of_month = civil_day_of_month,
      hours_since = civil_hours_since\<rparr>"

lemma cut_Suc:
  assumes "0 < m"
  shows "cut m k (Suc x) = Suc (cut m k x) \<or> cut m k (Suc x) = 0 \<and> cut m k x = m - 1"
proof (cases "Suc (x mod m) = m \<and> x div m < k")
  case True
  then have "Suc x div m = Suc (x div m)" and "Suc x mod m = 0"
    using assms by (auto simp: div_Suc mod_Suc)
  moreover from this have "Suc x = m * Suc (x div m)"
    by (metis add.right_neutral mult_div_mod_eq)
  moreover have "x - m * (x div m) = x mod m" by (simp add: minus_mult_div_eq_mod)
  ultimately show ?thesis using True by (auto simp: cut_def)
next
  case False
  then have "min k (Suc x div m) = min k (x div m)"
    using assms by (auto simp: div_Suc mod_Suc dvd_eq_mod_eq_0)
  moreover have "m * min k (x div m) \<le> x"
    by (meson le_trans min.cobounded2 mult_le_mono2 times_div_less_eq_dividend)
  ultimately show ?thesis by (simp add: cut_def Suc_diff_le)
qed

lemma nat_mod_step:
  "0 < N \<Longrightarrow> nat ((z + 1) mod N) =
     (if nat (z mod N) = nat (N - 1) then 0 else Suc (nat (z mod N)))" for N :: int
proof -
  assume N: "0 < N"
  have range: "0 \<le> z mod N" "z mod N < N" using N by simp_all
  have "(z + 1) mod N = (z mod N + 1) mod N" by (simp add: mod_simps)
  moreover have "(z mod N + 1) mod N = (if z mod N = N - 1 then 0 else z mod N + 1)"
    using range by simp
  ultimately show ?thesis using range N by (auto simp: nat_eq_iff)
qed

lemma civil_doy_step:
  "civil_doy (z + 1) = Suc (civil_doy z) \<or>
   civil_doy (z + 1) = 0 \<and> (civil_doy z = 364 \<or> civil_doy z = 365)"
proof -
  define x where "x = nat (z mod 146097)"
  define x' where "x' = nat ((z + 1) mod 146097)"
  define r where "r = cut 36524 3 x"
  define r' where "r' = cut 36524 3 x'"
  define q where "q = cut 1461 24 r"
  define q' where "q' = cut 1461 24 r'"
  have x: "x' = Suc x \<or> x' = 0 \<and> x = 146096"
    by (simp add: x_def x'_def nat_mod_step)
  then have r: "r' = Suc r \<or> r' = 0 \<and> (r = 36523 \<or> r = 36524)"
    using cut_Suc [of 36524 3 x] by (auto simp: r_def r'_def, simp_all add: cut_def)
  then have q: "q' = Suc q \<or> q' = 0 \<and> (q = 1459 \<or> q = 1460)"
    using cut_Suc [of 1461 24 r] by (auto simp: q_def q'_def, simp_all add: cut_def)
  then have "cut 365 3 q' = Suc (cut 365 3 q) \<or>
      cut 365 3 q' = 0 \<and> (cut 365 3 q = 364 \<or> cut 365 3 q = 365)"
    using cut_Suc [of 365 3 q] by (auto, simp_all add: cut_def)
  then show ?thesis
    by (simp add: civil_doy_def x_def x'_def r_def r'_def q_def q'_def)
qed

lemma civil_month_day_step: "civil_month_day (Suc doy) \<noteq> civil_month_day doy"
proof -
  define m where "m = (5 * doy + 2) div 153"
  define m' where "m' = (5 * Suc doy + 2) div 153"
  have "m \<le> m'" unfolding m_def m'_def by (rule div_le_mono) simp
  moreover have "m' \<le> (5 * doy + 2 + 153) div 153" unfolding m'_def by (rule div_le_mono) simp
  ultimately have m: "153 * m \<le> 5 * doy + 2" "m' = m \<or> m' = Suc m"
    unfolding m_def by auto
  define a where "a = (153 * m + 2) div 5"
  define a' where "a' = (153 * m' + 2) div 5"
  have "a \<le> (5 * doy + 4) div 5" unfolding a_def by (rule div_le_mono) (use m(1) in simp)
  then have le: "a \<le> doy" by simp
  have grow: "m' = Suc m \<Longrightarrow> a + 30 \<le> a'" by (simp add: a_def a'_def)
  have days: "civil_month_day doy = doy - a + 1" "civil_month_day (Suc doy) = Suc doy - a' + 1"
    by (simp_all only: civil_month_day_def m_def m'_def a_def a'_def)
  have room: "m' = Suc m \<Longrightarrow> a < doy"
  proof -
    assume "m' = Suc m"
    moreover have "153 * m' \<le> 5 * Suc doy + 2" unfolding m'_def by simp
    ultimately have "153 * m + 2 < doy * 5" by simp
    then show ?thesis by (simp only: a_def div_less_iff_less_mult zero_less_numeral)
  qed
  from m(2) show ?thesis
  proof
    assume "m' = m"
    then have "a' = a" by (simp add: a_def a'_def)
    with le days show ?thesis by simp
  next
    assume "m' = Suc m"
    with grow room days show ?thesis by simp
  qed
qed

lemma civil_next_day:
  "civil_day_of_month (NaiveDate (d - 1)) \<noteq> civil_day_of_month (NaiveDate d)"
proof -
  define z where "z = d + 304"
  have "civil_month_day (civil_doy (z + 1)) \<noteq> civil_month_day (civil_doy z)"
    using civil_doy_step [of z] civil_month_day_step [of "civil_doy z"]
    by (auto simp: civil_month_day_def)
  then show ?thesis by (simp add: civil_day_of_month_def z_def algebra_simps)
qed

lemma civil_add_cases:
  fixes s :: nat and n :: int
  shows "0 \<le> n \<Longrightarrow> 0 \<le> (int s + n) div 86400"
    and "0 \<le> n \<Longrightarrow> (int s + n) div 86400 = 0 \<Longrightarrow> s \<le> nat ((int s + n) mod 86400)"
proof -
  assume n: "0 \<le> n"
  then show "0 \<le> (int s + n) div 86400" by simp
  assume "(int s + n) div 86400 = 0"
  then have "(int s + n) mod 86400 = int s + n"
    by (simp add: minus_div_mult_eq_mod [symmetric])
  with n show "s \<le> nat ((int s + n) mod 86400)" by linarith
qed

lemma civil_sub_cases:
  fixes s :: nat and n :: int
  shows "0 \<le> n \<Longrightarrow> s < 86400 \<Longrightarrow> (int s - n) div 86400 \<le> 0"
    and "0 \<le> n \<Longrightarrow> (int s - n) div 86400 = 0 \<Longrightarrow> nat ((int s - n) mod 86400) \<le> s"
proof -
  assume n: "0 \<le> n"
  show "(int s - n) div 86400 \<le> 0" if "s < 86400"
    using zdiv_mono1 [of "int s - n" "int s" 86400] n that by simp
  assume "(int s - n) div 86400 = 0"
  then have "(int s - n) mod 86400 = int s - n"
    by (simp add: minus_div_mult_eq_mod [symmetric])
  with n show "nat ((int s - n) mod 86400) \<le> s" by linarith
qed

interpretation civil: chrono_laws chrono_civil
proof
  fix ts :: naive_datetime and n :: int and d e :: naive_date
  obtain day s f where ts: "ts = NaiveDateTime (NaiveDate day) (NaiveTime s f)"
    by (metis naive_date.exhaust naive_datetime.exhaust naive_time.exhaust)
  show "ts \<le> dt_add chrono_civil ts n" if "0 \<le> n"
    using civil_add_cases [OF that, of s]
    by (cases "(int s + n) div 86400 = 0")
       (auto simp: ts chrono_civil_def civil_dt_add_def Let_def chrono_orders)
  show "dt_add chrono_civil ts (- n) \<le> ts" if "0 \<le> n" "wf_time (dt_time ts)"
    using civil_sub_cases [of n s] that
    by (cases "(int s - n) div 86400 = 0")
       (auto simp: ts chrono_civil_def civil_dt_add_def Let_def chrono_orders wf_time_def)
  show "1 \<le> iso_weekday chrono_civil d \<and> iso_weekday chrono_civil d \<le> 7"
    by (simp add: chrono_civil_def)
  show "date_pred chrono_civil d < d"
    by (simp add: chrono_civil_def less_naive_date_def)
  show "d \<le> e" if "date_pred chrono_civil d < e"
    using that by (simp add: chrono_civil_def less_naive_date_def less_eq_naive_date_def)
  show "day_of_month chrono_civil (date_pred chrono_civil d) \<noteq> day_of_month chrono_civil d"
    using civil_next_day [of "nd_days d"] by (simp add: chrono_civil_def)
qed

end
