(* ===== verification/Ntrod_Cif.thy ===== *)
theory Ntrod_Cif
  imports Chrono
begin

text \<open>
  \<open>ntrod-types/src/cif.rs\<close>: the code tables of the CIF data. Each enumeration is a
  \<open>datatype\<close> with the constructors of the source (prefixed by the type), and a table of
  the \<open>serde\<close> names its variants have on the wire. \<open>of_wire\<close> is the deserializer that
  \<open>serde\<close> derives from such a table (the variant with this name, an error for any other
  name), \<open>to_wire\<close> the serializer.

  The locale \<open>wire_enum\<close> states what makes a table a code: no name and no variant occurs
  twice and every variant is there. In it the round trips are proved once; every table of
  the library is an interpretation.
\<close>

section \<open>Enumerations with wire names\<close>

definition of_wire :: "(string \<times> 'a) list \<Rightarrow> string \<Rightarrow> 'a option" where
  "of_wire tbl s = map_of tbl s"

definition to_wire :: "(string \<times> 'a) list \<Rightarrow> 'a \<Rightarrow> string option" where
  "to_wire tbl v = map_of (map prod.swap tbl) v"

locale wire_enum =
  fixes tbl :: "(string \<times> 'a) list"
  assumes names: "distinct (map fst tbl)"
    and variants: "distinct (map snd tbl)"
    and total: "v \<in> snd ` set tbl"
begin

lemma swapped: "distinct (map fst (map prod.swap tbl))"
  using variants by (simp add: comp_def)

lemma of_wire_iff: "of_wire tbl s = Some v \<longleftrightarrow> (s, v) \<in> set tbl"
  using names by (simp add: of_wire_def)

lemma to_wire_iff: "to_wire tbl v = Some s \<longleftrightarrow> (s, v) \<in> set tbl"
proof -
  have "to_wire tbl v = Some s \<longleftrightarrow> (v, s) \<in> set (map prod.swap tbl)"
    unfolding to_wire_def by (rule map_of_eq_Some_iff [OF swapped])
  then show ?thesis by force
qed

lemma encode_total: "\<exists>s. to_wire tbl v = Some s"
  using total [of v] by (auto simp: to_wire_iff)

lemma decode_encode: "to_wire tbl v = Some s \<Longrightarrow> of_wire tbl s = Some v"
  by (simp add: of_wire_iff to_wire_iff)

lemma encode_decode: "of_wire tbl s = Some v \<Longrightarrow> to_wire tbl v = Some s"
  by (simp add: of_wire_iff to_wire_iff)

lemma roundtrip: "(\<exists>s. to_wire tbl v = Some s \<and> of_wire tbl s = Some v)"
  using encode_total [of v] decode_encode by blast

end

section \<open>The tables\<close>

datatype train_status =
  TrainStatus_Bus | TrainStatus_Freight | TrainStatus_PassengerAndParcels | TrainStatus_Ship
| TrainStatus_Trip | TrainStatus_StpPassengerAndParcels | TrainStatus_StpFreight | TrainStatus_StpTrip
| TrainStatus_StpShip | TrainStatus_StpBus | TrainStatus_Empty | TrainStatus_None

definition train_status_codes :: "(string \<times> train_status) list" where
  "train_status_codes =
     [(''B'', TrainStatus_Bus), (''F'', TrainStatus_Freight), (''P'', TrainStatus_PassengerAndParcels),
      (''S'', TrainStatus_Ship), (''T'', TrainStatus_Trip), (''1'', TrainStatus_StpPassengerAndParcels),
      (''2'', TrainStatus_StpFreight), (''3'', TrainStatus_StpTrip), (''4'', TrainStatus_StpShip),
      (''5'', TrainStatus_StpBus), ('' '', TrainStatus_Empty), ('''', TrainStatus_None)]"

datatype stp_indicator =
  StpNone | StpPermanent | StpOverlay | StpNewSchedule
| StpCancellation

definition stp_indicator_codes :: "(string \<times> stp_indicator) list" where
  "stp_indicator_codes =
     [('''', StpNone), (''P'', StpPermanent), (''O'', StpOverlay),
      (''N'', StpNewSchedule), (''C'', StpCancellation)]"

datatype power_type =
  Power_Diesel | Power_DieselElectricMultipleUnit | Power_DieselMechanicalMultipleUnit | Power_Electric
| Power_ElectroDiesel | Power_EmuPlusLocomotive | Power_ElectricMultipleUnit | Power_HighSpeedTrain
| Power_None

definition power_type_codes :: "(string \<times> power_type) list" where
  "power_type_codes =
     [(''D'', Power_Diesel), (''DEM'', Power_DieselElectricMultipleUnit), (''DMU'', Power_DieselMechanicalMultipleUnit),
      (''E'', Power_Electric), (''ED'', Power_ElectroDiesel), (''EML'', Power_EmuPlusLocomotive),
      (''EMU'', Power_ElectricMultipleUnit), (''HST'', Power_HighSpeedTrain), ('''', Power_None)]"

datatype (plugins del: quickcheck_exhaustive quickcheck_random quickcheck_narrowing quickcheck_bounded_forall quickcheck_full_exhaustive lifting transfer) train_category =
  Cat_LondonUnderground | Cat_UnadvertisedOrdinaryPassenger | Cat_OrdinaryPassenger | Cat_StaffTrain
| Cat_Mixed | Cat_ChannelTunnel | Cat_SleeperEuropeNightServices | Cat_International
| Cat_Motorail | Cat_UnadvertisedExpress | Cat_ExpressPassenger | Cat_SleeperDomestic
| Cat_BusReplacement | Cat_Bus | Cat_Ship | Cat_EmptyCoachingStock
| Cat_EcsLondonUnderground | Cat_EcsAndStaff | Cat_Postal | Cat_PostOfficeControlledParcels
| Cat_Parcels | Cat_EmptyNpccs | Cat_Departmental | Cat_CivilEngineer
| Cat_MechanicalAndElectricalEngineer | Cat_Stores | Cat_Test | Cat_SignalAndTelecommunicationsEngineer
| Cat_LocomotiveAndBrakeVan | Cat_LightLocomotive | Cat_RfDAutomotiveComponents | Cat_RfDAutomotiveVehicles
| Cat_RfDEdibleProducts | Cat_RfDIndustrialMinerals | Cat_RfDChemicals | Cat_RfDBuildingMaterials
| Cat_RfDGeneralMerchandise | Cat_RfDEuropean | Cat_RfDFreightlinerContracts | Cat_RfDFreightlinerOther
| Cat_Coal | Cat_CoalMGR | Cat_CoalAndNuclear | Cat_Metals
| Cat_Aggregates | Cat_DomesticandIndustrialWaste | Cat_BuildingMaterials | Cat_PetroleumProducts
| Cat_RfDEct | Cat_RfDEctIntermodal | Cat_RfDEctAutomotive | Cat_RfDEctContractServices
| Cat_RfDEctHaulmark | Cat_RfDEctJointVenture | Cat_None

definition train_category_codes :: "(string \<times> train_category) list" where
  "train_category_codes =
     [(''OL'', Cat_LondonUnderground), (''OU'', Cat_UnadvertisedOrdinaryPassenger), (''OO'', Cat_OrdinaryPassenger),
      (''OS'', Cat_StaffTrain), (''OW'', Cat_Mixed), (''XC'', Cat_ChannelTunnel),
      (''XD'', Cat_SleeperEuropeNightServices), (''XI'', Cat_International), (''XR'', Cat_Motorail),
      (''XU'', Cat_UnadvertisedExpress), (''XX'', Cat_ExpressPassenger), (''XZ'', Cat_SleeperDomestic),
      (''BR'', Cat_BusReplacement), (''BS'', Cat_Bus), (''SS'', Cat_Ship),
      (''EE'', Cat_EmptyCoachingStock), (''EL'', Cat_EcsLondonUnderground), (''ES'', Cat_EcsAndStaff),
      (''JJ'', Cat_Postal), (''PM'', Cat_PostOfficeControlledParcels), (''PP'', Cat_Parcels),
      (''PV'', Cat_EmptyNpccs), (''DD'', Cat_Departmental), (''DH'', Cat_CivilEngineer),
      (''DI'', Cat_MechanicalAndElectricalEngineer), (''DQ'', Cat_Stores), (''DT'', Cat_Test),
      (''DY'', Cat_SignalAndTelecommunicationsEngineer), (''ZB'', Cat_LocomotiveAndBrakeVan), (''ZZ'', Cat_LightLocomotive),
      (''J2'', Cat_RfDAutomotiveComponents), (''H2'', Cat_RfDAutomotiveVehicles), (''J3'', Cat_RfDEdibleProducts),
      (''J4'', Cat_RfDIndustrialMinerals), (''J5'', Cat_RfDChemicals), (''J6'', Cat_RfDBuildingMaterials),
      (''J8'', Cat_RfDGeneralMerchandise), (''H8'', Cat_RfDEuropean), (''J9'', Cat_RfDFreightlinerContracts),
      (''H9'', Cat_RfDFreightlinerOther), (''A0'', Cat_Coal), (''E0'', Cat_CoalMGR),
      (''B0'', Cat_CoalAndNuclear), (''B1'', Cat_Metals), (''B4'', Cat_Aggregates),
      (''B5'', Cat_DomesticandIndustrialWaste), (''B6'', Cat_BuildingMaterials), (''B7'', Cat_PetroleumProducts),
      (''H0'', Cat_RfDEct), (''H1'', Cat_RfDEctIntermodal), (''H3'', Cat_RfDEctAutomotive),
      (''H4'', Cat_RfDEctContractServices), (''H5'', Cat_RfDEctHaulmark), (''H6'', Cat_RfDEctJointVenture),
      ('''', Cat_None)]"

text \<open>The derived \<open>Ord\<close> of \<open>StpIndicator\<close> is the order of its variants.\<close>

fun stp_rank :: "stp_indicator \<Rightarrow> nat" where
  "stp_rank StpNone = 0"
| "stp_rank StpPermanent = 1"
| "stp_rank StpOverlay = 2"
| "stp_rank StpNewSchedule = 3"
| "stp_rank StpCancellation = 4"

lemma stp_rank_inj: "stp_rank a = stp_rank b \<longleftrightarrow> a = b"
  by (cases a; cases b) simp_all

instantiation stp_indicator :: linorder
begin

definition less_eq_stp_indicator :: "stp_indicator \<Rightarrow> stp_indicator \<Rightarrow> bool" where
  "less_eq_stp_indicator a b \<longleftrightarrow> stp_rank a \<le> stp_rank b"

definition less_stp_indicator :: "stp_indicator \<Rightarrow> stp_indicator \<Rightarrow> bool" where
  "less_stp_indicator a b \<longleftrightarrow> stp_rank a < stp_rank b"

instance
  by intro_classes (auto simp: less_eq_stp_indicator_def less_stp_indicator_def stp_rank_inj)

end

text \<open>\<open>StpIndicator::as_char\<close>, the form in which the database keeps it.\<close>

fun as_char :: "stp_indicator \<Rightarrow> char" where
  "as_char StpNone = CHR '' ''"
| "as_char StpPermanent = CHR ''P''"
| "as_char StpOverlay = CHR ''O''"
| "as_char StpNewSchedule = CHR ''N''"
| "as_char StpCancellation = CHR ''C''"

lemma as_char_inj: "as_char a = as_char b \<longleftrightarrow> a = b"
  by (cases a; cases b) simp_all

text \<open>
  The precedence the services use is the order of the characters: a cancellation before a
  new schedule before an overlay before a permanent schedule.
\<close>

lemma as_char_precedence:
  "[as_char StpCancellation] < [as_char StpNewSchedule]"
  "[as_char StpNewSchedule] < [as_char StpOverlay]"
  "[as_char StpOverlay] < [as_char StpPermanent]"
  by (simp_all add: less_char_def)

interpretation train_status: wire_enum train_status_codes
proof
  show "distinct (map fst train_status_codes)" "distinct (map snd train_status_codes)"
    by (simp_all add: train_status_codes_def)
  show "v \<in> snd ` set train_status_codes" for v
    by (cases v) (simp_all add: train_status_codes_def)
qed

interpretation stp: wire_enum stp_indicator_codes
proof
  show "distinct (map fst stp_indicator_codes)" "distinct (map snd stp_indicator_codes)"
    by (simp_all add: stp_indicator_codes_def)
  show "v \<in> snd ` set stp_indicator_codes" for v
    by (cases v) (simp_all add: stp_indicator_codes_def)
qed

interpretation power: wire_enum power_type_codes
proof
  show "distinct (map fst power_type_codes)" "distinct (map snd power_type_codes)"
    by (simp_all add: power_type_codes_def)
  show "v \<in> snd ` set power_type_codes" for v
    by (cases v) (simp_all add: power_type_codes_def)
qed

interpretation category: wire_enum train_category_codes
proof
  show "distinct (map fst train_category_codes)" "distinct (map snd train_category_codes)"
    by (simp_all add: train_category_codes_def)
  show "v \<in> snd ` set train_category_codes" for v
    by (cases v) (simp_all add: train_category_codes_def)
qed

end
