(* ===== verification/Ntrod_Schedule.thy ===== *)
theory Ntrod_Schedule
  imports Ntrod_Cif
begin

text \<open>
  \<open>ntrod-types/src/schedule.rs\<close> and \<open>reference.rs\<close>: the records of the ITPS schedule
  files and of the CORPUS reference data, field by field. An enumeration with named fields
  is a \<open>datatype\<close> with a selector per field; \<open>Date<Tz>\<close> and \<open>DateTime<Utc>\<close> are read for
  their naive value only, which is what the program does with them.
\<close>

section \<open>Days of the week\<close>

record ntrod_days =
  mon :: bool
  tue :: bool
  wed :: bool
  thu :: bool
  fri :: bool
  sat :: bool
  sun :: bool

definition days_all :: ntrod_days where
  "days_all = \<lparr>mon = True, tue = True, wed = True, thu = True, fri = True, sat = True, sun = True\<rparr>"

definition days_to_string :: "ntrod_days \<Rightarrow> string" where
  "days_to_string d =
     (if mon d then ''Mo'' else '''') @ (if tue d then ''Tu'' else '''') @
     (if wed d then ''We'' else '''') @ (if thu d then ''Th'' else '''') @
     (if fri d then ''Fr'' else '''') @ (if sat d then ''Sa'' else '''') @
     (if sun d then ''Su'' else '''')"

definition value_for_iso_weekday :: "ntrod_days \<Rightarrow> nat \<Rightarrow> bool option" where
  "value_for_iso_weekday d wd =
     (if wd = 1 then Some (mon d)
      else if wd = 2 then Some (tue d)
      else if wd = 3 then Some (wed d)
      else if wd = 4 then Some (thu d)
      else if wd = 5 then Some (fri d)
      else if wd = 6 then Some (sat d)
      else if wd = 7 then Some (sun d)
      else None)"

section \<open>Enumerations\<close>

datatype create_or_delete = Cod_Create | Cod_Delete

definition create_or_delete_codes :: "(string \<times> create_or_delete) list" where
  "create_or_delete_codes = [(''Create'', Cod_Create), (''Delete'', Cod_Delete)]"

lemma create_or_delete_total: "v \<in> snd ` set create_or_delete_codes"
  by (cases v) (simp_all add: create_or_delete_codes_def)

interpretation create_or_delete_wire: wire_enum create_or_delete_codes
  by unfold_locales (simp_all add: create_or_delete_total, simp_all add: create_or_delete_codes_def)

datatype yes_or_no = YesOrNo_Y | YesOrNo_N

definition yes_or_no_codes :: "(string \<times> yes_or_no) list" where
  "yes_or_no_codes = [(''Y'', YesOrNo_Y), (''N'', YesOrNo_N)]"

lemma yes_or_no_total: "v \<in> snd ` set yes_or_no_codes"
  by (cases v) (simp_all add: yes_or_no_codes_def)

interpretation yes_or_no_wire: wire_enum yes_or_no_codes
  by unfold_locales (simp_all add: yes_or_no_total, simp_all add: yes_or_no_codes_def)

datatype record_identity = Identity_Originating | Identity_Intermediate | Identity_Terminating

definition record_identity_codes :: "(string \<times> record_identity) list" where
  "record_identity_codes = [(''LO'', Identity_Originating), (''LI'', Identity_Intermediate), (''LT'', Identity_Terminating)]"

lemma record_identity_total: "v \<in> snd ` set record_identity_codes"
  by (cases v) (simp_all add: record_identity_codes_def)

interpretation record_identity_wire: wire_enum record_identity_codes
  by unfold_locales (simp_all add: record_identity_total, simp_all add: record_identity_codes_def)

datatype association_type = Assoc_Join | Assoc_Divide | Assoc_Next | Assoc_None

definition association_type_codes :: "(string \<times> association_type) list" where
  "association_type_codes = [(''JJ'', Assoc_Join), (''VV'', Assoc_Divide), (''NP'', Assoc_Next),
     (''  '', Assoc_None)]"

lemma association_type_total: "v \<in> snd ` set association_type_codes"
  by (cases v) (simp_all add: association_type_codes_def)

interpretation association_type_wire: wire_enum association_type_codes
  by unfold_locales (simp_all add: association_type_total, simp_all add: association_type_codes_def)

datatype date_indicator = DateInd_Standard | DateInd_NextMidnight | DateInd_PrevMidnight

definition date_indicator_codes :: "(string \<times> date_indicator) list" where
  "date_indicator_codes = [(''S'', DateInd_Standard), (''N'', DateInd_NextMidnight), (''P'', DateInd_PrevMidnight)]"

lemma date_indicator_total: "v \<in> snd ` set date_indicator_codes"
  by (cases v) (simp_all add: date_indicator_codes_def)

interpretation date_indicator_wire: wire_enum date_indicator_codes
  by unfold_locales (simp_all add: date_indicator_total, simp_all add: date_indicator_codes_def)

datatype create_type = CreateType_Create

definition create_type_codes :: "(string \<times> create_type) list" where
  "create_type_codes = [(''Create'', CreateType_Create)]"

lemma create_type_total: "v \<in> snd ` set create_type_codes"
  by (cases v) (simp_all add: create_type_codes_def)

interpretation create_type_wire: wire_enum create_type_codes
  by unfold_locales (simp_all add: create_type_total, simp_all add: create_type_codes_def)

datatype delete_type = DeleteType_Delete

definition delete_type_codes :: "(string \<times> delete_type) list" where
  "delete_type_codes = [(''Delete'', DeleteType_Delete)]"

lemma delete_type_total: "v \<in> snd ` set delete_type_codes"
  by (cases v) (simp_all add: delete_type_codes_def)

interpretation delete_type_wire: wire_enum delete_type_codes
  by unfold_locales (simp_all add: delete_type_total, simp_all add: delete_type_codes_def)

datatype originating_location = OrigLoc_Originating

definition originating_location_codes :: "(string \<times> originating_location) list" where
  "originating_location_codes = [(''LO'', OrigLoc_Originating)]"

lemma originating_location_total: "v \<in> snd ` set originating_location_codes"
  by (cases v) (simp_all add: originating_location_codes_def)

interpretation originating_location_wire: wire_enum originating_location_codes
  by unfold_locales (simp_all add: originating_location_total, simp_all add: originating_location_codes_def)

datatype intermediate_location = InterLoc_Intermediate

definition intermediate_location_codes :: "(string \<times> intermediate_location) list" where
  "intermediate_location_codes = [(''LI'', InterLoc_Intermediate)]"

lemma intermediate_location_total: "v \<in> snd ` set intermediate_location_codes"
  by (cases v) (simp_all add: intermediate_location_codes_def)

interpretation intermediate_location_wire: wire_enum intermediate_location_codes
  by unfold_locales (simp_all add: intermediate_location_total, simp_all add: intermediate_location_codes_def)

datatype terminating_location = TermLoc_Terminating

definition terminating_location_codes :: "(string \<times> terminating_location) list" where
  "terminating_location_codes = [(''LT'', TermLoc_Terminating)]"

lemma terminating_location_total: "v \<in> snd ` set terminating_location_codes"
  by (cases v) (simp_all add: terminating_location_codes_def)

interpretation terminating_location_wire: wire_enum terminating_location_codes
  by unfold_locales (simp_all add: terminating_location_total, simp_all add: terminating_location_codes_def)

section \<open>Records\<close>

record sender =
  organisation :: string
  application :: string
  component :: string

record timetable_metadata =
  tm_ty :: string
  tm_sequence :: u32

record timetable_record =
  tt_classification :: string
  tt_timestamp :: u32
  tt_owner :: string
  tt_sender :: sender
  tt_metadata :: timetable_metadata

datatype association_record =
  AssocCreate
    (ac_transaction_type: create_type) (ac_main_train_uid: string) (ac_assoc_train_uid: string)
    (ac_assoc_start_date: naive_datetime) (ac_assoc_end_date: naive_datetime)
    (ac_assoc_days: ntrod_days) (ac_category: association_type) (ac_location: string)
    (ac_base_location_suffix: "string option") (ac_assoc_location_suffix: "string option")
    (ac_stp_indicator: stp_indicator)
| AssocDelete
    (ad_transaction_type: delete_type) (ad_main_train_uid: string) (ad_assoc_train_uid: string)
    (ad_assoc_start_date: naive_datetime) (ad_location: string)
    (ad_base_location_suffix: "string option") (ad_stp_indicator: stp_indicator)

datatype location_record =
  Originating
    (lo_record_identity: originating_location) (lo_tiploc_code: string)
    (lo_departure: naive_time) (lo_public_departure: "naive_time option")
    (lo_platform: "string option") (lo_line: "string option")
    (lo_engineering_allowance: "string option") (lo_pathing_allowance: "string option")
    (lo_performance_allowance: "string option")
| Intermediate
    (li_record_identity: intermediate_location) (li_tiploc_code: string)
    (li_arrival: naive_time) (li_departure: naive_time)
    (li_public_arrival: "naive_time option") (li_public_departure: "naive_time option")
    (li_platform: "string option") (li_line: "string option") (li_path: "string option")
    (li_engineering_allowance: "string option") (li_pathing_allowance: "string option")
    (li_performance_allowance: "string option")
| Pass
    (lp_record_identity: intermediate_location) (lp_tiploc_code: string) (lp_pass: naive_time)
    (lp_engineering_allowance: "string option") (lp_pathing_allowance: "string option")
    (lp_performance_allowance: "string option")
| Terminating
    (lt_record_identity: terminating_location) (lt_tiploc_code: string)
    (lt_arrival: naive_time) (lt_public_arrival: "naive_time option")
    (lt_platform: "string option") (lt_path: "string option")

record schedule_segment =
  ss_train_category :: "train_category option"
  ss_signalling_id :: "string option"
  ss_headcode :: "string option"
  ss_business_sector :: "string option"
  ss_power_type :: "power_type option"
  ss_timing_load :: "string option"
  ss_speed :: "u32 option"
  ss_operating_characteristics :: "string option"
  ss_train_class :: "string option"
  ss_sleepers :: "string option"
  ss_reservations :: "string option"
  ss_catering_code :: "string option"
  ss_service_branding :: "string option"
  ss_schedule_location :: "location_record list"

record tiploc_record =
  tp_transaction_type :: create_or_delete
  tp_tiploc_code :: string
  tp_nalco :: "string option"
  tp_stanox :: "string option"
  tp_crs_code :: "string option"
  tp_description :: "string option"
  tp_tps_description :: "string option"

datatype schedule_record =
  SchedCreate
    (sc_train_uid: string) (sc_transaction_type: create_type)
    (sc_schedule_start_date: naive_date) (sc_schedule_end_date: naive_date)
    (sc_schedule_days_runs: ntrod_days) (sc_bank_holiday_running: "string option")
    (sc_train_status: train_status) (sc_stp_indicator: stp_indicator)
    (sc_applicable_timetable: yes_or_no) (sc_atoc_code: "string option")
    (sc_schedule_segment: schedule_segment)
| SchedDelete
    (sd_train_uid: string) (sd_transaction_type: delete_type)
    (sd_schedule_start_date: naive_date) (sd_stp_indicator: stp_indicator)

datatype schedule_file_record =
  RecSchedule schedule_record
| RecAssociation association_record
| RecTimetable timetable_record
| RecTiploc tiploc_record
| RecEof bool

section \<open>CORPUS\<close>

record corpus_entry =
  ce_stanox :: "string option"
  ce_uic :: "string option"
  ce_crs :: "string option"
  ce_tiploc :: "string option"
  ce_nlc :: "string option"
  ce_nlcdesc :: "string option"
  ce_nlcdesc16 :: "string option"

record corpus_data =
  tiploc_data :: "corpus_entry list"

definition contains_data :: "corpus_entry \<Rightarrow> bool" where
  "contains_data e \<longleftrightarrow>
     ce_stanox e \<noteq> None \<or> ce_uic e \<noteq> None \<or> ce_crs e \<noteq> None \<or>
     ce_tiploc e \<noteq> None \<or> ce_nlc e \<noteq> None"

end
