(* ===== verification/Ntrod_Fns.thy ===== *)
theory Ntrod_Fns
  imports Ntrod_Schedule
begin

text \<open>
  \<open>ntrod-types/src/fns.rs\<close>: the hand-written field deserializers. Each takes what the
  generic \<open>Deserialize::deserialize(d)\<close> produced (an error of the deserializer or the
  plain value) and what it calls outside the standard library as arguments: \<open>parse\<close> for
  \<open>NaiveTime::parse_from_str\<close> with its format, \<open>from_str\<close> for a \<open>FromStr\<close> instance,
  \<open>from_timestamp\<close> for \<open>NaiveDateTime::from_timestamp\<close>, \<open>london\<close> for the single local date
  that \<open>chrono_tz\<close> finds. Error texts are kept as constructors with their data.
\<close>

datatype 'e de_error =
  Deserialize 'e
| FailedVstpTime string
| Failed24hTime string
| TimezoneFail
| EmptyString
| FromStrFailed string
| ExpectedTimestamp

section \<open>\<open>str::trim\<close>\<close>

definition is_space :: "char \<Rightarrow> bool" where
  "is_space c \<longleftrightarrow> c \<in> {CHR 0x20, CHR 0x09, CHR 0x0A, CHR 0x0B, CHR 0x0C, CHR 0x0D}"

definition trim :: "string \<Rightarrow> string" where
  "trim s = rev (dropWhile is_space (rev (dropWhile is_space s)))"

lemma trim_empty_iff: "trim s = [] \<longleftrightarrow> list_all is_space s"
proof
  assume "trim s = []"
  then have "\<forall>c\<in>set (dropWhile is_space s). is_space c"
    by (simp add: trim_def dropWhile_eq_Nil_conv)
  then show "list_all is_space s"
    by (metis (no_types) dropWhile_eq_Nil_conv hd_dropWhile hd_in_set list_all_iff)
next
  assume "list_all is_space s"
  then show "trim s = []"
    by (auto simp: trim_def list_all_iff dropWhile_eq_Nil_conv dest: set_dropWhileD)
qed

lemma trim_id: "s \<noteq> [] \<Longrightarrow> \<not> is_space (hd s) \<Longrightarrow> \<not> is_space (last s) \<Longrightarrow> trim s = s"
proof -
  assume s: "s \<noteq> []" and h: "\<not> is_space (hd s)" and l: "\<not> is_space (last s)"
  from s h have "dropWhile is_space s = s" by (cases s) auto
  moreover from s l have "dropWhile is_space (rev s) = rev s"
    by (cases "rev s") (auto simp flip: hd_rev)
  ultimately show ?thesis by (simp add: trim_def)
qed

section \<open>Times of day\<close>

definition parse_vstp_time ::
    "(string \<Rightarrow> string \<Rightarrow> naive_time option) \<Rightarrow> 'e + string option \<Rightarrow> 'e + naive_time option" where
  "parse_vstp_time parse d =
     res_map (\<lambda>x. case x of Some s \<Rightarrow> parse (trim s) ''%H%M%S'' | None \<Rightarrow> None) d"

definition parse_vstp_time_force ::
    "(string \<Rightarrow> string \<Rightarrow> naive_time option) \<Rightarrow> 'e + string \<Rightarrow> 'e de_error + naive_time" where
  "parse_vstp_time_force parse d =
     res_bind (map_err Deserialize d)
       (\<lambda>x. ok_or (FailedVstpTime x) (parse (trim x) ''%H%M%S''))"

text \<open>\<open>with_second(30)\<close> on a time of day.\<close>

definition with_second30 :: "naive_time \<Rightarrow> naive_time" where
  "with_second30 t = NaiveTime (nt_secs t div 60 * 60 + 30) (nt_frac t)"

definition str_to_time ::
    "(string \<Rightarrow> string \<Rightarrow> naive_time option) \<Rightarrow> string \<Rightarrow> naive_time option" where
  "str_to_time parse x =
     (let half = CHR ''H'' \<in> set x;
          x' = filter (\<lambda>c. c \<noteq> CHR ''H'') x
      in case parse x' ''%H%M'' of
           Some t \<Rightarrow> if half then Some (with_second30 t) else Some t
         | None \<Rightarrow> None)"

definition parse_24h_time ::
    "(string \<Rightarrow> string \<Rightarrow> naive_time option) \<Rightarrow> 'e + string option \<Rightarrow> 'e + naive_time option" where
  "parse_24h_time parse d =
     res_map (\<lambda>x. case x of Some s \<Rightarrow> str_to_time parse (trim s) | None \<Rightarrow> None) d"

definition parse_24h_time_force ::
    "(string \<Rightarrow> string \<Rightarrow> naive_time option) \<Rightarrow> 'e + string \<Rightarrow> 'e de_error + naive_time" where
  "parse_24h_time_force parse d =
     res_bind (map_err Deserialize d)
       (\<lambda>x. ok_or (Failed24hTime x) (str_to_time parse (trim x)))"

section \<open>Dates, indicators, days\<close>

definition naive_date_to_london ::
    "(naive_date \<Rightarrow> naive_date option) \<Rightarrow> 'e + naive_date \<Rightarrow> 'e de_error + naive_date" where
  "naive_date_to_london london d =
     res_bind (map_err Deserialize d) (\<lambda>x. ok_or TimezoneFail (london x))"

fun swap_overlay :: "stp_indicator \<Rightarrow> stp_indicator" where
  "swap_overlay StpOverlay = StpPermanent"
| "swap_overlay StpPermanent = StpOverlay"
| "swap_overlay x = x"

definition fix_buggy_schedule_type :: "'e + stp_indicator \<Rightarrow> 'e + stp_indicator" where
  "fix_buggy_schedule_type d = res_map swap_overlay d"

definition nth_is_one :: "string \<Rightarrow> nat \<Rightarrow> bool" where
  "nth_is_one x i \<longleftrightarrow> (i < length x \<and> x ! i = CHR ''1'')"

definition parse_days :: "'e + string \<Rightarrow> 'e + ntrod_days" where
  "parse_days d =
     res_map
       (\<lambda>x. \<lparr>mon = nth_is_one x 0, tue = nth_is_one x 1, wed = nth_is_one x 2,
             thu = nth_is_one x 3, fri = nth_is_one x 4, sat = nth_is_one x 5,
             sun = nth_is_one x 6\<rparr>) d"

section \<open>Strings\<close>

definition from_str ::
    "(string \<Rightarrow> 'a option) \<Rightarrow> 'e + string \<Rightarrow> 'e de_error + 'a" where
  "from_str fs d = res_bind (map_err Deserialize d) (\<lambda>s. ok_or (FromStrFailed s) (fs s))"

definition non_empty_str :: "'e + string \<Rightarrow> 'e de_error + string" where
  "non_empty_str d =
     res_bind (map_err Deserialize d) (\<lambda>s. if trim s = '''' then Inl EmptyString else Inr s)"

definition non_empty_str_opt :: "'e + string option \<Rightarrow> 'e de_error + string option" where
  "non_empty_str_opt d =
     res_bind (map_err Deserialize d)
       (\<lambda>s. Inr (case s of Some s \<Rightarrow> if trim s = '''' then None else Some s | None \<Rightarrow> None))"

definition from_str_opt ::
    "(string \<Rightarrow> 'a option) \<Rightarrow> 'e + string option \<Rightarrow> 'e de_error + 'a option" where
  "from_str_opt fs d =
     res_bind (map_err Deserialize d)
       (\<lambda>s. case s of
            Some s \<Rightarrow> if s = '''' then Inr None
                      else res_map Some (ok_or (FromStrFailed s) (fs s))
          | None \<Rightarrow> Inr None)"

definition from_str_trimming ::
    "(string \<Rightarrow> 'a option) \<Rightarrow> 'e + string \<Rightarrow> 'e de_error + 'a" where
  "from_str_trimming fs d =
     res_bind (map_err Deserialize d) (\<lambda>s. ok_or (FromStrFailed s) (fs (trim s)))"

definition from_str_opt_trimming ::
    "(string \<Rightarrow> 'a option) \<Rightarrow> 'e + string option \<Rightarrow> 'e de_error + 'a option" where
  "from_str_opt_trimming fs d =
     res_bind (map_err Deserialize d)
       (\<lambda>s. case s of
            Some s \<Rightarrow> if s = '''' then Inr None
                      else res_map Some (ok_or (FromStrFailed s) (fs (trim s)))
          | None \<Rightarrow> Inr None)"

section \<open>Timestamps\<close>

text \<open>Milliseconds as \<open>u64\<close>, read from a string by \<open>read_u64\<close>.\<close>

definition ts_of_millis ::
    "(int \<Rightarrow> nat \<Rightarrow> naive_datetime) \<Rightarrow> nat \<Rightarrow> naive_datetime" where
  "ts_of_millis from_timestamp ms =
     (let secs = ms div 1000; nanos = (ms - secs * 1000) * 1000000
      in from_timestamp (int secs) nanos)"

definition parse_ts_opt ::
    "(string \<Rightarrow> nat option) \<Rightarrow> (int \<Rightarrow> nat \<Rightarrow> naive_datetime) \<Rightarrow>
     'e + string option \<Rightarrow> 'e de_error + naive_datetime option" where
  "parse_ts_opt read_u64 from_timestamp d =
     res_map (map_option (ts_of_millis from_timestamp)) (from_str_opt read_u64 d)"

definition parse_ts ::
    "(string \<Rightarrow> nat option) \<Rightarrow> (int \<Rightarrow> nat \<Rightarrow> naive_datetime) \<Rightarrow>
     'e + string option \<Rightarrow> 'e de_error + naive_datetime" where
  "parse_ts read_u64 from_timestamp d =
     res_bind (parse_ts_opt read_u64 from_timestamp d) (ok_or ExpectedTimestamp)"

lemma millis_split: "ms div 1000 * 1000000000 + (ms - ms div 1000 * 1000) * 1000000 = ms * 1000000"
  for ms :: nat
proof -
  have "ms = ms div 1000 * 1000 + (ms - ms div 1000 * 1000)" by simp
  then have "ms * 1000000 = (ms div 1000 * 1000 + (ms - ms div 1000 * 1000)) * 1000000" by simp
  then show ?thesis by (simp add: algebra_simps)
qed

lemma millis_nanos: "(ms - ms div 1000 * 1000) * 1000000 < 1000000000" for ms :: nat
proof -
  have "ms - ms div 1000 * 1000 < 1000" by (simp add: minus_div_mult_eq_mod)
  then show ?thesis by simp
qed

section \<open>Properties\<close>

text \<open>
  A day string of seven digits is read digit by digit: the value for an ISO weekday
  is the digit at that place.
\<close>

theorem parse_days_weekday:
  "parse_days (Inr s) = Inr d \<Longrightarrow> 1 \<le> wd \<Longrightarrow> wd \<le> 7 \<Longrightarrow>
     value_for_iso_weekday d wd = Some (wd - 1 < length s \<and> s ! (wd - 1) = CHR ''1'')"
proof -
  assume p: "parse_days (Inr s) = Inr d" and "1 \<le> wd" "wd \<le> 7"
  then have "wd = 1 \<or> wd = 2 \<or> wd = 3 \<or> wd = 4 \<or> wd = 5 \<or> wd = 6 \<or> wd = 7" by arith
  with p show ?thesis
    by (elim disjE) (auto simp: parse_days_def nth_is_one_def value_for_iso_weekday_def)
qed

lemma parse_days_weekday_witness:
  "\<exists>d. parse_days (Inr ''1111100'' :: unit + string) = Inr d \<and>
     value_for_iso_weekday d 6 = Some False \<and> value_for_iso_weekday d 5 = Some True"
  using parse_days_weekday [of "''1111100''" _ 6] parse_days_weekday [of "''1111100''" _ 5]
  by (simp add: parse_days_def nth_is_one_def value_for_iso_weekday_def)

end
