(* ===== verification/Ntrod_Movements.thy ===== *)
theory Ntrod_Movements
  imports Ntrod_Cif
begin

text \<open>
  \<open>ntrod-types/src/movements.rs\<close>: the messages of the TRUST Train Movements feed, field by
  field. \<open>MvtBody::Unknown\<close> holds a JSON value that nothing reads; it is kept as the text.
\<close>

section \<open>Enumerations\<close>

datatype schedule_source = Source_CifItps | Source_VstpTops

definition schedule_source_codes :: "(string \<times> schedule_source) list" where
  "schedule_source_codes = [(''C'', Source_CifItps), (''V'', Source_VstpTops)]"

lemma schedule_source_total: "v \<in> snd ` set schedule_source_codes"
  by (cases v) (simp_all add: schedule_source_codes_def)

interpretation schedule_source_wire: wire_enum schedule_source_codes
  by unfold_locales (simp_all add: schedule_source_total, simp_all add: schedule_source_codes_def)

datatype automatic_or_manual = AutoMan_Automatic | AutoMan_Manual

definition automatic_or_manual_codes :: "(string \<times> automatic_or_manual) list" where
  "automatic_or_manual_codes = [(''AUTOMATIC'', AutoMan_Automatic), (''MANUAL'', AutoMan_Manual)]"

lemma automatic_or_manual_total: "v \<in> snd ` set automatic_or_manual_codes"
  by (cases v) (simp_all add: automatic_or_manual_codes_def)

interpretation automatic_or_manual_wire: wire_enum automatic_or_manual_codes
  by unfold_locales (simp_all add: automatic_or_manual_total, simp_all add: automatic_or_manual_codes_def)

datatype call_mode = CallMode_Normal | CallMode_Overnight

definition call_mode_codes :: "(string \<times> call_mode) list" where
  "call_mode_codes = [(''NORMAL'', CallMode_Normal), (''OVERNIGHT'', CallMode_Overnight)]"

lemma call_mode_total: "v \<in> snd ` set call_mode_codes"
  by (cases v) (simp_all add: call_mode_codes_def)

interpretation call_mode_wire: wire_enum call_mode_codes
  by unfold_locales (simp_all add: call_mode_total, simp_all add: call_mode_codes_def)

datatype event_type = Event_Arrival | Event_Departure | Event_Destination

definition event_type_codes :: "(string \<times> event_type) list" where
  "event_type_codes = [(''ARRIVAL'', Event_Arrival), (''DEPARTURE'', Event_Departure), (''DESTINATION'', Event_Destination)]"

lemma event_type_total: "v \<in> snd ` set event_type_codes"
  by (cases v) (simp_all add: event_type_codes_def)

interpretation event_type_wire: wire_enum event_type_codes
  by unfold_locales (simp_all add: event_type_total, simp_all add: event_type_codes_def)

datatype canx_type = Canx_OnActivation | Canx_AtOrigin | Canx_EnRoute | Canx_OffRoute

definition canx_type_codes :: "(string \<times> canx_type) list" where
  "canx_type_codes = [(''ON CALL'', Canx_OnActivation), (''AT ORIGIN'', Canx_AtOrigin), (''EN ROUTE'', Canx_EnRoute),
     (''OUT OF PLAN'', Canx_OffRoute)]"

lemma canx_type_total: "v \<in> snd ` set canx_type_codes"
  by (cases v) (simp_all add: canx_type_codes_def)

interpretation canx_type_wire: wire_enum canx_type_codes
  by unfold_locales (simp_all add: canx_type_total, simp_all add: canx_type_codes_def)

datatype variation_status = Variation_OnTime | Variation_Early | Variation_Late | Variation_OffRoute

definition variation_status_codes :: "(string \<times> variation_status) list" where
  "variation_status_codes = [(''ON TIME'', Variation_OnTime), (''EARLY'', Variation_Early), (''LATE'', Variation_Late),
     (''OFF ROUTE'', Variation_OffRoute)]"

lemma variation_status_total: "v \<in> snd ` set variation_status_codes"
  by (cases v) (simp_all add: variation_status_codes_def)

interpretation variation_status_wire: wire_enum variation_status_codes
  by unfold_locales (simp_all add: variation_status_total, simp_all add: variation_status_codes_def)

datatype up_or_down = Direction_Up | Direction_Down | Direction_None

definition up_or_down_codes :: "(string \<times> up_or_down) list" where
  "up_or_down_codes = [(''UP'', Direction_Up), (''DOWN'', Direction_Down), ('''', Direction_None)]"

lemma up_or_down_total: "v \<in> snd ` set up_or_down_codes"
  by (cases v) (simp_all add: up_or_down_codes_def)

interpretation up_or_down_wire: wire_enum up_or_down_codes
  by unfold_locales (simp_all add: up_or_down_total, simp_all add: up_or_down_codes_def)

section \<open>Messages\<close>

record mvt_header =
  mh_msg_type :: string
  mh_source_dev_id :: string
  mh_source_system_id :: string
  mh_original_data_source :: string
  mh_msg_queue_timestamp :: naive_datetime

record activation =
  act_schedule_source :: schedule_source
  act_train_file_address :: "string option"
  act_schedule_end_date :: naive_date
  act_train_id :: string
  act_tp_origin_timestamp :: naive_date
  act_creation_timestamp :: naive_datetime
  act_tp_origin_stanox :: "string option"
  act_origin_dep_timestamp :: naive_datetime
  act_train_service_code :: string
  act_toc_id :: string
  act_d1266_record_number :: string
  act_train_call_type :: automatic_or_manual
  act_train_uid :: string
  act_train_call_mode :: call_mode
  act_schedule_type :: stp_indicator
  act_sched_origin_stanox :: string
  act_schedule_wtt_id :: string
  act_schedule_start_date :: naive_date

record cancellation =
  canx_train_service_code :: string
  canx_train_file_address :: "string option"
  canx_orig_loc_stanox :: "string option"
  canx_toc_id :: string
  canx_dep_timestamp :: naive_datetime
  canx_division_code :: string
  canx_loc_stanox :: string
  canx_canx_timestamp :: naive_datetime
  canx_canx_reason_code :: string
  canx_train_id :: string
  canx_orig_loc_timestamp :: "naive_datetime option"
  canx_canx_type :: canx_type

record movement =
  mvt_event_type :: event_type
  mvt_gbtt_timestamp :: "naive_datetime option"
  mvt_original_loc_stanox :: "string option"
  mvt_planned_timestamp :: "naive_datetime option"
  mvt_timetable_variation :: u32
  mvt_original_loc_timestamp :: "naive_datetime option"
  mvt_current_train_id :: "string option"
  mvt_delay_monitoring_point :: bool
  mvt_next_report_run_time :: "u32 option"
  mvt_reporting_stanox :: "string option"
  mvt_actual_timestamp :: naive_datetime
  mvt_correction_ind :: bool
  mvt_event_source :: automatic_or_manual
  mvt_train_file_address :: "string option"
  mvt_platform :: "string option"
  mvt_division_code :: string
  mvt_train_terminated :: bool
  mvt_train_id :: string
  mvt_offroute_ind :: bool
  mvt_variation_status :: variation_status
  mvt_train_service_code :: string
  mvt_toc_id :: string
  mvt_loc_stanox :: string
  mvt_auto_expected :: "bool option"
  mvt_direction_ind :: up_or_down
  mvt_route :: "char option"
  mvt_planned_event_type :: event_type
  mvt_next_report_stanox :: "string option"
  mvt_line_ind :: "char option"

record reinstatement =
  rei_train_id :: string
  rei_current_train_id :: "string option"
  rei_original_loc_timestamp :: "naive_datetime option"
  rei_dep_timestamp :: naive_datetime
  rei_loc_stanox :: string
  rei_original_loc_stanox :: "string option"
  rei_reinstatement_timestamp :: naive_datetime
  rei_toc_id :: string
  rei_division_code :: string
  rei_train_service_code :: string

record change_of_origin =
  coo_train_id :: string
  coo_dep_timestamp :: naive_datetime
  coo_loc_stanox :: string
  coo_original_loc_stanox :: "string option"
  coo_original_loc_timestamp :: "naive_datetime option"
  coo_train_service_code :: string
  coo_reason_code :: string
  coo_division_code :: string
  coo_toc_id :: string
  coo_coo_timestamp :: naive_datetime

record change_of_identity =
  coi_train_id :: string
  coi_current_train_id :: "string option"
  coi_revised_train_id :: string
  coi_train_service_code :: string
  coi_event_timestamp :: naive_datetime

record change_of_location =
  col_train_id :: string
  col_current_train_id :: "string option"
  col_dep_timestamp :: naive_datetime
  col_loc_stanox :: string
  col_original_loc_stanox :: "string option"
  col_original_loc_timestamp :: "naive_datetime option"
  col_train_service_code :: string
  col_train_file_address :: "string option"
  col_event_timestamp :: naive_datetime

datatype mvt_body =
  BodyActivation activation
| BodyCancellation cancellation
| BodyMovement movement
| BodyReinstatement reinstatement
| BodyChangeOfOrigin change_of_origin
| BodyChangeOfIdentity change_of_identity
| BodyChangeOfLocation change_of_location
| BodyUnknown string

record mvt_record =
  rec_header :: mvt_header
  rec_body :: mvt_body

end
