(* ===== verification/Rows.thy ===== *)
theory Rows
  imports Chrono
begin

text \<open>
  Rows of a SQLite table as \<open>rusqlite\<close> hands them to the program, and the traits of
  \<open>tspl-sqlite/src/traits.rs\<close>. A row is the list of its columns; \<open>row.get(i)?\<close> is
  \<open>get c i row\<close>, where \<open>c\<close> is the \<open>FromSql\<close> instance of the field's type: it fails when
  there is no such column, when the value is of another kind, and when an integer is out
  of the type's range. Columns that hold dates, times and UUIDs keep the value itself, not
  its text or bytes.

  The locale \<open>row_codec\<close> is the contract of \<open>DbType::from_row\<close> with the columns of its
  table: decoding reads exactly \<open>fields\<close> columns from the start index and gives back the
  value that was stored. In it we prove what the \<open>JOIN\<close> queries rely on, decoding at an
  offset in a longer row, and what \<open>.ok()\<close> on the right side of a \<open>LEFT OUTER JOIN\<close> gives.
\<close>

datatype uuid = Uuid "128 word"

datatype sql_value =
  SNull
| SInt int
| SText string
| SUuid uuid
| SDate naive_date
| STime naive_time
| SStamp naive_datetime

type_synonym row = "sql_value list"

datatype rsql_error =
  InvalidColumnIndex nat
| InvalidColumnType nat
| IntegralValueOutOfRange nat int
| QueryReturnedNoRows
| ConstraintUnique string
| ConstraintForeignKey
| ConstraintCheck

section \<open>\<open>FromSql\<close> and \<open>ToSql\<close>\<close>

type_synonym 'a from_sql = "nat \<Rightarrow> sql_value \<Rightarrow> rsql_error + 'a"

definition get :: "'a from_sql \<Rightarrow> nat \<Rightarrow> row \<Rightarrow> rsql_error + 'a" where
  "get c i r = (if i < length r then c i (r ! i) else Inl (InvalidColumnIndex i))"

fun c_i64 :: "int from_sql" where
  "c_i64 i (SInt n) = Inr n"
| "c_i64 i _ = Inl (InvalidColumnType i)"

fun c_i32 :: "int from_sql" where
  "c_i32 i (SInt n) =
     (if - (2 ^ 31) \<le> n \<and> n < 2 ^ 31 then Inr n else Inl (IntegralValueOutOfRange i n))"
| "c_i32 i _ = Inl (InvalidColumnType i)"

fun c_u8 :: "u8 from_sql" where
  "c_u8 i (SInt n) =
     (if 0 \<le> n \<and> n < 256 then Inr (word_of_int n) else Inl (IntegralValueOutOfRange i n))"
| "c_u8 i _ = Inl (InvalidColumnType i)"

fun c_u32 :: "u32 from_sql" where
  "c_u32 i (SInt n) =
     (if 0 \<le> n \<and> n < 2 ^ 32 then Inr (word_of_int n) else Inl (IntegralValueOutOfRange i n))"
| "c_u32 i _ = Inl (InvalidColumnType i)"

fun c_bool :: "bool from_sql" where
  "c_bool i (SInt n) = Inr (n \<noteq> 0)"
| "c_bool i _ = Inl (InvalidColumnType i)"

fun c_text :: "string from_sql" where
  "c_text i (SText s) = Inr s"
| "c_text i _ = Inl (InvalidColumnType i)"

fun c_uuid :: "uuid from_sql" where
  "c_uuid i (SUuid u) = Inr u"
| "c_uuid i _ = Inl (InvalidColumnType i)"

fun c_date :: "naive_date from_sql" where
  "c_date i (SDate d) = Inr d"
| "c_date i _ = Inl (InvalidColumnType i)"

fun c_time :: "naive_time from_sql" where
  "c_time i (STime t) = Inr t"
| "c_time i _ = Inl (InvalidColumnType i)"

fun c_stamp :: "naive_datetime from_sql" where
  "c_stamp i (SStamp t) = Inr t"
| "c_stamp i _ = Inl (InvalidColumnType i)"

fun c_opt :: "'a from_sql \<Rightarrow> 'a option from_sql" where
  "c_opt c i SNull = Inr None"
| "c_opt c i v = res_map Some (c i v)"

definition s_u8 :: "u8 \<Rightarrow> sql_value" where "s_u8 w = SInt (uint w)"
definition s_u32 :: "u32 \<Rightarrow> sql_value" where "s_u32 w = SInt (uint w)"
definition s_bool :: "bool \<Rightarrow> sql_value" where "s_bool b = SInt (if b then 1 else 0)"

definition s_opt :: "('a \<Rightarrow> sql_value) \<Rightarrow> 'a option \<Rightarrow> sql_value" where
  "s_opt f x = (case x of None \<Rightarrow> SNull | Some a \<Rightarrow> f a)"

lemma uint_range: "0 \<le> uint (w::u8) \<and> uint w < 256" "0 \<le> uint (v::u32) \<and> uint v < 2 ^ 32"
  using uint_bounded [of w] uint_bounded [of v] by simp_all

lemma column_roundtrip [simp]:
  "c_u8 i (s_u8 w) = Inr w"
  "c_u32 i (s_u32 v) = Inr v"
  "c_bool i (s_bool b) = Inr b"
  "c_opt c_text i (s_opt SText t) = Inr t"
  "c_opt c_i64 i (s_opt SInt n) = Inr n"
  "c_opt c_u32 i (s_opt s_u32 v') = Inr v'"
  "c_opt c_time i (s_opt STime tm) = Inr tm"
  using uint_range
  by (auto simp: s_u8_def s_u32_def s_bool_def s_opt_def split: option.splits)

section \<open>\<open>DbType\<close> and \<open>InsertableDbType\<close>\<close>

text \<open>
  \<open>from_select\<close> maps \<open>from_row\<close> over the rows of the result and stops at the first row
  that does not decode.
\<close>

definition from_select :: "(row \<Rightarrow> nat \<Rightarrow> rsql_error + 'a) \<Rightarrow> row list \<Rightarrow> rsql_error + 'a list" where
  "from_select from_row rows = res_mapM (\<lambda>r. from_row r 0) rows"

locale row_codec =
  fixes enc :: "'a \<Rightarrow> row"
    and dec :: "row \<Rightarrow> nat \<Rightarrow> rsql_error + 'a"
    and fields :: nat
    and ok :: "'a \<Rightarrow> bool"
  assumes enc_length: "length (enc x) = fields"
    and dec_enc: "ok x \<Longrightarrow> dec (pre @ enc x @ post) (length pre) = Inr x"
    and dec_null: "\<exists>e. dec (pre @ replicate fields SNull @ post) (length pre) = Inl e"
begin

lemma select_roundtrip:
  assumes "\<And>x. x \<in> set xs \<Longrightarrow> ok x"
  shows "from_select dec (map enc xs) = Inr xs"
proof -
  have "dec (enc x) 0 = Inr x" if "x \<in> set xs" for x
    using dec_enc [of x "[]" "[]"] assms that by simp
  then show ?thesis unfolding from_select_def by (simp add: res_mapM_map)
qed

lemma decode_first: "ok x \<Longrightarrow> dec (enc x @ post) 0 = Inr x"
  using dec_enc [of x "[]" post] by simp

lemma decode_at: "ok x \<Longrightarrow> length pre = n \<Longrightarrow> dec (pre @ enc x @ post) n = Inr x"
  using dec_enc by auto

lemma decode_last: "ok x \<Longrightarrow> length pre = n \<Longrightarrow> dec (pre @ enc x) n = Inr x"
  using dec_enc [of x pre "[]"] by auto

lemma decode_outer_null:
  "length pre = n \<Longrightarrow> \<exists>e. dec (pre @ replicate fields SNull) n = Inl e"
  using dec_null [of pre "[]"] by auto

end

lemma get_offset: "get c (length pre + i) (pre @ r) = c (length pre + i) (r ! i)" if "i < length r"
  using that by (simp add: get_def nth_append)

lemmas row_get = get_def nth_append

end
