(* ===== verification/Migrations.thy ===== *)
theory Migrations
  imports Rows
begin

text \<open>
  \<open>tspl-sqlite/src/migrations.rs\<close> and the set-up of a connection in
  \<open>tspl-sqlite/src/lib.rs\<close>. A connection is what the migrations read and write: the table
  \<open>migration_entries\<close> (absent until it is created), the \<open>foreign_keys\<close> pragma, and the
  rest of the database, of a type of its own, on which \<open>exec\<close> runs the text of a script.
  A transaction that is dropped without \<open>commit\<close> leaves the database as it was; the pragma
  is no part of the transaction.
\<close>

record migration_entry =
  me_id :: int
  me_timestamp :: naive_datetime

definition migration_entry_from_row :: "row \<Rightarrow> nat \<Rightarrow> rsql_error + migration_entry" where
  "migration_entry_from_row r s =
     res_bind (get c_i32 (s + 0) r) (\<lambda>i.
     res_bind (get c_stamp (s + 1) r) (\<lambda>t.
     Inr \<lparr>me_id = i, me_timestamp = t\<rparr>))"

definition migration_entry_params :: "migration_entry \<Rightarrow> row" where
  "migration_entry_params e = [SInt (me_id e), SStamp (me_timestamp e)]"

interpretation migration_rows:
  row_codec migration_entry_params migration_entry_from_row 2
    "\<lambda>e. - (2 ^ 31) \<le> me_id e \<and> me_id e < 2 ^ 31"
  by unfold_locales
    (auto simp: migration_entry_params_def migration_entry_from_row_def row_get numeral_2_eq_2)

record migration =
  mg_id :: int
  mg_name :: string
  mg_up :: string

record 's conn =
  cn_entries :: "migration_entry list option"
  cn_foreign_keys :: bool
  cn_rest :: 's

datatype sql_error =
  Sqlite rsql_error
| NoSuchTable
| MigrationOutOfOrder int
| DatabaseTooNew
| PanicEmptyMigrations

section \<open>Operations\<close>

text \<open>\<open>MigrationEntry::insert_self\<close>: the column \<open>id\<close> is \<open>UNIQUE\<close>.\<close>

definition insert_entry ::
    "migration_entry \<Rightarrow> migration_entry list \<Rightarrow> sql_error + migration_entry list" where
  "insert_entry e es =
     (if me_id e \<in> me_id ` set es then Inl (Sqlite (ConstraintUnique ''migration_entries.id''))
      else Inr (es @ [e]))"

text \<open>
  \<open>Migration::up\<close>. The early return and every \<open>?\<close> leave the pragma off; the entries and
  the rest of the database change only when the transaction commits.
\<close>

definition migration_up ::
    "(string \<Rightarrow> 's \<Rightarrow> rsql_error + 's) \<Rightarrow> naive_datetime \<Rightarrow> migration \<Rightarrow> 's conn \<Rightarrow>
     (sql_error + unit) \<times> 's conn" where
  "migration_up exec now m c =
     (let c1 = c\<lparr>cn_foreign_keys := False\<rparr>
      in case cn_entries c1 of
           None \<Rightarrow> (Inl NoSuchTable, c1)
         | Some es \<Rightarrow>
             if filter (\<lambda>e. me_id e \<ge> mg_id m) es \<noteq> [] then (Inl (MigrationOutOfOrder (mg_id m)), c1)
             else (case exec (mg_up m) (cn_rest c1) of
                     Inl e \<Rightarrow> (Inl (Sqlite e), c1)
                   | Inr rest \<Rightarrow>
                       (case insert_entry \<lparr>me_id = mg_id m, me_timestamp = now\<rparr> es of
                          Inl e \<Rightarrow> (Inl e, c1)
                        | Inr es' \<Rightarrow>
                            (Inr (), \<lparr>cn_entries = Some es', cn_foreign_keys = True,
                                      cn_rest = rest\<rparr>))))"

text \<open>\<open>get_last_migration\<close>: \<open>ORDER BY id DESC LIMIT 1\<close>.\<close>

definition get_last_migration :: "'s conn \<Rightarrow> sql_error + int option" where
  "get_last_migration c =
     (case cn_entries c of
        None \<Rightarrow> Inl NoSuchTable
      | Some es \<Rightarrow> Inr (nth0 (rev (sort (map me_id es)))))"

definition initialize_migrations :: "'s conn \<Rightarrow> 's conn" where
  "initialize_migrations c =
     (case cn_entries c of None \<Rightarrow> c\<lparr>cn_entries := Some []\<rparr> | Some _ \<Rightarrow> c)"

fun migrate_loop ::
    "(string \<Rightarrow> 's \<Rightarrow> rsql_error + 's) \<Rightarrow> naive_datetime \<Rightarrow> int \<Rightarrow> migration list \<Rightarrow> 's conn \<Rightarrow>
     (sql_error + unit) \<times> 's conn" where
  "migrate_loop exec now l [] c = (Inr (), c)"
| "migrate_loop exec now l (m # ms) c =
     (if mg_id m > l
      then (case migration_up exec now m c of
              (Inl e, c') \<Rightarrow> (Inl e, c')
            | (Inr _, c') \<Rightarrow> migrate_loop exec now (mg_id m) ms c')
      else migrate_loop exec now l ms c)"

definition i32_min :: int where "i32_min = - (2 ^ 31)"

definition run_pending_migrations ::
    "(string \<Rightarrow> 's \<Rightarrow> rsql_error + 's) \<Rightarrow> naive_datetime \<Rightarrow> migration list \<Rightarrow> 's conn \<Rightarrow>
     (sql_error + unit) \<times> 's conn" where
  "run_pending_migrations exec now ms c =
     (case get_last_migration c of
        Inl e \<Rightarrow> (Inl e, c)
      | Inr l \<Rightarrow>
          (let last_migration = (case l of None \<Rightarrow> i32_min | Some x \<Rightarrow> x)
           in if ms = [] then (Inl PanicEmptyMigrations, c)
              else if last_migration > mg_id (last ms) then (Inl DatabaseTooNew, c)
              else migrate_loop exec now last_migration ms c))"

text \<open>
  \<open>initialize_connection\<close>; of the pragmas only \<open>foreign_keys\<close> is state that the services
  can observe.
\<close>

definition initialize_connection ::
    "(string \<Rightarrow> 's \<Rightarrow> rsql_error + 's) \<Rightarrow> naive_datetime \<Rightarrow> migration list \<Rightarrow> 's conn \<Rightarrow>
     (sql_error + unit) \<times> 's conn" where
  "initialize_connection exec now ms c =
     run_pending_migrations exec now ms (initialize_migrations (c\<lparr>cn_foreign_keys := True\<rparr>))"

section \<open>What the migrations do\<close>

definition entry_ids :: "'s conn \<Rightarrow> int list" where
  "entry_ids c = (case cn_entries c of None \<Rightarrow> [] | Some es \<Rightarrow> map me_id es)"

lemma nth0_rev_sort:
  "nth0 (rev (sort xs)) = (if xs = [] then None else Some (Max (set xs)))" for xs :: "'a::linorder list"
proof (cases "xs = []")
  case False
  then have ne: "sort xs \<noteq> []" by (metis length_0_conv length_sort)
  then have "nth0 (rev (sort xs)) = Some (last (sort xs))"
    by (cases "sort xs" rule: rev_cases) auto
  moreover have "last (sort xs) = Max (set (sort xs))"
    using ne by (metis Max_eqI List.finite_set last_in_set sorted_sort sorted_nth_mono last_conv_nth
        in_set_conv_nth length_greater_0_conv diff_less less_Suc_eq_le Suc_pred' zero_less_one)
  ultimately show ?thesis using False by simp
qed simp

lemma migration_up_cases:
  assumes "migration_up exec now m c = (r, c')"
  shows "(\<exists>e. r = Inl e \<and> entry_ids c' = entry_ids c \<and> cn_rest c' = cn_rest c) \<or>
         (r = Inr () \<and> entry_ids c' = entry_ids c @ [mg_id m] \<and>
          cn_entries c' \<noteq> None \<and> cn_foreign_keys c' \<and>
          exec (mg_up m) (cn_rest c) = Inr (cn_rest c') \<and>
          (\<forall>i\<in>set (entry_ids c). i < mg_id m))"
  using assms
  by (auto simp: migration_up_def Let_def insert_entry_def entry_ids_def filter_empty_conv
      split: option.splits if_splits sum.splits)

lemma migration_up_not_out_of_order:
  assumes "migration_up exec now m c = (Inl e, c')" and "\<forall>i\<in>set (entry_ids c). i < mg_id m"
  shows "\<forall>i. e \<noteq> MigrationOutOfOrder i"
  using assms
  by (auto simp: migration_up_def Let_def insert_entry_def entry_ids_def filter_empty_conv
      split: option.splits if_splits sum.splits)

lemma migrate_loop_ok:
  assumes "sorted_wrt (<) (map mg_id ms)"
    and "\<forall>i\<in>set (entry_ids c). i \<le> l"
    and "migrate_loop exec now l ms c = (Inr (), c')"
  shows "entry_ids c' = entry_ids c @ filter (\<lambda>i. l < i) (map mg_id ms)"
  using assms
proof (induction ms arbitrary: l c)
  case Nil
  then show ?case by simp
next
  case (Cons m ms)
  show ?case
  proof (cases "mg_id m > l")
    case True
    with Cons.prems(3) obtain c1 where up: "migration_up exec now m c = (Inr (), c1)"
      and rest: "migrate_loop exec now (mg_id m) ms c1 = (Inr (), c')"
      by (auto split: prod.splits sum.splits)
    from migration_up_cases [OF up] have ids: "entry_ids c1 = entry_ids c @ [mg_id m]" by auto
    have "entry_ids c' = entry_ids c1 @ filter (\<lambda>i. mg_id m < i) (map mg_id ms)"
      using Cons.prems(1,2) True ids by (intro Cons.IH [OF _ _ rest]) auto
    moreover have "filter (\<lambda>i. mg_id m < i) (map mg_id ms) = map mg_id ms"
      "filter (\<lambda>i. l < i) (map mg_id ms) = map mg_id ms"
      using Cons.prems(1) True by (force intro!: filter_True)+
    ultimately show ?thesis using ids True by simp
  next
    case False
    with Cons.prems show ?thesis by (auto intro: Cons.IH)
  qed
qed

lemma migrate_loop_error:
  assumes "sorted_wrt (<) (map mg_id ms)"
    and "\<forall>i\<in>set (entry_ids c). i \<le> l"
    and "migrate_loop exec now l ms c = (Inl e, c')"
  shows "e \<noteq> MigrationOutOfOrder i"
  using assms
proof (induction ms arbitrary: l c)
  case Nil
  then show ?case by simp
next
  case (Cons m ms)
  show ?case
  proof (cases "mg_id m > l")
    case True
    then have below: "\<forall>i\<in>set (entry_ids c). i < mg_id m" using Cons.prems(2) by auto
    show ?thesis
    proof (cases "migration_up exec now m c")
      case (Pair r c1)
      show ?thesis
      proof (cases r)
        case (Inl e1)
        with Pair Cons.prems(3) True have "e1 = e" by simp
        with Pair Inl migration_up_not_out_of_order [OF _ below] show ?thesis by blast
      next
        case (Inr u)
        with Pair Cons.prems(3) True have "migrate_loop exec now (mg_id m) ms c1 = (Inl e, c')"
          by simp
        moreover have "\<forall>i\<in>set (entry_ids c1). i \<le> mg_id m"
          using migration_up_cases [OF Pair] below Inr by auto
        ultimately show ?thesis using Cons.IH Cons.prems(1) by auto
      qed
    qed
  next
    case False
    with Cons.prems(3) have "migrate_loop exec now l ms c = (Inl e, c')" by simp
    with Cons.IH Cons.prems(1,2) show ?thesis by auto
  qed
qed

lemma migrate_loop_nothing:
  "\<forall>m\<in>set ms. mg_id m \<le> l \<Longrightarrow> migrate_loop exec now l ms c = (Inr (), c)"
  by (induction ms) auto

lemma get_last_migration_ids:
  "cn_entries c \<noteq> None \<Longrightarrow>
     get_last_migration c =
       Inr (if entry_ids c = [] then None else Some (Max (set (entry_ids c))))"
  by (auto simp: get_last_migration_def entry_ids_def nth0_rev_sort)


text \<open>The last migration as \<open>run_pending_migrations\<close> sees it.\<close>

definition last_or_min :: "'s conn \<Rightarrow> int" where
  "last_or_min c = (if entry_ids c = [] then i32_min else Max (set (entry_ids c)))"

lemma entry_ids_init [simp]:
  "entry_ids (initialize_migrations (c\<lparr>cn_foreign_keys := b\<rparr>)) = entry_ids c"
  "cn_entries (initialize_migrations c') \<noteq> None"
  by (auto simp: entry_ids_def initialize_migrations_def split: option.splits)

lemma run_pending_unfold:
  assumes "cn_entries c \<noteq> None"
  shows "run_pending_migrations exec now ms c =
     (if ms = [] then (Inl PanicEmptyMigrations, c)
      else if last_or_min c > mg_id (last ms) then (Inl DatabaseTooNew, c)
      else migrate_loop exec now (last_or_min c) ms c)"
  using assms
  by (simp add: run_pending_migrations_def get_last_migration_ids last_or_min_def Let_def)

lemma below_last_or_min: "i \<in> set (entry_ids c) \<Longrightarrow> i \<le> last_or_min c"
  by (auto simp: last_or_min_def)

lemma sorted_last_greatest:
  "sorted_wrt (<) (map mg_id ms) \<Longrightarrow> m \<in> set ms \<Longrightarrow> mg_id m \<le> mg_id (last ms)"
  by (induction ms) (auto intro: less_imp_le)

lemma migration_up_connected:
  "migration_up exec now m c = (r, c') \<Longrightarrow> cn_entries c \<noteq> None \<Longrightarrow> cn_entries c' \<noteq> None"
  by (auto simp: migration_up_def Let_def split: option.splits if_splits sum.splits)

lemma migrate_loop_connected:
  "migrate_loop exec now l ms c = (r, c') \<Longrightarrow> cn_entries c \<noteq> None \<Longrightarrow> cn_entries c' \<noteq> None"
proof (induction ms arbitrary: l c)
  case (Cons m ms)
  obtain r1 c1 where up: "migration_up exec now m c = (r1, c1)" by fastforce
  then have "cn_entries c1 \<noteq> None" using Cons.prems(2) by (rule migration_up_connected)
  with up Cons.prems Cons.IH [of "mg_id m" c1] Cons.IH [of l c] show ?case
    by (cases r1) (auto simp del: not_None_eq split: if_splits)
qed simp

section \<open>Properties\<close>

text \<open>
  Opening a database with a list of migrations in ascending order runs exactly the
  migrations that are newer than everything the database has recorded, in order, and
  records each; nothing older is run again.
\<close>

theorem migrations_applied:
  assumes "sorted_wrt (<) (map mg_id ms)" and "\<forall>m\<in>set ms. i32_min < mg_id m"
    and "initialize_connection exec now ms c = (Inr (), c')"
  shows "entry_ids c' =
    entry_ids c @ filter (\<lambda>i. \<forall>j\<in>set (entry_ids c). j < i) (map mg_id ms)"
proof -
  let ?c = "initialize_migrations (c\<lparr>cn_foreign_keys := True\<rparr>)"
  have "migrate_loop exec now (last_or_min ?c) ms ?c = (Inr (), c')"
    using assms(3) by (auto simp: initialize_connection_def run_pending_unfold split: if_splits)
  from migrate_loop_ok [OF assms(1) _ this] below_last_or_min
  have "entry_ids c' = entry_ids c @ filter (\<lambda>i. last_or_min ?c < i) (map mg_id ms)" by fastforce
  also have "filter (\<lambda>i. last_or_min ?c < i) (map mg_id ms) =
      filter (\<lambda>i. \<forall>j\<in>set (entry_ids c). j < i) (map mg_id ms)"
    using assms(2) by (intro filter_cong) (auto simp: last_or_min_def)
  finally show ?thesis .
qed

text \<open>
  With migrations in ascending order, opening a database never fails with
  \<open>MigrationOutOfOrder\<close>, whatever the database has recorded before.
\<close>

theorem migrations_never_out_of_order:
  assumes "sorted_wrt (<) (map mg_id ms)"
    and "initialize_connection exec now ms c = (Inl e, c')"
  shows "e \<noteq> MigrationOutOfOrder i"
proof -
  let ?c = "initialize_migrations (c\<lparr>cn_foreign_keys := True\<rparr>)"
  consider "e = PanicEmptyMigrations" | "e = DatabaseTooNew"
    | "migrate_loop exec now (last_or_min ?c) ms ?c = (Inl e, c')"
    using assms(2) by (auto simp: initialize_connection_def run_pending_unfold split: if_splits)
  then show ?thesis
  proof cases
    case 3
    then show ?thesis using migrate_loop_error [OF assms(1) _ 3] below_last_or_min by blast
  qed simp_all
qed

text \<open>
  Opening a database that has been brought up to date a second time, with the same
  migrations, runs nothing: the tables and the recorded migrations stay as they are.
\<close>

theorem migrations_idempotent:
  assumes "sorted_wrt (<) (map mg_id ms)" and "\<forall>m\<in>set ms. i32_min < mg_id m"
    and "initialize_connection exec now ms c = (Inr (), c')"
  shows "initialize_connection exec' now' ms c' = (Inr (), c'\<lparr>cn_foreign_keys := True\<rparr>)"
proof -
  let ?c = "initialize_migrations (c\<lparr>cn_foreign_keys := True\<rparr>)"
  let ?l = "last_or_min ?c"
  have run: "migrate_loop exec now ?l ms ?c = (Inr (), c')" and ms: "ms \<noteq> []"
    and new: "?l \<le> mg_id (last ms)"
    using assms(3) by (auto simp: initialize_connection_def run_pending_unfold split: if_splits)
  have conn: "cn_entries c' \<noteq> None" using migrate_loop_connected [OF run] by simp
  have ids: "entry_ids c' = entry_ids ?c @ filter (\<lambda>i. ?l < i) (map mg_id ms)"
    using migrate_loop_ok [OF assms(1) _ run] below_last_or_min by blast
  have le: "i \<le> mg_id (last ms)" if "i \<in> set (entry_ids c')" for i
    using that ids below_last_or_min [of i ?c] new sorted_last_greatest [OF assms(1)] by fastforce
  have "mg_id (last ms) \<in> set (entry_ids c')"
  proof (cases "?l < mg_id (last ms)")
    case True
    then show ?thesis using ids ms by auto
  next
    case False
    then have "?l = mg_id (last ms)" "i32_min < ?l" using new assms(2) ms by auto
    then show ?thesis using ids by (auto simp: last_or_min_def split: if_splits)
      (metis List.finite_set Max_in entry_ids_init(1) set_empty)+
  qed
  then have last: "last_or_min c' = mg_id (last ms)"
    using le by (auto simp: last_or_min_def intro: Max_eqI)
  have "initialize_migrations (c'\<lparr>cn_foreign_keys := True\<rparr>) = c'\<lparr>cn_foreign_keys := True\<rparr>"
    using conn by (auto simp: initialize_migrations_def)
  moreover have "last_or_min (c'\<lparr>cn_foreign_keys := True\<rparr>) = last_or_min c'"
    by (simp add: last_or_min_def entry_ids_def)
  ultimately show ?thesis
    using conn ms last sorted_last_greatest [OF assms(1)]
    by (simp add: initialize_connection_def run_pending_unfold migrate_loop_nothing)
qed

definition sample_migrations :: "migration list" where
  "sample_migrations =
     [\<lparr>mg_id = 0, mg_name = ''initial'', mg_up = ''a''\<rparr>, \<lparr>mg_id = 1, mg_name = ''indexes'', mg_up = ''b''\<rparr>]"

definition sample_exec :: "string \<Rightarrow> string list \<Rightarrow> rsql_error + string list" where
  "sample_exec up done = (if up = ''bad'' then Inl ConstraintCheck else Inr (done @ [up]))"

definition sample_conn :: "migration_entry list option \<Rightarrow> string list \<Rightarrow> string list conn" where
  "sample_conn es rest = \<lparr>cn_entries = es, cn_foreign_keys = False, cn_rest = rest\<rparr>"

definition epoch :: naive_datetime where
  "epoch = NaiveDateTime (NaiveDate 719163) (from_hms 0 0 0)"

text \<open>A database that has run the first of the two migrations runs the second.\<close>

lemma sample_run:
  "initialize_connection sample_exec epoch sample_migrations
     (sample_conn (Some [\<lparr>me_id = 0, me_timestamp = epoch\<rparr>]) [''a'']) =
   (Inr (), \<lparr>cn_entries = Some [\<lparr>me_id = 0, me_timestamp = epoch\<rparr>, \<lparr>me_id = 1, me_timestamp = epoch\<rparr>],
             cn_foreign_keys = True, cn_rest = [''a'', ''b'']\<rparr>)"
  by (simp add: initialize_connection_def initialize_migrations_def sample_conn_def
      run_pending_migrations_def get_last_migration_def sample_migrations_def migration_up_def
      insert_entry_def sample_exec_def Let_def)

lemma sample_ascending:
  "sorted_wrt (<) (map mg_id sample_migrations)" "\<forall>m\<in>set sample_migrations. i32_min < mg_id m"
  by (simp_all add: sample_migrations_def i32_min_def)

lemma migrations_applied_witness:
  "\<exists>c'. initialize_connection sample_exec epoch sample_migrations
     (sample_conn (Some [\<lparr>me_id = 0, me_timestamp = epoch\<rparr>]) [''a'']) = (Inr (), c') \<and> entry_ids c' = [0, 1]"
  using migrations_applied [OF sample_ascending sample_run] sample_run
  by (simp add: entry_ids_def)

lemma migrations_never_out_of_order_witness:
  "\<exists>e. fst (initialize_connection sample_exec epoch sample_migrations
       (sample_conn (Some [\<lparr>me_id = 7, me_timestamp = epoch\<rparr>]) [''a''])) = Inl e \<and>
     e \<noteq> MigrationOutOfOrder 0"
  using migrations_never_out_of_order [OF sample_ascending(1), of sample_exec epoch
      "sample_conn (Some [\<lparr>me_id = 7, me_timestamp = epoch\<rparr>]) [''a'']" DatabaseTooNew _ 0]
  by (simp add: initialize_connection_def initialize_migrations_def sample_conn_def
      run_pending_migrations_def get_last_migration_def sample_migrations_def Let_def)

lemma migrations_idempotent_witness:
  "\<exists>c'. initialize_connection sample_exec epoch sample_migrations
     (sample_conn (Some [\<lparr>me_id = 0, me_timestamp = epoch\<rparr>]) [''a'']) = (Inr (), c') \<and>
     initialize_connection sample_exec epoch sample_migrations c' = (Inr (), c'\<lparr>cn_foreign_keys := True\<rparr>)"
  using migrations_idempotent [OF sample_ascending sample_run] sample_run by blast

end
