(* ===== verification/Fahrplan_Types.thy ===== *)
theory Fahrplan_Types
  imports Rows Ntrod_Schedule
begin

unbundle bit_operations_syntax

text \<open>
  \<open>tspl-fahrplan/src/types.rs\<close>: the schedule database. \<open>ScheduleDays\<close> is the byte of flags,
  \<open>Schedule\<close>, \<open>ScheduleMvt\<close> and \<open>ScheduleFile\<close> are records with the fields of the source,
  \<open>from_row\<close> and the parameters of \<open>insert_self\<close> are the two halves of a \<open>row_codec\<close>. The
  columns of a row are the parameters of \<open>insert_self\<close> after the \<open>INTEGER PRIMARY KEY\<close>.
\<close>

section \<open>\<open>ScheduleDays\<close>\<close>

type_synonym schedule_days = u8

definition MONDAY :: schedule_days where "MONDAY = 1"
definition TUESDAY :: schedule_days where "TUESDAY = 2"
definition WEDNESDAY :: schedule_days where "WEDNESDAY = 4"
definition THURSDAY :: schedule_days where "THURSDAY = 8"
definition FRIDAY :: schedule_days where "FRIDAY = 16"
definition SATURDAY :: schedule_days where "SATURDAY = 32"
definition SUNDAY :: schedule_days where "SUNDAY = 64"

lemmas day_flags =
  MONDAY_def TUESDAY_def WEDNESDAY_def THURSDAY_def FRIDAY_def SATURDAY_def SUNDAY_def

text \<open>The operations of the \<open>bitflags\<close> type: all flags are the seven low bits.\<close>

definition days_insert :: "schedule_days \<Rightarrow> schedule_days \<Rightarrow> schedule_days" where
  "days_insert d x = d OR x"

definition days_contains :: "schedule_days \<Rightarrow> schedule_days \<Rightarrow> bool" where
  "days_contains d x \<longleftrightarrow> d AND x = x"

definition from_bits_truncate :: "u8 \<Rightarrow> schedule_days" where
  "from_bits_truncate b = b AND 127"

text \<open>\<open>impl From<NtrodDays> for ScheduleDays\<close>.\<close>

definition days_from_ntrod :: "ntrod_days \<Rightarrow> schedule_days" where
  "days_from_ntrod d =
     (let ret = 0;
          ret = (if mon d then days_insert ret MONDAY else ret);
          ret = (if tue d then days_insert ret TUESDAY else ret);
          ret = (if wed d then days_insert ret WEDNESDAY else ret);
          ret = (if thu d then days_insert ret THURSDAY else ret);
          ret = (if fri d then days_insert ret FRIDAY else ret);
          ret = (if sat d then days_insert ret SATURDAY else ret);
          ret = (if sun d then days_insert ret SUNDAY else ret)
      in ret)"

definition from_iso_weekday :: "nat \<Rightarrow> schedule_days option" where
  "from_iso_weekday wd =
     (if wd = 1 then Some MONDAY
      else if wd = 2 then Some TUESDAY
      else if wd = 3 then Some WEDNESDAY
      else if wd = 4 then Some THURSDAY
      else if wd = 5 then Some FRIDAY
      else if wd = 6 then Some SATURDAY
      else if wd = 7 then Some SUNDAY
      else None)"

definition runs_on_iso_weekday :: "schedule_days \<Rightarrow> nat \<Rightarrow> bool" where
  "runs_on_iso_weekday d wd =
     (case from_iso_weekday wd of Some x \<Rightarrow> days_contains d x | None \<Rightarrow> False)"

text \<open>The SQL condition \<open>s.days & :days\<close>: any common bit.\<close>

definition days_and :: "schedule_days \<Rightarrow> schedule_days \<Rightarrow> bool" where
  "days_and d x \<longleftrightarrow> d AND x \<noteq> 0"

lemma iso_weekday_total:
  assumes "1 \<le> wd" "wd \<le> 7"
  obtains x where "from_iso_weekday wd = Some x"
proof -
  have "wd \<in> {1, 2, 3, 4, 5, 6, 7}" using assms by auto
  then show ?thesis using that by (auto simp: from_iso_weekday_def)
qed

lemma single_bit_and:
  fixes d :: u8
  assumes "n < 8"
  shows "d AND 2 ^ n \<noteq> 0 \<longleftrightarrow> d AND 2 ^ n = 2 ^ n"
  using assms by (auto simp: bit_eq_iff [where ?'a = "8 word"] bit_and_iff bit_exp_iff)

lemmas flag_and =
  single_bit_and [of 0, simplified] single_bit_and [of 1, simplified]
  single_bit_and [of 2, simplified] single_bit_and [of 3, simplified]
  single_bit_and [of 4, simplified] single_bit_and [of 5, simplified]
  single_bit_and [of 6, simplified]

text \<open>The SQL condition and the check in Rust agree on a single day.\<close>

lemma days_and_contains:
  "from_iso_weekday wd = Some x \<Longrightarrow> days_and d x \<longleftrightarrow> days_contains d x"
  by (auto simp: from_iso_weekday_def days_and_def days_contains_def day_flags flag_and
      split: if_splits)

section \<open>\<open>Schedule\<close>\<close>

record schedule =
  sch_id :: int
  sch_tspl_id :: uuid
  sch_uid :: string
  sch_start_date :: naive_date
  sch_end_date :: naive_date
  sch_days :: schedule_days
  sch_stp_indicator :: string
  sch_signalling_id :: "string option"
  sch_source :: u8
  sch_file_metaseq :: "u32 option"
  sch_darwin_id :: "string option"
  sch_crosses_midnight :: bool

definition SCHEDULE_FIELDS :: nat where "SCHEDULE_FIELDS = 12"

definition SOURCE_ITPS :: u8 where "SOURCE_ITPS = 0"
definition SOURCE_VSTP :: u8 where "SOURCE_VSTP = 1"
definition SOURCE_DARWIN :: u8 where "SOURCE_DARWIN = 2"

definition schedule_from_row :: "row \<Rightarrow> nat \<Rightarrow> rsql_error + schedule" where
  "schedule_from_row r s =
     res_bind (get c_u8 (s + 5) r) (\<lambda>days.
     res_bind (get c_i64 (s + 0) r) (\<lambda>id.
     res_bind (get c_uuid (s + 1) r) (\<lambda>tspl_id.
     res_bind (get c_text (s + 2) r) (\<lambda>uid.
     res_bind (get c_date (s + 3) r) (\<lambda>start_date.
     res_bind (get c_date (s + 4) r) (\<lambda>end_date.
     res_bind (get c_text (s + 6) r) (\<lambda>stp_indicator.
     res_bind (get (c_opt c_text) (s + 7) r) (\<lambda>signalling_id.
     res_bind (get c_u8 (s + 8) r) (\<lambda>source.
     res_bind (get (c_opt c_u32) (s + 9) r) (\<lambda>file_metaseq.
     res_bind (get (c_opt c_text) (s + 10) r) (\<lambda>darwin_id.
     res_bind (get c_bool (s + 11) r) (\<lambda>crosses_midnight.
     Inr \<lparr>sch_id = id, sch_tspl_id = tspl_id, sch_uid = uid,
          sch_start_date = start_date, sch_end_date = end_date,
          sch_days = from_bits_truncate days, sch_stp_indicator = stp_indicator,
          sch_signalling_id = signalling_id, sch_source = source,
          sch_file_metaseq = file_metaseq, sch_darwin_id = darwin_id,
          sch_crosses_midnight = crosses_midnight\<rparr>))))))))))))"

definition schedule_params :: "schedule \<Rightarrow> row" where
  "schedule_params s =
     [SUuid (sch_tspl_id s), SText (sch_uid s), SDate (sch_start_date s), SDate (sch_end_date s),
      s_u8 (sch_days s), SText (sch_stp_indicator s), s_opt SText (sch_signalling_id s),
      s_u8 (sch_source s), s_opt s_u32 (sch_file_metaseq s), s_opt SText (sch_darwin_id s),
      s_bool (sch_crosses_midnight s)]"

definition schedule_row :: "schedule \<Rightarrow> row" where
  "schedule_row s = SInt (sch_id s) # schedule_params s"

interpretation schedule_rows:
  row_codec schedule_row schedule_from_row SCHEDULE_FIELDS
    "\<lambda>s. from_bits_truncate (sch_days s) = sch_days s"
proof
  fix x :: schedule and pre post :: row
  show "length (schedule_row x) = SCHEDULE_FIELDS"
    by (simp add: schedule_row_def schedule_params_def SCHEDULE_FIELDS_def)
  show "schedule_from_row (pre @ schedule_row x @ post) (length pre) = Inr x"
    if "from_bits_truncate (sch_days x) = sch_days x"
    using that
    by (simp add: schedule_from_row_def schedule_row_def schedule_params_def row_get)
  show "\<exists>e. schedule_from_row (pre @ replicate SCHEDULE_FIELDS SNull @ post) (length pre) = Inl e"
    by (simp add: schedule_from_row_def SCHEDULE_FIELDS_def row_get numeral_eq_Suc)
qed

section \<open>\<open>ScheduleMvt\<close>\<close>

record schedule_mvt =
  smv_id :: int
  smv_parent_sched :: int
  smv_tiploc :: string
  smv_action :: u8
  smv_time :: naive_time
  smv_day_offset :: u8
  smv_platform :: "string option"
  smv_public_time :: "naive_time option"

definition ACTION_ARRIVAL :: u8 where "ACTION_ARRIVAL = 0"
definition ACTION_DEPARTURE :: u8 where "ACTION_DEPARTURE = 1"
definition ACTION_PASS :: u8 where "ACTION_PASS = 2"

definition SCHEDULE_MVT_FIELDS :: nat where "SCHEDULE_MVT_FIELDS = 8"

definition dummy_mvt :: schedule_mvt where
  "dummy_mvt =
     \<lparr>smv_id = -1, smv_parent_sched = -1, smv_tiploc = '''', smv_action = 255,
      smv_time = from_hms 0 0 0, smv_day_offset = 0, smv_platform = None,
      smv_public_time = None\<rparr>"

text \<open>\<open>PartialEq\<close> and \<open>PartialOrd\<close> as the source implements them.\<close>

definition smv_eq :: "schedule_mvt \<Rightarrow> schedule_mvt \<Rightarrow> bool" where
  "smv_eq a b \<longleftrightarrow>
     smv_tiploc a = smv_tiploc b \<and> smv_action a = smv_action b \<and>
     smv_time a = smv_time b \<and> smv_day_offset a = smv_day_offset b"

datatype ordering = Less | Equal | Greater

definition ord_cmp :: "'a::linorder \<Rightarrow> 'a \<Rightarrow> ordering" where
  "ord_cmp a b = (if a < b then Less else if a = b then Equal else Greater)"

definition ord_then :: "ordering \<Rightarrow> ordering \<Rightarrow> ordering" where
  "ord_then a b = (case a of Equal \<Rightarrow> b | _ \<Rightarrow> a)"

definition smv_partial_cmp :: "schedule_mvt \<Rightarrow> schedule_mvt \<Rightarrow> ordering option" where
  "smv_partial_cmp a b =
     Some (ord_then (ord_then (ord_cmp (smv_day_offset a) (smv_day_offset b))
                              (ord_cmp (smv_time a) (smv_time b)))
                    (ord_cmp (smv_action a) (smv_action b)))"

definition smv_cmp :: "schedule_mvt \<Rightarrow> schedule_mvt \<Rightarrow> ordering" where
  "smv_cmp a b = the (smv_partial_cmp a b)"

text \<open>The key by which the comparison orders, and \<open>ORDER BY day_offset, time, action\<close>.\<close>

definition smv_key :: "schedule_mvt \<Rightarrow> u8 \<times> naive_time \<times> u8" where
  "smv_key m = (smv_day_offset m, smv_time m, smv_action m)"

lemma smv_cmp_key: "smv_cmp a b = ord_cmp (smv_key a) (smv_key b)"
  by (auto simp: smv_cmp_def smv_partial_cmp_def ord_then_def ord_cmp_def smv_key_def)

lemma smv_cmp_le: "smv_cmp a b \<noteq> Greater \<longleftrightarrow> smv_key a \<le> smv_key b"
  by (auto simp: smv_cmp_key ord_cmp_def)

lemma smv_eq_cmp: "smv_eq a b \<Longrightarrow> smv_cmp a b = Equal"
  by (simp add: smv_cmp_key ord_cmp_def smv_eq_def smv_key_def)

lemma smv_eq_equiv: "smv_eq a a" "smv_eq a b \<Longrightarrow> smv_eq b a"
  "smv_eq a b \<Longrightarrow> smv_eq b c \<Longrightarrow> smv_eq a c"
  by (simp_all add: smv_eq_def)

definition schedule_mvt_from_row :: "row \<Rightarrow> nat \<Rightarrow> rsql_error + schedule_mvt" where
  "schedule_mvt_from_row r s =
     res_bind (get c_i64 (s + 0) r) (\<lambda>id.
     res_bind (get c_i64 (s + 1) r) (\<lambda>parent_sched.
     res_bind (get c_text (s + 2) r) (\<lambda>tiploc.
     res_bind (get c_u8 (s + 3) r) (\<lambda>action.
     res_bind (get c_time (s + 4) r) (\<lambda>time.
     res_bind (get c_u8 (s + 5) r) (\<lambda>day_offset.
     res_bind (get (c_opt c_text) (s + 6) r) (\<lambda>platform.
     res_bind (get (c_opt c_time) (s + 7) r) (\<lambda>public_time.
     Inr \<lparr>smv_id = id, smv_parent_sched = parent_sched, smv_tiploc = tiploc,
          smv_action = action, smv_time = time, smv_day_offset = day_offset,
          smv_platform = platform, smv_public_time = public_time\<rparr>))))))))"

definition schedule_mvt_params :: "schedule_mvt \<Rightarrow> row" where
  "schedule_mvt_params m =
     [SInt (smv_parent_sched m), SText (smv_tiploc m), s_u8 (smv_action m), STime (smv_time m),
      s_u8 (smv_day_offset m), s_opt SText (smv_platform m), s_opt STime (smv_public_time m)]"

definition schedule_mvt_row :: "schedule_mvt \<Rightarrow> row" where
  "schedule_mvt_row m = SInt (smv_id m) # schedule_mvt_params m"

interpretation schedule_mvt_rows:
  row_codec schedule_mvt_row schedule_mvt_from_row SCHEDULE_MVT_FIELDS "\<lambda>_. True"
proof
  fix x :: schedule_mvt and pre post :: row
  show "length (schedule_mvt_row x) = SCHEDULE_MVT_FIELDS"
    by (simp add: schedule_mvt_row_def schedule_mvt_params_def SCHEDULE_MVT_FIELDS_def)
  show "schedule_mvt_from_row (pre @ schedule_mvt_row x @ post) (length pre) = Inr x"
    by (simp add: schedule_mvt_from_row_def schedule_mvt_row_def schedule_mvt_params_def row_get)
  show "\<exists>e. schedule_mvt_from_row (pre @ replicate SCHEDULE_MVT_FIELDS SNull @ post) (length pre) = Inl e"
    by (simp add: schedule_mvt_from_row_def SCHEDULE_MVT_FIELDS_def row_get numeral_eq_Suc)
qed

section \<open>\<open>ScheduleFile\<close> and responses\<close>

record schedule_file =
  sf_sequence :: u32
  sf_timestamp :: u32

definition schedule_file_from_row :: "row \<Rightarrow> nat \<Rightarrow> rsql_error + schedule_file" where
  "schedule_file_from_row r s =
     res_bind (get c_u32 (s + 0) r) (\<lambda>sequence.
     res_bind (get c_u32 (s + 1) r) (\<lambda>timestamp.
     Inr \<lparr>sf_sequence = sequence, sf_timestamp = timestamp\<rparr>))"

definition schedule_file_params :: "schedule_file \<Rightarrow> row" where
  "schedule_file_params f = [s_u32 (sf_sequence f), s_u32 (sf_timestamp f)]"

interpretation schedule_file_rows:
  row_codec schedule_file_params schedule_file_from_row 2 "\<lambda>_. True"
  by unfold_locales
    (simp_all add: schedule_file_params_def schedule_file_from_row_def row_get numeral_eq_Suc)

record schedule_details =
  sd_sched :: schedule
  sd_mvts :: "schedule_mvt list"

record fahrplan_mqr =
  fq_mvts :: "(int \<times> schedule_mvt) list"
  fq_schedules :: "(int \<times> schedule) list"

record fahrplan_cmqr =
  fc_mvts :: "(int \<times> schedule_mvt) list"
  fc_connecting_mvts :: "(int \<times> schedule_mvt) list"
  fc_schedules :: "(int \<times> schedule) list"

section \<open>Properties\<close>

text \<open>
  The byte of flags stored for a schedule says the same as the days it was imported
  with: the schedule runs on an ISO weekday exactly when that day was set in the feed, and
  never on a number that is no weekday.
\<close>

theorem days_from_ntrod_faithful:
  "runs_on_iso_weekday (days_from_ntrod d) wd \<longleftrightarrow> value_for_iso_weekday d wd = Some True"
proof (cases d)
  case (fields mo tu we th fr sa su)
  have "wd \<in> {1, 2, 3, 4, 5, 6, 7} \<or> from_iso_weekday wd = None \<and> value_for_iso_weekday d wd = None"
    by (auto simp: from_iso_weekday_def value_for_iso_weekday_def)
  then show ?thesis
    by (cases mo; cases tu; cases we; cases th; cases fr; cases sa; cases su)
       (auto simp: fields runs_on_iso_weekday_def days_from_ntrod_def days_insert_def
          days_contains_def from_iso_weekday_def value_for_iso_weekday_def day_flags Let_def)
qed

text \<open>
  What the joined queries of the service decode: in a row of a schedule movement
  followed by its schedule and by another schedule, each of the three is read back at
  the offset the code computes from the \<open>FIELDS\<close> constants.
\<close>

theorem fahrplan_join_row_decodes:
  assumes "from_bits_truncate (sch_days s) = sch_days s"
    and "from_bits_truncate (sch_days s2) = sch_days s2"
  shows "schedule_mvt_from_row (schedule_mvt_row m @ schedule_row s @ schedule_row s2) 0 = Inr m \<and>
    schedule_from_row (schedule_mvt_row m @ schedule_row s @ schedule_row s2)
      SCHEDULE_MVT_FIELDS = Inr s \<and>
    schedule_from_row (schedule_mvt_row m @ schedule_row s @ schedule_row s2)
      (SCHEDULE_MVT_FIELDS + SCHEDULE_FIELDS) = Inr s2"
  using assms schedule_mvt_rows.decode_first [of m]
    schedule_rows.decode_at [of s "schedule_mvt_row m"]
    schedule_rows.decode_last [of s2 "schedule_mvt_row m @ schedule_row s"]
  by (simp add: schedule_mvt_rows.enc_length schedule_rows.enc_length)

lemma fahrplan_join_row_decodes_witness:
  "\<exists>s. schedule_from_row (schedule_mvt_row dummy_mvt @ schedule_row s @ schedule_row s)
      (SCHEDULE_MVT_FIELDS + SCHEDULE_FIELDS) = Inr s \<and> sch_days s = 31"
proof -
  define s where "s = \<lparr>sch_id = 1, sch_tspl_id = Uuid 1, sch_uid = ''C1'', sch_start_date = NaiveDate 1,
    sch_end_date = NaiveDate 2, sch_days = 31, sch_stp_indicator = ''P'', sch_signalling_id = None,
    sch_source = 0, sch_file_metaseq = None, sch_darwin_id = None, sch_crosses_midnight = False\<rparr>"
  have "from_bits_truncate (sch_days s) = sch_days s" by (simp add: s_def from_bits_truncate_def)
  from fahrplan_join_row_decodes [OF this this, of dummy_mvt] show ?thesis
    by (intro exI [of _ s]) (simp add: s_def)
qed

end
