(* ===== verification/Rpc.thy ===== *)
theory Rpc
  imports Migrations
begin

text \<open>
  \<open>tspl-util/src/rpc.rs\<close> and \<open>tspl-util/src/http.rs\<close>: how the services call one another.
  A server turns the result of \<open>on_request\<close> into a response (\<open>process_request\<close>), a client
  turns a response, or a transport failure, into a value or an \<open>RpcError\<close>
  (\<open>req_with_headers\<close>). A body is either the JSON form of a value, kept as the value, or text;
  \<open>ser\<close> is the text of a JSON body.

  The locale \<open>error_status\<close> is the contract of the trait \<open>StatusCode\<close>: no error has a success
  code. In it we prove that a call through HTTP gives the value exactly when the handler
  did, and which error the client sees otherwise. Every error type of the services is
  an interpretation.
\<close>

datatype rpc_error =
  RemoteNotFound
| RemoteServiceUnavailable
| RemoteError (re_service: string) (re_code: nat) (re_error: string)
| Reqwest string

fun rpc_status_code :: "rpc_error \<Rightarrow> nat" where
  "rpc_status_code RemoteNotFound = 404"
| "rpc_status_code RemoteServiceUnavailable = 503"
| "rpc_status_code (RemoteError _ _ _) = 502"
| "rpc_status_code (Reqwest _) = 500"

datatype 'a body = Json 'a | Text string

record 'a response =
  rs_status :: nat
  rs_body :: "'a body"

definition json_response :: "'a \<Rightarrow> 'a response" where
  "json_response a = \<lparr>rs_status = 200, rs_body = Json a\<rparr>"

definition text_response :: "string \<Rightarrow> 'a response" where
  "text_response t = \<lparr>rs_status = 200, rs_body = Text t\<rparr>"

text \<open>\<open>HttpServer::process_request\<close>.\<close>

definition process_request ::
    "('e \<Rightarrow> nat) \<Rightarrow> ('e \<Rightarrow> string) \<Rightarrow> 'e + 'a response \<Rightarrow> 'a response" where
  "process_request status display ret =
     (case ret of
        Inr r \<Rightarrow> r
      | Inl e \<Rightarrow>
          \<lparr>rs_status = status e, rs_body = Text (''error: '' @ display e @ [CHR 0x0A])\<rparr>)"

definition is_success :: "nat \<Rightarrow> bool" where
  "is_success code \<longleftrightarrow> 200 \<le> code \<and> code < 300"

text \<open>\<open>MicroserviceRpc::req_with_headers\<close>, given what \<open>send()\<close> returned.\<close>

definition req_with_headers ::
    "('a \<Rightarrow> string) \<Rightarrow> string \<Rightarrow> string + 'a response \<Rightarrow> rpc_error + 'a" where
  "req_with_headers ser name sent =
     (case sent of
        Inl e \<Rightarrow> Inl (Reqwest e)
      | Inr resp \<Rightarrow>
          if rs_status resp = 404 then Inl RemoteNotFound
          else if rs_status resp = 503 then Inl RemoteServiceUnavailable
          else if \<not> is_success (rs_status resp)
          then Inl (RemoteError name (rs_status resp)
                 (case rs_body resp of Text t \<Rightarrow> t | Json a \<Rightarrow> ser a))
          else (case rs_body resp of Json a \<Rightarrow> Inr a | Text t \<Rightarrow> Inl (Reqwest t)))"

text \<open>A call of a handler that answers with JSON, over a connection that works.\<close>

definition rpc_call ::
    "('a \<Rightarrow> string) \<Rightarrow> string \<Rightarrow> ('e \<Rightarrow> nat) \<Rightarrow> ('e \<Rightarrow> string) \<Rightarrow> 'e + 'a \<Rightarrow> rpc_error + 'a" where
  "rpc_call ser name status display ret =
     req_with_headers ser name (Inr (process_request status display (res_map json_response ret)))"

locale error_status =
  fixes status :: "'e \<Rightarrow> nat"
  assumes no_success: "\<not> is_success (status e)"
begin

lemma call_Inr [simp]: "rpc_call ser name status display (Inr a) = Inr a"
  by (simp add: rpc_call_def req_with_headers_def process_request_def json_response_def is_success_def)

lemma call_Inl:
  "rpc_call ser name status display (Inl e) =
     Inl (if status e = 404 then RemoteNotFound
          else if status e = 503 then RemoteServiceUnavailable
          else RemoteError name (status e) (''error: '' @ display e @ [CHR 0x0A]))"
  using no_success [of e]
  by (simp add: rpc_call_def req_with_headers_def process_request_def)

lemma call_Inr_iff: "rpc_call ser name status display r = Inr a \<longleftrightarrow> r = Inr a"
  by (cases r) (simp_all add: call_Inl)

lemma call_not_found_iff:
  "rpc_call ser name status display r = Inl RemoteNotFound \<longleftrightarrow> (\<exists>e. r = Inl e \<and> status e = 404)"
  by (cases r) (simp_all add: call_Inl)

lemma call_error_code:
  "rpc_call ser name status display r = Inl x \<Longrightarrow> rpc_status_code x \<in> {404, 502, 503}"
  by (cases r) (auto simp: call_Inl split: if_splits)

end

text \<open>\<open>RpcError\<close> itself has a code, used by the services that pass one on.\<close>

interpretation rpc_status: error_status rpc_status_code
proof
  show "\<not> is_success (rpc_status_code e)" for e
    by (cases e) (simp_all add: is_success_def)
qed

end
