(* ===== verification/Fahrplan.thy ===== *)
theory Fahrplan
  imports Fahrplan_Types Rpc
begin

text \<open>
  \<open>tspl-fahrplan/src/ctx.rs\<close> and \<open>errors.rs\<close>: the schedule service. Its database is a record
  of tables; a table is the list of its rows in the order a scan gives them. The queries
  are the SQL of the source read as list operations: a \<open>WHERE\<close> clause is a filter, a
  \<open>JOIN\<close> runs through the rows of both tables. Every operation here reads only.

  \<open>FPanic\<close> stands for an \<open>unwrap\<close> that fails. Taking a connection from the pool is not
  modelled: an operation starts with its connection.
\<close>

record fahrplan_db =
  fdb_schedules :: "schedule list"
  fdb_mvts :: "schedule_mvt list"
  fdb_files :: "schedule_file list"

datatype fahrplan_error =
  FNotFound
| FInvalidPath
| FStpIndicatorsEqual
| FSql sql_error
| FRsql rsql_error
| FPool
| FJobQueueError
| FPanic

fun fahrplan_status_code :: "fahrplan_error \<Rightarrow> nat" where
  "fahrplan_status_code FNotFound = 404"
| "fahrplan_status_code FInvalidPath = 400"
| "fahrplan_status_code _ = 500"

interpretation fahrplan_status: error_status fahrplan_status_code
proof
  show "\<not> is_success (fahrplan_status_code e)" for e
    by (cases e) (simp_all add: is_success_def)
qed

section \<open>The schedule that applies on a day\<close>

fun auth_loop :: "nat \<Rightarrow> schedule option \<Rightarrow> schedule list \<Rightarrow> fahrplan_error + schedule option" where
  "auth_loop wd ret [] = Inr ret"
| "auth_loop wd ret (sched # scheds) =
     (if \<not> runs_on_iso_weekday (sch_days sched) wd then auth_loop wd ret scheds
      else (case ret of
              None \<Rightarrow> auth_loop wd (Some sched) scheds
            | Some other \<Rightarrow>
                if sch_stp_indicator sched < sch_stp_indicator other
                then auth_loop wd (Some sched) scheds
                else if sch_stp_indicator sched = sch_stp_indicator other \<and>
                        sch_stp_indicator sched \<noteq> ''C''
                then Inl FStpIndicatorsEqual
                else auth_loop wd (Some other) scheds))"

definition get_auth_schedule ::
    "chrono \<Rightarrow> fahrplan_db \<Rightarrow> string \<Rightarrow> naive_date \<Rightarrow> u8 \<Rightarrow> fahrplan_error + schedule option" where
  "get_auth_schedule C db uid on_date source =
     auth_loop (iso_weekday C on_date) None
       (filter (\<lambda>s. sch_uid s = uid \<and> sch_start_date s \<le> on_date \<and> on_date \<le> sch_end_date s \<and>
                    sch_source s = source)
               (fdb_schedules db))"

section \<open>Movement queries\<close>

definition process_schedule_join ::
    "(string \<times> schedule) list \<Rightarrow> schedule \<Rightarrow> schedule option \<Rightarrow> (string \<times> schedule) list" where
  "process_schedule_join scheds sched updating =
     (let uid = sch_uid sched;
          scheds1 = (if map_of scheds uid = None then AList.update uid sched scheds else scheds)
      in case updating of
           None \<Rightarrow> scheds1
         | Some u \<Rightarrow>
             (case map_of scheds1 uid of
                None \<Rightarrow> scheds1
              | Some cur \<Rightarrow>
                  if sch_stp_indicator u < sch_stp_indicator cur
                  then AList.update uid u scheds1 else scheds1))"

definition uid_scheds_to_id_scheds :: "(string \<times> schedule) list \<Rightarrow> (int \<times> schedule) list" where
  "uid_scheds_to_id_scheds inp =
     fold (\<lambda>(_, s) acc. AList.update (sch_id s) s acc) inp []"

text \<open>The rows of a \<open>LEFT OUTER JOIN\<close>: one row of \<open>NULL\<close>s when nothing matches.\<close>

definition outer_join :: "'a list \<Rightarrow> 'a option list" where
  "outer_join xs = (if xs = [] then [None] else map Some xs)"

text \<open>\<open>:date BETWEEN s.start_date AND s.end_date AND s.days & :days\<close>.\<close>

definition valid_on :: "naive_date \<Rightarrow> schedule_days \<Rightarrow> schedule \<Rightarrow> bool" where
  "valid_on date days s \<longleftrightarrow>
     sch_start_date s \<le> date \<and> date \<le> sch_end_date s \<and> days_and (sch_days s) days"

definition in_window :: "string \<Rightarrow> naive_time \<Rightarrow> naive_time \<Rightarrow> schedule_mvt \<Rightarrow> bool" where
  "in_window tpl start_time end_time m \<longleftrightarrow>
     smv_tiploc m = tpl \<and> start_time \<le> smv_time m \<and> smv_time m \<le> end_time \<and>
     smv_day_offset m = 0"

definition fahrplan_mvt_rows ::
    "fahrplan_db \<Rightarrow> string \<Rightarrow> naive_time \<Rightarrow> naive_time \<Rightarrow> naive_date \<Rightarrow> schedule_days \<Rightarrow>
     (schedule_mvt \<times> schedule \<times> schedule option) list" where
  "fahrplan_mvt_rows db tpl start_time end_time date days =
     [(m, s, s2).
        m \<leftarrow> fdb_mvts db,
        s \<leftarrow> fdb_schedules db, sch_id s = smv_parent_sched m,
        s2 \<leftarrow> outer_join (filter (\<lambda>x. sch_uid s = sch_uid x) (fdb_schedules db)),
        in_window tpl start_time end_time m,
        valid_on date days s,
        (case s2 of None \<Rightarrow> False | Some x \<Rightarrow> valid_on date days x)]"

definition get_mvts_passing_through ::
    "chrono \<Rightarrow> fahrplan_db \<Rightarrow> string \<Rightarrow> naive_datetime \<Rightarrow> int \<Rightarrow> fahrplan_error + fahrplan_mqr" where
  "get_mvts_passing_through C db tpl ts within_dur =
     (let (start_time, end_time) = calculate_non_midnight_aware_times C ts within_dur
      in case from_iso_weekday (iso_weekday C (dt_date ts)) of
           None \<Rightarrow> Inl FPanic
         | Some days \<Rightarrow>
             (let rows = fahrplan_mvt_rows db tpl start_time end_time (dt_date ts) days;
                  smvts = fold (\<lambda>(m, s, s2) acc. AList.update (smv_id m) m acc) rows [];
                  schedules = fold (\<lambda>(m, s, s2) acc. process_schedule_join acc s s2) rows [];
                  id_schedules = uid_scheds_to_id_scheds schedules
              in Inr \<lparr>fq_mvts = retain (\<lambda>_ m. map_of id_schedules (smv_parent_sched m) \<noteq> None) smvts,
                      fq_schedules = id_schedules\<rparr>))"

definition fahrplan_conn_rows ::
    "fahrplan_db \<Rightarrow> string \<Rightarrow> string \<Rightarrow> naive_time \<Rightarrow> naive_time \<Rightarrow> naive_date \<Rightarrow> schedule_days \<Rightarrow>
     (schedule_mvt \<times> schedule_mvt \<times> schedule \<times> schedule option) list" where
  "fahrplan_conn_rows db tpl tpl_conn start_time end_time date days =
     [(m, cm, s, s2).
        m \<leftarrow> fdb_mvts db,
        cm \<leftarrow> fdb_mvts db, smv_parent_sched m = smv_parent_sched cm,
        s \<leftarrow> fdb_schedules db, sch_id s = smv_parent_sched m,
        s2 \<leftarrow> outer_join (filter (\<lambda>x. sch_uid s = sch_uid x) (fdb_schedules db)),
        in_window tpl start_time end_time m,
        valid_on date days s,
        (case s2 of None \<Rightarrow> False | Some x \<Rightarrow> valid_on date days x),
        smv_tiploc cm = tpl_conn]"

definition get_connecting_mvts ::
    "chrono \<Rightarrow> fahrplan_db \<Rightarrow> string \<Rightarrow> naive_datetime \<Rightarrow> int \<Rightarrow> string \<Rightarrow>
     fahrplan_error + fahrplan_cmqr" where
  "get_connecting_mvts C db tpl ts within_dur conn =
     (let (start_time, end_time) = calculate_non_midnight_aware_times C ts within_dur
      in case from_iso_weekday (iso_weekday C (dt_date ts)) of
           None \<Rightarrow> Inl FPanic
         | Some days \<Rightarrow>
             (let rows = fahrplan_conn_rows db tpl conn start_time end_time (dt_date ts) days;
                  connecting = fold (\<lambda>(m, cm, s, s2) acc. AList.update (smv_id m) cm acc) rows [];
                  smvts = fold (\<lambda>(m, cm, s, s2) acc. AList.update (smv_id m) m acc) rows [];
                  schedules = fold (\<lambda>(m, cm, s, s2) acc. process_schedule_join acc s s2) rows [];
                  id_schedules = uid_scheds_to_id_scheds schedules;
                  smvts' = retain (\<lambda>_ m. map_of id_schedules (smv_parent_sched m) \<noteq> None) smvts
              in Inr \<lparr>fc_mvts = smvts',
                      fc_connecting_mvts = retain (\<lambda>i _. map_of smvts' i \<noteq> None) connecting,
                      fc_schedules = id_schedules\<rparr>))"

section \<open>Lookups\<close>

definition find_schedules_with_uid :: "fahrplan_db \<Rightarrow> string \<Rightarrow> schedule list" where
  "find_schedules_with_uid db uid = filter (\<lambda>s. sch_uid s = uid) (fdb_schedules db)"

definition find_schedule_for_activation ::
    "fahrplan_db \<Rightarrow> string \<Rightarrow> string \<Rightarrow> naive_date \<Rightarrow> u8 \<Rightarrow> fahrplan_error + schedule" where
  "find_schedule_for_activation db uid stp_indicator start_date source =
     ok_or FNotFound
       (nth0 (filter (\<lambda>s. sch_uid s = uid \<and> sch_stp_indicator s = stp_indicator \<and>
                          sch_start_date s = start_date \<and> sch_source s = source)
                     (fdb_schedules db)))"

definition find_schedule_on_date ::
    "chrono \<Rightarrow> fahrplan_db \<Rightarrow> string \<Rightarrow> naive_date \<Rightarrow> u8 \<Rightarrow> fahrplan_error + schedule" where
  "find_schedule_on_date C db uid on_date source =
     res_bind (get_auth_schedule C db uid on_date source) (ok_or FNotFound)"

definition request_schedule_details :: "fahrplan_db \<Rightarrow> uuid \<Rightarrow> fahrplan_error + schedule_details" where
  "request_schedule_details db uu =
     res_map
       (\<lambda>sched. \<lparr>sd_sched = sched,
          sd_mvts = sort_key smv_key
            (filter (\<lambda>m. smv_parent_sched m = sch_id sched) (fdb_mvts db))\<rparr>)
       (ok_or FNotFound (nth0 (filter (\<lambda>s. sch_tspl_id s = uu) (fdb_schedules db))))"

section \<open>The routes\<close>

text \<open>
  \<open>on_request\<close>: a request after the router has read the path and its parameters. \<open>FOther\<close> is a
  path no route matches. \<open>display\<close> and \<open>ser\<close> are not needed: a body is kept as the value.
\<close>

datatype fahrplan_request =
  FRoot
| FSchedulesByUid string
| FSchedulesByUidOnDate string naive_date u8
| FSchedulesForActivation string naive_date string u8
| FSchedule uuid
| FMvtsThrough string naive_datetime u32
| FMvtsThroughAnd string string naive_datetime u32
| FOther

datatype fahrplan_body =
  FBSchedules "schedule list"
| FBSchedule schedule
| FBDetails schedule_details
| FBMvts fahrplan_mqr
| FBConnecting fahrplan_cmqr

fun fahrplan_on_request ::
    "string \<Rightarrow> chrono \<Rightarrow> fahrplan_db \<Rightarrow> fahrplan_request \<Rightarrow> fahrplan_error + fahrplan_body response" where
  "fahrplan_on_request version C db FRoot =
     Inr (text_response (''tspl-fahrplan '' @ version @ [CHR 0x0A]))"
| "fahrplan_on_request version C db (FSchedulesByUid uid) =
     Inr (json_response (FBSchedules (find_schedules_with_uid db uid)))"
| "fahrplan_on_request version C db (FSchedulesByUidOnDate uid on_date source) =
     res_map (\<lambda>x. json_response (FBSchedule x)) (find_schedule_on_date C db uid on_date source)"
| "fahrplan_on_request version C db (FSchedulesForActivation uid start_date stp_indicator source) =
     res_map (\<lambda>x. json_response (FBSchedule x))
       (find_schedule_for_activation db uid stp_indicator start_date source)"
| "fahrplan_on_request version C db (FSchedule uu) =
     res_map (\<lambda>x. json_response (FBDetails x)) (request_schedule_details db uu)"
| "fahrplan_on_request version C db (FMvtsThrough tiploc ts dur) =
     res_map (\<lambda>x. json_response (FBMvts x)) (get_mvts_passing_through C db tiploc ts (uint dur))"
| "fahrplan_on_request version C db (FMvtsThroughAnd tiploc conn ts dur) =
     res_map (\<lambda>x. json_response (FBConnecting x))
       (get_connecting_mvts C db tiploc ts (uint dur) conn)"
| "fahrplan_on_request version C db FOther = Inl FInvalidPath"

section \<open>The authoritative schedule\<close>

text \<open>
  What \<open>get_auth_schedule\<close> promises: among the schedules with the UID and source that cover
  the date and run on its weekday, one whose STP indicator is least.
\<close>

definition auth_candidates ::
    "chrono \<Rightarrow> fahrplan_db \<Rightarrow> string \<Rightarrow> naive_date \<Rightarrow> u8 \<Rightarrow> schedule list" where
  "auth_candidates C db uid on_date source =
     filter (\<lambda>s. sch_uid s = uid \<and> sch_start_date s \<le> on_date \<and> on_date \<le> sch_end_date s \<and>
                 sch_source s = source \<and> runs_on_iso_weekday (sch_days s) (iso_weekday C on_date))
            (fdb_schedules db)"

definition least_stp :: "schedule \<Rightarrow> schedule list \<Rightarrow> bool" where
  "least_stp s xs \<longleftrightarrow> s \<in> set xs \<and> (\<forall>t\<in>set xs. sch_stp_indicator s \<le> sch_stp_indicator t)"

abbreviation opt_list :: "'a option \<Rightarrow> 'a list" where
  "opt_list x \<equiv> (case x of None \<Rightarrow> [] | Some a \<Rightarrow> [a])"

text \<open>The loop over the rows does the weekday check itself: it may as well run on the rows that pass.\<close>

lemma auth_loop_filter:
  "auth_loop wd ret (filter P xs) =
     auth_loop wd ret (filter (\<lambda>s. P s \<and> runs_on_iso_weekday (sch_days s) wd) xs)"
  by (induction xs arbitrary: ret) (auto split: option.splits)

lemma auth_loop_Inr:
  assumes "\<forall>s\<in>set xs. runs_on_iso_weekday (sch_days s) wd" "auth_loop wd ret xs = Inr r"
  shows "(r = None \<longleftrightarrow> opt_list ret @ xs = []) \<and> (\<forall>s. r = Some s \<longrightarrow> least_stp s (opt_list ret @ xs))"
  using assms
proof (induction xs arbitrary: ret)
  case Nil
  then show ?case by (auto simp: least_stp_def split: option.splits)
next
  case (Cons x xs)
  show ?case
  proof (cases ret)
    case None
    with Cons.prems Cons.IH [of "Some x"] show ?thesis by simp
  next
    case (Some other)
    with Cons.prems Cons.IH [of "Some x"] Cons.IH [of "Some other"]
    show ?thesis by (auto simp: least_stp_def split: if_splits)
  qed
qed

lemma auth_loop_Inl:
  assumes "\<forall>s\<in>set xs. runs_on_iso_weekday (sch_days s) wd" "auth_loop wd ret xs = Inl e"
  shows "e = FStpIndicatorsEqual \<and> \<not> distinct (map sch_stp_indicator (opt_list ret @ xs))"
  using assms
proof (induction xs arbitrary: ret)
  case Nil
  then show ?case by simp
next
  case (Cons x xs)
  show ?case
  proof (cases ret)
    case None
    with Cons.prems Cons.IH [of "Some x"] show ?thesis by simp
  next
    case (Some other)
    with Cons.prems Cons.IH [of "Some x"] Cons.IH [of "Some other"]
    show ?thesis by (auto split: if_splits)
  qed
qed

lemma auth_schedule_loop:
  "get_auth_schedule C db uid d src = auth_loop (iso_weekday C d) None (auth_candidates C db uid d src)"
  unfolding get_auth_schedule_def auth_candidates_def
  by (subst auth_loop_filter) (simp add: conj_assoc)

lemma auth_candidates_run:
  "\<forall>s\<in>set (auth_candidates C db uid d src). runs_on_iso_weekday (sch_days s) (iso_weekday C d)"
  by (simp add: auth_candidates_def)

lemma least_stp_unique:
  "distinct (map sch_stp_indicator xs) \<Longrightarrow> least_stp s xs \<Longrightarrow> least_stp t xs \<Longrightarrow> s = t"
  by (meson antisym distinct_mapD least_stp_def)

section \<open>The joined queries\<close>

text \<open>
  The constraints of the schema, \<open>tspl-fahrplan/migrations/0_initial_up.sql\<close>: the primary keys,
  the \<open>UNIQUE\<close> columns of \<open>schedules\<close>, and the foreign key of \<open>schedule_movements\<close>.
\<close>

definition schedule_unique :: "schedule \<Rightarrow> string \<times> naive_date \<times> string \<times> u8" where
  "schedule_unique s = (sch_uid s, sch_start_date s, sch_stp_indicator s, sch_source s)"

definition fdb_wf :: "fahrplan_db \<Rightarrow> bool" where
  "fdb_wf db \<longleftrightarrow> distinct (map sch_id (fdb_schedules db)) \<and> distinct (map smv_id (fdb_mvts db)) \<and>
     distinct (map sch_tspl_id (fdb_schedules db)) \<and>
     distinct (map schedule_unique (fdb_schedules db)) \<and>
     smv_parent_sched ` set (fdb_mvts db) \<subseteq> sch_id ` set (fdb_schedules db)"

text \<open>
  One schedule per UID: after the rows have been run through, the entry of a UID is one of the
  schedules seen for it, and none that was seen as superseding has a smaller STP indicator.
\<close>

definition join_step :: "schedule option \<Rightarrow> schedule \<Rightarrow> schedule \<Rightarrow> schedule" where
  "join_step cur s x =
     (let c = (case cur of None \<Rightarrow> s | Some c \<Rightarrow> c)
      in if sch_stp_indicator x < sch_stp_indicator c then x else c)"

lemma map_of_process_join [simp]:
  "map_of (process_schedule_join acc s (Some x)) =
     (map_of acc)(sch_uid s \<mapsto> join_step (map_of acc (sch_uid s)) s x)"
  by (auto simp: process_schedule_join_def join_step_def Let_def split: option.splits)

lemma distinct_process_join:
  "distinct (map fst acc) \<Longrightarrow> distinct (map fst (process_schedule_join acc s u))"
  by (auto simp: process_schedule_join_def Let_def distinct_update split: option.splits)

definition join_inv :: "(schedule \<times> schedule) list \<Rightarrow> (string \<rightharpoonup> schedule) \<Rightarrow> bool" where
  "join_inv ps m \<longleftrightarrow> dom m = (\<lambda>(s, _). sch_uid s) ` set ps \<and>
     (\<forall>k t. m k = Some t \<longrightarrow> sch_uid t = k \<and> (\<exists>(s, x)\<in>set ps. t = s \<or> t = x) \<and>
        (\<forall>(s, x)\<in>set ps. sch_uid s = k \<longrightarrow> sch_stp_indicator t \<le> sch_stp_indicator x))"

lemma join_inv_step:
  assumes inv: "join_inv ps m" and uid: "sch_uid x = sch_uid s"
  shows "join_inv (ps @ [(s, x)]) (m(sch_uid s \<mapsto> join_step (m (sch_uid s)) s x))"
proof -
  define t where "t = join_step (m (sch_uid s)) s x"
  have le: "sch_stp_indicator t \<le> sch_stp_indicator x"
    by (auto simp: t_def join_step_def Let_def split: option.splits)
  have old: "sch_stp_indicator t \<le> sch_stp_indicator c" if "m (sch_uid s) = Some c" for c
    using that by (auto simp: t_def join_step_def Let_def)
  have src: "t = s \<or> t = x \<or> m (sch_uid s) = Some t"
    by (auto simp: t_def join_step_def Let_def split: option.splits)
  have new: "sch_uid s \<notin> (\<lambda>(s, _). sch_uid s) ` set ps" if "m (sch_uid s) = None"
    using that inv unfolding join_inv_def by (metis domIff)
  show ?thesis
    unfolding t_def [symmetric]
  proof (unfold join_inv_def, intro conjI allI impI)
    show "dom (m(sch_uid s \<mapsto> t)) = (\<lambda>(s, _). sch_uid s) ` set (ps @ [(s, x)])"
      using inv by (auto simp: join_inv_def)
    fix k t'
    assume t': "(m(sch_uid s \<mapsto> t)) k = Some t'"
    show "sch_uid t' = k"
      using t' src inv uid by (auto simp: join_inv_def split: if_splits)
    show "\<exists>(s', x')\<in>set (ps @ [(s, x)]). t' = s' \<or> t' = x'"
      using t' src inv by (fastforce simp: join_inv_def split: if_splits)
    show "\<forall>(s', x')\<in>set (ps @ [(s, x)]). sch_uid s' = k \<longrightarrow>
        sch_stp_indicator t' \<le> sch_stp_indicator x'"
    proof (cases "k = sch_uid s")
      case False
      with t' inv show ?thesis by (auto simp: join_inv_def)
    next
      case True
      with t' have "t' = t" by simp
      moreover have "sch_stp_indicator t \<le> sch_stp_indicator x'"
        if "(s', x') \<in> set ps" "sch_uid s' = sch_uid s" for s' x'
      proof (cases "m (sch_uid s)")
        case None
        with new that show ?thesis by force
      next
        case (Some c)
        with inv that have "sch_stp_indicator c \<le> sch_stp_indicator x'"
          by (fastforce simp: join_inv_def)
        with old Some show ?thesis by fastforce
      qed
      ultimately show ?thesis using True le by auto
    qed
  qed
qed

lemma join_fold_inv:
  "(\<And>s x. (s, x) \<in> set ps \<Longrightarrow> sch_uid x = sch_uid s) \<Longrightarrow>
   join_inv ps (map_of (fold (\<lambda>(s, x) acc. process_schedule_join acc s (Some x)) ps []))"
proof (induction ps rule: rev_induct)
  case Nil
  show ?case by (simp add: join_inv_def)
next
  case (snoc p ps)
  obtain s x where p: "p = (s, x)" by (cases p)
  have "join_inv ps (map_of (fold (\<lambda>(s, x) acc. process_schedule_join acc s (Some x)) ps []))"
    by (rule snoc.IH) (simp add: snoc.prems)
  from join_inv_step [OF this] snoc.prems [of s x] show ?case by (simp add: p fun_upd_def)
qed

lemma join_fold_distinct:
  "distinct (map fst acc) \<Longrightarrow>
   distinct (map fst (fold (\<lambda>(s, x) acc. process_schedule_join acc s (Some x)) ps acc))"
  by (induction ps arbitrary: acc) (simp_all add: split_beta distinct_process_join)

lemma fold_update_keys:
  "map_of (fold (\<lambda>x acc. AList.update (k x) (v x) acc) xs acc) i = Some y \<Longrightarrow>
     (\<exists>x\<in>set xs. k x = i \<and> v x = y) \<or> map_of acc i = Some y"
  by (induction xs arbitrary: acc) (fastforce split: if_splits)+

lemma fold_update_dom:
  "dom (map_of (fold (\<lambda>x acc. AList.update (k x) (v x) acc) xs acc)) = k ` set xs \<union> dom (map_of acc)"
  by (induction xs arbitrary: acc) auto

lemma fold_update_distinct:
  "distinct (map fst acc) \<Longrightarrow>
   distinct (map fst (fold (\<lambda>x acc. AList.update (k x) (v x) acc) xs acc))"
  by (induction xs arbitrary: acc) (simp_all add: distinct_update)

lemma outer_join_Some [simp]: "Some x \<in> set (outer_join xs) \<longleftrightarrow> x \<in> set xs"
  by (auto simp: outer_join_def)

lemma join_rows_set:
  "(m, s, s2) \<in> set (fahrplan_mvt_rows db tpl st en date days) \<longleftrightarrow>
     m \<in> set (fdb_mvts db) \<and> s \<in> set (fdb_schedules db) \<and> sch_id s = smv_parent_sched m \<and>
     in_window tpl st en m \<and> valid_on date days s \<and>
     (\<exists>x\<in>set (fdb_schedules db). s2 = Some x \<and> sch_uid x = sch_uid s \<and> valid_on date days x)"
  by (cases s2) (auto simp: fahrplan_mvt_rows_def split: option.splits)

lemma conn_rows_set:
  "(m, cm, s, s2) \<in> set (fahrplan_conn_rows db tpl conn st en date days) \<longleftrightarrow>
     (m, s, s2) \<in> set (fahrplan_mvt_rows db tpl st en date days) \<and>
     cm \<in> set (fdb_mvts db) \<and> smv_parent_sched cm = smv_parent_sched m \<and> smv_tiploc cm = conn"
  by (cases s2) (auto simp: fahrplan_conn_rows_def fahrplan_mvt_rows_def split: option.splits)

text \<open>
  The schedules of the answer: keyed by their id, each the least of the valid schedules with
  its UID; every UID of a row has one.
\<close>

definition overrides :: "fahrplan_db \<Rightarrow> naive_date \<Rightarrow> schedule_days \<Rightarrow> string \<Rightarrow> schedule list" where
  "overrides db date days uid =
     filter (\<lambda>x. sch_uid x = uid \<and> valid_on date days x) (fdb_schedules db)"

definition join_pairs :: "fahrplan_db \<Rightarrow> naive_date \<Rightarrow> schedule_days \<Rightarrow> (schedule \<times> schedule) list \<Rightarrow> bool" where
  "join_pairs db date days ps \<longleftrightarrow>
     (\<forall>(s, x)\<in>set ps. s \<in> set (overrides db date days (sch_uid s)) \<and>
        x \<in> set (overrides db date days (sch_uid s)) \<and>
        (\<forall>y\<in>set (overrides db date days (sch_uid s)). \<exists>s'. (s', y) \<in> set ps \<and> sch_uid s' = sch_uid s))"

lemma id_schedules_set:
  assumes "distinct (map sch_id scheds)" "snd ` set inp \<subseteq> set scheds"
  shows "map_of (uid_scheds_to_id_scheds inp) i = Some t \<longleftrightarrow> t \<in> snd ` set inp \<and> sch_id t = i"
proof -
  have eq: "uid_scheds_to_id_scheds inp = fold (\<lambda>p acc. AList.update (sch_id (snd p)) (snd p) acc) inp []"
    unfolding uid_scheds_to_id_scheds_def by (rule fold_cong) (simp_all add: split_beta)
  have "dom (map_of (uid_scheds_to_id_scheds inp)) = (\<lambda>p. sch_id (snd p)) ` set inp"
    unfolding eq by (subst fold_update_dom) simp
  moreover have only: "t \<in> snd ` set inp \<and> sch_id t = i"
    if "map_of (uid_scheds_to_id_scheds inp) i = Some t" for i t
    using fold_update_keys [of "\<lambda>p. sch_id (snd p)" snd inp "[]" i t] that unfolding eq by force
  ultimately show ?thesis
    using assms by (smt (verit) distinct_mapD domIff image_iff option.exhaust subsetD)
qed

lemma join_result:
  assumes wf: "distinct (map sch_id (fdb_schedules db))" and ps: "join_pairs db date days ps"
    and acc: "acc = fold (\<lambda>(s, x) acc. process_schedule_join acc s (Some x)) ps []"
  shows "map_of (uid_scheds_to_id_scheds acc) i = Some t \<longleftrightarrow>
      sch_id t = i \<and> map_of acc (sch_uid t) = Some t"
    and "map_of acc k = Some t \<Longrightarrow> sch_uid t = k \<and> least_stp t (overrides db date days k)"
    and "k \<in> (\<lambda>(s, _). sch_uid s) ` set ps \<longleftrightarrow> map_of acc k \<noteq> None"
proof -
  have uid: "sch_uid x = sch_uid s" if "(s, x) \<in> set ps" for s x
    using ps that by (fastforce simp: join_pairs_def overrides_def)
  from join_fold_inv [OF this, of ps] have inv: "join_inv ps (map_of acc)"
    by (simp add: acc)
  have dist: "distinct (map fst acc)" unfolding acc by (rule join_fold_distinct) simp
  show least: "sch_uid t = k \<and> least_stp t (overrides db date days k)" if "map_of acc k = Some t" for k t
  proof -
    from inv that have k: "sch_uid t = k" and le: "\<And>s x. (s, x) \<in> set ps \<Longrightarrow> sch_uid s = k \<Longrightarrow>
        sch_stp_indicator t \<le> sch_stp_indicator x"
      and "\<exists>s x. (s, x) \<in> set ps \<and> (t = s \<or> t = x)"
      unfolding join_inv_def by (blast, fastforce, fastforce)
    then obtain s x where sx: "(s, x) \<in> set ps" "t = s \<or> t = x" by blast
    with uid k have "sch_uid s = k" by auto
    with ps sx have "t \<in> set (overrides db date days k)"
      and "\<And>y. y \<in> set (overrides db date days k) \<Longrightarrow> \<exists>s'. (s', y) \<in> set ps \<and> sch_uid s' = k"
      by (fastforce simp: join_pairs_def)+
    with le k show ?thesis unfolding least_stp_def by blast
  qed
  show "k \<in> (\<lambda>(s, _). sch_uid s) ` set ps \<longleftrightarrow> map_of acc k \<noteq> None"
    using inv by (auto simp: join_inv_def dom_def)
  have sub: "snd ` set acc \<subseteq> set (fdb_schedules db)"
    using least dist by (fastforce simp: least_stp_def overrides_def)
  show "map_of (uid_scheds_to_id_scheds acc) i = Some t \<longleftrightarrow>
      sch_id t = i \<and> map_of acc (sch_uid t) = Some t"
    using id_schedules_set [OF wf sub, of i t] least dist by force
qed

lemma mvt_rows_schedules:
  assumes "rows = fahrplan_mvt_rows db tpl st en date days"
  shows "fold (\<lambda>(m, s, s2) acc. process_schedule_join acc s s2) rows [] =
      fold (\<lambda>(s, x) acc. process_schedule_join acc s (Some x)) (map (\<lambda>(m, s, s2). (s, the s2)) rows) []"
    and "join_pairs db date days (map (\<lambda>(m, s, s2). (s, the s2)) rows)"
proof -
  have row: "\<exists>x. s2 = Some x" if "(m, s, s2) \<in> set rows" for m s s2
    using that by (auto simp: assms join_rows_set)
  show "fold (\<lambda>(m, s, s2) acc. process_schedule_join acc s s2) rows [] =
      fold (\<lambda>(s, x) acc. process_schedule_join acc s (Some x)) (map (\<lambda>(m, s, s2). (s, the s2)) rows) []"
    unfolding fold_map by (rule fold_cong) (use row in \<open>fastforce simp: fun_eq_iff\<close>)+
  show "join_pairs db date days (map (\<lambda>(m, s, s2). (s, the s2)) rows)"
    unfolding join_pairs_def
  proof (clarsimp, intro conjI ballI)
    fix m s s2
    assume r: "(m, s, s2) \<in> set rows"
    then show "s \<in> set (overrides db date days (sch_uid s))"
      and "the s2 \<in> set (overrides db date days (sch_uid s))"
      by (auto simp: assms join_rows_set overrides_def)
    fix y
    assume "y \<in> set (overrides db date days (sch_uid s))"
    with r have "(m, s, Some y) \<in> set rows" by (auto simp: assms join_rows_set overrides_def)
    then show "\<exists>s'. (s', y) \<in> (\<lambda>(m, s, s2). (s, the s2)) ` set rows \<and> sch_uid s' = sch_uid s"
      by force
  qed
qed

lemma conn_rows_schedules:
  assumes "rows = fahrplan_conn_rows db tpl conn st en date days"
  shows "fold (\<lambda>(m, cm, s, s2) acc. process_schedule_join acc s s2) rows [] =
      fold (\<lambda>(s, x) acc. process_schedule_join acc s (Some x)) (map (\<lambda>(m, cm, s, s2). (s, the s2)) rows) []"
    and "join_pairs db date days (map (\<lambda>(m, cm, s, s2). (s, the s2)) rows)"
proof -
  have row: "\<exists>x. s2 = Some x" if "(m, cm, s, s2) \<in> set rows" for m cm s s2
    using that by (auto simp: assms conn_rows_set join_rows_set)
  show "fold (\<lambda>(m, cm, s, s2) acc. process_schedule_join acc s s2) rows [] =
      fold (\<lambda>(s, x) acc. process_schedule_join acc s (Some x)) (map (\<lambda>(m, cm, s, s2). (s, the s2)) rows) []"
    unfolding fold_map by (rule fold_cong) (use row in \<open>fastforce simp: fun_eq_iff\<close>)+
  show "join_pairs db date days (map (\<lambda>(m, cm, s, s2). (s, the s2)) rows)"
    unfolding join_pairs_def
  proof (clarsimp, intro conjI ballI)
    fix m cm s s2
    assume r: "(m, cm, s, s2) \<in> set rows"
    then show "s \<in> set (overrides db date days (sch_uid s))"
      and "the s2 \<in> set (overrides db date days (sch_uid s))"
      by (auto simp: assms conn_rows_set join_rows_set overrides_def)
    fix y
    assume "y \<in> set (overrides db date days (sch_uid s))"
    with r have "(m, cm, s, Some y) \<in> set rows"
      by (auto simp: assms conn_rows_set join_rows_set overrides_def)
    then show "\<exists>s'. (s', y) \<in> (\<lambda>(m, cm, s, s2). (s, the s2)) ` set rows \<and> sch_uid s' = sch_uid s"
      by force
  qed
qed

lemma fold_update_exact:
  assumes "\<And>x y. x \<in> set xs \<Longrightarrow> y \<in> set xs \<Longrightarrow> k x = k y \<Longrightarrow> v x = v y"
  shows "map_of (fold (\<lambda>x acc. AList.update (k x) (v x) acc) xs []) i = Some w \<longleftrightarrow>
    (\<exists>x\<in>set xs. k x = i \<and> v x = w)"
proof
  assume "map_of (fold (\<lambda>x acc. AList.update (k x) (v x) acc) xs []) i = Some w"
  from fold_update_keys [OF this] show "\<exists>x\<in>set xs. k x = i \<and> v x = w" by simp
next
  assume "\<exists>x\<in>set xs. k x = i \<and> v x = w"
  then obtain x where x: "x \<in> set xs" "k x = i" "v x = w" by blast
  then have "i \<in> dom (map_of (fold (\<lambda>x acc. AList.update (k x) (v x) acc) xs []))"
    by (subst fold_update_dom) auto
  then obtain u where u: "map_of (fold (\<lambda>x acc. AList.update (k x) (v x) acc) xs []) i = Some u"
    by blast
  from fold_update_keys [OF this] obtain y where "y \<in> set xs" "k y = i" "v y = u" by auto
  with x assms have "u = w" by metis
  with u show "map_of (fold (\<lambda>x acc. AList.update (k x) (v x) acc) xs []) i = Some w" by simp
qed

lemma mvt_map_exact:
  assumes wf: "fdb_wf db" and rows: "rows = fahrplan_mvt_rows db tpl st en date days"
    and f: "f = (\<lambda>(m, s, s2) acc. AList.update (smv_id m) m acc)"
  shows "map_of (fold f rows []) i = Some m \<longleftrightarrow> smv_id m = i \<and> (\<exists>s s2. (m, s, s2) \<in> set rows)"
    and "distinct (map fst (fold f rows []))"
proof -
  have eq: "fold f rows [] = fold (\<lambda>x acc. AList.update (smv_id (fst x)) (fst x) acc) rows []"
    unfolding f by (rule fold_cong) (simp_all add: split_beta)
  have mem: "fst x \<in> set (fdb_mvts db)" if "x \<in> set rows" for x
    using that join_rows_set [of "fst x" "fst (snd x)" "snd (snd x)"] by (simp add: rows)
  have "fst x = fst y" if "x \<in> set rows" "y \<in> set rows" "smv_id (fst x) = smv_id (fst y)" for x y
    by (rule distinct_mapD [of smv_id "fdb_mvts db"]) (use that wf mem in \<open>auto simp: fdb_wf_def\<close>)
  from fold_update_exact [of rows "\<lambda>x. smv_id (fst x)" fst, OF this]
  show "map_of (fold f rows []) i = Some m \<longleftrightarrow> smv_id m = i \<and> (\<exists>s s2. (m, s, s2) \<in> set rows)"
    unfolding eq by force
  show "distinct (map fst (fold f rows []))"
    unfolding eq by (rule fold_update_distinct) simp
qed

text \<open>The answer to \<open>get_mvts_passing_through\<close>, read off the tables.\<close>

definition shown :: "fahrplan_db \<Rightarrow> naive_date \<Rightarrow> schedule_days \<Rightarrow> (int \<times> schedule) list \<Rightarrow> bool" where
  "shown db date days scheds \<longleftrightarrow>
     (\<forall>i t. map_of scheds i = Some t \<longrightarrow>
        sch_id t = i \<and> least_stp t (overrides db date days (sch_uid t)))"

lemma passing_through_answer:
  assumes wf: "fdb_wf db" and q: "get_mvts_passing_through C db tpl ts dur = Inr q"
    and w: "calculate_non_midnight_aware_times C ts dur = (st, en)"
    and days: "from_iso_weekday (iso_weekday C (dt_date ts)) = Some days"
  shows "map_of (fq_mvts q) i = Some m \<longleftrightarrow>
      smv_id m = i \<and> m \<in> set (fdb_mvts db) \<and> in_window tpl st en m \<and>
      (\<exists>s. map_of (fq_schedules q) (smv_parent_sched m) = Some s)"
    and "shown db (dt_date ts) days (fq_schedules q)"
    and "m \<in> set (fdb_mvts db) \<Longrightarrow> in_window tpl st en m \<Longrightarrow> s \<in> set (fdb_schedules db) \<Longrightarrow>
      sch_id s = smv_parent_sched m \<Longrightarrow> valid_on (dt_date ts) days s \<Longrightarrow>
      \<exists>t. map_of (fq_schedules q) (sch_id t) = Some t \<and> sch_uid t = sch_uid s"
proof -
  define rows where "rows = fahrplan_mvt_rows db tpl st en (dt_date ts) days"
  define ps where "ps = map (\<lambda>(m :: schedule_mvt, s, s2). (s, the s2)) rows"
  define acc where "acc = fold (\<lambda>(s, x) acc. process_schedule_join acc s (Some x)) ps []"
  define smvts where "smvts = fold (\<lambda>(m, s :: schedule, s2 :: schedule option) acc. AList.update (smv_id m) m acc) rows []"
  note sch = mvt_rows_schedules [OF rows_def]
  have dist: "distinct (map sch_id (fdb_schedules db))" using wf by (simp add: fdb_wf_def)
  note jr = join_result [OF dist sch(2) [folded ps_def] acc_def]
  have Q: "fq_schedules q = uid_scheds_to_id_scheds acc"
    "fq_mvts q = retain (\<lambda>_ m. map_of (uid_scheds_to_id_scheds acc) (smv_parent_sched m) \<noteq> None) smvts"
    using q unfolding get_mvts_passing_through_def
    by (simp_all add: w days Let_def rows_def [symmetric] sch(1) ps_def [symmetric]
        acc_def [symmetric] smvts_def) auto
  show shown: "shown db (dt_date ts) days (fq_schedules q)"
    unfolding shown_def Q using jr by blast
  show schs: "\<exists>t. map_of (fq_schedules q) (sch_id t) = Some t \<and> sch_uid t = sch_uid s"
    if "m \<in> set (fdb_mvts db)" "in_window tpl st en m" "s \<in> set (fdb_schedules db)"
      "sch_id s = smv_parent_sched m" "valid_on (dt_date ts) days s" for m s
  proof -
    have "(m, s, Some s) \<in> set rows" using that by (auto simp: rows_def join_rows_set)
    then have "sch_uid s \<in> (\<lambda>(s, _). sch_uid s) ` set ps" by (force simp: ps_def)
    then obtain t where t: "map_of acc (sch_uid s) = Some t" using jr(3) by blast
    with jr(2) [OF t] jr(1) [of "sch_id t" t] show ?thesis unfolding Q by metis
  qed
  have row: "\<exists>s s2. (m, s, s2) \<in> set rows" if "m \<in> set (fdb_mvts db)" "in_window tpl st en m"
    "map_of (fq_schedules q) (smv_parent_sched m) = Some t" for m t
  proof -
    from shown that have "sch_id t = smv_parent_sched m" "t \<in> set (overrides db (dt_date ts) days (sch_uid t))"
      by (auto simp: shown_def least_stp_def)
    with that have "(m, t, Some t) \<in> set rows" by (auto simp: rows_def join_rows_set overrides_def)
    then show ?thesis by blast
  qed
  show "map_of (fq_mvts q) i = Some m \<longleftrightarrow>
      smv_id m = i \<and> m \<in> set (fdb_mvts db) \<and> in_window tpl st en m \<and>
      (\<exists>s. map_of (fq_schedules q) (smv_parent_sched m) = Some s)"
    (is "?L \<longleftrightarrow> ?R")
  proof -
    have "?L \<longleftrightarrow> map_of smvts i = Some m \<and> (\<exists>s. map_of (fq_schedules q) (smv_parent_sched m) = Some s)"
      unfolding Q smvts_def map_of_retain_Some [OF mvt_map_exact(2) [OF wf rows_def refl]] by simp
    also have "map_of smvts i = Some m \<longleftrightarrow> smv_id m = i \<and> (\<exists>s s2. (m, s, s2) \<in> set rows)"
      unfolding smvts_def by (rule mvt_map_exact(1) [OF wf rows_def refl])
    finally have L: "?L \<longleftrightarrow> (smv_id m = i \<and> (\<exists>s s2. (m, s, s2) \<in> set rows)) \<and>
      (\<exists>s. map_of (fq_schedules q) (smv_parent_sched m) = Some s)" .
    have "(m, s, s2) \<in> set rows \<Longrightarrow> m \<in> set (fdb_mvts db) \<and> in_window tpl st en m" for s s2
      by (simp add: rows_def join_rows_set)
    with L row [of m] show ?thesis by blast
  qed
qed

lemma connecting_answer:
  assumes wf: "fdb_wf db" and q: "get_connecting_mvts C db tpl ts dur conn = Inr q"
    and w: "calculate_non_midnight_aware_times C ts dur = (st, en)"
    and days: "from_iso_weekday (iso_weekday C (dt_date ts)) = Some days"
  shows "shown db (dt_date ts) days (fc_schedules q)"
    and "map_of (fc_mvts q) i = Some m \<Longrightarrow> smv_id m = i \<and> m \<in> set (fdb_mvts db) \<and>
      in_window tpl st en m \<and> map_of (fc_schedules q) (smv_parent_sched m) \<noteq> None \<and>
      (\<exists>cm. map_of (fc_connecting_mvts q) i = Some cm \<and> cm \<in> set (fdb_mvts db) \<and>
        smv_tiploc cm = conn \<and> smv_parent_sched cm = smv_parent_sched m)"
    and "map_of (fc_connecting_mvts q) i = Some cm \<Longrightarrow> map_of (fc_mvts q) i \<noteq> None"
proof -
  define rows where "rows = fahrplan_conn_rows db tpl conn st en (dt_date ts) days"
  define ps where "ps = map (\<lambda>(m :: schedule_mvt, cm :: schedule_mvt, s, s2). (s, the s2)) rows"
  define acc where "acc = fold (\<lambda>(s, x) acc. process_schedule_join acc s (Some x)) ps []"
  define smvts where "smvts = fold (\<lambda>r acc. AList.update (smv_id (fst r)) (fst r) acc) rows []"
  define conns where "conns = fold (\<lambda>r acc. AList.update (smv_id (fst r)) (fst (snd r)) acc) rows []"
  note sch = conn_rows_schedules [OF rows_def]
  have dist: "distinct (map sch_id (fdb_schedules db))" and mdist: "distinct (map smv_id (fdb_mvts db))"
    using wf by (simp_all add: fdb_wf_def)
  note jr = join_result [OF dist sch(2) [folded ps_def] acc_def]
  have f1: "fold (\<lambda>(m, cm :: schedule_mvt, s :: schedule, s2 :: schedule option) acc.
      AList.update (smv_id m) m acc) rows [] = smvts"
    unfolding smvts_def by (rule fold_cong) (simp_all add: split_beta)
  have f2: "fold (\<lambda>(m, cm, s :: schedule, s2 :: schedule option) acc.
      AList.update (smv_id m) cm acc) rows [] = conns"
    unfolding conns_def by (rule fold_cong) (simp_all add: split_beta)
  have Q: "fc_schedules q = uid_scheds_to_id_scheds acc"
    "fc_mvts q = retain (\<lambda>_ m. map_of (uid_scheds_to_id_scheds acc) (smv_parent_sched m) \<noteq> None) smvts"
    "fc_connecting_mvts q = retain (\<lambda>i _. map_of (fc_mvts q) i \<noteq> None) conns"
    using q unfolding get_connecting_mvts_def
    by (simp_all add: w days Let_def rows_def [symmetric] sch(1) ps_def [symmetric]
        acc_def [symmetric] f1 f2) (auto simp: f1 f2)
  have dm: "distinct (map fst smvts)" "distinct (map fst conns)"
    unfolding smvts_def conns_def by (simp_all add: fold_update_distinct)
  show "shown db (dt_date ts) days (fc_schedules q)"
    unfolding shown_def Q using jr by blast
  have row: "\<exists>cm s s2. (m, cm, s, s2) \<in> set rows \<and> smv_id m = i" if "map_of smvts i = Some m" for m
    using fold_update_keys [OF that [unfolded smvts_def]] by fastforce
  show "smv_id m = i \<and> m \<in> set (fdb_mvts db) \<and>
      in_window tpl st en m \<and> map_of (fc_schedules q) (smv_parent_sched m) \<noteq> None \<and>
      (\<exists>cm. map_of (fc_connecting_mvts q) i = Some cm \<and> cm \<in> set (fdb_mvts db) \<and>
        smv_tiploc cm = conn \<and> smv_parent_sched cm = smv_parent_sched m)"
    if a: "map_of (fc_mvts q) i = Some m"
  proof -
    from a have m: "map_of smvts i = Some m" "map_of (fc_schedules q) (smv_parent_sched m) \<noteq> None"
      unfolding Q map_of_retain_Some [OF dm(1)] by (simp_all only: simp_thms)
    with row obtain cm s s2 where r: "(m, cm, s, s2) \<in> set rows" "smv_id m = i" by blast
    then have mem: "m \<in> set (fdb_mvts db)" "in_window tpl st en m"
      by (auto simp: rows_def conn_rows_set join_rows_set)
    have "i \<in> dom (map_of conns)"
      unfolding conns_def by (subst fold_update_dom) (use r in force)
    then obtain c where c: "map_of conns i = Some c" by blast
    from fold_update_keys [OF this [unfolded conns_def]]
    obtain m' s' s2' where r': "(m', c, s', s2') \<in> set rows" "smv_id m' = i" by fastforce
    then have "m' = m"
      using mem r mdist by (auto simp: rows_def conn_rows_set join_rows_set intro: distinct_mapD)
    with r' have "c \<in> set (fdb_mvts db) \<and> smv_tiploc c = conn \<and> smv_parent_sched c = smv_parent_sched m"
      by (simp add: rows_def conn_rows_set)
    moreover have "map_of (fc_connecting_mvts q) i = Some c"
      unfolding Q(3) map_of_retain_Some [OF dm(2)] using a c by simp
    ultimately show ?thesis using m mem r by blast
  qed
  show "map_of (fc_mvts q) i \<noteq> None" if "map_of (fc_connecting_mvts q) i = Some cm"
    using that unfolding Q(3) map_of_retain_Some [OF dm(2)] by simp
qed

section \<open>Properties\<close>

text \<open>
  C25. When \<open>get_auth_schedule\<close> answers, it answers with a schedule of least STP indicator among
  all those of the UID and source that cover the date and run on its weekday, and with none
  exactly when there are none. When it fails, the only error is \<open>StpIndicatorsEqual\<close>, and two of
  those schedules do have the same indicator.
\<close>

theorem auth_schedule_spec:
  "case get_auth_schedule C db uid d src of
     Inr r \<Rightarrow> (case r of None \<Rightarrow> auth_candidates C db uid d src = []
               | Some s \<Rightarrow> least_stp s (auth_candidates C db uid d src))
   | Inl e \<Rightarrow> e = FStpIndicatorsEqual \<and>
       \<not> distinct (map sch_stp_indicator (auth_candidates C db uid d src))"
  using auth_loop_Inr [OF auth_candidates_run [of C db uid d src], of None]
    auth_loop_Inl [OF auth_candidates_run [of C db uid d src], of None]
  by (auto simp: auth_schedule_loop split: sum.splits option.splits)

text \<open>
  With one schedule per STP indicator the choice does not depend on the order in which the
  database returns the rows: any table with the same rows gives the same answer, and never an
  error.
\<close>

theorem auth_schedule_order_independent:
  assumes "distinct (map sch_stp_indicator (auth_candidates C db uid d src))"
    and "mset (fdb_schedules db') = mset (fdb_schedules db)"
  shows "get_auth_schedule C db' uid d src = get_auth_schedule C db uid d src \<and>
    (\<exists>r. get_auth_schedule C db uid d src = Inr r)"
proof -
  have ms: "mset (auth_candidates C db' uid d src) = mset (auth_candidates C db uid d src)"
    using assms(2) by (simp add: auth_candidates_def)
  then have eq: "set (auth_candidates C db' uid d src) = set (auth_candidates C db uid d src)"
    by (metis set_mset_mset)
  have d': "distinct (map sch_stp_indicator (auth_candidates C db' uid d src))"
    by (metis assms(1) mset_eq_imp_distinct_iff mset_map ms)
  obtain r where r: "get_auth_schedule C db uid d src = Inr r"
    using auth_loop_Inl [OF auth_candidates_run [of C db uid d src], of None] assms(1)
    by (cases "get_auth_schedule C db uid d src") (auto simp: auth_schedule_loop)
  obtain r' where r': "get_auth_schedule C db' uid d src = Inr r'"
    using auth_loop_Inl [OF auth_candidates_run [of C db' uid d src], of None] d'
    by (cases "get_auth_schedule C db' uid d src") (auto simp: auth_schedule_loop)
  note one = auth_loop_Inr [OF auth_candidates_run [of C db uid d src], of None r, folded auth_schedule_loop, OF r]
  note two = auth_loop_Inr [OF auth_candidates_run [of C db' uid d src], of None r', folded auth_schedule_loop, OF r']
  have "r' = r"
  proof (cases r)
    case None
    with one two eq show ?thesis by simp
  next
    case (Some s)
    with one two eq obtain t where "r' = Some t" "least_stp t (auth_candidates C db' uid d src)"
      by (cases r') auto
    with Some one eq least_stp_unique [OF assms(1), of s t] show ?thesis
      by (simp add: least_stp_def)
  qed
  with r r' show ?thesis by simp
qed

definition sample_schedule :: "int \<Rightarrow> string \<Rightarrow> schedule" where
  "sample_schedule i stp =
     \<lparr>sch_id = i, sch_tspl_id = Uuid (word_of_int i), sch_uid = ''C12345'', sch_start_date = NaiveDate (737420 + i),
      sch_end_date = NaiveDate 737500, sch_days = 127, sch_stp_indicator = stp,
      sch_signalling_id = None, sch_source = SOURCE_ITPS, sch_file_metaseq = None,
      sch_darwin_id = None, sch_crosses_midnight = False\<rparr>"

definition sample_mvt :: "int \<Rightarrow> int \<Rightarrow> string \<Rightarrow> u8 \<Rightarrow> nat \<Rightarrow> schedule_mvt" where
  "sample_mvt i parent tpl act secs =
     \<lparr>smv_id = i, smv_parent_sched = parent, smv_tiploc = tpl, smv_action = act,
      smv_time = NaiveTime secs 0, smv_day_offset = 0, smv_platform = None,
      smv_public_time = None\<rparr>"

definition sample_db :: "string list \<Rightarrow> fahrplan_db" where
  "sample_db stps =
     \<lparr>fdb_schedules = map (\<lambda>(i, s). sample_schedule i s) (zip [1, 2, 3, 4] stps),
      fdb_mvts = [sample_mvt 1 1 ''EUSTON'' ACTION_DEPARTURE 36000,
                  sample_mvt 2 1 ''WATFDJ'' ACTION_PASS 37000,
                  sample_mvt 3 2 ''EUSTON'' ACTION_DEPARTURE 36300],
      fdb_files = []\<rparr>"

lemmas sample_defs = sample_db_def sample_schedule_def sample_mvt_def auth_candidates_def
  get_auth_schedule_def runs_on_iso_weekday_def from_iso_weekday_def days_contains_def day_flags
  chrono_civil_def chrono_orders SOURCE_ITPS_def

lemma auth_schedule_order_independent_witness:
  "(\<exists>r. get_auth_schedule chrono_civil (sample_db [''P'', ''O'']) ''C12345'' (NaiveDate 737430) SOURCE_ITPS = Inr r)"
  using auth_schedule_order_independent [of chrono_civil "sample_db [''P'', ''O'']" "''C12345''" "NaiveDate 737430"
      SOURCE_ITPS "sample_db [''P'', ''O'']"]
  by (simp add: sample_defs)

text \<open>
  When two schedules share an indicator the outcome does depend on the order of the rows:
  the same three rows are refused in one order and give the \<open>N\<close> schedule in another, because
  the check compares only with the best schedule so far.
\<close>

theorem auth_schedule_order_matters:
  "get_auth_schedule chrono_civil (sample_db [''P'', ''P'', ''N'']) ''C12345'' (NaiveDate 737430) SOURCE_ITPS
     = Inl FStpIndicatorsEqual \<and>
   get_auth_schedule chrono_civil (sample_db [''N'', ''P'', ''P'']) ''C12345'' (NaiveDate 737430) SOURCE_ITPS
     = Inr (Some (sample_schedule 1 ''N''))"
  by (simp add: sample_defs)

text \<open>
  C20. Every movement that \<open>get_mvts_passing_through\<close> shows is a movement of the table that
  calls at the TIPLOC within the times asked for, under its own id, and the answer carries its
  schedule: valid on the day, and not overridden by another valid schedule of the same UID with
  a smaller STP indicator.
\<close>

theorem mvts_passing_through_sound:
  assumes "fdb_wf db" "get_mvts_passing_through C db tpl ts dur = Inr q"
    and "map_of (fq_mvts q) i = Some m"
    and "from_iso_weekday (iso_weekday C (dt_date ts)) = Some days"
  shows "smv_id m = i \<and> m \<in> set (fdb_mvts db) \<and>
    in_window tpl (fst (calculate_non_midnight_aware_times C ts dur))
      (snd (calculate_non_midnight_aware_times C ts dur)) m \<and>
    (\<exists>s. map_of (fq_schedules q) (smv_parent_sched m) = Some s \<and> sch_id s = smv_parent_sched m \<and>
      least_stp s (overrides db (dt_date ts) days (sch_uid s)))"
  using passing_through_answer [OF assms(1,2) surjective_pairing assms(4)] assms(3)
  by (auto simp: shown_def)

text \<open>
  C3. Nothing that applies is left out: a movement within the times whose schedule is valid on
  the day and strictly precedes every other valid schedule of its UID is in the answer, and so
  is its schedule. A movement whose schedule is preceded by another valid one is not shown.
\<close>

theorem mvts_passing_through_complete:
  assumes "fdb_wf db" "m \<in> set (fdb_mvts db)" "s \<in> set (fdb_schedules db)"
    and "sch_id s = smv_parent_sched m"
    and "in_window tpl (fst (calculate_non_midnight_aware_times C ts dur))
      (snd (calculate_non_midnight_aware_times C ts dur)) m"
    and "from_iso_weekday (iso_weekday C (dt_date ts)) = Some days" "valid_on (dt_date ts) days s"
  shows "\<exists>q. get_mvts_passing_through C db tpl ts dur = Inr q \<and>
    ((\<forall>x\<in>set (overrides db (dt_date ts) days (sch_uid s)). x \<noteq> s \<longrightarrow> sch_stp_indicator s < sch_stp_indicator x) \<longrightarrow>
       map_of (fq_mvts q) (smv_id m) = Some m \<and> map_of (fq_schedules q) (sch_id s) = Some s) \<and>
    ((\<exists>x\<in>set (overrides db (dt_date ts) days (sch_uid s)). sch_stp_indicator x < sch_stp_indicator s) \<longrightarrow>
       map_of (fq_mvts q) (smv_id m) = None)"
proof -
  obtain q where q: "get_mvts_passing_through C db tpl ts dur = Inr q"
    using assms(6) by (auto simp: get_mvts_passing_through_def Let_def split_beta)
  note ans = passing_through_answer [OF assms(1) q surjective_pairing assms(6)]
  obtain t where t: "map_of (fq_schedules q) (sch_id t) = Some t" "sch_uid t = sch_uid s"
    using ans(3) [OF assms(2,5,3,4,7)] by blast
  have least: "least_stp t (overrides db (dt_date ts) days (sch_uid s))"
    using ans(2) t unfolding shown_def by metis
  have s: "s \<in> set (overrides db (dt_date ts) days (sch_uid s))"
    using assms(3,7) by (simp add: overrides_def)
  have same: "x = s" if "x \<in> set (fdb_schedules db)" "sch_id x = sch_id s" for x
    using assms(1,3) that by (auto simp: fdb_wf_def intro: distinct_mapD)
  have "map_of (fq_mvts q) (smv_id m) = Some m \<and> map_of (fq_schedules q) (sch_id s) = Some s"
    if "\<forall>x\<in>set (overrides db (dt_date ts) days (sch_uid s)). x \<noteq> s \<longrightarrow> sch_stp_indicator s < sch_stp_indicator x"
  proof -
    have "t = s" using that least s unfolding least_stp_def by (meson leD)
    with t ans(1) [of "smv_id m" m] assms show ?thesis by auto
  qed
  moreover have "map_of (fq_mvts q) (smv_id m) = None"
    if "x \<in> set (overrides db (dt_date ts) days (sch_uid s))" "sch_stp_indicator x < sch_stp_indicator s" for x
  proof (rule ccontr)
    assume "map_of (fq_mvts q) (smv_id m) \<noteq> None"
    then obtain m' where "map_of (fq_mvts q) (smv_id m) = Some m'" by blast
    with ans(1) have m': "smv_id m' = smv_id m" "m' \<in> set (fdb_mvts db)"
      and "\<exists>s'. map_of (fq_schedules q) (smv_parent_sched m') = Some s'" by blast+
    then obtain s' where s': "map_of (fq_schedules q) (smv_parent_sched m') = Some s'" by blast
    have "m' = m" using m' assms(1,2) by (auto simp: fdb_wf_def intro: distinct_mapD)
    with s' ans(2) assms(4) have "least_stp s' (overrides db (dt_date ts) days (sch_uid s'))"
      and "sch_id s' = sch_id s" by (auto simp: shown_def)
    moreover from this have "s' = s" by (intro same) (auto simp: least_stp_def overrides_def)
    ultimately show False using that by (auto simp: least_stp_def)
  qed
  ultimately show ?thesis using q by blast
qed

lemma sample_window:
  "calculate_non_midnight_aware_times chrono_civil (NaiveDateTime (NaiveDate 737430) (NaiveTime 36000 0)) 3600
     = (NaiveTime 32400 0, NaiveTime 39600 0)"
  by (simp add: calculate_non_midnight_aware_times_def chrono_civil_def civil_dt_add_def)

lemma sample_day: "from_iso_weekday (iso_weekday chrono_civil (NaiveDate 737430)) = Some MONDAY"
  by (simp add: chrono_civil_def from_iso_weekday_def)

lemma sample_in_window:
  "in_window ''EUSTON'' (NaiveTime 32400 0) (NaiveTime 39600 0) (sample_mvt 1 1 ''EUSTON'' ACTION_DEPARTURE 36000)"
  by (simp add: in_window_def sample_mvt_def chrono_orders)

lemma sample_valid: "i \<le> 10 \<Longrightarrow> valid_on (NaiveDate 737430) MONDAY (sample_schedule i stp)"
  by (simp add: valid_on_def sample_schedule_def chrono_orders days_and_def MONDAY_def)

lemma sample_overrides:
  "overrides (sample_db [''O'', ''P'']) (NaiveDate 737430) MONDAY ''C12345'' =
     [sample_schedule 1 ''O'', sample_schedule 2 ''P'']"
  by (simp add: overrides_def sample_db_def sample_valid, simp add: sample_schedule_def)

lemma sample_wf: "fdb_wf (sample_db [''O'', ''P''])"
  by (simp add: fdb_wf_def schedule_unique_def sample_defs)

lemma mvts_passing_through_complete_witness:
  "\<exists>q. get_mvts_passing_through chrono_civil (sample_db [''O'', ''P'']) ''EUSTON''
      (NaiveDateTime (NaiveDate 737430) (NaiveTime 36000 0)) 3600 = Inr q \<and>
     map_of (fq_mvts q) 1 = Some (sample_mvt 1 1 ''EUSTON'' ACTION_DEPARTURE 36000)"
  using mvts_passing_through_complete [OF sample_wf, where C = chrono_civil
      and m = "sample_mvt 1 1 ''EUSTON'' ACTION_DEPARTURE 36000" and s = "sample_schedule 1 ''O''"
        and tpl = "''EUSTON''" and ts = "NaiveDateTime (NaiveDate 737430) (NaiveTime 36000 0)"
        and dur = 3600 and days = MONDAY]
    sample_in_window sample_valid sample_overrides sample_day
  by (auto simp: sample_window sample_db_def)
     (auto simp: sample_schedule_def sample_mvt_def)

definition sample_answer :: fahrplan_mqr where
  "sample_answer =
     \<lparr>fq_mvts = [(1, sample_mvt 1 1 ''EUSTON'' ACTION_DEPARTURE 36000)],
      fq_schedules = [(1, sample_schedule 1 ''O'')]\<rparr>"

lemma sample_rows:
  "fahrplan_mvt_rows (sample_db [''O'', ''P'']) ''EUSTON'' (NaiveTime 32400 0) (NaiveTime 39600 0)
     (NaiveDate 737430) MONDAY =
   [(m, s, Some s2). (m, s) \<leftarrow> [(sample_mvt 1 1 ''EUSTON'' ACTION_DEPARTURE 36000, sample_schedule 1 ''O''),
                               (sample_mvt 3 2 ''EUSTON'' ACTION_DEPARTURE 36300, sample_schedule 2 ''P'')],
                    s2 \<leftarrow> [sample_schedule 1 ''O'', sample_schedule 2 ''P'']]"
proof -
  have "\<not> in_window ''EUSTON'' (NaiveTime 32400 0) (NaiveTime 39600 0) (sample_mvt 2 1 ''WATFDJ'' ACTION_PASS 37000)"
    "in_window ''EUSTON'' (NaiveTime 32400 0) (NaiveTime 39600 0) (sample_mvt 1 1 ''EUSTON'' ACTION_DEPARTURE 36000)"
    "in_window ''EUSTON'' (NaiveTime 32400 0) (NaiveTime 39600 0) (sample_mvt 3 2 ''EUSTON'' ACTION_DEPARTURE 36300)"
    by (simp_all add: in_window_def sample_mvt_def chrono_orders)
  moreover have "sch_id (sample_schedule i x) = i" "sch_uid (sample_schedule i x) = ''C12345''"
    "smv_parent_sched (sample_mvt i j t a n) = j" for i j x t a n
    by (simp_all add: sample_schedule_def sample_mvt_def)
  ultimately show ?thesis
    by (simp add: fahrplan_mvt_rows_def sample_db_def sample_valid outer_join_def)
qed

lemma sample_query:
  "get_mvts_passing_through chrono_civil (sample_db [''O'', ''P'']) ''EUSTON''
      (NaiveDateTime (NaiveDate 737430) (NaiveTime 36000 0)) 3600 = Inr sample_answer"
  by (simp add: get_mvts_passing_through_def sample_window sample_day sample_rows)
    (simp add: sample_answer_def sample_mvt_def sample_schedule_def process_schedule_join_def
      uid_scheds_to_id_scheds_def retain_def Let_def)

lemma mvts_passing_through_sound_witness:
  "\<exists>s. map_of (fq_schedules sample_answer) 1 = Some s \<and>
     least_stp s (overrides (sample_db [''O'', ''P'']) (NaiveDate 737430) MONDAY (sch_uid s))"
  using mvts_passing_through_sound [OF sample_wf sample_query, where i = 1 and days = MONDAY
      and m = "sample_mvt 1 1 ''EUSTON'' ACTION_DEPARTURE 36000"] sample_day
  by (auto simp: sample_answer_def) (auto simp: sample_mvt_def)

text \<open>
  The answer to the connecting query pairs up: a movement is shown exactly when a connecting
  movement is shown under the same id, and that one is a movement of the table at the other
  TIPLOC on the same schedule, which is in the answer.
\<close>

theorem connecting_mvts_linked:
  assumes "fdb_wf db" "get_connecting_mvts C db tpl ts dur conn = Inr q"
    and "from_iso_weekday (iso_weekday C (dt_date ts)) = Some days"
  shows "dom (map_of (fc_connecting_mvts q)) = dom (map_of (fc_mvts q)) \<and>
    (\<forall>i m. map_of (fc_mvts q) i = Some m \<longrightarrow>
       m \<in> set (fdb_mvts db) \<and> smv_id m = i \<and>
       (\<exists>cm s. map_of (fc_connecting_mvts q) i = Some cm \<and> cm \<in> set (fdb_mvts db) \<and>
          smv_tiploc cm = conn \<and> smv_parent_sched cm = smv_parent_sched m \<and>
          map_of (fc_schedules q) (smv_parent_sched m) = Some s \<and>
          least_stp s (overrides db (dt_date ts) days (sch_uid s))))"
proof -
  note ans = connecting_answer [OF assms(1,2) surjective_pairing assms(3)]
  have "dom (map_of (fc_connecting_mvts q)) = dom (map_of (fc_mvts q))"
    using ans(2,3) by (auto simp: dom_def simp del: map_of_eq_None_iff) (meson not_Some_eq)+
  moreover have "\<exists>cm s. map_of (fc_connecting_mvts q) i = Some cm \<and> cm \<in> set (fdb_mvts db) \<and>
          smv_tiploc cm = conn \<and> smv_parent_sched cm = smv_parent_sched m \<and>
          map_of (fc_schedules q) (smv_parent_sched m) = Some s \<and>
          least_stp s (overrides db (dt_date ts) days (sch_uid s))"
    if "map_of (fc_mvts q) i = Some m" for i m
    using ans(2) [OF that] ans(1) unfolding shown_def by (metis not_None_eq)
  ultimately show ?thesis using ans(2) by blast
qed

text \<open>
  \<open>request_schedule_details\<close> over HTTP: the caller of the remote procedure gets a schedule with
  that id and exactly its movements, ordered as \<open>Ord\<close> for \<open>ScheduleMvt\<close> orders them, and
  gets \<open>NotFound\<close> exactly when the database has no such schedule.
\<close>

theorem schedule_details_over_rpc:
  "case rpc_call ser name fahrplan_status_code display (request_schedule_details db uu) of
     Inr d \<Rightarrow> sd_sched d \<in> set (fdb_schedules db) \<and> sch_tspl_id (sd_sched d) = uu \<and>
       mset (sd_mvts d) = mset (filter (\<lambda>m. smv_parent_sched m = sch_id (sd_sched d)) (fdb_mvts db)) \<and>
       sorted_wrt (\<lambda>a b. smv_cmp a b \<noteq> Greater) (sd_mvts d)
   | Inl e \<Rightarrow> e = RemoteNotFound \<and> (\<forall>s\<in>set (fdb_schedules db). sch_tspl_id s \<noteq> uu)"
proof (cases "nth0 (filter (\<lambda>s. sch_tspl_id s = uu) (fdb_schedules db))")
  case None
  then have "request_schedule_details db uu = Inl FNotFound"
    by (simp add: request_schedule_details_def)
  moreover have "\<forall>s\<in>set (fdb_schedules db). sch_tspl_id s \<noteq> uu"
    using None unfolding nth0_filter_None by blast
  ultimately show ?thesis by (simp add: fahrplan_status.call_Inl)
next
  case (Some s)
  have "sorted_wrt (\<lambda>a b. smv_cmp a b \<noteq> Greater) (sort_key smv_key ms)" for ms
    using sorted_sort_key [of smv_key ms] by (simp add: smv_cmp_le sorted_map)
  with nth0_filter_Some [OF Some] show ?thesis
    by (simp add: request_schedule_details_def Some)
qed

lemma sample_connecting:
  "\<exists>q. get_connecting_mvts chrono_civil (sample_db [''O'', ''P'']) ''EUSTON''
      (NaiveDateTime (NaiveDate 737430) (NaiveTime 36000 0)) 3600 ''WATFDJ'' = Inr q"
  by (simp add: get_connecting_mvts_def sample_window sample_day Let_def)

lemma connecting_mvts_linked_witness:
  "\<exists>q. get_connecting_mvts chrono_civil (sample_db [''O'', ''P'']) ''EUSTON''
      (NaiveDateTime (NaiveDate 737430) (NaiveTime 36000 0)) 3600 ''WATFDJ'' = Inr q \<and>
     dom (map_of (fc_connecting_mvts q)) = dom (map_of (fc_mvts q))"
proof -
  obtain q where "get_connecting_mvts chrono_civil (sample_db [''O'', ''P'']) ''EUSTON''
      (NaiveDateTime (NaiveDate 737430) (NaiveTime 36000 0)) 3600 ''WATFDJ'' = Inr q"
    using sample_connecting by blast
  with connecting_mvts_linked [OF sample_wf this, where days = MONDAY] sample_day
  show ?thesis by auto
qed

lemma schedule_details_over_rpc_witness:
  "\<exists>d. rpc_call (\<lambda>_. '''') ''fahrplan'' fahrplan_status_code (\<lambda>_. '''')
       (request_schedule_details (sample_db [''P'']) (Uuid 1)) = Inr d \<and>
     mset (sd_mvts d) = {# sample_mvt 1 1 ''EUSTON'' ACTION_DEPARTURE 36000, sample_mvt 2 1 ''WATFDJ'' ACTION_PASS 37000 #}"
  using schedule_details_over_rpc [where ser = "\<lambda>_. ''''" and name = "''fahrplan''"
      and display = "\<lambda>_. ''''" and db = "sample_db [''P'']" and uu = "Uuid 1"]
  by (simp add: request_schedule_details_def) (simp add: sample_db_def sample_schedule_def sample_mvt_def)

end
