(* ===== verification/Fahrplan_Import.thy ===== *)
theory Fahrplan_Import
  imports Fahrplan Ntrod_Fns
begin

text \<open>
  \<open>tspl-fahrplan-updater\<close>: the import of schedule files. \<open>import.rs\<close> writes the database the
  service of theory \<open>Fahrplan\<close> reads; \<open>db_init.rs\<close> decides whether a database can be
  updated, \<open>download.rs\<close> which file to fetch, \<open>updater.rs\<close> retries.

  Parameters: \<open>sort_u\<close> is \<open>sort_unstable\<close> (its contract is the locale \<open>unstable_sort\<close>),
  \<open>new_v4\<close> the UUIDs drawn one after the other, \<open>parse\<close> the JSON reader. The counter
  \<open>day_offset\<close> is a byte and wraps, as in the release build.
\<close>

section \<open>The movements of a record\<close>

definition midnight_check :: "u8 \<Rightarrow> naive_time \<Rightarrow> naive_time \<Rightarrow> u8 \<times> naive_time" where
  "midnight_check day_offset last_time time =
     (if time < last_time then day_offset + 1 else day_offset, time)"

text \<open>One location: the movements it gives, with the offset and time reached after it.\<close>

definition loc_mvts ::
    "location_record \<Rightarrow> u8 \<times> naive_time \<Rightarrow> schedule_mvt list \<times> (u8 \<times> naive_time)" where
  "loc_mvts loc st =
     (case loc of
        Originating _ tiploc_code departure public_departure platform _ _ _ _ \<Rightarrow>
          (let (off, last) = midnight_check (fst st) (snd st) departure
           in ([dummy_mvt\<lparr>smv_tiploc := tiploc_code, smv_time := departure,
                  smv_public_time := public_departure, smv_action := ACTION_DEPARTURE,
                  smv_platform := platform, smv_day_offset := off\<rparr>], (off, last)))
      | Intermediate _ tiploc_code arrival departure public_arrival public_departure platform
          _ _ _ _ _ \<Rightarrow>
          (let (off, last) = midnight_check (fst st) (snd st) arrival;
               (off2, last2) = midnight_check off last departure
           in ([dummy_mvt\<lparr>smv_tiploc := tiploc_code, smv_time := arrival,
                  smv_public_time := public_arrival, smv_action := ACTION_ARRIVAL,
                  smv_platform := platform, smv_day_offset := off\<rparr>,
                dummy_mvt\<lparr>smv_tiploc := tiploc_code, smv_time := departure,
                  smv_public_time := public_departure, smv_action := ACTION_DEPARTURE,
                  smv_platform := platform, smv_day_offset := off2\<rparr>], (off2, last2)))
      | Pass _ tiploc_code pass _ _ _ \<Rightarrow>
          (let (off, last) = midnight_check (fst st) (snd st) pass
           in ([dummy_mvt\<lparr>smv_tiploc := tiploc_code, smv_time := pass,
                  smv_action := ACTION_PASS, smv_day_offset := off\<rparr>], (off, last)))
      | Terminating _ tiploc_code arrival public_arrival platform _ \<Rightarrow>
          (let (off, last) = midnight_check (fst st) (snd st) arrival
           in ([dummy_mvt\<lparr>smv_tiploc := tiploc_code, smv_time := arrival,
                  smv_public_time := public_arrival, smv_action := ACTION_ARRIVAL,
                  smv_platform := platform, smv_day_offset := off\<rparr>], (off, last))))"

fun collect_mvts :: "location_record list \<Rightarrow> u8 \<times> naive_time \<Rightarrow> schedule_mvt list" where
  "collect_mvts [] st = []"
| "collect_mvts (loc # locs) st = fst (loc_mvts loc st) @ collect_mvts locs (snd (loc_mvts loc st))"

text \<open>\<open>IsSorted::is_sorted\<close>: no element is greater than its successor.\<close>

fun mvts_is_sorted :: "schedule_mvt list \<Rightarrow> bool" where
  "mvts_is_sorted (a # b # xs) = (smv_partial_cmp a b \<noteq> Some Greater \<and> mvts_is_sorted (b # xs))"
| "mvts_is_sorted _ = True"

definition record_mvts ::
    "(schedule_mvt list \<Rightarrow> schedule_mvt list) \<Rightarrow> location_record list \<Rightarrow> schedule_mvt list" where
  "record_mvts sort_u locs =
     (let mvts = collect_mvts locs (0, from_hms 0 0 0)
      in if mvts_is_sorted mvts then mvts else sort_u mvts)"

section \<open>Statements\<close>

datatype import_error =
  ImpSql rsql_error
| ImpNoTimetable
| ImpInsertedAlready
| ImpGreaterSequence
| ImpIo

definition insert_schedule :: "schedule \<Rightarrow> fahrplan_db \<Rightarrow> import_error + int \<times> fahrplan_db" where
  "insert_schedule s db =
     (if sch_tspl_id s \<in> sch_tspl_id ` set (fdb_schedules db)
      then Inl (ImpSql (ConstraintUnique ''schedules.tspl_id''))
      else if schedule_unique s \<in> schedule_unique ` set (fdb_schedules db)
      then Inl (ImpSql (ConstraintUnique ''schedules.uid, start_date, stp_indicator, source''))
      else (let rid = next_rowid (map sch_id (fdb_schedules db))
            in Inr (rid, db\<lparr>fdb_schedules := fdb_schedules db @ [s\<lparr>sch_id := rid\<rparr>]\<rparr>)))"

definition insert_schedule_mvt :: "schedule_mvt \<Rightarrow> fahrplan_db \<Rightarrow> import_error + fahrplan_db" where
  "insert_schedule_mvt m db =
     (if smv_parent_sched m \<notin> sch_id ` set (fdb_schedules db) then Inl (ImpSql ConstraintForeignKey)
      else Inr (db\<lparr>fdb_mvts := fdb_mvts db @ [m\<lparr>smv_id := next_rowid (map smv_id (fdb_mvts db))\<rparr>]\<rparr>))"

definition delete_schedules :: "(schedule \<Rightarrow> bool) \<Rightarrow> fahrplan_db \<Rightarrow> fahrplan_db" where
  "delete_schedules P db =
     db\<lparr>fdb_schedules := filter (\<lambda>s. \<not> P s) (fdb_schedules db),
        fdb_mvts := filter (\<lambda>m. smv_parent_sched m \<notin> sch_id ` set (filter P (fdb_schedules db)))
                      (fdb_mvts db)\<rparr>"

definition mvts_of_sched :: "fahrplan_db \<Rightarrow> int \<Rightarrow> schedule_mvt list" where
  "mvts_of_sched db sid =
     sort_key smv_key (filter (\<lambda>m. smv_parent_sched m = sid) (fdb_mvts db))"

definition replace_schedule :: "int \<Rightarrow> uuid \<Rightarrow> fahrplan_db \<Rightarrow> import_error + fahrplan_db" where
  "replace_schedule sid uu db =
     (if \<exists>s\<in>set (fdb_schedules db). sch_tspl_id s = uu \<and> sch_id s \<noteq> sid
      then Inl (ImpSql (ConstraintUnique ''schedules.tspl_id''))
      else Inr (db\<lparr>fdb_mvts := filter (\<lambda>m. smv_parent_sched m \<noteq> sid) (fdb_mvts db),
                  fdb_schedules := map (\<lambda>s. if sch_id s = sid then s\<lparr>sch_tspl_id := uu\<rparr> else s)
                                       (fdb_schedules db)\<rparr>))"

section \<open>\<open>apply_schedule_record\<close>\<close>

definition itps_key :: "string \<Rightarrow> naive_date \<Rightarrow> stp_indicator \<Rightarrow> schedule \<Rightarrow> bool" where
  "itps_key train_uid start_date stp s \<longleftrightarrow>
     sch_uid s = train_uid \<and> sch_start_date s = start_date \<and>
     sch_stp_indicator s = [as_char stp] \<and> sch_source s = SOURCE_ITPS"

definition new_schedule ::
    "uuid \<Rightarrow> string \<Rightarrow> naive_date \<Rightarrow> naive_date \<Rightarrow> ntrod_days \<Rightarrow> stp_indicator \<Rightarrow> string option \<Rightarrow>
     u32 \<Rightarrow> schedule" where
  "new_schedule uu train_uid start_date end_date days_runs stp signalling_id metaseq =
     \<lparr>sch_id = -1, sch_tspl_id = uu, sch_uid = train_uid, sch_start_date = start_date,
      sch_end_date = end_date, sch_days = days_from_ntrod days_runs,
      sch_stp_indicator = [as_char stp], sch_signalling_id = signalling_id,
      sch_source = SOURCE_ITPS, sch_file_metaseq = Some metaseq, sch_darwin_id = None,
      sch_crosses_midnight = False\<rparr>"

definition insert_record_mvts ::
    "int \<Rightarrow> schedule_mvt list \<Rightarrow> fahrplan_db \<Rightarrow> import_error + fahrplan_db" where
  "insert_record_mvts sid mvts db =
     res_fold (\<lambda>m. insert_schedule_mvt (m\<lparr>smv_parent_sched := sid\<rparr>)) mvts db"

definition apply_schedule_record ::
    "(schedule_mvt list \<Rightarrow> schedule_mvt list) \<Rightarrow> uuid \<Rightarrow> schedule_record \<Rightarrow> u32 \<Rightarrow> fahrplan_db \<Rightarrow>
     import_error + fahrplan_db" where
  "apply_schedule_record sort_u uu rec metaseq db =
     (case rec of
        SchedDelete train_uid _ start_date stp \<Rightarrow>
          Inr (delete_schedules (itps_key train_uid start_date stp) db)
      | SchedCreate train_uid _ start_date end_date days_runs _ _ stp _ _ segment \<Rightarrow>
          (let mvts = record_mvts sort_u (ss_schedule_location segment)
           in case nth0 (filter (itps_key train_uid start_date stp) (fdb_schedules db)) of
                None \<Rightarrow>
                  res_bind (insert_schedule (new_schedule uu train_uid start_date end_date
                      days_runs stp (ss_signalling_id segment) metaseq) db)
                    (\<lambda>(sid, db1). insert_record_mvts sid mvts db1)
              | Some s \<Rightarrow>
                  (let sid = sch_id s; orig_mvts = mvts_of_sched db sid
                   in if list_all2 smv_eq orig_mvts mvts then Inr db
                      else res_bind (replace_schedule sid uu db) (insert_record_mvts sid mvts))))"

section \<open>\<open>apply_schedule_records\<close>\<close>

text \<open>
  The loop over the lines. The state is the buffer \<open>line\<close>, the sequence number of the file once
  it is known, the number of UUIDs drawn and the database inside the transaction. \<open>read_line\<close>
  appends to the buffer, and the buffer is cleared at the end of the body only, which the
  \<open>continue\<close> after a parse error does not reach.
\<close>

record import_state =
  is_line :: string
  is_metaseq :: "u32 option"
  is_drawn :: nat
  is_db :: fahrplan_db

definition insert_schedule_file :: "schedule_file \<Rightarrow> fahrplan_db \<Rightarrow> import_error + fahrplan_db" where
  "insert_schedule_file f db =
     (if f \<in> set (fdb_files db)
      then Inl (ImpSql (ConstraintUnique ''schedule_files.sequence, timestamp''))
      else Inr (db\<lparr>fdb_files := fdb_files db @ [f]\<rparr>))"

definition apply_timetable :: "timetable_record \<Rightarrow> import_state \<Rightarrow> import_error + import_state" where
  "apply_timetable rec st =
     (let db = is_db st; sq = tm_sequence (tt_metadata rec)
      in if filter (\<lambda>f. sf_timestamp f = tt_timestamp rec) (fdb_files db) \<noteq> []
         then Inl ImpInsertedAlready
         else if filter (\<lambda>f. sf_sequence f > sq) (fdb_files db) \<noteq> [] then Inl ImpGreaterSequence
         else res_map (\<lambda>db1. st\<lparr>is_metaseq := Some sq, is_db := db1\<rparr>)
                (insert_schedule_file \<lparr>sf_sequence = sq, sf_timestamp = tt_timestamp rec\<rparr> db))"

definition apply_line ::
    "(schedule_mvt list \<Rightarrow> schedule_mvt list) \<Rightarrow> (nat \<Rightarrow> uuid) \<Rightarrow>
     (string \<Rightarrow> schedule_file_record option) \<Rightarrow> unit + string \<Rightarrow> import_state \<Rightarrow>
     import_error + import_state" where
  "apply_line sort_u new_v4 parse rd st =
     (case rd of
        Inl _ \<Rightarrow> Inl ImpIo
      | Inr l \<Rightarrow>
          (let st = st\<lparr>is_line := is_line st @ l\<rparr>
           in case parse (is_line st) of
                None \<Rightarrow> Inr st
              | Some rec \<Rightarrow>
                  res_map (\<lambda>s. s\<lparr>is_line := []\<rparr>)
                    (case rec of
                       RecSchedule r \<Rightarrow>
                         (case is_metaseq st of
                            None \<Rightarrow> Inl ImpNoTimetable
                          | Some ms \<Rightarrow>
                              res_map (\<lambda>db1. st\<lparr>is_drawn := is_drawn st + 1, is_db := db1\<rparr>)
                                (apply_schedule_record sort_u (new_v4 (is_drawn st)) r ms (is_db st)))
                     | RecTimetable r \<Rightarrow> apply_timetable r st
                     | _ \<Rightarrow> Inr st)))"

text \<open>The transaction: the database changes only when the loop ends without an error.\<close>

definition apply_schedule_records ::
    "(schedule_mvt list \<Rightarrow> schedule_mvt list) \<Rightarrow> (nat \<Rightarrow> uuid) \<Rightarrow>
     (string \<Rightarrow> schedule_file_record option) \<Rightarrow> (unit + string) list \<Rightarrow> fahrplan_db \<Rightarrow>
     (import_error + unit) \<times> fahrplan_db" where
  "apply_schedule_records sort_u new_v4 parse reads db =
     (case res_fold (apply_line sort_u new_v4 parse) reads
             \<lparr>is_line = [], is_metaseq = None, is_drawn = 0, is_db = db\<rparr> of
        Inl e \<Rightarrow> (Inl e, db)
      | Inr st \<Rightarrow> (Inr (), is_db st))"

section \<open>\<open>db_init.rs\<close>\<close>

definition saturating_sub :: "u32 \<Rightarrow> u32 \<Rightarrow> u32" where
  "saturating_sub a b = (if a < b then 0 else a - b)"

text \<open>\<open>ts_ok\<close> is whether \<open>NaiveDateTime::from_timestamp_opt\<close> gives a value.\<close>

fun check_files_loop :: "(int \<Rightarrow> bool) \<Rightarrow> u32 \<Rightarrow> schedule_file list \<Rightarrow> bool" where
  "check_files_loop ts_ok l [] = True"
| "check_files_loop ts_ok l (f # fs) =
     (if l \<noteq> 0 \<and> saturating_sub (sf_sequence f) 1 \<noteq> l then False
      else if \<not> ts_ok (uint (sf_timestamp f)) then False
      else check_files_loop ts_ok (sf_sequence f) fs)"

definition check_schedule_files :: "(int \<Rightarrow> bool) \<Rightarrow> fahrplan_db \<Rightarrow> bool" where
  "check_schedule_files ts_ok db =
     (if length (fdb_files db) = 0 then False else check_files_loop ts_ok 0 (fdb_files db))"

section \<open>\<open>download.rs\<close> and \<open>updater.rs\<close>\<close>

definition update_file :: "chrono \<Rightarrow> naive_date \<Rightarrow> string" where
  "update_file C today =
     (let wd = iso_weekday C today; weekd = (if wd = 1 then 7 else wd - 1)
      in if weekd = 1 then ''toc-update-mon''
         else if weekd = 2 then ''toc-update-tue''
         else if weekd = 3 then ''toc-update-wed''
         else if weekd = 4 then ''toc-update-thu''
         else if weekd = 5 then ''toc-update-fri''
         else if weekd = 6 then ''toc-update-sat''
         else ''toc-update-sun'')"

text \<open>
  \<open>do_update\<close> given the server: \<open>download\<close> maps a path to the lines of the file or an error.
\<close>

definition do_update ::
    "(schedule_mvt list \<Rightarrow> schedule_mvt list) \<Rightarrow> (nat \<Rightarrow> uuid) \<Rightarrow>
     (string \<Rightarrow> schedule_file_record option) \<Rightarrow> chrono \<Rightarrow> naive_date \<Rightarrow>
     (string \<Rightarrow> import_error + (unit + string) list) \<Rightarrow> fahrplan_db \<Rightarrow>
     (import_error + unit) \<times> fahrplan_db" where
  "do_update sort_u new_v4 parse C today download db =
     (case download (''/ntrod/CifFileAuthenticate?type=CIF_ALL_UPDATE_DAILY&day='' @ update_file C today) of
        Inl e \<Rightarrow> (Inl e, db)
      | Inr reads \<Rightarrow> apply_schedule_records sort_u new_v4 parse reads db)"

definition do_init ::
    "(schedule_mvt list \<Rightarrow> schedule_mvt list) \<Rightarrow> (nat \<Rightarrow> uuid) \<Rightarrow>
     (string \<Rightarrow> schedule_file_record option) \<Rightarrow>
     (string \<Rightarrow> import_error + (unit + string) list) \<Rightarrow> fahrplan_db \<Rightarrow>
     (import_error + unit) \<times> fahrplan_db" where
  "do_init sort_u new_v4 parse download db =
     (case download ''/ntrod/CifFileAuthenticate?type=CIF_ALL_FULL_DAILY&day=toc-full'' of
        Inl e \<Rightarrow> (Inl e, db)
      | Inr reads \<Rightarrow> apply_schedule_records sort_u new_v4 parse reads db)"

definition UPDATE_TIMEOUT_MS :: u32 where "UPDATE_TIMEOUT_MS = 16000"
definition UPDATE_RETRIES :: u32 where "UPDATE_RETRIES = 9"

text \<open>
  \<open>DatabaseUpdater::update\<close>: \<open>attempt n\<close> is the outcome of try number \<open>n\<close>; the result says whether
  one succeeded and gives the milliseconds slept, in order, with the state reached.
\<close>

partial_function (option) update_loop ::
    "(nat \<Rightarrow> 's \<Rightarrow> (import_error + unit) \<times> 's) \<Rightarrow> u32 \<Rightarrow> nat \<Rightarrow> u32 \<Rightarrow> u32 \<Rightarrow> 's \<Rightarrow>
     (bool \<times> u32 list \<times> 's) option" where
  "update_loop attempt retries n cur timeout_ms s =
     (case attempt n s of
        (Inr _, s') \<Rightarrow> Some (True, [], s')
      | (Inl _, s') \<Rightarrow>
          (let cur = cur + 1
           in if cur > retries then Some (False, [], s')
              else Option.bind (update_loop attempt retries (n + 1) cur (timeout_ms * 2) s')
                     (\<lambda>(ok, sleeps, s''). Some (ok, timeout_ms # sleeps, s''))))"

definition update_database ::
    "(nat \<Rightarrow> 's \<Rightarrow> (import_error + unit) \<times> 's) \<Rightarrow> u32 option \<Rightarrow> u32 option \<Rightarrow> 's \<Rightarrow>
     (bool \<times> u32 list \<times> 's) option" where
  "update_database attempt cfg_timeout cfg_retries s =
     update_loop attempt (case cfg_retries of None \<Rightarrow> UPDATE_RETRIES | Some r \<Rightarrow> r) 0 0
       (case cfg_timeout of None \<Rightarrow> UPDATE_TIMEOUT_MS | Some t \<Rightarrow> t) s"

section \<open>The order of the movements\<close>

text \<open>What the code relies on from \<open>sort_unstable\<close>: a permutation in the order of \<open>Ord\<close>.\<close>

locale unstable_sort =
  fixes sort_u :: "schedule_mvt list \<Rightarrow> schedule_mvt list"
  assumes sort_mset: "mset (sort_u xs) = mset xs"
    and sort_sorted: "sorted (map smv_key (sort_u xs))"
begin

lemma record_mvts_mset:
  "mset (record_mvts sort_u locs) = mset (collect_mvts locs (0, from_hms 0 0 0))"
  by (simp add: record_mvts_def Let_def sort_mset)

end

interpretation std_sort: unstable_sort "sort_key smv_key"
  by unfold_locales simp_all

lemma mvts_is_sorted_iff: "mvts_is_sorted xs \<longleftrightarrow> sorted (map smv_key xs)"
proof (induction xs rule: mvts_is_sorted.induct)
  case (1 a b xs)
  have "smv_partial_cmp a b \<noteq> Some Greater \<longleftrightarrow> smv_key a \<le> smv_key b"
    using smv_cmp_le [of a b] by (simp add: smv_cmp_def smv_partial_cmp_def)
  with 1 show ?case by (auto intro: order_trans)
qed simp_all

context unstable_sort
begin

lemma record_mvts_sorted: "sorted (map smv_key (record_mvts sort_u locs))"
  by (simp add: record_mvts_def Let_def sort_sorted mvts_is_sorted_iff)

end

text \<open>Working time with the day it falls on; how the offsets of neighbours are related.\<close>

definition smv_when :: "schedule_mvt \<Rightarrow> u8 \<times> naive_time" where
  "smv_when m = (smv_day_offset m, smv_time m)"

definition next_when :: "u8 \<times> naive_time \<Rightarrow> u8 \<times> naive_time \<Rightarrow> bool" where
  "next_when a b \<longleftrightarrow> fst b = fst a + (if snd b < snd a then 1 else 0)"

fun chained :: "u8 \<times> naive_time \<Rightarrow> schedule_mvt list \<Rightarrow> bool" where
  "chained st [] = True"
| "chained st (m # ms) = (next_when st (smv_when m) \<and> chained (smv_when m) ms)"

lemma chained_append:
  "chained st (xs @ ys) \<longleftrightarrow>
     chained st xs \<and> chained (if xs = [] then st else smv_when (last xs)) ys"
  by (induction xs arbitrary: st) auto

lemma midnight_check_next: "next_when (off, t0) (midnight_check off t0 t)"
  by (simp add: next_when_def midnight_check_def)

lemma loc_mvts_chained:
  "chained st (fst (loc_mvts loc st)) \<and> fst (loc_mvts loc st) \<noteq> [] \<and>
   snd (loc_mvts loc st) = smv_when (last (fst (loc_mvts loc st))) \<and>
   length (fst (loc_mvts loc st)) \<le> 2"
  by (cases st; cases loc)
    (auto simp: loc_mvts_def Let_def split_beta smv_when_def dummy_mvt_def next_when_def
      midnight_check_def)

lemma collect_mvts_chained: "chained st (collect_mvts locs st)"
proof (induction locs arbitrary: st)
  case (Cons loc locs)
  with loc_mvts_chained [of st loc] show ?case by (auto simp: chained_append)
qed simp

lemma collect_mvts_length: "length (collect_mvts locs st) \<le> 2 * length locs"
proof (induction locs arbitrary: st)
  case (Cons loc locs)
  from loc_mvts_chained [of st loc] Cons.IH [of "snd (loc_mvts loc st)"] show ?case by simp
qed simp

lemma chained_sorted:
  "chained st ms \<Longrightarrow> unat (fst st) + length ms < 256 \<Longrightarrow>
     sorted (map smv_when ms) \<and> (\<forall>m\<in>set ms. st \<le> smv_when m)"
proof (induction ms arbitrary: st)
  case Nil
  then show ?case by simp
next
  case (Cons m ms)
  have n: "next_when st (smv_when m)" and room: "unat (fst st) + 1 < 256"
    using Cons.prems by simp_all
  have off: "unat (fst (smv_when m)) \<le> unat (fst st) + 1" and le: "st \<le> smv_when m"
    using n room by (auto simp: next_when_def less_eq_prod_def word_less_nat_alt word_le_nat_alt
        unat_word_ariths)
  have "sorted (map smv_when ms) \<and> (\<forall>x\<in>set ms. smv_when m \<le> smv_when x)"
    by (rule Cons.IH) (use Cons.prems off in auto)
  with le show ?case by (auto intro: order_trans)
qed

section \<open>What an import writes\<close>

text \<open>The rows a record adds: its movements under the schedule, with new ids.\<close>

definition rows_for :: "int \<Rightarrow> int \<Rightarrow> schedule_mvt list \<Rightarrow> schedule_mvt list" where
  "rows_for sid n ms = numbered (\<lambda>i m. m\<lparr>smv_parent_sched := sid, smv_id := i\<rparr>) n ms"

lemma rows_for_simps [simp]:
  "rows_for sid n [] = []"
  "rows_for sid n (m # ms) = m\<lparr>smv_parent_sched := sid, smv_id := n\<rparr> # rows_for sid (n + 1) ms"
  by (simp_all add: rows_for_def)

lemma rows_for_facts:
  "map smv_key (rows_for sid n ms) = map smv_key ms"
  "list_all2 smv_eq (rows_for sid n ms) ms"
  "set (map smv_id (rows_for sid n ms)) \<subseteq> {n..}" "distinct (map smv_id (rows_for sid n ms))"
  "smv_parent_sched ` set (rows_for sid n ms) \<subseteq> {sid}"
  unfolding rows_for_def
  by (rule numbered_map numbered_all2 numbered_ids; simp add: smv_key_def smv_eq_def)+
     (auto elim: numbered_set)

lemma insert_record_mvts_eq:
  "sid \<in> sch_id ` set (fdb_schedules db) \<Longrightarrow>
   insert_record_mvts sid ms db =
     Inr (db\<lparr>fdb_mvts := fdb_mvts db @ rows_for sid (next_rowid (map smv_id (fdb_mvts db))) ms\<rparr>)"
proof (induction ms arbitrary: db)
  case Nil
  then show ?case by (simp add: insert_record_mvts_def)
next
  case (Cons m ms)
  then show ?case
    by (simp add: insert_record_mvts_def insert_schedule_mvt_def next_rowid_snoc)
qed

lemma mvts_of_sched_rows:
  assumes "sorted (map smv_key ms)" "\<forall>m\<in>set old. smv_parent_sched m \<noteq> sid"
  shows "mvts_of_sched (db\<lparr>fdb_mvts := old @ rows_for sid n ms\<rparr>) sid = rows_for sid n ms"
proof -
  have "filter (\<lambda>m. smv_parent_sched m = sid) old = []"
    using assms(2) by (simp add: filter_empty_conv)
  moreover have "filter (\<lambda>m. smv_parent_sched m = sid) (rows_for sid n ms) = rows_for sid n ms"
    using rows_for_facts(5) [of sid n ms] by (auto simp: filter_id_conv)
  moreover have "sort_key smv_key (rows_for sid n ms) = rows_for sid n ms"
    using assms(1) by (intro sort_key_id_if_sorted) (simp add: rows_for_facts(1))
  ultimately show ?thesis by (simp add: mvts_of_sched_def)
qed

section \<open>Invariants of the database\<close>

text \<open>
  What every import keeps: the constraints of the schema, the files in the order of their
  sequence numbers, and schedules that are all from ITPS and never marked as crossing midnight.
\<close>

definition import_inv :: "fahrplan_db \<Rightarrow> bool" where
  "import_inv db \<longleftrightarrow> fdb_wf db \<and> sorted (map sf_sequence (fdb_files db)) \<and>
     (\<forall>s\<in>set (fdb_schedules db). sch_source s = SOURCE_ITPS \<and> \<not> sch_crosses_midnight s)"

lemma delete_schedules_wf: "fdb_wf db \<Longrightarrow> fdb_wf (delete_schedules P db)"
  by (auto simp: fdb_wf_def delete_schedules_def distinct_map_filter image_subset_iff)

lemma insert_schedule_wf:
  "fdb_wf db \<Longrightarrow> insert_schedule s db = Inr (rid, db') \<Longrightarrow>
     fdb_wf db' \<and> rid \<in> sch_id ` set (fdb_schedules db') \<and>
     fdb_schedules db' = fdb_schedules db @ [s\<lparr>sch_id := rid\<rparr>] \<and> fdb_mvts db' = fdb_mvts db \<and>
     fdb_files db' = fdb_files db \<and> (\<forall>m\<in>set (fdb_mvts db). smv_parent_sched m \<noteq> rid) \<and>
     rid \<notin> sch_id ` set (fdb_schedules db)"
proof -
  assume wf: "fdb_wf db" and ins: "insert_schedule s db = Inr (rid, db')"
  from ins have rid: "rid = next_rowid (map sch_id (fdb_schedules db))"
    and db': "db' = db\<lparr>fdb_schedules := fdb_schedules db @ [s\<lparr>sch_id := rid\<rparr>]\<rparr>"
    and new: "sch_tspl_id s \<notin> sch_tspl_id ` set (fdb_schedules db)"
      "schedule_unique s \<notin> schedule_unique ` set (fdb_schedules db)"
    by (auto simp: insert_schedule_def Let_def split: if_splits)
  have fresh: "rid \<notin> sch_id ` set (fdb_schedules db)"
    using next_rowid_fresh [of "map sch_id (fdb_schedules db)"] by (simp add: rid)
  have "schedule_unique (s\<lparr>sch_id := rid\<rparr>) = schedule_unique s" by (simp add: schedule_unique_def)
  with wf new fresh show ?thesis by (auto simp: db' fdb_wf_def)
qed

lemma replace_schedule_wf:
  assumes "fdb_wf db" "replace_schedule sid uu db = Inr db'"
  shows "fdb_wf db' \<and> fdb_files db' = fdb_files db \<and>
    fdb_schedules db' = map (\<lambda>s. if sch_id s = sid then s\<lparr>sch_tspl_id := uu\<rparr> else s) (fdb_schedules db) \<and>
    fdb_mvts db' = filter (\<lambda>m. smv_parent_sched m \<noteq> sid) (fdb_mvts db) \<and>
    sch_id ` set (fdb_schedules db') = sch_id ` set (fdb_schedules db)"
proof -
  let ?f = "\<lambda>s. if sch_id s = sid then s\<lparr>sch_tspl_id := uu\<rparr> else s"
  have db': "db' = db\<lparr>fdb_mvts := filter (\<lambda>m. smv_parent_sched m \<noteq> sid) (fdb_mvts db),
      fdb_schedules := map ?f (fdb_schedules db)\<rparr>"
    and new: "\<And>s. s \<in> set (fdb_schedules db) \<Longrightarrow> sch_tspl_id s = uu \<Longrightarrow> sch_id s = sid"
    using assms(2) by (auto simp: replace_schedule_def split: if_splits)
  have id: "map sch_id (map ?f xs) = map sch_id xs"
    and un: "map schedule_unique (map ?f xs) = map schedule_unique xs" for xs
    by (simp_all add: schedule_unique_def)
  have one: "inj_on sch_id (set (fdb_schedules db))" "inj_on sch_tspl_id (set (fdb_schedules db))"
    and d: "distinct (fdb_schedules db)"
    using assms(1) by (simp_all add: fdb_wf_def distinct_map)
  have "inj_on (\<lambda>s. sch_tspl_id (?f s)) (set (fdb_schedules db))"
  proof (rule inj_onI)
    fix a b
    assume ab: "a \<in> set (fdb_schedules db)" "b \<in> set (fdb_schedules db)"
      "sch_tspl_id (?f a) = sch_tspl_id (?f b)"
    show "a = b"
    proof (cases "sch_id a = sid \<or> sch_id b = sid")
      case True
      with ab new have "sch_id a = sch_id b" by (auto split: if_splits)
      with one ab show ?thesis by (simp add: inj_on_def)
    next
      case False
      with one ab show ?thesis by (simp add: inj_on_def)
    qed
  qed
  with d have "distinct (map sch_tspl_id (map ?f (fdb_schedules db)))"
    by (simp add: distinct_map comp_def)
  moreover have "sch_id ` set (map ?f (fdb_schedules db)) = sch_id ` set (fdb_schedules db)"
    by (metis id list.set_map)
  ultimately show ?thesis
    using assms(1) by (auto simp: db' fdb_wf_def id un distinct_map_filter simp del: map_map)
qed

lemma insert_record_mvts_wf:
  assumes "fdb_wf db" "sid \<in> sch_id ` set (fdb_schedules db)" "insert_record_mvts sid ms db = Inr db'"
  shows "fdb_wf db' \<and> fdb_files db' = fdb_files db \<and> fdb_schedules db' = fdb_schedules db"
proof -
  let ?n = "next_rowid (map smv_id (fdb_mvts db))"
  have db': "db' = db\<lparr>fdb_mvts := fdb_mvts db @ rows_for sid ?n ms\<rparr>"
    using assms(2,3) by (simp add: insert_record_mvts_eq)
  have "set (map smv_id (fdb_mvts db)) \<inter> set (map smv_id (rows_for sid ?n ms)) = {}"
    using next_rowid_gt [of _ "map smv_id (fdb_mvts db)"] rows_for_facts(3) [of sid ?n ms]
    by force
  with assms(1,2) rows_for_facts(4,5) [of sid ?n ms] show ?thesis
    by (auto simp: db' fdb_wf_def)
qed

lemma apply_schedule_record_wf:
  assumes "fdb_wf db" "apply_schedule_record sort_u uu rec ms db = Inr db'"
  shows "fdb_wf db' \<and> fdb_files db' = fdb_files db"
proof (cases rec)
  case (SchedDelete uid ty sd stp)
  with assms show ?thesis
    by (auto simp: apply_schedule_record_def delete_schedules_wf) (simp_all add: delete_schedules_def)
next
  case (SchedCreate uid ty sd ed days bh st stp app atoc seg)
  show ?thesis
  proof (cases "nth0 (filter (itps_key uid sd stp) (fdb_schedules db))")
    case None
    with SchedCreate assms(2) obtain sid db1
      where "insert_schedule (new_schedule uu uid sd ed days stp (ss_signalling_id seg) ms) db = Inr (sid, db1)"
        and "insert_record_mvts sid (record_mvts sort_u (ss_schedule_location seg)) db1 = Inr db'"
      by (auto simp: apply_schedule_record_def Let_def res_bind_Inr split: option.splits)
    with insert_schedule_wf [OF assms(1)] insert_record_mvts_wf show ?thesis by metis
  next
    case (Some s)
    have mem: "s \<in> set (fdb_schedules db)" using nth0_filter_Some [OF Some] by simp
    show ?thesis
    proof (cases "list_all2 smv_eq (mvts_of_sched db (sch_id s)) (record_mvts sort_u (ss_schedule_location seg))")
      case True
      with Some SchedCreate assms show ?thesis
        by (simp add: apply_schedule_record_def Let_def)
    next
      case False
      with Some SchedCreate assms(2) obtain db1 where r: "replace_schedule (sch_id s) uu db = Inr db1"
        and i: "insert_record_mvts (sch_id s) (record_mvts sort_u (ss_schedule_location seg)) db1 = Inr db'"
        by (auto simp: apply_schedule_record_def Let_def res_bind_Inr)
      note w = replace_schedule_wf [OF assms(1) r]
      then have "sch_id s \<in> sch_id ` set (fdb_schedules db1)" using mem by (metis imageI)
      with insert_record_mvts_wf [OF _ _ i] w show ?thesis by metis
    qed
  qed
qed

lemma apply_schedule_record_itps:
  assumes "apply_schedule_record sort_u uu rec ms db = Inr db'" "fdb_wf db"
    and "\<forall>s\<in>set (fdb_schedules db). sch_source s = SOURCE_ITPS \<and> \<not> sch_crosses_midnight s"
  shows "\<forall>s\<in>set (fdb_schedules db'). sch_source s = SOURCE_ITPS \<and> \<not> sch_crosses_midnight s"
proof (cases rec)
  case (SchedDelete uid ty sd stp)
  with assms show ?thesis by (auto simp: apply_schedule_record_def delete_schedules_def)
next
  case (SchedCreate uid ty sd ed days bh st stp app atoc seg)
  have scheds: "insert_record_mvts sid mv db1 = Inr db' \<Longrightarrow> fdb_schedules db' = fdb_schedules db1" for sid mv db1
    unfolding insert_record_mvts_def
    by (rule res_fold_invariant [where P = "\<lambda>d. fdb_schedules d = fdb_schedules db1" and s = db1])
       (auto simp: insert_schedule_mvt_def split: if_splits)
  show ?thesis
  proof (cases "nth0 (filter (itps_key uid sd stp) (fdb_schedules db))")
    case None
    with SchedCreate assms scheds show ?thesis
      by (auto simp: apply_schedule_record_def Let_def res_bind_Inr insert_schedule_def
          new_schedule_def split: if_splits dest!: scheds)
  next
    case (Some s)
    with SchedCreate assms scheds show ?thesis
      by (auto simp: apply_schedule_record_def Let_def res_bind_Inr replace_schedule_def
          split: if_splits dest!: scheds)
  qed
qed

text \<open>The loop over the lines keeps the invariant, and never forgets a file.\<close>

lemma apply_timetable_inv:
  assumes "import_inv (is_db st)" "apply_timetable r st = Inr st'"
  shows "import_inv (is_db st') \<and> set (fdb_files (is_db st)) \<subseteq> set (fdb_files (is_db st')) \<and>
    (\<exists>f\<in>set (fdb_files (is_db st')). sf_timestamp f = tt_timestamp r)"
proof -
  from assms(2) have le: "\<forall>f\<in>set (fdb_files (is_db st)). sf_sequence f \<le> tm_sequence (tt_metadata r)"
    and st': "is_db st' = (is_db st)\<lparr>fdb_files := fdb_files (is_db st) @
      [\<lparr>sf_sequence = tm_sequence (tt_metadata r), sf_timestamp = tt_timestamp r\<rparr>]\<rparr>"
    by (auto simp: apply_timetable_def Let_def res_map_Inr insert_schedule_file_def filter_empty_conv
        not_less split: if_splits)
  with assms(1) show ?thesis by (auto simp: import_inv_def fdb_wf_def sorted_append)
qed

lemma apply_line_inv:
  assumes "import_inv (is_db st)" "apply_line sort_u new_v4 parse rd st = Inr st'"
  shows "import_inv (is_db st') \<and> set (fdb_files (is_db st)) \<subseteq> set (fdb_files (is_db st'))"
proof (cases rd)
  case (Inr l)
  show ?thesis
  proof (cases "parse (is_line st @ l)")
    case (Some rec)
    show ?thesis
    proof (cases rec)
      case (RecSchedule r)
      with assms Inr Some obtain ms db1
        where "apply_schedule_record sort_u (new_v4 (is_drawn st)) r ms (is_db st) = Inr db1"
          and "is_db st' = db1"
        by (auto simp: apply_line_def Let_def res_map_Inr split: option.splits)
      with assms(1) apply_schedule_record_wf apply_schedule_record_itps show ?thesis
        unfolding import_inv_def by (metis order_refl)
    next
      case (RecTimetable r)
      with assms Inr Some obtain st1 where "apply_timetable r (st\<lparr>is_line := is_line st @ l\<rparr>) = Inr st1"
        and "is_db st' = is_db st1"
        by (auto simp: apply_line_def Let_def res_map_Inr)
      with apply_timetable_inv [OF _ this(1)] assms(1) show ?thesis by simp
    qed (use assms Inr Some in \<open>auto simp: apply_line_def Let_def\<close>)
  qed (use assms Inr in \<open>auto simp: apply_line_def Let_def\<close>)
qed (use assms in \<open>auto simp: apply_line_def\<close>)

lemma apply_records_inv:
  assumes "import_inv (is_db st)" "res_fold (apply_line sort_u new_v4 parse) reads st = Inr st'"
  shows "import_inv (is_db st') \<and> set (fdb_files (is_db st)) \<subseteq> set (fdb_files (is_db st'))"
proof -
  have "import_inv (is_db st') \<and> set (fdb_files (is_db st)) \<subseteq> set (fdb_files (is_db st'))"
    by (rule res_fold_invariant [OF _ _ assms(2),
        where P = "\<lambda>s. import_inv (is_db s) \<and> set (fdb_files (is_db st)) \<subseteq> set (fdb_files (is_db s))"])
       (use assms(1) apply_line_inv in blast)+
  then show ?thesis .
qed

text \<open>A record that brings the times already stored.\<close>

lemma same_key_unique:
  assumes "fdb_wf db" "s \<in> set (fdb_schedules db)" "itps_key uid sd stp s"
  shows "nth0 (filter (itps_key uid sd stp) (fdb_schedules db)) = Some s"
proof -
  obtain t where t: "nth0 (filter (itps_key uid sd stp) (fdb_schedules db)) = Some t"
    using assms(2,3) by (cases "nth0 (filter (itps_key uid sd stp) (fdb_schedules db))")
      (auto simp: filter_empty_conv)
  with nth0_filter_Some [OF t] assms have "schedule_unique t = schedule_unique s"
    by (simp add: itps_key_def schedule_unique_def)
  with nth0_filter_Some [OF t] assms have "t = s"
    by (auto simp: fdb_wf_def intro: distinct_mapD)
  with t show ?thesis by simp
qed

lemma list_all2_smv_eq_trans:
  "list_all2 smv_eq xs ys \<Longrightarrow> list_all2 smv_eq ys zs \<Longrightarrow> list_all2 smv_eq xs zs"
  by (rule list_all2_trans [of smv_eq smv_eq smv_eq]) (auto intro: smv_eq_equiv)

text \<open>What the database holds of the schedule after a \<open>Create\<close>.\<close>

lemma create_stores:
  assumes sort: "unstable_sort sort_u" and wf: "fdb_wf db"
    and ok: "apply_schedule_record sort_u uu (SchedCreate uid ty sd ed days bh st stp app atoc seg) ms db = Inr db'"
  shows "\<exists>s\<in>set (fdb_schedules db'). itps_key uid sd stp s \<and>
    list_all2 smv_eq (mvts_of_sched db' (sch_id s)) (record_mvts sort_u (ss_schedule_location seg)) \<and>
    (filter (itps_key uid sd stp) (fdb_schedules db) = [] \<longrightarrow>
       s = (new_schedule uu uid sd ed days stp (ss_signalling_id seg) ms)\<lparr>sch_id := sch_id s\<rparr> \<and>
       (\<exists>n. mvts_of_sched db' (sch_id s) =
         rows_for (sch_id s) n (record_mvts sort_u (ss_schedule_location seg))))"
proof -
  let ?ms = "record_mvts sort_u (ss_schedule_location seg)"
  have sorted: "sorted (map smv_key ?ms)" using sort by (rule unstable_sort.record_mvts_sorted)
  have stored: "mvts_of_sched db' sid = rows_for sid n ?ms"
    if "db' = db1\<lparr>fdb_mvts := fdb_mvts db1 @ rows_for sid n ?ms\<rparr>"
      "\<forall>m\<in>set (fdb_mvts db1). smv_parent_sched m \<noteq> sid" for db1 sid n
    using mvts_of_sched_rows [OF sorted that(2)] that(1) by simp
  show ?thesis
  proof (cases "nth0 (filter (itps_key uid sd stp) (fdb_schedules db))")
    case None
    with ok obtain sid db1
      where i: "insert_schedule (new_schedule uu uid sd ed days stp (ss_signalling_id seg) ms) db = Inr (sid, db1)"
        and m: "insert_record_mvts sid ?ms db1 = Inr db'"
      by (auto simp: apply_schedule_record_def Let_def res_bind_Inr)
    note w = insert_schedule_wf [OF wf i]
    have db': "db' = db1\<lparr>fdb_mvts := fdb_mvts db1 @ rows_for sid (next_rowid (map smv_id (fdb_mvts db1))) ?ms\<rparr>"
      using m w by (simp add: insert_record_mvts_eq)
    with stored [OF db'] w have st: "mvts_of_sched db' sid = rows_for sid (next_rowid (map smv_id (fdb_mvts db1))) ?ms"
      by simp
    let ?s = "(new_schedule uu uid sd ed days stp (ss_signalling_id seg) ms)\<lparr>sch_id := sid\<rparr>"
    have "?s \<in> set (fdb_schedules db')" using w by (simp add: db')
    moreover have "itps_key uid sd stp ?s" "sch_id ?s = sid"
      by (simp_all add: itps_key_def new_schedule_def)
    ultimately show ?thesis using st rows_for_facts(2) [of sid _ ?ms]
      by (intro bexI [of _ ?s]) (auto simp del: list_all2_iff)
  next
    case (Some s)
    have s: "s \<in> set (fdb_schedules db)" "itps_key uid sd stp s"
      and ne: "filter (itps_key uid sd stp) (fdb_schedules db) \<noteq> []"
      using nth0_filter_Some [OF Some] Some by auto
    show ?thesis
    proof (cases "list_all2 smv_eq (mvts_of_sched db (sch_id s)) ?ms")
      case True
      with ok Some have "db' = db" by (simp add: apply_schedule_record_def Let_def)
      with True s ne show ?thesis by blast
    next
      case False
      with ok Some obtain db1 where r: "replace_schedule (sch_id s) uu db = Inr db1"
        and i: "insert_record_mvts (sch_id s) ?ms db1 = Inr db'"
        by (auto simp: apply_schedule_record_def Let_def res_bind_Inr)
      note w = replace_schedule_wf [OF wf r]
      have db': "db' = db1\<lparr>fdb_mvts := fdb_mvts db1 @
          rows_for (sch_id s) (next_rowid (map smv_id (fdb_mvts db1))) ?ms\<rparr>"
        
      proof -
        have "sch_id s \<in> sch_id ` set (fdb_schedules db)" using s(1) by (rule imageI)
        moreover have "sch_id ` set (fdb_schedules db1) = sch_id ` set (fdb_schedules db)"
          using w by blast
        ultimately have "sch_id s \<in> sch_id ` set (fdb_schedules db1)" by (simp only:)
        from insert_record_mvts_eq [OF this] i show ?thesis by simp
      qed
      have "list_all2 smv_eq (mvts_of_sched db' (sch_id s)) ?ms"
        using stored [OF db'] w rows_for_facts(2) by simp
      moreover have "s\<lparr>sch_tspl_id := uu\<rparr> \<in> set (fdb_schedules db')"
        using w s(1) by (simp add: db')
      moreover have "itps_key uid sd stp (s\<lparr>sch_tspl_id := uu\<rparr>)"
        using s(2) by (simp add: itps_key_def)
      ultimately show ?thesis using ne by (intro bexI [of _ "s\<lparr>sch_tspl_id := uu\<rparr>"]) simp_all
    qed
  qed
qed

lemma check_loop_accepts:
  assumes "\<And>t. 0 \<le> t \<Longrightarrow> t < 2 ^ 32 \<Longrightarrow> ts_ok t" "\<forall>f\<in>set fs. sf_sequence f \<noteq> 0"
  shows "check_files_loop ts_ok l fs \<longleftrightarrow>
    (l = 0 \<or> fs = [] \<or> sf_sequence (hd fs) = l + 1) \<and>
    successively (\<lambda>a b. sf_sequence b = sf_sequence a + 1) fs"
  using assms(2)
proof (induction fs arbitrary: l)
  case Nil
  then show ?case by simp
next
  case (Cons f fs)
  have ts: "ts_ok (uint (sf_timestamp f))"
    using assms(1) uint_lt2p [of "sf_timestamp f"] by simp
  have "saturating_sub (sf_sequence f) 1 = sf_sequence f - 1"
    using Cons.prems by (auto simp: saturating_sub_def)
  then have "saturating_sub (sf_sequence f) 1 = l \<longleftrightarrow> sf_sequence f = l + 1"
    by (auto simp: algebra_simps)
  with ts have "check_files_loop ts_ok l (f # fs) \<longleftrightarrow>
      (l = 0 \<or> sf_sequence f = l + 1) \<and> check_files_loop ts_ok (sf_sequence f) fs" by simp
  also have "check_files_loop ts_ok (sf_sequence f) fs \<longleftrightarrow>
      (fs = [] \<or> sf_sequence (hd fs) = sf_sequence f + 1) \<and>
      successively (\<lambda>a b. sf_sequence b = sf_sequence a + 1) fs"
    using Cons.IH [of "sf_sequence f"] Cons.prems by simp
  finally show ?case by (cases fs) auto
qed

text \<open>The retry loop, with the number of tries left as the measure.\<close>

lemma update_loop_returns:
  assumes "retries \<noteq> - 1" "cur \<le> retries"
  shows "\<exists>ok sleeps s'. update_loop attempt retries n cur t s = Some (ok, sleeps, s') \<and>
    length sleeps \<le> unat retries - unat cur \<and> (\<not> ok \<longrightarrow> length sleeps = unat retries - unat cur) \<and>
    (\<forall>i<length sleeps. sleeps ! i = t * 2 ^ i)"
  using assms(2)
proof (induction "unat retries - unat cur" arbitrary: cur n t s)
  case 0
  then have "cur = retries" by (simp add: word_le_nat_alt word_unat_eq_iff)
  moreover have "retries + 1 > retries"
  proof -
    have "1 + retries \<noteq> 0" using assms(1) by (simp add: eq_neg_iff_add_eq_0 add.commute)
    from unatSuc [OF this] have "unat (retries + 1) = unat retries + 1" by (simp add: add.commute)
    then show ?thesis by (simp add: word_less_nat_alt)
  qed
  ultimately show ?case by (subst update_loop.simps) (auto split: prod.splits sum.splits)
next
  case (Suc k)
  then have lt: "cur < retries" by (simp add: word_less_nat_alt)
  have next1: "unat (cur + 1) = unat cur + 1"
  proof -
    have "cur \<noteq> - 1" using lt word_order.extremum_strict by blast
    then have "1 + cur \<noteq> 0" by (simp add: eq_neg_iff_add_eq_0 add.commute)
    from unatSuc [OF this] show ?thesis by (simp add: add.commute)
  qed
  have le: "cur + 1 \<le> retries" using lt by (simp add: word_le_nat_alt word_less_nat_alt next1)
  show ?case
  proof (cases "attempt n s")
    case (Pair r s')
    show ?thesis
    proof (cases r)
      case (Inr u)
      with Pair show ?thesis
        by (intro exI [of _ True]) (subst update_loop.simps, simp)
    next
      case (Inl e)
      have "k = unat retries - unat (cur + 1)" using Suc.hyps(2) next1 by simp
      from Suc.hyps(1) [OF this le, of "n + 1" "t * 2" s'] obtain ok sleeps s''
        where r: "update_loop attempt retries (n + 1) (cur + 1) (t * 2) s' = Some (ok, sleeps, s'')"
          and sl: "length sleeps \<le> unat retries - unat (cur + 1)"
            "\<not> ok \<longrightarrow> length sleeps = unat retries - unat (cur + 1)"
            "\<forall>i<length sleeps. sleeps ! i = t * 2 * 2 ^ i" by blast
      have "update_loop attempt retries n cur t s = Some (ok, t # sleeps, s'')"
        using le r by (subst update_loop.simps) (simp add: Pair Inl not_less Let_def)
      moreover have "(t # sleeps) ! i = t * 2 ^ i" if "i < length (t # sleeps)" for i
        using sl(3) that by (cases i) (auto simp: mult.assoc)
      ultimately show ?thesis using sl next1 Suc.hyps(2) by auto
    qed
  qed
qed

text \<open>Running a file again: nothing happens before its \<open>Timetable\<close> record is met again.\<close>

lemma replay_loop:
  assumes "res_fold (apply_line sort_u new_v4 parse) reads
      \<lparr>is_line = l, is_metaseq = None, is_drawn = n, is_db = db\<rparr> = Inr st"
    and "import_inv db" "fdb_files (is_db st) \<noteq> fdb_files db"
    and "set (fdb_files (is_db st)) \<subseteq> set (fdb_files db2)"
  shows "res_fold (apply_line sort_u2 new_v42 parse) reads
      \<lparr>is_line = l, is_metaseq = None, is_drawn = n2, is_db = db2\<rparr> = Inl ImpInsertedAlready"
  using assms(1)
proof (induction reads arbitrary: l)
  case Nil
  with assms(3) show ?case by auto
next
  case (Cons rd reads)
  let ?st = "\<lambda>l. \<lparr>is_line = l, is_metaseq = None, is_drawn = n, is_db = db\<rparr>"
  let ?st2 = "\<lambda>l. \<lparr>is_line = l, is_metaseq = None, is_drawn = n2, is_db = db2\<rparr>"
  from Cons.prems obtain line where rd: "rd = Inr line"
    by (cases rd) (auto simp: apply_line_def)
  have skip: "?case"
    if "apply_line sort_u new_v4 parse rd (?st l) = Inr (?st l')"
      "apply_line sort_u2 new_v42 parse rd (?st2 l) = Inr (?st2 l')" for l'
    using Cons.IH [of l'] Cons.prems that by simp
  show ?case
  proof (cases "parse (l @ line)")
    case None
    then show ?thesis by (intro skip [of "l @ line"]) (simp_all add: apply_line_def rd Let_def)
  next
    case (Some rec)
    show ?thesis
    proof (cases rec)
      case (RecSchedule r)
      with Cons.prems Some show ?thesis by (simp add: apply_line_def rd Let_def)
    next
      case (RecTimetable r)
      have "apply_line sort_u new_v4 parse rd (?st l) =
          res_map (\<lambda>s. s\<lparr>is_line := []\<rparr>) (apply_timetable r (?st (l @ line)))"
        using Some RecTimetable by (simp add: apply_line_def rd Let_def)
      with Cons.prems obtain st1 st2
        where t: "apply_timetable r (?st (l @ line)) = Inr st1"
          and st2: "st2 = st1\<lparr>is_line := []\<rparr>"
          and rest: "res_fold (apply_line sort_u new_v4 parse) reads st2 = Inr st"
        by (auto simp: res_map_def split: sum.splits)
      from apply_timetable_inv [OF _ t] assms(2) have "import_inv (is_db st2)"
        and "\<exists>f\<in>set (fdb_files (is_db st2)). sf_timestamp f = tt_timestamp r"
        by (simp_all add: st2)
      with apply_records_inv [OF _ rest] assms(4)
      have "\<exists>f\<in>set (fdb_files db2). sf_timestamp f = tt_timestamp r" by blast
      then show ?thesis
        using Some RecTimetable by (auto simp: apply_line_def rd Let_def apply_timetable_def filter_empty_conv)
    qed (rule skip [of "[]"], simp add: apply_line_def rd Let_def Some,
         simp add: apply_line_def rd Let_def Some)+
  qed
qed

text \<open>A line that does not parse stays in the buffer, and so does everything read after it.\<close>

lemma stuck_buffer:
  assumes "\<And>x. parse (bad @ x) = None"
  shows "res_fold (apply_line sort_u new_v4 parse) (map Inr ls) (st\<lparr>is_line := bad @ x\<rparr>) =
    Inr (st\<lparr>is_line := bad @ x @ concat ls\<rparr>)"
  by (induction ls arbitrary: x) (simp_all add: apply_line_def Let_def assms)

lemma good_lines_clear:
  assumes "\<forall>l\<in>set ls. parse l \<noteq> None" "is_line st = []"
    and "res_fold (apply_line sort_u new_v4 parse) (map Inr ls) st = Inr st'"
  shows "is_line st' = []"
  using assms
proof (induction ls arbitrary: st)
  case (Cons l ls)
  obtain st1 where s1: "apply_line sort_u new_v4 parse (Inr l) st = Inr st1"
    and rest: "res_fold (apply_line sort_u new_v4 parse) (map Inr ls) st1 = Inr st'"
    using Cons.prems by (auto split: sum.splits)
  have "is_line st1 = []"
    using s1 Cons.prems(1,2) by (auto simp: apply_line_def res_map_Inr Let_def split: option.splits)
  with Cons.IH rest Cons.prems(1) show ?case by simp
qed simp

section \<open>Properties\<close>

text \<open>
  The movements of a record carry the day they fall on: the first is on day 0, each next one is
  a day later exactly when its time is earlier than that of the one before. For a record
  of fewer than 128 locations the counter does not wrap and the movements are in the order of day
  and time.
\<close>

theorem record_day_offsets:
  "chained (0, from_hms 0 0 0) (collect_mvts locs (0, from_hms 0 0 0)) \<and>
   (length locs < 128 \<longrightarrow> sorted (map smv_when (collect_mvts locs (0, from_hms 0 0 0))))"
proof -
  have "sorted (map smv_when (collect_mvts locs (0, from_hms 0 0 0)))" if "length locs < 128"
  proof -
    have "length (collect_mvts locs (0, from_hms 0 0 0)) < 256"
      using collect_mvts_length [of locs "(0, from_hms 0 0 0)"] that by linarith
    with chained_sorted [OF collect_mvts_chained] show ?thesis by simp
  qed
  with collect_mvts_chained show ?thesis by blast
qed

definition sample_locs :: "string option \<Rightarrow> location_record list" where
  "sample_locs platform =
     [Originating OrigLoc_Originating ''EUSTON'' (from_hms 23 50 0) None platform None None None None,
      Pass InterLoc_Intermediate ''WATFDJ'' (from_hms 0 5 0) None None None,
      Terminating TermLoc_Terminating ''TRING'' (from_hms 0 20 0) None None None]"

lemma record_day_offsets_witness:
  "map smv_day_offset (collect_mvts (sample_locs None) (0, from_hms 0 0 0)) = [0, 1, 1] \<and>
   sorted (map smv_when (collect_mvts (sample_locs None) (0, from_hms 0 0 0)))"
  using record_day_offsets [of "sample_locs None"]
  by (simp add: sample_locs_def loc_mvts_def midnight_check_def from_hms_def chrono_orders Let_def)


definition empty_fdb :: fahrplan_db where
  "empty_fdb = \<lparr>fdb_schedules = [], fdb_mvts = [], fdb_files = []\<rparr>"

definition every_day :: ntrod_days where
  "every_day = \<lparr>mon = True, tue = True, wed = True, thu = True, fri = True, sat = True, sun = True\<rparr>"

definition sample_segment :: "string option \<Rightarrow> schedule_segment" where
  "sample_segment platform =
     \<lparr>ss_train_category = None, ss_signalling_id = Some ''1A01'', ss_headcode = None,
      ss_business_sector = None, ss_power_type = None, ss_timing_load = None, ss_speed = None,
      ss_operating_characteristics = None, ss_train_class = None, ss_sleepers = None,
      ss_reservations = None, ss_catering_code = None, ss_service_branding = None,
      ss_schedule_location = sample_locs platform\<rparr>"

definition sample_create :: "int \<Rightarrow> ntrod_days \<Rightarrow> string option \<Rightarrow> schedule_record" where
  "sample_create end_date days platform =
     SchedCreate ''C12345'' CreateType_Create (NaiveDate 737425) (NaiveDate end_date) days None
       TrainStatus_PassengerAndParcels StpPermanent YesOrNo_Y None (sample_segment platform)"

lemma empty_wf: "fdb_wf empty_fdb"
  by (simp add: fdb_wf_def empty_fdb_def)

lemma empty_inv: "import_inv empty_fdb"
  by (simp add: import_inv_def empty_wf, simp add: empty_fdb_def)

lemma sample_sorted: "mvts_is_sorted (collect_mvts (sample_locs p) (0, from_hms 0 0 0))"
  by (simp add: sample_locs_def loc_mvts_def midnight_check_def from_hms_def chrono_orders Let_def
      smv_partial_cmp_def ord_cmp_def ord_then_def)

lemma sample_create_ok:
  "\<exists>db'. apply_schedule_record sort_u uu (sample_create ed days p) ms empty_fdb = Inr db'"
  by (simp add: apply_schedule_record_def sample_create_def empty_fdb_def insert_schedule_def
      insert_record_mvts_eq Let_def)


text \<open>
  A record that comes again changes nothing, under any UUID drawn for it, when its times
  are those already imported: also when its end date, its days, its headcode, its platforms or its
  public times are new. \<open>replaces\<close> and \<open>UPDATE\<close> happen only for other TIPLOCs, actions or times.
\<close>

theorem reimport_ignored:
  assumes "unstable_sort sort_u" "fdb_wf db"
    and "apply_schedule_record sort_u uu (SchedCreate uid ty sd ed days bh st stp app atoc seg) ms db = Inr db'"
    and "list_all2 smv_eq (record_mvts sort_u (ss_schedule_location seg))
      (record_mvts sort_u (ss_schedule_location seg'))"
  shows "apply_schedule_record sort_u uu' (SchedCreate uid ty sd ed' days' bh' st' stp app' atoc' seg') ms' db' = Inr db'"
proof -
  obtain s where s: "s \<in> set (fdb_schedules db')" "itps_key uid sd stp s"
    and eq: "list_all2 smv_eq (mvts_of_sched db' (sch_id s)) (record_mvts sort_u (ss_schedule_location seg))"
    using create_stores [OF assms(1,2,3)] by blast
  have wf: "fdb_wf db'" using apply_schedule_record_wf [OF assms(2,3)] by simp
  show ?thesis
    using same_key_unique [OF wf s] list_all2_smv_eq_trans [OF eq assms(4)]
    by (simp add: apply_schedule_record_def Let_def)
qed

lemma sample_same_times:
  "list_all2 smv_eq (record_mvts sort_u (sample_locs p)) (record_mvts sort_u (sample_locs p'))"
  by (simp add: record_mvts_def Let_def sample_sorted)
    (simp add: sample_locs_def loc_mvts_def midnight_check_def smv_eq_def Let_def)

text \<open>Here the second record moves the end date, drops the weekend and gives a platform.\<close>

lemma reimport_ignored_witness:
  "\<exists>db'. apply_schedule_record (sort_key smv_key) (Uuid 7) (sample_create 737500 every_day None) 1 empty_fdb = Inr db' \<and>
     apply_schedule_record (sort_key smv_key) (Uuid 8)
       (sample_create 737600 (every_day\<lparr>sat := False, sun := False\<rparr>) (Some ''4'')) 2 db' = Inr db'"
proof -
  obtain db' where ok: "apply_schedule_record (sort_key smv_key) (Uuid 7)
      (sample_create 737500 every_day None) 1 empty_fdb = Inr db'"
    using sample_create_ok by blast
  have "list_all2 smv_eq
      (record_mvts (sort_key smv_key) (ss_schedule_location (sample_segment None)))
      (record_mvts (sort_key smv_key) (ss_schedule_location (sample_segment (Some ''4''))))"
    using sample_same_times by (simp add: sample_segment_def)
  from reimport_ignored [OF std_sort.unstable_sort_axioms empty_wf ok [unfolded sample_create_def] this] ok
  show ?thesis unfolding sample_create_def by blast
qed

text \<open>
  C16. An import keeps the constraints of the schema and the order of the files, whether it
  succeeds or fails, marks no schedule as crossing midnight, and writes nothing when it fails.
\<close>

theorem import_preserves_inv:
  assumes "import_inv db"
  shows "import_inv (snd (apply_schedule_records sort_u new_v4 parse reads db)) \<and>
    (\<forall>e. fst (apply_schedule_records sort_u new_v4 parse reads db) = Inl e \<longrightarrow>
       snd (apply_schedule_records sort_u new_v4 parse reads db) = db)"
proof (cases "res_fold (apply_line sort_u new_v4 parse) reads
    \<lparr>is_line = [], is_metaseq = None, is_drawn = 0, is_db = db\<rparr>")
  case (Inl e)
  with assms show ?thesis by (simp add: apply_schedule_records_def)
next
  case (Inr st)
  from apply_records_inv [OF _ this] assms show ?thesis
    by (simp add: apply_schedule_records_def Inr)
qed

lemma import_preserves_inv_witness:
  "import_inv (snd (apply_schedule_records (sort_key smv_key) (\<lambda>n. Uuid 0) (\<lambda>_. None) [Inr ''x''] empty_fdb))"
  using import_preserves_inv [OF empty_inv] by blast

text \<open>
  Importing a file twice: once an import has recorded a file, a second run over the same lines
  fails with \<open>schedule inserted already!\<close>, whatever happens to have been imported in between.
\<close>

theorem replay_rejected:
  assumes "import_inv db" "apply_schedule_records sort_u new_v4 parse reads db = (Inr (), db1)"
    and "fdb_files db1 \<noteq> fdb_files db" "set (fdb_files db1) \<subseteq> set (fdb_files db2)"
  shows "apply_schedule_records sort_u2 new_v42 parse reads db2 = (Inl ImpInsertedAlready, db2)"
proof -
  obtain st where st: "res_fold (apply_line sort_u new_v4 parse) reads
      \<lparr>is_line = [], is_metaseq = None, is_drawn = 0, is_db = db\<rparr> = Inr st" and "db1 = is_db st"
    using assms(2) by (auto simp: apply_schedule_records_def split: sum.splits)
  with replay_loop [OF st assms(1)] assms(3,4) show ?thesis
    by (simp add: apply_schedule_records_def)
qed

definition sample_parse :: "string \<Rightarrow> schedule_file_record option" where
  "sample_parse l =
     (if l = ''T'' then Some (RecTimetable \<lparr>tt_classification = ''public'', tt_timestamp = 100,
         tt_owner = ''NR'', tt_sender = \<lparr>organisation = '''', application = '''', component = ''''\<rparr>,
         tt_metadata = \<lparr>tm_ty = ''full'', tm_sequence = 5\<rparr>\<rparr>)
      else if l = ''S'' then Some (RecSchedule (sample_create 737500 every_day None))
      else None)"

lemma sample_import:
  "\<exists>db1. apply_schedule_records (sort_key smv_key) (\<lambda>n. Uuid (of_nat n)) sample_parse
       [Inr ''T'', Inr ''S''] empty_fdb = (Inr (), db1) \<and>
     fdb_files db1 = [\<lparr>sf_sequence = 5, sf_timestamp = 100\<rparr>] \<and> length (fdb_schedules db1) = 1"
  by (simp add: apply_schedule_records_def apply_line_def sample_parse_def apply_timetable_def
      empty_fdb_def insert_schedule_file_def Let_def apply_schedule_record_def sample_create_def
      insert_schedule_def insert_record_mvts_eq)

lemma replay_rejected_witness:
  "\<exists>db1. apply_schedule_records (sort_key smv_key) (\<lambda>n. Uuid (of_nat n)) sample_parse
       [Inr ''T'', Inr ''S''] empty_fdb = (Inr (), db1) \<and>
     apply_schedule_records (sort_key smv_key) (\<lambda>n. Uuid (of_nat n)) sample_parse
       [Inr ''T'', Inr ''S''] db1 = (Inl ImpInsertedAlready, db1)"
proof -
  obtain db1 where run: "apply_schedule_records (sort_key smv_key) (\<lambda>n. Uuid (of_nat n)) sample_parse
       [Inr ''T'', Inr ''S''] empty_fdb = (Inr (), db1)"
    and files: "fdb_files db1 = [\<lparr>sf_sequence = 5, sf_timestamp = 100\<rparr>]"
    using sample_import by blast
  from replay_rejected [OF empty_inv run _ order_refl] files run show ?thesis
    by (simp add: empty_fdb_def)
qed

text \<open>
  The skip over a line that does not parse skips the rest of the file: the buffer is not cleared,
  every later line is appended to it and parsed together with it. When the line can not be
  completed to something that parses, the import gives the same database as the lines before it
  alone, and reports success.
\<close>

theorem bad_line_swallows_rest:
  assumes "\<And>x. parse (bad @ x) = None" "\<forall>l\<in>set good. parse l \<noteq> None"
  shows "apply_schedule_records sort_u new_v4 parse (map Inr (good @ bad # rest)) db =
    apply_schedule_records sort_u new_v4 parse (map Inr good) db"
proof (cases "res_fold (apply_line sort_u new_v4 parse) (map Inr good)
    \<lparr>is_line = [], is_metaseq = None, is_drawn = 0, is_db = db\<rparr>")
  case (Inl e)
  then show ?thesis by (simp add: apply_schedule_records_def res_fold_append)
next
  case (Inr st)
  from good_lines_clear [OF assms(2) _ this] have "is_line st = []" by simp
  moreover have "parse bad = None" using assms(1) [of "[]"] by simp
  ultimately have "apply_line sort_u new_v4 parse (Inr bad) st = Inr (st\<lparr>is_line := bad @ []\<rparr>)"
    by (simp add: apply_line_def Let_def)
  with Inr stuck_buffer [where parse = parse and bad = bad and ls = rest and st = st and x = "[]"] assms(1) show ?thesis
    by (simp add: apply_schedule_records_def res_fold_append)
qed

lemma bad_line_swallows_rest_witness:
  "\<exists>db1. apply_schedule_records (sort_key smv_key) (\<lambda>n. Uuid (of_nat n)) sample_parse
       (map Inr [''T'', ''X'', ''S'', ''S'']) empty_fdb = (Inr (), db1) \<and> fdb_schedules db1 = []"
  using bad_line_swallows_rest [of sample_parse "''X''" "[''T'']" "sort_key smv_key" "\<lambda>n. Uuid (of_nat n)"
      "[''S'', ''S'']" empty_fdb]
  by (simp add: sample_parse_def)
     (simp add: apply_schedule_records_def apply_line_def apply_timetable_def sample_parse_def
      empty_fdb_def insert_schedule_file_def Let_def)

text \<open>
  The database is accepted for an update exactly when it has a file and the sequence
  numbers are consecutive; neither the order of the timestamps nor their distance from today is
  looked at. (Every second of a \<open>u32\<close> has a date, and sequence number 0 does not occur.)
\<close>

theorem check_schedule_files_spec:
  assumes "\<And>t. 0 \<le> t \<Longrightarrow> t < 2 ^ 32 \<Longrightarrow> ts_ok t" "\<forall>f\<in>set (fdb_files db). sf_sequence f \<noteq> 0"
  shows "check_schedule_files ts_ok db \<longleftrightarrow>
    fdb_files db \<noteq> [] \<and>
    successively (\<lambda>a b. sf_sequence b = sf_sequence a + 1) (fdb_files db)"
  using check_loop_accepts [OF assms] by (simp add: check_schedule_files_def)

lemma check_schedule_files_spec_witness:
  "check_schedule_files (\<lambda>t. - 8334632851200 \<le> t \<and> t \<le> 8210298412799)
     \<lparr>fdb_schedules = [], fdb_mvts = [],
      fdb_files = [\<lparr>sf_sequence = 5, sf_timestamp = 900\<rparr>, \<lparr>sf_sequence = 6, sf_timestamp = 100\<rparr>]\<rparr>"
  by (subst check_schedule_files_spec) simp_all

text \<open>
  The update job ends for every configuration but the largest number of retries. It
  makes at most one try more than it has retries, reports failure only after all of them,
  and sleeps for the configured time, doubled after every failure, in 32 bits.
\<close>

theorem update_database_returns:
  assumes "cfg_retries \<noteq> Some (- 1)"
  shows "\<exists>ok sleeps s'. update_database attempt cfg_timeout cfg_retries s = Some (ok, sleeps, s') \<and>
    length sleeps \<le> unat (case cfg_retries of None \<Rightarrow> 9 | Some r \<Rightarrow> r) \<and>
    (\<not> ok \<longrightarrow> length sleeps = unat (case cfg_retries of None \<Rightarrow> 9 | Some r \<Rightarrow> r)) \<and>
    (\<forall>i<length sleeps. sleeps ! i = (case cfg_timeout of None \<Rightarrow> 16000 | Some t \<Rightarrow> t) * 2 ^ i)"
proof -
  define retries where "retries = (case cfg_retries of None \<Rightarrow> 9 | Some r \<Rightarrow> r)"
  have "retries \<noteq> - 1" using assms by (auto simp: retries_def split: option.splits)
  from update_loop_returns [OF this, of 0 attempt 0 "case cfg_timeout of None \<Rightarrow> 16000 | Some t \<Rightarrow> t" s]
  show ?thesis
    by (cases cfg_retries; cases cfg_timeout)
      (simp_all add: update_database_def UPDATE_RETRIES_def UPDATE_TIMEOUT_MS_def retries_def)
qed

lemma update_database_returns_witness:
  "\<exists>ok sleeps s'. update_database (\<lambda>n (s::nat). (Inl ImpIo, s)) None (Some 2) 0 = Some (ok, sleeps, s') \<and>
     length sleeps \<le> 2"
  using update_database_returns [of "Some 2" "\<lambda>n (s::nat). (Inl ImpIo, s)" None 0] by auto

end
