(* ===== verification/Zugfuhrer_Types.thy ===== *)
theory Zugfuhrer_Types
  imports Fahrplan_Types Rpc
begin

text \<open>
  \<open>tspl-zugfuhrer/src/types.rs\<close> and \<open>errors.rs\<close>: trains, their movements, the updates the
  workers send, the responses, and the errors. \<open>from_row\<close> and the parameters of
  \<open>insert_self\<close> are the two halves of a \<open>row_codec\<close>, as in theory \<open>Fahrplan_Types\<close>.
\<close>

section \<open>\<open>Train\<close>\<close>

record train =
  tr_id :: int
  tr_tspl_id :: uuid
  tr_parent_uid :: string
  tr_parent_start_date :: naive_date
  tr_parent_stp_indicator :: string
  tr_date :: naive_date
  tr_trust_id :: "string option"
  tr_darwin_rid :: "string option"
  tr_headcode :: "string option"
  tr_crosses_midnight :: bool
  tr_parent_source :: int
  tr_terminated :: bool
  tr_cancelled :: bool
  tr_activated :: bool

definition TRAIN_FIELDS :: nat where "TRAIN_FIELDS = 14"

definition train_from_row :: "row \<Rightarrow> nat \<Rightarrow> rsql_error + train" where
  "train_from_row r s =
     res_bind (get c_i64 (s + 0) r) (\<lambda>id.
     res_bind (get c_uuid (s + 1) r) (\<lambda>tspl_id.
     res_bind (get c_text (s + 2) r) (\<lambda>parent_uid.
     res_bind (get c_date (s + 3) r) (\<lambda>parent_start_date.
     res_bind (get c_text (s + 4) r) (\<lambda>parent_stp_indicator.
     res_bind (get c_date (s + 5) r) (\<lambda>date.
     res_bind (get (c_opt c_text) (s + 6) r) (\<lambda>trust_id.
     res_bind (get (c_opt c_text) (s + 7) r) (\<lambda>darwin_rid.
     res_bind (get (c_opt c_text) (s + 8) r) (\<lambda>headcode.
     res_bind (get c_bool (s + 9) r) (\<lambda>crosses_midnight.
     res_bind (get c_i32 (s + 10) r) (\<lambda>parent_source.
     res_bind (get c_bool (s + 11) r) (\<lambda>terminated.
     res_bind (get c_bool (s + 12) r) (\<lambda>cancelled.
     res_bind (get c_bool (s + 13) r) (\<lambda>activated.
     Inr \<lparr>tr_id = id, tr_tspl_id = tspl_id, tr_parent_uid = parent_uid,
          tr_parent_start_date = parent_start_date,
          tr_parent_stp_indicator = parent_stp_indicator, tr_date = date,
          tr_trust_id = trust_id, tr_darwin_rid = darwin_rid, tr_headcode = headcode,
          tr_crosses_midnight = crosses_midnight, tr_parent_source = parent_source,
          tr_terminated = terminated, tr_cancelled = cancelled,
          tr_activated = activated\<rparr>))))))))))))))"

definition train_params :: "train \<Rightarrow> row" where
  "train_params t =
     [SUuid (tr_tspl_id t), SText (tr_parent_uid t), SDate (tr_parent_start_date t),
      SText (tr_parent_stp_indicator t), SDate (tr_date t), s_opt SText (tr_trust_id t),
      s_opt SText (tr_darwin_rid t), s_opt SText (tr_headcode t), s_bool (tr_crosses_midnight t),
      SInt (tr_parent_source t), s_bool (tr_terminated t), s_bool (tr_cancelled t),
      s_bool (tr_activated t)]"

definition train_row :: "train \<Rightarrow> row" where
  "train_row t = SInt (tr_id t) # train_params t"

interpretation train_rows:
  row_codec train_row train_from_row TRAIN_FIELDS
    "\<lambda>t. - (2 ^ 31) \<le> tr_parent_source t \<and> tr_parent_source t < 2 ^ 31"
proof
  fix x :: train and pre post :: row
  show "length (train_row x) = TRAIN_FIELDS"
    by (simp add: train_row_def train_params_def TRAIN_FIELDS_def)
  show "train_from_row (pre @ train_row x @ post) (length pre) = Inr x"
    if "- (2 ^ 31) \<le> tr_parent_source x \<and> tr_parent_source x < 2 ^ 31"
    using that by (simp add: train_from_row_def train_row_def train_params_def row_get)
  show "\<exists>e. train_from_row (pre @ replicate TRAIN_FIELDS SNull @ post) (length pre) = Inl e"
    by (simp add: train_from_row_def TRAIN_FIELDS_def row_get numeral_eq_Suc)
qed

section \<open>\<open>TrainMvt\<close>\<close>

record train_mvt =
  tm_id :: int
  tm_parent_train :: int
  tm_updates :: "int option"
  tm_tiploc :: string
  tm_action :: u8
  tm_actual :: bool
  tm_time :: naive_time
  tm_public_time :: "naive_time option"
  tm_day_offset :: u8
  tm_source :: int
  tm_platform :: "string option"
  tm_pfm_suppr :: bool
  tm_unknown_delay :: bool

definition SOURCE_SCHED_ITPS :: int where "SOURCE_SCHED_ITPS = 0"
definition SOURCE_SCHED_DARWIN :: int where "SOURCE_SCHED_DARWIN = 1"
definition SOURCE_SCHED_VSTP :: int where "SOURCE_SCHED_VSTP = 2"
definition SOURCE_TRUST :: int where "SOURCE_TRUST = 3"
definition SOURCE_DARWIN_LIVE :: int where "SOURCE_DARWIN_LIVE = 4"
definition SOURCE_TRUST_NAIVE :: int where "SOURCE_TRUST_NAIVE = 5"

lemmas source_defs = SOURCE_SCHED_ITPS_def SOURCE_SCHED_DARWIN_def SOURCE_SCHED_VSTP_def
  SOURCE_TRUST_def SOURCE_DARWIN_LIVE_def SOURCE_TRUST_NAIVE_def

definition TRAIN_MVT_FIELDS :: nat where "TRAIN_MVT_FIELDS = 13"

definition from_itps :: "schedule_mvt \<Rightarrow> train_mvt" where
  "from_itps s =
     \<lparr>tm_id = -1, tm_parent_train = -1, tm_updates = None, tm_tiploc = smv_tiploc s,
      tm_action = smv_action s, tm_actual = False, tm_time = smv_time s,
      tm_public_time = smv_public_time s, tm_day_offset = smv_day_offset s,
      tm_source = SOURCE_SCHED_ITPS, tm_platform = smv_platform s, tm_pfm_suppr = False,
      tm_unknown_delay = False\<rparr>"

definition train_mvt_from_row :: "row \<Rightarrow> nat \<Rightarrow> rsql_error + train_mvt" where
  "train_mvt_from_row r s =
     res_bind (get c_i64 (s + 0) r) (\<lambda>id.
     res_bind (get c_i64 (s + 1) r) (\<lambda>parent_train.
     res_bind (get (c_opt c_i64) (s + 2) r) (\<lambda>updates.
     res_bind (get c_text (s + 3) r) (\<lambda>tiploc.
     res_bind (get c_u8 (s + 4) r) (\<lambda>action.
     res_bind (get c_bool (s + 5) r) (\<lambda>actual.
     res_bind (get c_time (s + 6) r) (\<lambda>time.
     res_bind (get (c_opt c_time) (s + 7) r) (\<lambda>public_time.
     res_bind (get c_u8 (s + 8) r) (\<lambda>day_offset.
     res_bind (get c_i32 (s + 9) r) (\<lambda>source.
     res_bind (get (c_opt c_text) (s + 10) r) (\<lambda>platform.
     res_bind (get c_bool (s + 11) r) (\<lambda>pfm_suppr.
     res_bind (get c_bool (s + 12) r) (\<lambda>unknown_delay.
     Inr \<lparr>tm_id = id, tm_parent_train = parent_train, tm_updates = updates, tm_tiploc = tiploc,
          tm_action = action, tm_actual = actual, tm_time = time, tm_public_time = public_time,
          tm_day_offset = day_offset, tm_source = source, tm_platform = platform,
          tm_pfm_suppr = pfm_suppr, tm_unknown_delay = unknown_delay\<rparr>)))))))))))))"

definition train_mvt_params :: "train_mvt \<Rightarrow> row" where
  "train_mvt_params m =
     [SInt (tm_parent_train m), s_opt SInt (tm_updates m), SText (tm_tiploc m),
      s_u8 (tm_action m), s_bool (tm_actual m), STime (tm_time m),
      s_opt STime (tm_public_time m), s_u8 (tm_day_offset m), SInt (tm_source m),
      s_opt SText (tm_platform m), s_bool (tm_pfm_suppr m), s_bool (tm_unknown_delay m)]"

definition train_mvt_row :: "train_mvt \<Rightarrow> row" where
  "train_mvt_row m = SInt (tm_id m) # train_mvt_params m"

interpretation train_mvt_rows:
  row_codec train_mvt_row train_mvt_from_row TRAIN_MVT_FIELDS
    "\<lambda>m. - (2 ^ 31) \<le> tm_source m \<and> tm_source m < 2 ^ 31"
proof
  fix x :: train_mvt and pre post :: row
  show "length (train_mvt_row x) = TRAIN_MVT_FIELDS"
    by (simp add: train_mvt_row_def train_mvt_params_def TRAIN_MVT_FIELDS_def)
  show "train_mvt_from_row (pre @ train_mvt_row x @ post) (length pre) = Inr x"
    if "- (2 ^ 31) \<le> tm_source x \<and> tm_source x < 2 ^ 31"
    using that by (simp add: train_mvt_from_row_def train_mvt_row_def train_mvt_params_def row_get)
  show "\<exists>e. train_mvt_from_row (pre @ replicate TRAIN_MVT_FIELDS SNull @ post) (length pre) = Inl e"
    by (simp add: train_mvt_from_row_def TRAIN_MVT_FIELDS_def row_get numeral_eq_Suc)
qed

section \<open>Updates and responses\<close>

record darwin_mvt_update =
  du_tiploc :: string
  du_planned_time :: naive_time
  du_planned_day_offset :: u8
  du_planned_action :: u8
  du_updated_time :: naive_time
  du_time_actual :: bool
  du_delay_unknown :: bool
  du_platform :: "string option"
  du_platsup :: bool

record trust_mvt_update =
  tu_stanox :: string
  tu_planned_time :: naive_time
  tu_planned_day_offset :: u8
  tu_planned_action :: u8
  tu_actual_time :: naive_time
  tu_actual_public_time :: "naive_time option"
  tu_platform :: "string option"

record zug_mqr =
  zq_mvts :: "(int \<times> train_mvt list) list"
  zq_trains :: "(int \<times> train) list"

record zug_cmqr =
  zc_mvts :: "(int \<times> train_mvt list) list"
  zc_connecting_mvts :: "(int \<times> train_mvt list) list"
  zc_trains :: "(int \<times> train) list"

record train_details =
  td_train :: train
  td_mvts :: "train_mvt list"

section \<open>Errors\<close>

text \<open>\<open>ZRsql\<close> leaves out the debug rendering that the source keeps beside the error.\<close>

datatype zug_error =
  ZNotFound
| ZMovementsNotFound
| ZInvalidPath
| ZMovementsAmbiguous
| ZHeadersMissing
| ZRpc rpc_error
| ZSql sql_error
| ZRsql rsql_error
| ZPool
| ZReqwest

fun zug_status_code :: "zug_error \<Rightarrow> nat" where
  "zug_status_code ZNotFound = 404"
| "zug_status_code ZMovementsNotFound = 404"
| "zug_status_code ZMovementsAmbiguous = 409"
| "zug_status_code ZHeadersMissing = 400"
| "zug_status_code ZInvalidPath = 400"
| "zug_status_code (ZRpc r) = rpc_status_code r"
| "zug_status_code ZPool = 503"
| "zug_status_code _ = 500"

interpretation zug_status: error_status zug_status_code
proof
  show "\<not> is_success (zug_status_code e)" for e
    using rpc_status.no_success by (cases e) (simp_all add: is_success_def)
qed

text \<open>\<open>.optional()\<close> on a result whose error is a \<open>ZugError\<close>.\<close>

definition zug_optional :: "zug_error + 'a \<Rightarrow> zug_error + 'a option" where
  "zug_optional r =
     (case r of
        Inr x \<Rightarrow> Inr (Some x)
      | Inl e \<Rightarrow>
          if e = ZNotFound then Inr None
          else if e = ZRpc RemoteNotFound then Inr None
          else Inl e)"

lemma zug_optional_simps [simp, res_simps]:
  "zug_optional (Inr x) = Inr (Some x)"
  "zug_optional (Inl (ZRpc RemoteNotFound)) = Inr None" "zug_optional (Inl ZNotFound) = Inr None"
  by (simp_all add: zug_optional_def)

lemma zug_optional_Some: "zug_optional r = Inr (Some x) \<longleftrightarrow> r = Inr x"
  by (auto simp: zug_optional_def split: sum.splits if_splits)

section \<open>Properties\<close>

text \<open>
  A row of the movement query, a movement with its train and with an update or the
  \<open>NULL\<close>s of the outer join: the movement and the train are read back, the update is
  read back when there is one, and gives an error, which the code turns into \<open>None\<close>, when
  there is none.
\<close>

theorem zug_join_row_decodes:
  assumes "- (2 ^ 31) \<le> tm_source m \<and> tm_source m < 2 ^ 31"
    and "- (2 ^ 31) \<le> tr_parent_source t \<and> tr_parent_source t < 2 ^ 31"
    and "\<And>u. upd = Some u \<Longrightarrow> - (2 ^ 31) \<le> tm_source u \<and> tm_source u < 2 ^ 31"
    and "r = train_mvt_row m @ train_row t @
      (case upd of None \<Rightarrow> replicate TRAIN_MVT_FIELDS SNull | Some u \<Rightarrow> train_mvt_row u)"
  shows "train_mvt_from_row r 0 = Inr m \<and> train_from_row r TRAIN_MVT_FIELDS = Inr t \<and>
    (case train_mvt_from_row r (TRAIN_MVT_FIELDS + TRAIN_FIELDS) of Inl _ \<Rightarrow> None | Inr u \<Rightarrow> Some u) = upd"
proof (cases upd)
  case None
  have "\<exists>e. train_mvt_from_row r (TRAIN_MVT_FIELDS + TRAIN_FIELDS) = Inl e"
    using train_mvt_rows.decode_outer_null [of "train_mvt_row m @ train_row t" "TRAIN_MVT_FIELDS + TRAIN_FIELDS"]
    by (simp add: None assms(4) train_mvt_rows.enc_length train_rows.enc_length)
  then show ?thesis
    using assms(1,2) train_mvt_rows.decode_first [of m]
      train_rows.decode_at [of t "train_mvt_row m"]
    by (auto simp: None assms(4) train_mvt_rows.enc_length)
next
  case (Some u)
  then show ?thesis
    using assms(1-3) train_mvt_rows.decode_first [of m]
      train_rows.decode_at [of t "train_mvt_row m"]
      train_mvt_rows.decode_last [of u "train_mvt_row m @ train_row t"]
    by (simp add: assms(4) train_mvt_rows.enc_length train_rows.enc_length)
qed

definition sample_train :: train where
  "sample_train =
     \<lparr>tr_id = 1, tr_tspl_id = Uuid 1, tr_parent_uid = ''C12345'', tr_parent_start_date = NaiveDate 737421,
      tr_parent_stp_indicator = ''P'', tr_date = NaiveDate 737430, tr_trust_id = None,
      tr_darwin_rid = None, tr_headcode = None, tr_crosses_midnight = False, tr_parent_source = 0,
      tr_terminated = False, tr_cancelled = False, tr_activated = True\<rparr>"

lemma zug_join_row_decodes_witness:
  "(case train_mvt_from_row (train_mvt_row (from_itps dummy_mvt) @ train_row sample_train @
      replicate TRAIN_MVT_FIELDS SNull) (TRAIN_MVT_FIELDS + TRAIN_FIELDS)
    of Inl _ \<Rightarrow> None | Inr u \<Rightarrow> Some u) = None"
  using zug_join_row_decodes [of "from_itps dummy_mvt" sample_train None, OF _ _ _ refl]
  by (simp add: from_itps_def sample_train_def SOURCE_SCHED_ITPS_def)

end
