(* ===== verification/Zugfuhrer.thy ===== *)
theory Zugfuhrer
  imports Zugfuhrer_Types Fahrplan
begin

text \<open>
  \<open>tspl-zugfuhrer\<close>: the service that keeps the trains. \<open>activation.rs\<close> creates trains from
  schedules, \<open>ctx.rs\<close> handles the requests, \<open>corpus.rs\<close> fills the table of locations.

  The state is the database with the packets handed to the broadcaster so far. A
  transaction that is not committed leaves the database as it was. Parameters: the calls to
  \<open>tspl-fahrplan\<close> (a record of functions, with its contract as the locale
  \<open>fahrplan_service\<close>), the UUID a new train gets, the moment \<open>now\<close>.
\<close>

section \<open>The database\<close>

record zug_db =
  zdb_trains :: "train list"
  zdb_mvts :: "train_mvt list"
  zdb_corpus :: "corpus_entry list"

text \<open>The columns of the \<open>UNIQUE\<close> constraints; \<open>None\<close> is a \<open>NULL\<close> among them.\<close>

definition trust_unique :: "train \<Rightarrow> (naive_date \<times> string) option" where
  "trust_unique t = (case tr_trust_id t of None \<Rightarrow> None | Some x \<Rightarrow> Some (tr_date t, x))"

definition mvt_unique ::
    "train_mvt \<Rightarrow> (int \<times> int \<times> string \<times> u8 \<times> naive_time \<times> u8 \<times> int) option" where
  "mvt_unique m =
     (case tm_updates m of
        None \<Rightarrow> None
      | Some u \<Rightarrow> Some (tm_parent_train m, u, tm_tiploc m, tm_action m, tm_time m,
                       tm_day_offset m, tm_source m))"

text \<open>Whether a row with this value for a constraint conflicts with a row of the table.\<close>

definition conflicts :: "('r \<Rightarrow> 'k option) \<Rightarrow> 'r list \<Rightarrow> 'r \<Rightarrow> bool" where
  "conflicts k rows r \<longleftrightarrow> k r \<noteq> None \<and> k r \<in> k ` set rows"

definition insert_train :: "train \<Rightarrow> zug_db \<Rightarrow> zug_error + int \<times> zug_db" where
  "insert_train t db =
     (if tr_tspl_id t \<in> tr_tspl_id ` set (zdb_trains db)
      then Inl (ZRsql (ConstraintUnique ''trains.tspl_id''))
      else if conflicts tr_darwin_rid (zdb_trains db) t
      then Inl (ZRsql (ConstraintUnique ''trains.darwin_rid''))
      else if conflicts trust_unique (zdb_trains db) t
      then Inl (ZRsql (ConstraintUnique ''trains.date, trains.trust_id''))
      else (let rid = next_rowid (map tr_id (zdb_trains db))
            in Inr (rid, db\<lparr>zdb_trains := zdb_trains db @ [t\<lparr>tr_id := rid\<rparr>]\<rparr>)))"

definition insert_train_mvt :: "train_mvt \<Rightarrow> zug_db \<Rightarrow> zug_error + int \<times> zug_db" where
  "insert_train_mvt m db =
     (if conflicts mvt_unique (zdb_mvts db) m
      then Inl (ZRsql (ConstraintUnique ''train_movements_unique''))
      else if tm_parent_train m \<notin> tr_id ` set (zdb_trains db)
      then Inl (ZRsql ConstraintForeignKey)
      else if (case tm_updates m of None \<Rightarrow> False | Some u \<Rightarrow> u \<notin> tm_id ` set (zdb_mvts db))
      then Inl (ZRsql ConstraintForeignKey)
      else (let rid = next_rowid (map tm_id (zdb_mvts db))
            in Inr (rid, db\<lparr>zdb_mvts := zdb_mvts db @ [m\<lparr>tm_id := rid\<rparr>]\<rparr>)))"

text \<open>
  Deleting movements: \<open>ON DELETE CASCADE\<close> on \<open>updates\<close> takes the movements that update a
  deleted one along, and those that update these. Every round but the last deletes a row,
  so that as many rounds as there are rows are enough.
\<close>

fun cascade_mvts :: "nat \<Rightarrow> int list \<Rightarrow> train_mvt list \<Rightarrow> train_mvt list" where
  "cascade_mvts 0 gone ms = ms"
| "cascade_mvts (Suc n) gone ms =
     (let dead = filter (\<lambda>m. tm_updates m \<in> Some ` set gone) ms
      in if dead = [] then ms
         else cascade_mvts n (map tm_id dead) (filter (\<lambda>m. tm_updates m \<notin> Some ` set gone) ms))"

definition delete_mvts :: "(train_mvt \<Rightarrow> bool) \<Rightarrow> zug_db \<Rightarrow> zug_db" where
  "delete_mvts P db =
     db\<lparr>zdb_mvts := cascade_mvts (length (zdb_mvts db)) (map tm_id (filter P (zdb_mvts db)))
                     (filter (\<lambda>m. \<not> P m) (zdb_mvts db))\<rparr>"

text \<open>An \<open>UPDATE trains SET .. WHERE ..\<close> of columns without a constraint: how many rows, and the table.\<close>

definition update_trains :: "(train \<Rightarrow> bool) \<Rightarrow> (train \<Rightarrow> train) \<Rightarrow> zug_db \<Rightarrow> nat \<times> zug_db" where
  "update_trains P f db =
     (length (filter P (zdb_trains db)),
      db\<lparr>zdb_trains := map (\<lambda>t. if P t then f t else t) (zdb_trains db)\<rparr>)"

text \<open>The same with a constraint \<open>k\<close>: it fails when two rows would share a value.\<close>

definition update_trains_unique ::
    "(train \<Rightarrow> 'k option) \<Rightarrow> string \<Rightarrow> (train \<Rightarrow> bool) \<Rightarrow> (train \<Rightarrow> train) \<Rightarrow> zug_db \<Rightarrow>
     zug_error + nat \<times> zug_db" where
  "update_trains_unique k name P f db =
     (let r = update_trains P f db
      in if uniq_on k (zdb_trains (snd r)) then Inr r else Inl (ZRsql (ConstraintUnique name)))"

section \<open>Broadcast packets\<close>

datatype broadcast_update =
  BcActivation train
| BcSyncTrain train
| BcMovement train_mvt

record broadcast_packet =
  bp_ts :: naive_datetime
  bp_update :: broadcast_update

record zug_state =
  zs_db :: zug_db
  zs_cast :: "broadcast_packet list"

definition send_update :: "naive_datetime \<Rightarrow> broadcast_update \<Rightarrow> zug_state \<Rightarrow> zug_state" where
  "send_update now upd s = s\<lparr>zs_cast := zs_cast s @ [\<lparr>bp_ts = now, bp_update = upd\<rparr>]\<rparr>"

definition send_mvt :: "naive_datetime \<Rightarrow> train_mvt \<Rightarrow> zug_state \<Rightarrow> zug_state" where
  "send_mvt now m = send_update now (BcMovement m)"

definition send_activation :: "naive_datetime \<Rightarrow> train \<Rightarrow> zug_state \<Rightarrow> zug_state" where
  "send_activation now t = send_update now (BcActivation t)"

section \<open>Activation\<close>

record activation_details =
  ad_uid :: string
  ad_start_date :: naive_date
  ad_stp_indicator :: string
  ad_source :: int
  ad_run_date :: naive_date

definition activation_match :: "activation_details \<Rightarrow> train \<Rightarrow> bool" where
  "activation_match ad t \<longleftrightarrow>
     tr_parent_uid t = ad_uid ad \<and> tr_parent_start_date t = ad_start_date ad \<and>
     tr_parent_stp_indicator t = ad_stp_indicator ad \<and> tr_parent_source t = ad_source ad \<and>
     tr_date t = ad_run_date ad"

definition new_train :: "uuid \<Rightarrow> activation_details \<Rightarrow> train" where
  "new_train uu ad =
     \<lparr>tr_id = -1, tr_tspl_id = uu, tr_parent_uid = ad_uid ad,
      tr_parent_start_date = ad_start_date ad, tr_parent_stp_indicator = ad_stp_indicator ad,
      tr_date = ad_run_date ad, tr_trust_id = None, tr_darwin_rid = None, tr_headcode = None,
      tr_crosses_midnight = False, tr_parent_source = ad_source ad, tr_terminated = False,
      tr_cancelled = False, tr_activated = False\<rparr>"

definition copy_mvts :: "int \<Rightarrow> train_mvt list \<Rightarrow> zug_db \<Rightarrow> zug_error + zug_db" where
  "copy_mvts tid mvts db =
     res_fold (\<lambda>m db. res_map snd (insert_train_mvt (m\<lparr>tm_parent_train := tid\<rparr>) db)) mvts db"

text \<open>The part after the check for a train that is there: \<open>train\<close> is that train, if any.\<close>

definition activate_copy ::
    "uuid \<Rightarrow> activation_details \<Rightarrow> train_mvt list \<Rightarrow> train option \<Rightarrow> zug_db \<Rightarrow>
     zug_error + train \<times> zug_db" where
  "activate_copy uu ad mvts train db =
     res_bind
       (case train of
          Some t \<Rightarrow> Inr (t, db)
        | None \<Rightarrow> (let t = new_train uu ad
                  in res_map (\<lambda>(i, db1). (t\<lparr>tr_id := i\<rparr>, db1)) (insert_train t db)))
       (\<lambda>(t, db1).
          if \<not> tr_activated t \<and> length mvts > 0
          then res_map
                 (\<lambda>db2. (t\<lparr>tr_activated := True\<rparr>,
                    snd (update_trains (\<lambda>x. tr_id x = tr_id t) (\<lambda>x. x\<lparr>tr_activated := True\<rparr>) db2)))
                 (copy_mvts (tr_id t) mvts db1)
          else Inr (t, db1))"

definition activate_lowlevel ::
    "uuid \<Rightarrow> activation_details \<Rightarrow> train_mvt list \<Rightarrow> zug_db \<Rightarrow> (zug_error + train) \<times> zug_db" where
  "activate_lowlevel uu ad mvts db =
     (let commit = (\<lambda>r. case r of Inl e \<Rightarrow> (Inl e, db) | Inr (t, db1) \<Rightarrow> (Inr t, db1))
      in case nth0 (filter (activation_match ad) (zdb_trains db)) of
           Some ret \<Rightarrow>
             if \<not> tr_activated ret \<and> length mvts > 0
             then commit (activate_copy uu ad mvts (Some ret) db)
             else (Inr ret, db)
         | None \<Rightarrow> commit (activate_copy uu ad mvts None db))"

text \<open>What \<open>tspl-fahrplan\<close> is asked for.\<close>

record fahrplan_api =
  fa_by_uid_on_date :: "string \<Rightarrow> naive_date \<Rightarrow> u8 \<Rightarrow> rpc_error + schedule"
  fa_for_activation :: "string \<Rightarrow> naive_date \<Rightarrow> string \<Rightarrow> int \<Rightarrow> rpc_error + schedule"
  fa_schedule :: "uuid \<Rightarrow> rpc_error + schedule_details"

definition get_tmvts_for_schedule :: "fahrplan_api \<Rightarrow> schedule \<Rightarrow> zug_error + train_mvt list" where
  "get_tmvts_for_schedule F sched =
     res_map (\<lambda>d. map from_itps (sd_mvts d)) (map_err ZRpc (fa_schedule F (sch_tspl_id sched)))"

definition activator_darwin ::
    "fahrplan_api \<Rightarrow> uuid \<Rightarrow> string \<Rightarrow> naive_date \<Rightarrow> zug_db \<Rightarrow> (zug_error + train) \<times> zug_db" where
  "activator_darwin F uu uid run_date db =
     (case map_err ZRpc (fa_by_uid_on_date F uid run_date SOURCE_ITPS) of
        Inl e \<Rightarrow> (Inl e, db)
      | Inr sched \<Rightarrow>
          (case get_tmvts_for_schedule F sched of
             Inl e \<Rightarrow> (Inl e, db)
           | Inr tmvts \<Rightarrow>
               activate_lowlevel uu
                 \<lparr>ad_uid = uid, ad_start_date = sch_start_date sched,
                  ad_stp_indicator = sch_stp_indicator sched,
                  ad_source = uint (sch_source sched), ad_run_date = run_date\<rparr> tmvts db))"

definition activator_nrod ::
    "fahrplan_api \<Rightarrow> uuid \<Rightarrow> string \<Rightarrow> naive_date \<Rightarrow> string \<Rightarrow> int \<Rightarrow> naive_date \<Rightarrow> zug_db \<Rightarrow>
     (zug_error + train) \<times> zug_db" where
  "activator_nrod F uu uid start_date stp_indicator source date db =
     (case zug_optional (map_err ZRpc (fa_for_activation F uid start_date stp_indicator source)) of
        Inl e \<Rightarrow> (Inl e, db)
      | Inr sched \<Rightarrow>
          (case (case sched of Some s \<Rightarrow> get_tmvts_for_schedule F s | None \<Rightarrow> Inr []) of
             Inl e \<Rightarrow> (Inl e, db)
           | Inr mvts \<Rightarrow>
               activate_lowlevel uu
                 \<lparr>ad_uid = uid, ad_start_date = start_date, ad_stp_indicator = stp_indicator,
                  ad_source = source, ad_run_date = date\<rparr> mvts db))"

section \<open>Queries\<close>

text \<open>\<open>ORDER BY day_offset, time, action, updates\<close>; a \<open>NULL\<close> comes first.\<close>

definition tmvt_key :: "train_mvt \<Rightarrow> u8 \<times> naive_time \<times> u8 \<times> bool \<times> int" where
  "tmvt_key m = (tm_day_offset m, tm_time m, tm_action m,
     case tm_updates m of None \<Rightarrow> (False, 0) | Some u \<Rightarrow> (True, u))"

definition find_train :: "zug_db \<Rightarrow> uuid \<Rightarrow> zug_error + train" where
  "find_train db tid = ok_or ZNotFound (nth0 (filter (\<lambda>t. tr_tspl_id t = tid) (zdb_trains db)))"

definition get_train_details :: "zug_db \<Rightarrow> uuid \<Rightarrow> zug_error + train_details" where
  "get_train_details db tid =
     res_map
       (\<lambda>train. \<lparr>td_train = train,
          td_mvts = sort_key tmvt_key (filter (\<lambda>m. tm_parent_train m = tr_id train) (zdb_mvts db))\<rparr>)
       (find_train db tid)"

definition updates_of :: "zug_db \<Rightarrow> train_mvt \<Rightarrow> train_mvt list" where
  "updates_of db m = filter (\<lambda>x. tm_updates x = Some (tm_id m)) (zdb_mvts db)"

definition tm_in_window :: "string \<Rightarrow> naive_time \<Rightarrow> naive_time \<Rightarrow> train_mvt \<Rightarrow> bool" where
  "tm_in_window tpl start_time end_time m \<longleftrightarrow>
     tm_tiploc m = tpl \<and> start_time \<le> tm_time m \<and> tm_time m \<le> end_time \<and>
     tm_day_offset m = 0 \<and> tm_updates m = None"

definition zug_mvt_rows ::
    "zug_db \<Rightarrow> string \<Rightarrow> naive_time \<Rightarrow> naive_time \<Rightarrow> naive_date \<Rightarrow>
     (train_mvt \<times> train \<times> train_mvt option) list" where
  "zug_mvt_rows db tpl start_time end_time date =
     remdups [(m, t, u).
        m \<leftarrow> zdb_mvts db,
        t \<leftarrow> zdb_trains db, tr_id t = tm_parent_train m,
        u \<leftarrow> outer_join (updates_of db m),
        tm_in_window tpl start_time end_time m,
        tr_date t = date]"

text \<open>One row added to the map from a movement's id to it and its updates.\<close>

definition extend_entry ::
    "int \<Rightarrow> train_mvt \<Rightarrow> train_mvt option \<Rightarrow> (int \<times> train_mvt list) list \<Rightarrow> (int \<times> train_mvt list) list" where
  "extend_entry i m u acc =
     (case map_of acc i of
        Some l \<Rightarrow> AList.update i (l @ opt_list u) acc
      | None \<Rightarrow> AList.update i (m # opt_list u) acc)"

definition zug_get_mvts_passing_through ::
    "chrono \<Rightarrow> zug_db \<Rightarrow> string \<Rightarrow> naive_datetime \<Rightarrow> int \<Rightarrow> zug_mqr" where
  "zug_get_mvts_passing_through C db tpl ts within_dur =
     (let (start_time, end_time) = calculate_non_midnight_aware_times C ts within_dur;
          rows = zug_mvt_rows db tpl start_time end_time (dt_date ts)
      in \<lparr>zq_mvts = fold (\<lambda>(m, t, u). extend_entry (tm_id m) m u) rows [],
          zq_trains = fold (\<lambda>(m, t, u). AList.update (tr_id t) t) rows []\<rparr>)"

definition zug_conn_rows ::
    "zug_db \<Rightarrow> string \<Rightarrow> string \<Rightarrow> naive_time \<Rightarrow> naive_time \<Rightarrow> naive_date \<Rightarrow>
     (train_mvt \<times> train \<times> train_mvt \<times> train_mvt option \<times> train_mvt option) list" where
  "zug_conn_rows db tpl tpl_conn start_time end_time date =
     remdups [(m, t, c, u, cu).
        m \<leftarrow> zdb_mvts db,
        t \<leftarrow> zdb_trains db, tr_id t = tm_parent_train m,
        c \<leftarrow> zdb_mvts db, tm_parent_train c = tm_parent_train m,
        u \<leftarrow> outer_join (updates_of db m),
        cu \<leftarrow> outer_join (updates_of db c),
        tm_in_window tpl start_time end_time m,
        tm_updates c = None,
        tr_date t = date,
        tm_tiploc c = tpl_conn]"

definition zug_get_connecting_mvts ::
    "chrono \<Rightarrow> zug_db \<Rightarrow> string \<Rightarrow> naive_datetime \<Rightarrow> int \<Rightarrow> string \<Rightarrow> zug_cmqr" where
  "zug_get_connecting_mvts C db tpl ts within_dur connection =
     (let (start_time, end_time) = calculate_non_midnight_aware_times C ts within_dur;
          rows = zug_conn_rows db tpl connection start_time end_time (dt_date ts)
      in \<lparr>zc_mvts = fold (\<lambda>(m, t, c, u, cu). extend_entry (tm_id m) m u) rows [],
          zc_connecting_mvts = fold (\<lambda>(m, t, c, u, cu). extend_entry (tm_id m) c cu) rows [],
          zc_trains = fold (\<lambda>(m, t, c, u, cu). AList.update (tr_id t) t) rows []\<rparr>)"

definition get_train_for_darwin_rid :: "zug_db \<Rightarrow> string \<Rightarrow> zug_error + train" where
  "get_train_for_darwin_rid db rid =
     ok_or ZNotFound (nth0 (filter (\<lambda>t. tr_darwin_rid t = Some rid) (zdb_trains db)))"

definition get_train_for_trust_id :: "chrono \<Rightarrow> zug_db \<Rightarrow> string \<Rightarrow> naive_date \<Rightarrow> zug_error + train" where
  "get_train_for_trust_id C db trust_id date =
     (let previous_date = date_pred C date
      in ok_or ZNotFound
           (nth0 (filter (\<lambda>t. tr_trust_id t = Some trust_id \<and>
                              (tr_date t = date \<or> tr_crosses_midnight t \<and> tr_date t = previous_date))
                         (zdb_trains db))))"

section \<open>Movement updates\<close>

text \<open>The original movement an update refers to: none is an error, so is more than one.\<close>

definition single_mvt :: "train_mvt list \<Rightarrow> zug_error + train_mvt" where
  "single_mvt tmvts =
     (if length tmvts > 1 then Inl ZMovementsAmbiguous else ok_or ZMovementsNotFound (nth0 tmvts))"

definition darwin_matches :: "zug_db \<Rightarrow> train \<Rightarrow> darwin_mvt_update \<Rightarrow> train_mvt list" where
  "darwin_matches db train upd =
     filter (\<lambda>m. tm_parent_train m = tr_id train \<and> tm_time m = du_planned_time upd \<and>
                 tm_action m = du_planned_action upd \<and>
                 tm_day_offset m = du_planned_day_offset upd \<and> tm_updates m = None \<and>
                 tm_source m = SOURCE_SCHED_ITPS \<and> tm_tiploc m = du_tiploc upd)
            (zdb_mvts db)"

definition process_darwin_mvt_update ::
    "naive_datetime \<Rightarrow> uuid \<Rightarrow> darwin_mvt_update \<Rightarrow> zug_state \<Rightarrow> (zug_error + train_mvt) \<times> zug_state" where
  "process_darwin_mvt_update now tid upd s =
     (case res_bind (find_train (zs_db s) tid) (\<lambda>train.
           res_bind (single_mvt (darwin_matches (zs_db s) train upd)) (\<lambda>updates.
             let db1 = delete_mvts (\<lambda>m. tm_updates m = Some (tm_id updates) \<and>
                                        tm_source m = SOURCE_DARWIN_LIVE) (zs_db s);
                 tmvt = \<lparr>tm_id = -1, tm_parent_train = tr_id train, tm_updates = Some (tm_id updates),
                         tm_tiploc = du_tiploc upd, tm_action = du_planned_action upd,
                         tm_actual = du_time_actual upd, tm_time = du_updated_time upd,
                         tm_public_time = None, tm_day_offset = du_planned_day_offset upd,
                         tm_source = SOURCE_DARWIN_LIVE, tm_platform = du_platform upd,
                         tm_pfm_suppr = du_platsup upd, tm_unknown_delay = du_delay_unknown upd\<rparr>
             in res_map (\<lambda>(i, db2). (tmvt\<lparr>tm_id := i\<rparr>, db2)) (insert_train_mvt tmvt db1)))
      of Inl e \<Rightarrow> (Inl e, s)
       | Inr (tmvt, db2) \<Rightarrow> (Inr tmvt, send_mvt now tmvt (s\<lparr>zs_db := db2\<rparr>)))"

definition trust_matches :: "zug_db \<Rightarrow> train \<Rightarrow> trust_mvt_update \<Rightarrow> train_mvt list" where
  "trust_matches db train upd =
     filter (\<lambda>m. tm_parent_train m = tr_id train \<and> tm_time m = tu_planned_time upd \<and>
                 (tm_action m = 2 \<or> tm_action m = tu_planned_action upd) \<and>
                 tm_day_offset m = tu_planned_day_offset upd \<and> tm_updates m = None \<and>
                 tm_source m = SOURCE_SCHED_ITPS \<and>
                 Some (tm_tiploc m) \<in> ce_tiploc ` set (filter (\<lambda>c. ce_stanox c = Some (tu_stanox upd))
                                                          (zdb_corpus db)))
            (zdb_mvts db)"

definition process_trust_mvt_update ::
    "naive_datetime \<Rightarrow> uuid \<Rightarrow> trust_mvt_update \<Rightarrow> zug_state \<Rightarrow> (zug_error + train_mvt) \<times> zug_state" where
  "process_trust_mvt_update now tid upd s =
     (case res_bind (find_train (zs_db s) tid) (\<lambda>train.
           res_bind (single_mvt (trust_matches (zs_db s) train upd)) (\<lambda>updates.
             let tmvt = \<lparr>tm_id = -1, tm_parent_train = tr_id train, tm_updates = Some (tm_id updates),
                         tm_tiploc = tm_tiploc updates, tm_action = tu_planned_action upd,
                         tm_actual = True, tm_time = tu_actual_time upd,
                         tm_public_time = tu_actual_public_time upd,
                         tm_day_offset = tu_planned_day_offset upd, tm_source = SOURCE_TRUST,
                         tm_platform = tu_platform upd, tm_pfm_suppr = False,
                         tm_unknown_delay = False\<rparr>
             in res_map (\<lambda>(i, db2). (tmvt\<lparr>tm_id := i\<rparr>, db2)) (insert_train_mvt tmvt (zs_db s))))
      of Inl e \<Rightarrow> (Inl e, s)
       | Inr (tmvt, db2) \<Rightarrow> (Inr tmvt, send_mvt now tmvt (s\<lparr>zs_db := db2\<rparr>)))"

section \<open>Flags and identifiers of a train\<close>

definition terminate_train :: "uuid \<Rightarrow> zug_state \<Rightarrow> (zug_error + unit) \<times> zug_state" where
  "terminate_train tid s =
     (let (rows, db1) = update_trains (\<lambda>t. tr_tspl_id t = tid) (\<lambda>t. t\<lparr>tr_terminated := True\<rparr>) (zs_db s)
      in if rows = 0 then (Inl ZNotFound, s\<lparr>zs_db := db1\<rparr>) else (Inr (), s\<lparr>zs_db := db1\<rparr>))"

definition cancel_train :: "uuid \<Rightarrow> zug_state \<Rightarrow> (zug_error + unit) \<times> zug_state" where
  "cancel_train tid s =
     (let (rows, db1) = update_trains (\<lambda>t. tr_tspl_id t = tid) (\<lambda>t. t\<lparr>tr_cancelled := True\<rparr>) (zs_db s)
      in if rows = 0 then (Inl ZNotFound, s\<lparr>zs_db := db1\<rparr>) else (Inr (), s\<lparr>zs_db := db1\<rparr>))"

definition associate_trust_id :: "uuid \<Rightarrow> string \<Rightarrow> zug_state \<Rightarrow> (zug_error + unit) \<times> zug_state" where
  "associate_trust_id tid trust_id s =
     (case update_trains_unique trust_unique ''trains.date, trains.trust_id''
             (\<lambda>t. tr_tspl_id t = tid) (\<lambda>t. t\<lparr>tr_trust_id := Some trust_id\<rparr>) (zs_db s) of
        Inl e \<Rightarrow> (Inl e, s)
      | Inr (rows, db1) \<Rightarrow>
          if rows = 0 then (Inl ZNotFound, s\<lparr>zs_db := db1\<rparr>) else (Inr (), s\<lparr>zs_db := db1\<rparr>))"

text \<open>
  The activation commits before the \<open>UPDATE\<close> of the RID: when the RID belongs to another train
  the train stays activated and nothing is broadcast.
\<close>

definition activate_train_darwin ::
    "fahrplan_api \<Rightarrow> uuid \<Rightarrow> naive_datetime \<Rightarrow> string \<Rightarrow> naive_date \<Rightarrow> string \<Rightarrow> zug_state \<Rightarrow>
     (zug_error + train) \<times> zug_state" where
  "activate_train_darwin F uu now uid date rid s =
     (case activator_darwin F uu uid date (zs_db s) of
        (Inl e, db1) \<Rightarrow> (Inl e, s\<lparr>zs_db := db1\<rparr>)
      | (Inr ret, db1) \<Rightarrow>
          (case update_trains_unique tr_darwin_rid ''trains.darwin_rid''
                  (\<lambda>t. tr_id t = tr_id ret) (\<lambda>t. t\<lparr>tr_darwin_rid := Some rid\<rparr>) db1 of
             Inl e \<Rightarrow> (Inl e, s\<lparr>zs_db := db1\<rparr>)
           | Inr (_, db2) \<Rightarrow>
               (let ret = ret\<lparr>tr_darwin_rid := Some rid\<rparr>
                in (Inr ret, send_activation now ret (s\<lparr>zs_db := db2\<rparr>)))))"

definition activate_train ::
    "fahrplan_api \<Rightarrow> uuid \<Rightarrow> naive_datetime \<Rightarrow> string \<Rightarrow> naive_date \<Rightarrow> string \<Rightarrow> int \<Rightarrow> naive_date \<Rightarrow>
     zug_state \<Rightarrow> (zug_error + train) \<times> zug_state" where
  "activate_train F uu now uid start_date stp_indicator source date s =
     (case activator_nrod F uu uid start_date stp_indicator source date (zs_db s) of
        (Inl e, db1) \<Rightarrow> (Inl e, s\<lparr>zs_db := db1\<rparr>)
      | (Inr ret, db1) \<Rightarrow> (Inr ret, send_activation now ret (s\<lparr>zs_db := db1\<rparr>)))"

section \<open>CORPUS\<close>

text \<open>
  \<open>ON CONFLICT DO NOTHING\<close> has no constraint to act on: \<open>corpus_entries\<close> has none.
\<close>

definition insert_corpus :: "corpus_entry \<Rightarrow> zug_db \<Rightarrow> zug_db" where
  "insert_corpus e db = db\<lparr>zdb_corpus := zdb_corpus db @ [e]\<rparr>"

definition corpus_import :: "corpus_data \<Rightarrow> zug_db \<Rightarrow> zug_db" where
  "corpus_import data db =
     fold (\<lambda>ent db. if contains_data ent then insert_corpus ent db else db) (tiploc_data data) db"

definition corpus_should_import :: "zug_db \<Rightarrow> bool" where
  "corpus_should_import db \<longleftrightarrow> length (zdb_corpus db) = 0"

section \<open>The routes\<close>

text \<open>
  A request after the router has read the path, its parameters and the headers. \<open>ZBadHeaders\<close>
  is a matching route with a header that is missing or does not parse.
\<close>

datatype zug_request =
  ZRoot
| ZMvtsThrough string naive_datetime u32
| ZMvtsThroughAnd string string naive_datetime u32
| ZTrain uuid
| ZByTrustId string naive_date
| ZByDarwinRid string
| ZAssociate uuid string
| ZActivate string naive_date string int naive_date
| ZActivateFuzzy string string naive_date
| ZTerminate uuid
| ZCancel uuid
| ZDarwinUpdate uuid darwin_mvt_update
| ZTrustMovement uuid trust_mvt_update
| ZBadHeaders
| ZOther

datatype zug_body =
  ZBMvts zug_mqr
| ZBConnecting zug_cmqr
| ZBDetails train_details
| ZBTrain train
| ZBMvt train_mvt
| ZBUnit

definition zug_json :: "('a \<Rightarrow> zug_body) \<Rightarrow> zug_error + 'a \<Rightarrow> zug_error + zug_body response" where
  "zug_json f r = res_map (\<lambda>x. json_response (f x)) r"

fun zug_on_request ::
    "string \<Rightarrow> chrono \<Rightarrow> fahrplan_api \<Rightarrow> uuid \<Rightarrow> naive_datetime \<Rightarrow> zug_request \<Rightarrow> zug_state \<Rightarrow>
     (zug_error + zug_body response) \<times> zug_state" where
  "zug_on_request ua C F uu now ZRoot s = (Inr (text_response ua), s)"
| "zug_on_request ua C F uu now (ZMvtsThrough tiploc ts dur) s =
     (zug_json ZBMvts (Inr (zug_get_mvts_passing_through C (zs_db s) tiploc ts (uint dur))), s)"
| "zug_on_request ua C F uu now (ZMvtsThroughAnd tiploc conn ts dur) s =
     (zug_json ZBConnecting (Inr (zug_get_connecting_mvts C (zs_db s) tiploc ts (uint dur) conn)), s)"
| "zug_on_request ua C F uu now (ZTrain tid) s =
     (zug_json ZBDetails (get_train_details (zs_db s) tid), s)"
| "zug_on_request ua C F uu now (ZByTrustId trust_id date) s =
     (zug_json ZBTrain (get_train_for_trust_id C (zs_db s) trust_id date), s)"
| "zug_on_request ua C F uu now (ZByDarwinRid rid) s =
     (zug_json ZBTrain (get_train_for_darwin_rid (zs_db s) rid), s)"
| "zug_on_request ua C F uu now (ZAssociate tid trust_id) s =
     apfst (zug_json (\<lambda>_. ZBUnit)) (associate_trust_id tid trust_id s)"
| "zug_on_request ua C F uu now (ZActivate uid start_date stp source date) s =
     apfst (zug_json ZBTrain) (activate_train F uu now uid start_date stp source date s)"
| "zug_on_request ua C F uu now (ZActivateFuzzy uid rid date) s =
     apfst (zug_json ZBTrain) (activate_train_darwin F uu now uid date rid s)"
| "zug_on_request ua C F uu now (ZTerminate tid) s =
     apfst (zug_json (\<lambda>_. ZBUnit)) (terminate_train tid s)"
| "zug_on_request ua C F uu now (ZCancel tid) s =
     apfst (zug_json (\<lambda>_. ZBUnit)) (cancel_train tid s)"
| "zug_on_request ua C F uu now (ZDarwinUpdate tid upd) s =
     apfst (zug_json ZBMvt) (process_darwin_mvt_update now tid upd s)"
| "zug_on_request ua C F uu now (ZTrustMovement tid upd) s =
     apfst (zug_json ZBMvt) (process_trust_mvt_update now tid upd s)"
| "zug_on_request ua C F uu now ZBadHeaders s = (Inl ZHeadersMissing, s)"
| "zug_on_request ua C F uu now ZOther s = (Inl ZInvalidPath, s)"

end
