(* ===== verification/Zugfuhrer_Inv.thy ===== *)
theory Zugfuhrer_Inv
  imports Zugfuhrer
begin

text \<open>
  What holds of the train database whatever is requested: the constraints of the schema, one train
  per activation, movements that belong to activated trains, updates that refer to original
  movements of the same train at the same place, at most one Darwin estimate per movement. Each handler of theory
  \<open>Zugfuhrer\<close> keeps it (one lemma per operation), so every reachable state has it.
\<close>

section \<open>The invariant\<close>

definition activation_key :: "train \<Rightarrow> string \<times> naive_date \<times> string \<times> int \<times> naive_date" where
  "activation_key t =
     (tr_parent_uid t, tr_parent_start_date t, tr_parent_stp_indicator t, tr_parent_source t, tr_date t)"

definition trains_ok :: "train list \<Rightarrow> bool" where
  "trains_ok ts \<longleftrightarrow>
     distinct (map tr_id ts) \<and> distinct (map tr_tspl_id ts) \<and> uniq_on tr_darwin_rid ts \<and>
     uniq_on trust_unique ts \<and> distinct (map activation_key ts) \<and>
     (\<forall>t\<in>set ts. \<not> tr_crosses_midnight t)"

definition mvt_ok :: "zug_db \<Rightarrow> train_mvt \<Rightarrow> bool" where
  "mvt_ok db m \<longleftrightarrow>
     (case tm_updates m of
        None \<Rightarrow> tm_source m = SOURCE_SCHED_ITPS
      | Some u \<Rightarrow> tm_source m \<in> {SOURCE_TRUST, SOURCE_DARWIN_LIVE} \<and>
          (\<exists>o'\<in>set (zdb_mvts db). tm_id o' = u \<and> tm_updates o' = None \<and>
             tm_parent_train o' = tm_parent_train m \<and> tm_tiploc o' = tm_tiploc m \<and>
             tm_day_offset o' = tm_day_offset m)) \<and>
     (\<exists>t\<in>set (zdb_trains db). tr_id t = tm_parent_train m \<and> tr_activated t)"

definition darwin_once :: "train_mvt list \<Rightarrow> bool" where
  "darwin_once ms \<longleftrightarrow>
     uniq_on (\<lambda>m. if tm_source m = SOURCE_DARWIN_LIVE then tm_updates m else None) ms"

definition zdb_inv :: "zug_db \<Rightarrow> bool" where
  "zdb_inv db \<longleftrightarrow> trains_ok (zdb_trains db) \<and> distinct (map tm_id (zdb_mvts db)) \<and>
     uniq_on mvt_unique (zdb_mvts db) \<and> darwin_once (zdb_mvts db) \<and>
     (\<forall>m\<in>set (zdb_mvts db). mvt_ok db m)"

lemma activation_match_key:
  "activation_match ad t \<longleftrightarrow>
     activation_key t = (ad_uid ad, ad_start_date ad, ad_stp_indicator ad, ad_source ad, ad_run_date ad)"
  by (auto simp: activation_match_def activation_key_def)

text \<open>What a constraint reads is not touched by the other columns.\<close>

lemma key_updates [simp]:
  "trust_unique (t\<lparr>tr_id := i\<rparr>) = trust_unique t"
  "trust_unique (t\<lparr>tr_darwin_rid := r\<rparr>) = trust_unique t"
  "trust_unique (t\<lparr>tr_terminated := b\<rparr>) = trust_unique t"
  "trust_unique (t\<lparr>tr_cancelled := b\<rparr>) = trust_unique t"
  "trust_unique (t\<lparr>tr_activated := b\<rparr>) = trust_unique t"
  "activation_key (t\<lparr>tr_id := i\<rparr>) = activation_key t"
  "activation_key (t\<lparr>tr_darwin_rid := r\<rparr>) = activation_key t"
  "activation_key (t\<lparr>tr_trust_id := r\<rparr>) = activation_key t"
  "activation_key (t\<lparr>tr_terminated := b\<rparr>) = activation_key t"
  "activation_key (t\<lparr>tr_cancelled := b\<rparr>) = activation_key t"
  "activation_key (t\<lparr>tr_activated := b\<rparr>) = activation_key t"
  by (simp_all add: trust_unique_def activation_key_def split: option.split)

lemma mvt_ok_mono:
  assumes "mvt_ok db m"
    and "\<And>x. x \<in> set (zdb_mvts db) \<Longrightarrow> tm_updates x = None \<Longrightarrow> x \<in> set (zdb_mvts db')"
    and "\<And>t. t \<in> set (zdb_trains db) \<Longrightarrow> tr_activated t \<Longrightarrow>
      \<exists>t'\<in>set (zdb_trains db'). tr_id t' = tr_id t \<and> tr_activated t'"
  shows "mvt_ok db' m"
  using assms(1) unfolding mvt_ok_def
  by (auto split: option.splits dest!: assms(2,3))

lemma uniq_on_append:
  "uniq_on k (xs @ ys) \<longleftrightarrow> uniq_on k xs \<and> uniq_on k ys \<and>
     (\<forall>x\<in>set xs. \<forall>y\<in>set ys. k x = None \<or> k x \<noteq> k y)"
  by (induction xs) (auto split: option.splits)

lemma uniq_on_none: "(\<And>x. x \<in> set xs \<Longrightarrow> k x = None) \<Longrightarrow> uniq_on k xs"
  by (induction xs) auto

section \<open>Trains\<close>

lemma insert_train_ok:
  assumes "trains_ok (zdb_trains db)" "insert_train t db = Inr (rid, db')"
    and "activation_key t \<notin> activation_key ` set (zdb_trains db)" "\<not> tr_crosses_midnight t"
  shows "trains_ok (zdb_trains db') \<and> zdb_trains db' = zdb_trains db @ [t\<lparr>tr_id := rid\<rparr>] \<and>
    zdb_mvts db' = zdb_mvts db \<and> zdb_corpus db' = zdb_corpus db \<and>
    rid \<notin> tr_id ` set (zdb_trains db)"
proof -
  have rid: "rid = next_rowid (map tr_id (zdb_trains db))"
    and db': "db' = db\<lparr>zdb_trains := zdb_trains db @ [t\<lparr>tr_id := rid\<rparr>]\<rparr>"
    and new: "tr_tspl_id t \<notin> tr_tspl_id ` set (zdb_trains db)"
      "\<not> conflicts tr_darwin_rid (zdb_trains db) t" "\<not> conflicts trust_unique (zdb_trains db) t"
    using assms(2) by (auto simp: insert_train_def Let_def split: if_splits)
  have fresh: "rid \<notin> tr_id ` set (zdb_trains db)"
    using next_rowid_fresh [of "map tr_id (zdb_trains db)"] by (simp add: rid)
  have same: "trust_unique (t\<lparr>tr_id := rid\<rparr>) = trust_unique t"
    "activation_key (t\<lparr>tr_id := rid\<rparr>) = activation_key t"
    by (simp_all add: trust_unique_def activation_key_def split: option.split)
  from assms(1,3,4) new fresh show ?thesis
    by (auto simp: db' trains_ok_def uniq_on_snoc same conflicts_def image_iff split: option.splits)
qed

text \<open>An update of trains that keeps what the invariant is about.\<close>

lemma update_trains_inv:
  assumes inv: "zdb_inv db"
    and f: "\<And>t. tr_id (f t) = tr_id t" "\<And>t. tr_tspl_id (f t) = tr_tspl_id t"
      "\<And>t. activation_key (f t) = activation_key t"
      "\<And>t. tr_crosses_midnight (f t) = tr_crosses_midnight t"
      "\<And>t. tr_activated t \<Longrightarrow> tr_activated (f t)"
    and u: "uniq_on tr_darwin_rid (zdb_trains (snd (update_trains P f db)))"
      "uniq_on trust_unique (zdb_trains (snd (update_trains P f db)))"
  shows "zdb_inv (snd (update_trains P f db))"
proof -
  let ?g = "\<lambda>t. if P t then f t else t"
  have db': "snd (update_trains P f db) = db\<lparr>zdb_trains := map ?g (zdb_trains db)\<rparr>"
    by (simp add: update_trains_def)
  have maps: "map tr_id (map ?g xs) = map tr_id xs" "map tr_tspl_id (map ?g xs) = map tr_tspl_id xs"
    "map activation_key (map ?g xs) = map activation_key xs" for xs
    by (simp_all add: f)
  have "trains_ok (map ?g (zdb_trains db))"
    using inv u unfolding trains_ok_def zdb_inv_def maps db' by (auto simp: f)
  moreover have "mvt_ok (db\<lparr>zdb_trains := map ?g (zdb_trains db)\<rparr>) m" if "mvt_ok db m" for m
  proof (rule mvt_ok_mono [OF that])
    fix t
    assume t: "t \<in> set (zdb_trains db)" "tr_activated t"
    have "?g t \<in> set (zdb_trains (db\<lparr>zdb_trains := map ?g (zdb_trains db)\<rparr>))"
      using t(1) by simp
    moreover have "tr_id (?g t) = tr_id t" "tr_activated (?g t)" using t(2) f by simp_all
    ultimately show "\<exists>t'\<in>set (zdb_trains (db\<lparr>zdb_trains := map ?g (zdb_trains db)\<rparr>)).
        tr_id t' = tr_id t \<and> tr_activated t'" by blast
  qed simp
  ultimately show ?thesis using inv by (simp add: zdb_inv_def db')
qed

lemma update_trains_plain_inv:
  assumes "zdb_inv db"
    and f: "\<And>t. tr_id (f t) = tr_id t" "\<And>t. tr_tspl_id (f t) = tr_tspl_id t"
      "\<And>t. activation_key (f t) = activation_key t"
      "\<And>t. tr_crosses_midnight (f t) = tr_crosses_midnight t"
      "\<And>t. tr_activated t \<Longrightarrow> tr_activated (f t)"
    and k: "\<And>t. tr_darwin_rid (f t) = tr_darwin_rid t" "\<And>t. trust_unique (f t) = trust_unique t"
  shows "zdb_inv (snd (update_trains P f db))"
proof (rule update_trains_inv [OF assms(1) f])
  show "uniq_on tr_darwin_rid (zdb_trains (snd (update_trains P f db)))"
    "uniq_on trust_unique (zdb_trains (snd (update_trains P f db)))"
    using assms(1)
    by (simp_all add: update_trains_def zdb_inv_def trains_ok_def uniq_on_map_same k)
qed simp_all

section \<open>Movements\<close>

text \<open>Movements copied from a schedule: originals, under the train, with consecutive ids.\<close>

definition copied :: "int \<Rightarrow> int \<Rightarrow> train_mvt list \<Rightarrow> train_mvt list" where
  "copied tid n ms = numbered (\<lambda>i m. m\<lparr>tm_parent_train := tid, tm_id := i\<rparr>) n ms"

definition originals :: "train_mvt list \<Rightarrow> bool" where
  "originals ms \<longleftrightarrow> (\<forall>m\<in>set ms. tm_updates m = None \<and> tm_source m = SOURCE_SCHED_ITPS)"

lemma copied_simps [simp]:
  "copied tid n [] = []"
  "copied tid n (m # ms) = m\<lparr>tm_parent_train := tid, tm_id := n\<rparr> # copied tid (n + 1) ms"
  by (simp_all add: copied_def)

lemma copied_facts:
  "originals ms \<Longrightarrow> map tmvt_key (copied tid n ms) = map tmvt_key ms"
  "set (map tm_id (copied tid n ms)) \<subseteq> {n..}" "distinct (map tm_id (copied tid n ms))"
  "x \<in> set (copied tid n ms) \<Longrightarrow> tm_parent_train x = tid"
  "originals ms \<Longrightarrow> originals (copied tid n ms)"
  unfolding copied_def originals_def
  by ((rule numbered_map numbered_ids; simp add: tmvt_key_def)+) (auto elim: numbered_set)

lemma copy_mvts_eq:
  "tid \<in> tr_id ` set (zdb_trains db) \<Longrightarrow> originals ms \<Longrightarrow>
   copy_mvts tid ms db =
     Inr (db\<lparr>zdb_mvts := zdb_mvts db @ copied tid (next_rowid (map tm_id (zdb_mvts db))) ms\<rparr>)"
proof (induction ms arbitrary: db)
  case Nil
  then show ?case by (simp add: copy_mvts_def)
next
  case (Cons m ms)
  have "insert_train_mvt (m\<lparr>tm_parent_train := tid\<rparr>) db =
      Inr (next_rowid (map tm_id (zdb_mvts db)),
        db\<lparr>zdb_mvts := zdb_mvts db @
          [m\<lparr>tm_parent_train := tid, tm_id := next_rowid (map tm_id (zdb_mvts db))\<rparr>]\<rparr>)"
    using Cons.prems by (simp add: insert_train_mvt_def conflicts_def mvt_unique_def originals_def Let_def)
  with Cons.IH [of "db\<lparr>zdb_mvts := zdb_mvts db @
          [m\<lparr>tm_parent_train := tid, tm_id := next_rowid (map tm_id (zdb_mvts db))\<rparr>]\<rparr>"] Cons.prems
  show ?case by (simp add: copy_mvts_def next_rowid_snoc originals_def)
qed

lemma from_itps_originals: "originals (map from_itps ms)"
  by (simp add: originals_def from_itps_def)

text \<open>Appending an update of an original movement.\<close>

lemma insert_update_inv:
  assumes inv: "zdb_inv db" and ins: "insert_train_mvt m db = Inr (rid, db')"
    and o': "x \<in> set (zdb_mvts db)" "tm_updates x = None" "tm_updates m = Some (tm_id x)"
      "tm_parent_train m = tm_parent_train x" "tm_tiploc m = tm_tiploc x" "tm_day_offset m = tm_day_offset x"
    and src: "tm_source m = SOURCE_TRUST \<or> tm_source m = SOURCE_DARWIN_LIVE \<and>
      (\<forall>y\<in>set (zdb_mvts db). tm_updates y = tm_updates m \<longrightarrow> tm_source y \<noteq> SOURCE_DARWIN_LIVE)"
  shows "zdb_inv db' \<and> zdb_trains db' = zdb_trains db \<and> zdb_mvts db' = zdb_mvts db @ [m\<lparr>tm_id := rid\<rparr>]"
proof -
  let ?m = "m\<lparr>tm_id := rid\<rparr>"
  have rid: "rid = next_rowid (map tm_id (zdb_mvts db))"
    and db': "db' = db\<lparr>zdb_mvts := zdb_mvts db @ [?m]\<rparr>"
    and new: "\<not> conflicts mvt_unique (zdb_mvts db) m"
    using ins by (auto simp: insert_train_mvt_def Let_def split: if_splits)
  have fresh: "rid \<notin> tm_id ` set (zdb_mvts db)"
    using next_rowid_fresh [of "map tm_id (zdb_mvts db)"] by (simp add: rid)
  have k: "mvt_unique ?m = mvt_unique m" by (simp add: mvt_unique_def split: option.split)
  have mono: "mvt_ok db' y" if "mvt_ok db y" for y
    by (rule mvt_ok_mono [OF that]) (auto simp: db')
  have "mvt_ok db x" using inv o'(1) by (simp add: zdb_inv_def)
  with o' src have "mvt_ok db' ?m"
    by (auto simp: mvt_ok_def db')
  moreover have "uniq_on mvt_unique (zdb_mvts db')"
    using inv new by (auto simp: db' zdb_inv_def uniq_on_snoc k conflicts_def image_iff split: option.splits)
  moreover have "darwin_once (zdb_mvts db')"
    using inv src o'(3) by (auto simp: db' zdb_inv_def darwin_once_def uniq_on_snoc source_defs split: option.splits)
  ultimately show ?thesis
    using inv mono fresh by (auto simp: zdb_inv_def db')
qed

text \<open>Deleting updates takes nothing else along, since nothing refers to an update.\<close>

lemma delete_updates_eq:
  assumes inv: "zdb_inv db" and P: "\<And>m. P m \<Longrightarrow> tm_updates m \<noteq> None"
  shows "delete_mvts P db = db\<lparr>zdb_mvts := filter (\<lambda>m. \<not> P m) (zdb_mvts db)\<rparr>"
proof -
  let ?gone = "map tm_id (filter P (zdb_mvts db))"
  have "tm_updates m \<notin> Some ` set ?gone" if m: "m \<in> set (zdb_mvts db)" for m
  proof
    assume "tm_updates m \<in> Some ` set ?gone"
    then obtain y where y: "y \<in> set (zdb_mvts db)" "P y" "tm_updates m = Some (tm_id y)" by auto
    then obtain z where "z \<in> set (zdb_mvts db)" "tm_id z = tm_id y" "tm_updates z = None"
      using inv m by (force simp: zdb_inv_def mvt_ok_def)
    then have "z = y" using inv y(1) by (auto simp: zdb_inv_def intro: distinct_mapD)
    with P [OF y(2)] \<open>tm_updates z = None\<close> show False by simp
  qed
  then have "filter (\<lambda>m. tm_updates m \<in> Some ` set ?gone) (filter (\<lambda>m. \<not> P m) (zdb_mvts db)) = []"
    by (simp add: filter_empty_conv)
  then have "cascade_mvts n ?gone (filter (\<lambda>m. \<not> P m) (zdb_mvts db)) = filter (\<lambda>m. \<not> P m) (zdb_mvts db)" for n
    by (cases n) simp_all
  then show ?thesis by (simp add: delete_mvts_def)
qed

lemma delete_updates_inv:
  assumes inv: "zdb_inv db" and P: "\<And>m. P m \<Longrightarrow> tm_updates m \<noteq> None"
  shows "zdb_inv (delete_mvts P db)"
proof -
  have ok: "mvt_ok (db\<lparr>zdb_mvts := filter (\<lambda>m. \<not> P m) (zdb_mvts db)\<rparr>) m" if "mvt_ok db m" for m
  proof (rule mvt_ok_mono [OF that])
    fix x
    assume "x \<in> set (zdb_mvts db)" "tm_updates x = None"
    moreover from this P have "\<not> P x" by blast
    ultimately show "x \<in> set (zdb_mvts (db\<lparr>zdb_mvts := filter (\<lambda>m. \<not> P m) (zdb_mvts db)\<rparr>))" by simp
  qed auto
  have eq: "delete_mvts P db = db\<lparr>zdb_mvts := filter (\<lambda>m. \<not> P m) (zdb_mvts db)\<rparr>"
    using inv P by (rule delete_updates_eq)
  show ?thesis
    unfolding eq using inv ok by (simp add: zdb_inv_def darwin_once_def uniq_on_filter distinct_map_filter)
qed

section \<open>What an update inserts\<close>

lemma single_mvt_Inr: "single_mvt ms = Inr x \<longleftrightarrow> ms = [x]"
  by (cases ms rule: remdups_adj.cases) (auto simp: single_mvt_def)

lemma insert_train_mvt_Inr:
  "insert_train_mvt m db = Inr (rid, db') \<longleftrightarrow>
     \<not> conflicts mvt_unique (zdb_mvts db) m \<and> tm_parent_train m \<in> tr_id ` set (zdb_trains db) \<and>
     (\<forall>u. tm_updates m = Some u \<longrightarrow> u \<in> tm_id ` set (zdb_mvts db)) \<and>
     rid = next_rowid (map tm_id (zdb_mvts db)) \<and>
     db' = db\<lparr>zdb_mvts := zdb_mvts db @ [m\<lparr>tm_id := rid\<rparr>]\<rparr>"
  by (auto simp: insert_train_mvt_def Let_def split: option.splits if_splits)

definition is_darwin_of :: "train_mvt \<Rightarrow> train_mvt \<Rightarrow> bool" where
  "is_darwin_of x m \<longleftrightarrow> tm_updates m = Some (tm_id x) \<and> tm_source m = SOURCE_DARWIN_LIVE"

lemma process_darwin_Inr:
  assumes inv: "zdb_inv (zs_db s)" and res: "process_darwin_mvt_update now tid upd s = (Inr m, s')"
  obtains t x where "find_train (zs_db s) tid = Inr t" "darwin_matches (zs_db s) t upd = [x]"
    "is_darwin_of x m" "tm_tiploc m = du_tiploc upd" "tm_day_offset m = du_planned_day_offset upd"
    "insert_train_mvt (m\<lparr>tm_id := -1\<rparr>) (delete_mvts (is_darwin_of x) (zs_db s)) = Inr (tm_id m, zs_db s')"
    "tm_parent_train m = tr_id t" "tm_time m = du_updated_time upd"
    "tm_actual m = du_time_actual upd" "tm_platform m = du_platform upd"
    "zs_db s' = (zs_db s)\<lparr>zdb_mvts := filter (\<lambda>y. \<not> is_darwin_of x y) (zdb_mvts (zs_db s)) @ [m]\<rparr>"
    "zs_cast s' = zs_cast s @ [\<lparr>bp_ts = now, bp_update = BcMovement m\<rparr>]"
proof -
  obtain t x rid db2 m0 where t: "find_train (zs_db s) tid = Inr t"
    and x: "darwin_matches (zs_db s) t upd = [x]"
    and m0: "m0 = \<lparr>tm_id = -1, tm_parent_train = tr_id t, tm_updates = Some (tm_id x),
                         tm_tiploc = du_tiploc upd, tm_action = du_planned_action upd,
                         tm_actual = du_time_actual upd, tm_time = du_updated_time upd,
                         tm_public_time = None, tm_day_offset = du_planned_day_offset upd,
                         tm_source = SOURCE_DARWIN_LIVE, tm_platform = du_platform upd,
                         tm_pfm_suppr = du_platsup upd, tm_unknown_delay = du_delay_unknown upd\<rparr>"
    and ins: "insert_train_mvt m0 (delete_mvts (is_darwin_of x) (zs_db s)) = Inr (rid, db2)"
    and m: "m = m0\<lparr>tm_id := rid\<rparr>" and s': "s' = send_mvt now m (s\<lparr>zs_db := db2\<rparr>)"
    using res
    by (auto simp: process_darwin_mvt_update_def single_mvt_Inr res_bind_Inr res_map_Inr Let_def
        is_darwin_of_def [abs_def] split: sum.splits)
  have del: "delete_mvts (is_darwin_of x) (zs_db s) =
      (zs_db s)\<lparr>zdb_mvts := filter (\<lambda>y. \<not> is_darwin_of x y) (zdb_mvts (zs_db s))\<rparr>"
    by (rule delete_updates_eq [OF inv]) (simp add: is_darwin_of_def)
  show thesis
    using ins [unfolded del insert_train_mvt_Inr] ins
    by (intro that [OF t x]) (simp_all add: m m0 s' is_darwin_of_def send_mvt_def send_update_def)
qed

lemma process_trust_Inr:
  assumes "process_trust_mvt_update now tid upd s = (Inr m, s')"
  obtains t x rid m0 where "find_train (zs_db s) tid = Inr t" "trust_matches (zs_db s) t upd = [x]"
    "m0 = \<lparr>tm_id = -1, tm_parent_train = tr_id t, tm_updates = Some (tm_id x),
                         tm_tiploc = tm_tiploc x, tm_action = tu_planned_action upd,
                         tm_actual = True, tm_time = tu_actual_time upd,
                         tm_public_time = tu_actual_public_time upd,
                         tm_day_offset = tu_planned_day_offset upd, tm_source = SOURCE_TRUST,
                         tm_platform = tu_platform upd, tm_pfm_suppr = False,
                         tm_unknown_delay = False\<rparr>"
    "insert_train_mvt m0 (zs_db s) = Inr (rid, zs_db s')"
    "m = m0\<lparr>tm_id := rid\<rparr>" "\<not> conflicts mvt_unique (zdb_mvts (zs_db s)) m0"
    "zs_db s' = (zs_db s)\<lparr>zdb_mvts := zdb_mvts (zs_db s) @ [m]\<rparr>"
    "zs_cast s' = zs_cast s @ [\<lparr>bp_ts = now, bp_update = BcMovement m\<rparr>]"
  using assms
  by (auto simp: process_trust_mvt_update_def single_mvt_Inr res_bind_Inr res_map_Inr Let_def
      insert_train_mvt_Inr send_mvt_def send_update_def split: sum.splits)

section \<open>Every handler keeps the invariant\<close>

lemma nth0_none_key:
  assumes "nth0 (filter (activation_match ad) ts) = None"
  shows "activation_key (new_train uu ad) \<notin> activation_key ` set ts"
  using assms
  by (auto simp: filter_empty_conv activation_match_key activation_key_def new_train_def)

text \<open>What \<open>activate_copy\<close> leaves: the train, activated when movements came with it.\<close>

lemma activate_copy_Some:
  assumes inv: "zdb_inv db" and t: "t \<in> set (zdb_trains db)" "\<not> tr_activated t"
    and ms: "originals ms" "ms \<noteq> []"
    and n: "n = next_rowid (map tm_id (zdb_mvts db))"
    and db': "db' = db\<lparr>zdb_trains := map (\<lambda>x. if tr_id x = tr_id t then x\<lparr>tr_activated := True\<rparr> else x) (zdb_trains db),
        zdb_mvts := zdb_mvts db @ copied (tr_id t) n ms\<rparr>"
  shows "activate_copy uu ad ms (Some t) db = Inr (t\<lparr>tr_activated := True\<rparr>, db') \<and> zdb_inv db'"
proof -
  have id: "tr_id t \<in> tr_id ` set (zdb_trains db)" using t(1) by simp
  let ?db1 = "snd (update_trains (\<lambda>x. tr_id x = tr_id t) (\<lambda>x. x\<lparr>tr_activated := True\<rparr>) db)"
  let ?new = "copied (tr_id t) n ms"
  have db1: "?db1 = db\<lparr>zdb_trains := zdb_trains db'\<rparr>" by (simp add: update_trains_def db')
  have inv1: "zdb_inv ?db1"
    by (rule update_trains_plain_inv [OF inv])
       simp_all
  have "activate_copy uu ad ms (Some t) db = Inr (t\<lparr>tr_activated := True\<rparr>, db')"
    using t(2) ms by (simp add: activate_copy_def copy_mvts_eq [OF id ms(1)] update_trains_def db' n)
  moreover have "zdb_inv db'"
  proof -
    have none: "tm_updates x = None" "tm_source x = SOURCE_SCHED_ITPS" "tm_parent_train x = tr_id t"
      if "x \<in> set ?new" for x
      using copied_facts(4) [of x "tr_id t" n ms] copied_facts(5) [OF ms(1), of "tr_id t" n] that
      by (auto simp: originals_def)
    have "mvt_ok db' x" if "mvt_ok ?db1 x" for x
      by (rule mvt_ok_mono [OF that]) (auto simp: db1 db')
    moreover have act: "t\<lparr>tr_activated := True\<rparr> \<in> set (zdb_trains db')"
      using t(1) by (force simp: db')
    moreover have "mvt_ok db' x" if "x \<in> set ?new" for x
      using none [OF that] by (simp add: mvt_ok_def) (rule bexI [OF _ act], simp)
    moreover have "set (map tm_id (zdb_mvts db)) \<inter> set (map tm_id ?new) = {}"
      using next_rowid_gt [of _ "map tm_id (zdb_mvts db)"] copied_facts(2) [of "tr_id t" n ms]
      by (force simp: n)
    moreover have "uniq_on mvt_unique ?new"
      by (rule uniq_on_none) (simp add: mvt_unique_def none)
    moreover have "darwin_once ?new"
      unfolding darwin_once_def by (rule uniq_on_none) (simp add: none source_defs)
    ultimately show ?thesis
      using inv1 copied_facts(3) [of "tr_id t" n ms] none
      by (auto simp: zdb_inv_def db1 db' uniq_on_append darwin_once_def mvt_unique_def source_defs)
  qed
  ultimately show ?thesis by simp
qed

lemma insert_train_inv:
  assumes "zdb_inv db" "insert_train t db = Inr (rid, db')"
    and "activation_key t \<notin> activation_key ` set (zdb_trains db)" "\<not> tr_crosses_midnight t"
  shows "zdb_inv db'"
proof -
  note ok = insert_train_ok [OF _ assms(2-4)]
  have "mvt_ok db' m" if "mvt_ok db m" for m
    by (rule mvt_ok_mono [OF that]) (use ok assms(1) in \<open>auto simp: zdb_inv_def\<close>)
  with ok assms(1) show ?thesis by (auto simp: zdb_inv_def)
qed

lemma activate_lowlevel_inv:
  assumes inv: "zdb_inv db" and ms: "originals ms"
  shows "zdb_inv (snd (activate_lowlevel uu ad ms db))"
proof (cases "nth0 (filter (activation_match ad) (zdb_trains db))")
  case (Some t)
  have t: "t \<in> set (zdb_trains db)" using nth0_filter_Some [OF Some] by simp
  show ?thesis
  proof (cases "\<not> tr_activated t \<and> length ms > 0")
    case True
    with activate_copy_Some [OF inv t _ ms _ refl refl, of uu ad] show ?thesis
      by (simp add: activate_lowlevel_def Some)
  next
    case False
    with inv show ?thesis by (auto simp: activate_lowlevel_def Some)
  qed
next
  case None
  let ?t = "new_train uu ad"
  show ?thesis
  proof (cases "insert_train ?t db")
    case (Inl e)
    with inv show ?thesis by (simp add: activate_lowlevel_def None activate_copy_def Let_def)
  next
    case (Inr r)
    then obtain rid db1 where ins: "insert_train ?t db = Inr (rid, db1)" by (cases r) auto
    note key = nth0_none_key [OF None, of uu]
    have ncm: "\<not> tr_crosses_midnight ?t" by (simp add: new_train_def)
    note inv1 = insert_train_inv [OF inv ins key ncm]
    have mem: "?t\<lparr>tr_id := rid\<rparr> \<in> set (zdb_trains db1)"
      using insert_train_ok [OF _ ins key ncm] inv by (auto simp: zdb_inv_def)
    have step: "activate_copy uu ad ms None db = activate_copy uu ad ms (Some (?t\<lparr>tr_id := rid\<rparr>)) db1"
      by (simp add: activate_copy_def ins Let_def)
    have na: "\<not> tr_activated (?t\<lparr>tr_id := rid\<rparr>)" by (simp add: new_train_def)
    show ?thesis
    proof (cases "ms = []")
      case True
      with inv1 show ?thesis
        by (simp add: activate_lowlevel_def None activate_copy_def ins Let_def)
    next
      case False
      with activate_copy_Some [OF inv1 mem na ms False refl refl, of uu ad] show ?thesis
        by (simp add: activate_lowlevel_def None step)
    qed
  qed
qed

lemma process_darwin_inv:
  assumes inv: "zdb_inv (zs_db s)"
  shows "zdb_inv (zs_db (snd (process_darwin_mvt_update now tid upd s)))"
proof (cases "fst (process_darwin_mvt_update now tid upd s)")
  case (Inl e)
  then have "snd (process_darwin_mvt_update now tid upd s) = s"
    by (auto simp: process_darwin_mvt_update_def split: sum.splits)
  with inv show ?thesis by simp
next
  case (Inr m)
  then obtain s' where res: "process_darwin_mvt_update now tid upd s = (Inr m, s')"
    by (cases "process_darwin_mvt_update now tid upd s") auto
  show ?thesis
  proof (rule process_darwin_Inr [OF inv res], goal_cases)
    case (1 t x)
    have x: "x \<in> set (darwin_matches (zs_db s) t upd)" using 1 by simp
    have eq: "delete_mvts (is_darwin_of x) (zs_db s) =
        (zs_db s)\<lparr>zdb_mvts := filter (\<lambda>m. \<not> is_darwin_of x m) (zdb_mvts (zs_db s))\<rparr>"
      using inv by (rule delete_updates_eq) (simp add: is_darwin_of_def)
    have "zdb_inv (delete_mvts (is_darwin_of x) (zs_db s))"
      using inv by (rule delete_updates_inv) (simp add: is_darwin_of_def)
    from insert_update_inv [OF this 1(6), of x] 1(3-5,7) x show ?case
      by (simp add: res eq darwin_matches_def is_darwin_of_def)
  qed
qed

lemma process_trust_inv:
  assumes inv: "zdb_inv (zs_db s)"
  shows "zdb_inv (zs_db (snd (process_trust_mvt_update now tid upd s)))"
proof (cases "fst (process_trust_mvt_update now tid upd s)")
  case (Inl e)
  then have "snd (process_trust_mvt_update now tid upd s) = s"
    by (auto simp: process_trust_mvt_update_def split: sum.splits)
  with inv show ?thesis by simp
next
  case (Inr m)
  then obtain s' where res: "process_trust_mvt_update now tid upd s = (Inr m, s')"
    by (cases "process_trust_mvt_update now tid upd s") auto
  show ?thesis
  proof (rule process_trust_Inr [OF res], goal_cases)
    case (1 t x rid m0)
    have x: "x \<in> set (trust_matches (zs_db s) t upd)" using 1 by simp
    from insert_update_inv [OF inv 1(4), of x] 1(3) x show ?case
      by (simp add: res trust_matches_def)
  qed
qed

lemma flags_inv:
  assumes "zdb_inv (zs_db s)"
  shows "zdb_inv (zs_db (snd (terminate_train tid s)))" "zdb_inv (zs_db (snd (cancel_train tid s)))"
proof -
  have "zdb_inv (snd (update_trains P (\<lambda>t. t\<lparr>tr_terminated := True\<rparr>) (zs_db s)))"
    "zdb_inv (snd (update_trains P (\<lambda>t. t\<lparr>tr_cancelled := True\<rparr>) (zs_db s)))" for P
    by (rule update_trains_plain_inv [OF assms]; simp)+
  then show "zdb_inv (zs_db (snd (terminate_train tid s)))" "zdb_inv (zs_db (snd (cancel_train tid s)))"
    by (simp_all add: terminate_train_def cancel_train_def split_beta)
qed

lemma update_unique_Inr:
  "update_trains_unique k name P f db = Inr (n, db') \<longleftrightarrow>
     (n, db') = update_trains P f db \<and> uniq_on k (zdb_trains db')"
  by (auto simp: update_trains_unique_def Let_def dest: arg_cong [of _ _ snd])

lemma associate_inv:
  assumes inv: "zdb_inv (zs_db s)"
  shows "zdb_inv (zs_db (snd (associate_trust_id tid trust_id s)))"
proof (cases "update_trains_unique trust_unique ''trains.date, trains.trust_id''
    (\<lambda>t. tr_tspl_id t = tid) (\<lambda>t. t\<lparr>tr_trust_id := Some trust_id\<rparr>) (zs_db s)")
  case (Inl e)
  with inv show ?thesis by (simp add: associate_trust_id_def)
next
  case (Inr r)
  then obtain n db1 where r: "r = (n, db1)" by (cases r)
  let ?u = "update_trains (\<lambda>t. tr_tspl_id t = tid) (\<lambda>t. t\<lparr>tr_trust_id := Some trust_id\<rparr>) (zs_db s)"
  from Inr r have u: "db1 = snd ?u" "uniq_on trust_unique (zdb_trains (snd ?u))"
    by (auto simp: update_unique_Inr dest: arg_cong [of _ _ snd])
  have "zdb_inv (snd ?u)"
  proof (rule update_trains_inv [OF inv])
    show "uniq_on tr_darwin_rid (zdb_trains (snd ?u))"
      using inv by (simp add: update_trains_def uniq_on_map_same zdb_inv_def trains_ok_def)
  qed (simp_all add: u)
  then show ?thesis by (simp add: associate_trust_id_def Inr r u)
qed

lemma activator_inv:
  assumes "zdb_inv db"
  shows "zdb_inv (snd (activator_darwin F uu uid run_date db))"
    and "zdb_inv (snd (activator_nrod F uu uid start_date stp source date db))"
proof -
  have orig: "originals ms" if "get_tmvts_for_schedule F sched = Inr ms" for sched ms
    using that by (auto simp: get_tmvts_for_schedule_def res_map_Inr from_itps_originals)
  have "originals []" by (simp add: originals_def)
  then show "zdb_inv (snd (activator_darwin F uu uid run_date db))"
    and "zdb_inv (snd (activator_nrod F uu uid start_date stp source date db))"
    using assms orig
    by (auto simp: activator_darwin_def activator_nrod_def activate_lowlevel_inv
        split: sum.split option.split)
qed

lemma activate_train_darwin_inv:
  assumes inv: "zdb_inv (zs_db s)"
  shows "zdb_inv (zs_db (snd (activate_train_darwin F uu now uid date rid s)))"
proof -
  obtain r db1 where a: "activator_darwin F uu uid date (zs_db s) = (r, db1)"
    by (cases "activator_darwin F uu uid date (zs_db s)")
  have inv1: "zdb_inv db1" using activator_inv(1) [OF inv, of F uu uid date] by (simp add: a)
  let ?u = "\<lambda>t. update_trains (\<lambda>x. tr_id x = tr_id t) (\<lambda>x. x\<lparr>tr_darwin_rid := Some rid\<rparr>) db1"
  have "zdb_inv (snd (?u t))" if "uniq_on tr_darwin_rid (zdb_trains (snd (?u t)))" for t :: train
  proof (rule update_trains_inv [OF inv1])
    show "uniq_on trust_unique (zdb_trains (snd (?u t)))"
      using inv1 by (simp add: update_trains_def uniq_on_map_same zdb_inv_def trains_ok_def)
  qed (simp_all add: that)
  with inv1 show ?thesis
    by (auto simp: activate_train_darwin_def a update_trains_unique_def Let_def send_activation_def
        send_update_def split_beta split: sum.splits)
qed

lemma activate_train_inv:
  "zdb_inv (zs_db s) \<Longrightarrow>
   zdb_inv (zs_db (snd (activate_train F uu now uid start_date stp source date s)))"
  using activator_inv(2) [of "zs_db s" F uu uid start_date stp source date]
  by (auto simp: activate_train_def send_activation_def send_update_def split: sum.split prod.split)

lemma corpus_import_same:
  "zdb_trains (corpus_import data db) = zdb_trains db \<and> zdb_mvts (corpus_import data db) = zdb_mvts db"
proof -
  have "zdb_trains (fold (\<lambda>ent db. if contains_data ent then insert_corpus ent db else db) es db) = zdb_trains db \<and>
    zdb_mvts (fold (\<lambda>ent db. if contains_data ent then insert_corpus ent db else db) es db) = zdb_mvts db" for es
    by (induction es arbitrary: db) (simp_all add: insert_corpus_def)
  then show ?thesis by (simp add: corpus_import_def)
qed

lemma corpus_import_inv: "zdb_inv db \<Longrightarrow> zdb_inv (corpus_import data db)"
  by (simp add: zdb_inv_def mvt_ok_def corpus_import_same cong: option.case_cong)

lemmas handler_inv = process_darwin_inv process_trust_inv flags_inv associate_inv
  activate_train_darwin_inv activate_train_inv

lemma zug_on_request_inv:
  assumes "zdb_inv (zs_db s)"
  shows "zdb_inv (zs_db (snd (zug_on_request ua C F uu now req s)))"
  using assms by (cases req) (simp_all add: handler_inv)

section \<open>Reachable states\<close>

text \<open>
  The service starts with the empty tables the migrations create, imports CORPUS when it has no
  entries (\<open>main.rs\<close>), and then handles requests one after the other: every handler runs in an
  exclusive transaction or is a single statement. What \<open>tspl-fahrplan\<close> answers, the clock and
  the UUIDs may differ from request to request.
\<close>

definition zug_init :: zug_state where
  "zug_init = \<lparr>zs_db = \<lparr>zdb_trains = [], zdb_mvts = [], zdb_corpus = []\<rparr>, zs_cast = []\<rparr>"

inductive zug_step :: "zug_state \<Rightarrow> zug_state \<Rightarrow> bool" where
  request: "zug_step s (snd (zug_on_request ua C F uu now req s))"
| corpus: "corpus_should_import (zs_db s) \<Longrightarrow> zug_step s (s\<lparr>zs_db := corpus_import data (zs_db s)\<rparr>)"

inductive zug_reach :: "zug_state \<Rightarrow> bool" where
  start: "zug_reach zug_init"
| step: "zug_reach s \<Longrightarrow> zug_step s t \<Longrightarrow> zug_reach t"

lemma zug_step_inv: "zug_step s t \<Longrightarrow> zdb_inv (zs_db s) \<Longrightarrow> zdb_inv (zs_db t)"
  by (induction rule: zug_step.induct) (simp_all add: zug_on_request_inv corpus_import_inv)

lemma zug_reach_inv: "zug_reach s \<Longrightarrow> zdb_inv (zs_db s)"
proof (induction rule: zug_reach.induct)
  case start
  show ?case by (simp add: zug_init_def zdb_inv_def trains_ok_def darwin_once_def)
next
  case (step s t)
  then show ?case by (blast intro: zug_step_inv)
qed

lemma zdb_invD:
  assumes "zdb_inv db"
  shows "distinct (map tr_id (zdb_trains db))" "distinct (map tr_tspl_id (zdb_trains db))"
    "distinct (map activation_key (zdb_trains db))" "distinct (map tm_id (zdb_mvts db))"
    "uniq_on tr_darwin_rid (zdb_trains db)" "uniq_on trust_unique (zdb_trains db)"
    "uniq_on mvt_unique (zdb_mvts db)" "darwin_once (zdb_mvts db)"
    "t \<in> set (zdb_trains db) \<Longrightarrow> \<not> tr_crosses_midnight t" "m \<in> set (zdb_mvts db) \<Longrightarrow> mvt_ok db m"
  using assms by (auto simp: zdb_inv_def trains_ok_def)

lemma train_by_id:
  "zdb_inv db \<Longrightarrow> t \<in> set (zdb_trains db) \<Longrightarrow> t' \<in> set (zdb_trains db) \<Longrightarrow> tr_id t = tr_id t' \<Longrightarrow> t = t'"
  by (auto dest: zdb_invD(1) intro: distinct_mapD)

lemma find_train_Inr:
  "zdb_inv db \<Longrightarrow> find_train db tid = Inr t \<longleftrightarrow> t \<in> set (zdb_trains db) \<and> tr_tspl_id t = tid"
  unfolding find_train_def
  by (auto dest: nth0_filter_Some intro!: nth0_filter_unique intro: distinct_mapD dest: zdb_invD(2))

end
