(* ===== verification/Zugfuhrer_Activation.thy ===== *)
theory Zugfuhrer_Activation
  imports Zugfuhrer_Inv
begin

text \<open>
  What activating a train does (\<open>activation.rs\<close>): it is idempotent, it copies the movements of the
  schedule in order, and it happens at most once per schedule and day. The contract
  \<open>tspl-zugfuhrer\<close> relies on when it asks \<open>tspl-fahrplan\<close> is the locale \<open>fahrplan_service\<close>; the model
  of \<open>tspl-fahrplan\<close>, called over HTTP, is its interpretation.
\<close>

section \<open>The low-level activation\<close>

lemma activate_lowlevel_cases:
  assumes inv: "zdb_inv db" and ms: "originals ms"
    and act: "activate_lowlevel uu ad ms db = (Inr t, db1)"
  obtains (there) "db1 = db" "t \<in> set (zdb_trains db)" "activation_match ad t" "tr_activated t \<or> ms = []"
  | (made) "t \<in> set (zdb_trains db1)" "activation_match ad t" "tr_activated t \<longleftrightarrow> ms \<noteq> []"
      "zdb_mvts db1 = zdb_mvts db @ copied (tr_id t) (next_rowid (map tm_id (zdb_mvts db))) ms"
      "\<forall>m\<in>set (zdb_mvts db). tm_parent_train m \<noteq> tr_id t" "zdb_corpus db1 = zdb_corpus db"
proof (cases "nth0 (filter (activation_match ad) (zdb_trains db))")
  case (Some r)
  have r: "r \<in> set (zdb_trains db)" "activation_match ad r" using nth0_filter_Some [OF Some] by simp_all
  show thesis
  proof (cases "\<not> tr_activated r \<and> length ms > 0")
    case True
    then have na: "\<not> tr_activated r" and ne: "ms \<noteq> []" by simp_all
    have t: "t = r\<lparr>tr_activated := True\<rparr>"
      and db1: "db1 = db\<lparr>zdb_trains := map (\<lambda>x. if tr_id x = tr_id r then x\<lparr>tr_activated := True\<rparr> else x) (zdb_trains db),
        zdb_mvts := zdb_mvts db @ copied (tr_id r) (next_rowid (map tm_id (zdb_mvts db))) ms\<rparr>"
      using act activate_copy_Some [OF inv r(1) na ms ne refl refl, of uu ad]
      by (simp_all add: activate_lowlevel_def Some na ne)
    have "\<forall>m\<in>set (zdb_mvts db). tm_parent_train m \<noteq> tr_id r"
      using zdb_invD(10) [OF inv] train_by_id [OF inv r(1)] na by (force simp: mvt_ok_def)
    then show thesis
      using r ne by (intro made) (force simp: t db1 activation_match_def)+
  next
    case False
    with act r show thesis by (intro there) (auto simp: activate_lowlevel_def Some)
  qed
next
  case None
  let ?t = "new_train uu ad"
  obtain rid db0 where ins: "insert_train ?t db = Inr (rid, db0)"
    using act by (cases "insert_train ?t db") (auto simp: activate_lowlevel_def None activate_copy_def Let_def)
  have ncm: "\<not> tr_crosses_midnight ?t" and na: "\<not> tr_activated (?t\<lparr>tr_id := rid\<rparr>)"
    and ad: "activation_match ad (?t\<lparr>tr_id := rid\<rparr>)" "activation_match ad (?t\<lparr>tr_id := rid, tr_activated := True\<rparr>)"
    by (simp_all add: new_train_def activation_match_def)
  note key = nth0_none_key [OF None, of uu]
  note inv0 = insert_train_inv [OF inv ins key ncm]
  have ok: "trains_ok (zdb_trains db)" using inv by (simp add: zdb_inv_def)
  note ok = insert_train_ok [OF ok ins key ncm]
  have mem: "?t\<lparr>tr_id := rid\<rparr> \<in> set (zdb_trains db0)" using ok by simp
  have none: "\<forall>m\<in>set (zdb_mvts db). tm_parent_train m \<noteq> rid"
    using zdb_invD(10) [OF inv] ok by (force simp: mvt_ok_def)
  show thesis
  proof (cases "ms = []")
    case True
    then have "t = ?t\<lparr>tr_id := rid\<rparr>" "db1 = db0"
      using act by (simp_all add: activate_lowlevel_def None activate_copy_def ins Let_def)
    with True mem ok none ad na show thesis by (intro made) auto
  next
    case False
    have step: "activate_copy uu ad ms None db = activate_copy uu ad ms (Some (?t\<lparr>tr_id := rid\<rparr>)) db0"
      by (simp add: activate_copy_def ins Let_def)
    have t: "t = ?t\<lparr>tr_id := rid, tr_activated := True\<rparr>"
      and db1: "db1 = db0\<lparr>zdb_trains := map (\<lambda>x. if tr_id x = rid then x\<lparr>tr_activated := True\<rparr> else x) (zdb_trains db0),
        zdb_mvts := zdb_mvts db0 @ copied rid (next_rowid (map tm_id (zdb_mvts db0))) ms\<rparr>"
      using act activate_copy_Some [OF inv0 mem na ms False refl refl, of uu ad]
      by (simp_all add: activate_lowlevel_def None step)
    show thesis
      using mem ok none ad False by (intro made) (force simp: t db1)+
  qed
qed

lemma activate_lowlevel_again:
  assumes "zdb_inv db1" "t \<in> set (zdb_trains db1)" "activation_match ad t" "tr_activated t \<or> ms = []"
  shows "activate_lowlevel uu ad ms db1 = (Inr t, db1)"
proof -
  have "nth0 (filter (activation_match ad) (zdb_trains db1)) = Some t"
    using assms(2,3)
    by (rule nth0_filter_unique)
       (use assms in \<open>auto simp: activation_match_key intro: distinct_mapD [OF zdb_invD(3)]\<close>)
  with assms(4) show ?thesis by (auto simp: activate_lowlevel_def)
qed

text \<open>The only way a low-level activation fails: the fresh UUID is taken. Nothing is changed then.\<close>

lemma activate_lowlevel_Inl:
  assumes "zdb_inv db" "originals ms" "activate_lowlevel uu ad ms db = (Inl e, db1)"
  shows "db1 = db \<and> e = ZRsql (ConstraintUnique ''trains.tspl_id'') \<and> uu \<in> tr_tspl_id ` set (zdb_trains db)"
proof (cases "nth0 (filter (activation_match ad) (zdb_trains db))")
  case (Some r)
  have r: "r \<in> set (zdb_trains db)" using nth0_filter_Some [OF Some] by simp
  show ?thesis
  proof (cases "\<not> tr_activated r \<and> length ms > 0")
    case True
    with assms(3) activate_copy_Some [OF assms(1) r _ assms(2) _ refl refl, of uu ad] show ?thesis
      by (simp add: activate_lowlevel_def Some)
  next
    case False
    with assms(3) show ?thesis by (auto simp: activate_lowlevel_def Some)
  qed
next
  case None
  let ?t = "new_train uu ad"
  show ?thesis
  proof (cases "insert_train ?t db")
    case (Inl e')
    have "conflicts tr_darwin_rid (zdb_trains db) ?t = False" "conflicts trust_unique (zdb_trains db) ?t = False"
      by (simp_all add: conflicts_def new_train_def trust_unique_def)
    with Inl assms(3) show ?thesis
      by (auto simp: activate_lowlevel_def None activate_copy_def Let_def insert_train_def new_train_def
          split: if_splits)
  next
    case (Inr r)
    then obtain rid db0 where ins: "insert_train ?t db = Inr (rid, db0)" by (cases r) auto
    have ncm: "\<not> tr_crosses_midnight ?t" and na: "\<not> tr_activated (?t\<lparr>tr_id := rid\<rparr>)"
      by (simp_all add: new_train_def)
    note key = nth0_none_key [OF None, of uu]
    note inv0 = insert_train_inv [OF assms(1) ins key ncm]
    have "trains_ok (zdb_trains db)" using assms(1) by (simp add: zdb_inv_def)
    then have mem: "?t\<lparr>tr_id := rid\<rparr> \<in> set (zdb_trains db0)"
      using insert_train_ok [OF _ ins key ncm] by simp
    have "activate_copy uu ad ms None db = activate_copy uu ad ms (Some (?t\<lparr>tr_id := rid\<rparr>)) db0"
      by (simp add: activate_copy_def ins Let_def)
    then show ?thesis
      using assms(3) activate_copy_Some [OF inv0 mem na assms(2) _ refl refl, of uu ad]
      by (cases "ms = []") (simp_all add: activate_lowlevel_def None activate_copy_def ins Let_def)
  qed
qed

section \<open>The movements of an activated train\<close>

text \<open>A movement without the columns that say where its row is.\<close>

definition tm_plain :: "train_mvt \<Rightarrow> train_mvt" where
  "tm_plain m = m\<lparr>tm_id := -1, tm_parent_train := -1\<rparr>"

lemma copied_plain: "map tm_plain (copied tid n ms) = map tm_plain ms"
  unfolding copied_def by (rule numbered_map) (simp add: tm_plain_def)

lemma from_itps_plain [simp]: "tm_plain (from_itps m) = from_itps m"
  by (simp add: tm_plain_def from_itps_def)

lemma from_itps_key: "sorted (map smv_key ms) \<Longrightarrow> sorted (map tmvt_key (map from_itps ms))"
  by (induction ms) (auto simp: tmvt_key_def smv_key_def from_itps_def less_eq_prod_def)

text \<open>A train that has just been given movements in order shows exactly these, in order.\<close>

lemma details_of_copied:
  assumes inv: "zdb_inv db" and t: "t \<in> set (zdb_trains db)"
    and mvts: "zdb_mvts db = old @ copied (tr_id t) n ms" "\<forall>m\<in>set old. tm_parent_train m \<noteq> tr_id t"
    and ms: "originals ms" "sorted (map tmvt_key ms)"
  shows "get_train_details db (tr_tspl_id t) = Inr \<lparr>td_train = t, td_mvts = copied (tr_id t) n ms\<rparr>"
proof -
  have "find_train db (tr_tspl_id t) = Inr t" using inv t by (simp add: find_train_Inr)
  moreover have "filter (\<lambda>m. tm_parent_train m = tr_id t) old = []"
    using mvts(2) by (simp add: filter_empty_conv)
  moreover have "filter (\<lambda>m. tm_parent_train m = tr_id t) (copied (tr_id t) n ms) = copied (tr_id t) n ms"
    using copied_facts(4) [of _ "tr_id t" n ms] by (simp add: filter_id_conv)
  moreover have "sorted (map tmvt_key (copied (tr_id t) n ms))"
    using ms by (simp add: copied_facts(1))
  ultimately show ?thesis
    by (simp add: get_train_details_def mvts(1) sort_key_id_if_sorted)
qed

lemma lowlevel_details:
  assumes inv: "zdb_inv db" and ms: "originals ms" "sorted (map tmvt_key ms)" "ms \<noteq> []"
    and act: "activate_lowlevel uu ad ms db = (Inr t, db1)"
    and new: "\<forall>x\<in>set (zdb_trains db). activation_match ad x \<longrightarrow> \<not> tr_activated x"
  shows "\<exists>d. get_train_details db1 (tr_tspl_id t) = Inr d \<and> td_train d = t \<and>
    map tm_plain (td_mvts d) = map tm_plain ms \<and> tr_activated t \<and> activation_match ad t"
proof -
  have inv1: "zdb_inv db1"
    using activate_lowlevel_inv [OF inv ms(1), of uu ad] by (simp add: act)
  show ?thesis
  proof (rule activate_lowlevel_cases [OF inv ms(1) act], goal_cases)
    case 1
    with new ms(3) show ?case by blast
  next
    case 2
    then show ?case
      using details_of_copied [OF inv1 2(1,4,5) ms(1,2)] ms(3) by (simp add: copied_plain)
  qed
qed

section \<open>The contract of \<open>tspl-fahrplan\<close>\<close>

text \<open>
  What a service \<open>F\<close> over databases \<open>db\<close> with schedules \<open>scheds db\<close> and movements \<open>mvts db s\<close> promises:
  a schedule it names is one of its own and is the one that was asked for, it says that there is
  none only if there is none, and it gives the movements of each of its schedules in order.
\<close>

locale fahrplan_service =
  fixes wf :: "'db \<Rightarrow> bool"
    and scheds :: "'db \<Rightarrow> schedule list"
    and mvts :: "'db \<Rightarrow> schedule \<Rightarrow> schedule_mvt list"
    and F :: "'db \<Rightarrow> fahrplan_api"
  assumes on_date: "wf db \<Longrightarrow> fa_by_uid_on_date (F db) uid d src = Inr s \<Longrightarrow>
      s \<in> set (scheds db) \<and> sch_uid s = uid \<and> sch_source s = src \<and>
      sch_start_date s \<le> d \<and> d \<le> sch_end_date s"
    and activation: "wf db \<Longrightarrow> s \<in> set (scheds db) \<Longrightarrow>
      fa_for_activation (F db) (sch_uid s) (sch_start_date s) (sch_stp_indicator s) (uint (sch_source s)) = Inr s"
    and no_activation: "wf db \<Longrightarrow> 0 \<le> isrc \<Longrightarrow> isrc < 256 \<Longrightarrow>
      \<forall>s\<in>set (scheds db). \<not> (sch_uid s = uid \<and> sch_start_date s = d \<and> sch_stp_indicator s = stp \<and>
        uint (sch_source s) = isrc) \<Longrightarrow>
      fa_for_activation (F db) uid d stp isrc = Inl RemoteNotFound"
    and details: "wf db \<Longrightarrow> s \<in> set (scheds db) \<Longrightarrow>
      fa_schedule (F db) (sch_tspl_id s) = Inr \<lparr>sd_sched = s, sd_mvts = mvts db s\<rparr>"
    and ordered: "wf db \<Longrightarrow> s \<in> set (scheds db) \<Longrightarrow> sorted (map smv_key (mvts db s))"
begin

lemma tmvts:
  assumes "wf db" "s \<in> set (scheds db)"
  shows "get_tmvts_for_schedule (F db) s = Inr (map from_itps (mvts db s))"
  using details [OF assms] by (simp add: get_tmvts_for_schedule_def)

lemma tmvts_ok:
  assumes "wf db" "s \<in> set (scheds db)"
  shows "originals (map from_itps (mvts db s))" "sorted (map tmvt_key (map from_itps (mvts db s)))"
  using from_itps_originals from_itps_key [OF ordered [OF assms]] by auto

lemma nrod_lowlevel:
  assumes "wf db" "s \<in> set (scheds db)"
  shows "activator_nrod (F db) uu (sch_uid s) (sch_start_date s) (sch_stp_indicator s) (uint (sch_source s)) date zdb =
    activate_lowlevel uu \<lparr>ad_uid = sch_uid s, ad_start_date = sch_start_date s,
      ad_stp_indicator = sch_stp_indicator s, ad_source = uint (sch_source s), ad_run_date = date\<rparr>
      (map from_itps (mvts db s)) zdb"
  using activation [OF assms] tmvts [OF assms] by (simp add: activator_nrod_def zug_optional_def)

lemma nrod_unknown:
  assumes "wf db" "0 \<le> src" "src < 256"
    and "\<forall>s\<in>set (scheds db). \<not> (sch_uid s = uid \<and> sch_start_date s = d \<and> sch_stp_indicator s = stp \<and>
        uint (sch_source s) = src)"
  shows "activator_nrod (F db) uu uid d stp src date zdb =
    activate_lowlevel uu \<lparr>ad_uid = uid, ad_start_date = d, ad_stp_indicator = stp, ad_source = src,
      ad_run_date = date\<rparr> [] zdb"
  using no_activation [OF assms] by (simp add: activator_nrod_def zug_optional_def)

lemma darwin_lowlevel:
  assumes "wf db" "activator_darwin (F db) uu uid d zdb = (Inr t, zdb1)"
  obtains s where "fa_by_uid_on_date (F db) uid d SOURCE_ITPS = Inr s" "s \<in> set (scheds db)"
    "sch_uid s = uid" "sch_start_date s \<le> d" "d \<le> sch_end_date s"
    "activate_lowlevel uu \<lparr>ad_uid = uid, ad_start_date = sch_start_date s,
      ad_stp_indicator = sch_stp_indicator s, ad_source = uint (sch_source s), ad_run_date = d\<rparr>
      (map from_itps (mvts db s)) zdb = (Inr t, zdb1)"
proof -
  obtain s where s: "fa_by_uid_on_date (F db) uid d SOURCE_ITPS = Inr s"
    using assms(2) by (auto simp: activator_darwin_def map_err_def split: sum.splits)
  note facts = on_date [OF assms(1) s]
  with that [OF s] assms(2) tmvts [OF assms(1)] show thesis
    by (simp add: activator_darwin_def s)
qed

end

section \<open>\<open>tspl-fahrplan\<close> over HTTP\<close>

text \<open>
  The three calls of \<open>activation.rs\<close>, answered by the model of \<open>tspl-fahrplan\<close> over a connection
  that works. The parameter \<open>source\<close> of a route is an unsigned byte: another value
  matches no route. A body of another type than the one asked for does not parse.
\<close>

definition fahrplan_http ::
    "string \<Rightarrow> chrono \<Rightarrow> fahrplan_db \<Rightarrow> fahrplan_request \<Rightarrow> rpc_error + fahrplan_body" where
  "fahrplan_http version C db req =
     req_with_headers (\<lambda>_. '''') ''fahrplan''
       (Inr (process_request fahrplan_status_code (\<lambda>_. '''') (fahrplan_on_request version C db req)))"

definition body_schedule :: "fahrplan_body \<Rightarrow> rpc_error + schedule" where
  "body_schedule b = (case b of FBSchedule s \<Rightarrow> Inr s | _ \<Rightarrow> Inl (Reqwest ''json''))"

definition body_details :: "fahrplan_body \<Rightarrow> rpc_error + schedule_details" where
  "body_details b = (case b of FBDetails d \<Rightarrow> Inr d | _ \<Rightarrow> Inl (Reqwest ''json''))"

definition fahrplan_client :: "string \<Rightarrow> chrono \<Rightarrow> fahrplan_db \<Rightarrow> fahrplan_api" where
  "fahrplan_client version C db =
     \<lparr>fa_by_uid_on_date = (\<lambda>uid d src.
        res_bind (fahrplan_http version C db (FSchedulesByUidOnDate uid d src)) body_schedule),
      fa_for_activation = (\<lambda>uid d stp src.
        res_bind (fahrplan_http version C db
           (if 0 \<le> src \<and> src < 256 then FSchedulesForActivation uid d stp (word_of_int src) else FOther))
          body_schedule),
      fa_schedule = (\<lambda>uu. res_bind (fahrplan_http version C db (FSchedule uu)) body_details)\<rparr>"

definition fahrplan_mvts_of :: "fahrplan_db \<Rightarrow> schedule \<Rightarrow> schedule_mvt list" where
  "fahrplan_mvts_of db s = sort_key smv_key (filter (\<lambda>m. smv_parent_sched m = sch_id s) (fdb_mvts db))"

lemma fahrplan_http_json:
  "fahrplan_on_request version C db req = res_map (\<lambda>x. json_response (f x)) r \<Longrightarrow>
   fahrplan_http version C db req = res_map f (rpc_call (\<lambda>x. '''') ''fahrplan'' fahrplan_status_code (\<lambda>_. '''') r)"
  by (cases r)
     (auto simp: fahrplan_http_def rpc_call_def process_request_def req_with_headers_def json_response_def)

lemma fahrplan_client_sched:
  "fa_by_uid_on_date (fahrplan_client v C db) uid d src =
     rpc_call (\<lambda>x. '''') ''fahrplan'' fahrplan_status_code (\<lambda>_. '''') (find_schedule_on_date C db uid d src)"
  "0 \<le> isrc \<Longrightarrow> isrc < 256 \<Longrightarrow>
   fa_for_activation (fahrplan_client v C db) uid d stp isrc =
     rpc_call (\<lambda>x. '''') ''fahrplan'' fahrplan_status_code (\<lambda>_. '''')
       (find_schedule_for_activation db uid stp d (word_of_int isrc))"
  "fa_schedule (fahrplan_client v C db) uu =
     rpc_call (\<lambda>x. '''') ''fahrplan'' fahrplan_status_code (\<lambda>_. '''') (request_schedule_details db uu)"
proof -
  have "res_bind (res_map f r) g = r" if "\<And>x. g (f x) = Inr x" for f g and r :: "rpc_error + 'x"
    using that by (cases r) simp_all
  note * = this
  show "fa_by_uid_on_date (fahrplan_client v C db) uid d src =
     rpc_call (\<lambda>x. '''') ''fahrplan'' fahrplan_status_code (\<lambda>_. '''') (find_schedule_on_date C db uid d src)"
    by (simp add: fahrplan_client_def fahrplan_http_json [OF fahrplan_on_request.simps(3)] * body_schedule_def)
  show "0 \<le> isrc \<Longrightarrow> isrc < 256 \<Longrightarrow>
   fa_for_activation (fahrplan_client v C db) uid d stp isrc =
     rpc_call (\<lambda>x. '''') ''fahrplan'' fahrplan_status_code (\<lambda>_. '''')
       (find_schedule_for_activation db uid stp d (word_of_int isrc))"
    by (simp add: fahrplan_client_def fahrplan_http_json [OF fahrplan_on_request.simps(4)] * body_schedule_def)
  show "fa_schedule (fahrplan_client v C db) uu =
     rpc_call (\<lambda>x. '''') ''fahrplan'' fahrplan_status_code (\<lambda>_. '''') (request_schedule_details db uu)"
    by (simp add: fahrplan_client_def fahrplan_http_json [OF fahrplan_on_request.simps(5)] * body_details_def)
qed

lemma schedule_on_date_Inr:
  assumes "find_schedule_on_date C db uid d src = Inr s"
  shows "least_stp s (auth_candidates C db uid d src)"
  using assms auth_loop_Inr [OF auth_candidates_run, where ret = None]
  by (auto simp: find_schedule_on_date_def auth_schedule_loop res_bind_Inr)

interpretation fps: fahrplan_service fdb_wf fdb_schedules fahrplan_mvts_of "fahrplan_client v C" for v C
proof
  fix db :: fahrplan_db
  assume wf: "fdb_wf db"
  show "s \<in> set (fdb_schedules db) \<and> sch_uid s = uid \<and> sch_source s = src \<and> sch_start_date s \<le> d \<and> d \<le> sch_end_date s"
    if "fa_by_uid_on_date (fahrplan_client v C db) uid d src = Inr s" for uid d src s
    using schedule_on_date_Inr [of C db uid d src s] that
    by (auto simp: fahrplan_client_sched fahrplan_status.call_Inr_iff least_stp_def auth_candidates_def)
  show "fa_for_activation (fahrplan_client v C db) (sch_uid s) (sch_start_date s) (sch_stp_indicator s)
      (uint (sch_source s)) = Inr s" if s: "s \<in> set (fdb_schedules db)" for s
  proof -
    have "nth0 (filter (\<lambda>x. sch_uid x = sch_uid s \<and> sch_stp_indicator x = sch_stp_indicator s \<and>
        sch_start_date x = sch_start_date s \<and> sch_source x = sch_source s) (fdb_schedules db)) = Some s"
    proof (rule nth0_filter_unique [OF s])
      show "y = s" if "y \<in> set (fdb_schedules db)"
        "sch_uid y = sch_uid s \<and> sch_stp_indicator y = sch_stp_indicator s \<and>
         sch_start_date y = sch_start_date s \<and> sch_source y = sch_source s" for y
        using wf s that by (auto simp: fdb_wf_def schedule_unique_def intro: distinct_mapD)
    qed simp
    then show ?thesis
      using uint_range(1) [of "sch_source s"]
      by (simp add: fahrplan_client_sched find_schedule_for_activation_def)
  qed
  show "fa_for_activation (fahrplan_client v C db) uid d stp isrc = Inl RemoteNotFound"
    if src: "0 \<le> isrc" "isrc < 256"
      and none: "\<forall>s\<in>set (fdb_schedules db). \<not> (sch_uid s = uid \<and> sch_start_date s = d \<and>
        sch_stp_indicator s = stp \<and> uint (sch_source s) = isrc)" for uid d stp isrc
  proof -
    have "uint (word_of_int isrc :: u8) = isrc" using src by (simp add: uint_word_of_int take_bit_int_eq_self)
    then have "filter (\<lambda>x. sch_uid x = uid \<and> sch_stp_indicator x = stp \<and> sch_start_date x = d \<and>
        sch_source x = word_of_int isrc) (fdb_schedules db) = []"
      using none by (auto simp: filter_empty_conv)
    then show ?thesis
      using src by (simp add: fahrplan_client_sched find_schedule_for_activation_def fahrplan_status.call_Inl)
  qed
  show "fa_schedule (fahrplan_client v C db) (sch_tspl_id s) = Inr \<lparr>sd_sched = s, sd_mvts = fahrplan_mvts_of db s\<rparr>"
    if s: "s \<in> set (fdb_schedules db)" for s
  proof -
    have "nth0 (filter (\<lambda>x. sch_tspl_id x = sch_tspl_id s) (fdb_schedules db)) = Some s"
      by (rule nth0_filter_unique [OF s]) (use wf s in \<open>auto simp: fdb_wf_def intro: distinct_mapD\<close>)
    then show ?thesis
      by (simp add: fahrplan_client_sched request_schedule_details_def fahrplan_mvts_of_def)
  qed
  show "sorted (map smv_key (fahrplan_mvts_of db s))" if "s \<in> set (fdb_schedules db)" for s
    by (simp add: fahrplan_mvts_of_def)
qed

section \<open>Properties\<close>

text \<open>
  C34. \<open>activate_lowlevel\<close> is idempotent and atomic, as its comment says: when it succeeds, the train is
  in the table under the schedule and day asked for, and doing it again, with whatever UUID, returns
  the same train and changes nothing; when it fails nothing was changed, and the only
  reason is that the new UUID is taken.
\<close>

theorem activate_idempotent:
  assumes "zug_reach s" "activate_lowlevel uu ad (map from_itps ms) (zs_db s) = (r, db1)"
  shows "case r of
      Inr t \<Rightarrow> t \<in> set (zdb_trains db1) \<and> activation_match ad t \<and>
        activate_lowlevel uu' ad (map from_itps ms) db1 = (Inr t, db1)
    | Inl e \<Rightarrow> db1 = zs_db s \<and> uu \<in> tr_tspl_id ` set (zdb_trains (zs_db s))"
proof (cases r)
  case (Inl e)
  with activate_lowlevel_Inl [OF zug_reach_inv [OF assms(1)] from_itps_originals] assms(2)
  show ?thesis by simp
next
  case (Inr t)
  note inv = zug_reach_inv [OF assms(1)]
  have inv1: "zdb_inv db1"
    using activate_lowlevel_inv [OF inv from_itps_originals, of uu ad ms] assms(2) by simp
  show ?thesis
    by (rule activate_lowlevel_cases [OF inv from_itps_originals assms(2) [unfolded Inr]])
       (auto simp: Inr intro: activate_lowlevel_again [OF inv] activate_lowlevel_again [OF inv1])
qed

text \<open>
  C1. A train that is activated for a schedule of \<open>tspl-fahrplan\<close> runs on that schedule: the details
  of the train are the movements of the schedule in order, as originals, and the
  activation is broadcast. The train was not activated before: it was not there,
  or had been activated without a schedule.
\<close>

theorem activated_train_follows_schedule:
  assumes "zug_reach s" "fdb_wf fdb" "sch \<in> set (fdb_schedules fdb)" "fahrplan_mvts_of fdb sch \<noteq> []"
    and "activate_train (fahrplan_client v C fdb) uu now (sch_uid sch) (sch_start_date sch)
      (sch_stp_indicator sch) (uint (sch_source sch)) date s = (Inr t, s')"
    and "\<forall>x\<in>set (zdb_trains (zs_db s)). activation_key x = (sch_uid sch, sch_start_date sch,
      sch_stp_indicator sch, uint (sch_source sch), date) \<longrightarrow> \<not> tr_activated x"
  shows "\<exists>d. get_train_details (zs_db s') (tr_tspl_id t) = Inr d \<and> td_train d = t \<and>
    map tm_plain (td_mvts d) = map from_itps (fahrplan_mvts_of fdb sch) \<and>
    tr_activated t \<and> tr_parent_uid t = sch_uid sch \<and> tr_date t = date \<and>
    zs_cast s' = zs_cast s @ [\<lparr>bp_ts = now, bp_update = BcActivation t\<rparr>]"
proof -
  let ?ad = "\<lparr>ad_uid = sch_uid sch, ad_start_date = sch_start_date sch,
      ad_stp_indicator = sch_stp_indicator sch, ad_source = uint (sch_source sch), ad_run_date = date\<rparr>"
  let ?ms = "map from_itps (fahrplan_mvts_of fdb sch)"
  obtain db1 where act: "activate_lowlevel uu ?ad ?ms (zs_db s) = (Inr t, db1)"
    and s': "s' = send_activation now t (s\<lparr>zs_db := db1\<rparr>)"
    using assms(5) fps.nrod_lowlevel [OF assms(2,3), of v C uu date "zs_db s"]
    by (auto simp: activate_train_def split: prod.splits sum.splits)
  have "\<forall>x\<in>set (zdb_trains (zs_db s)). activation_match ?ad x \<longrightarrow> \<not> tr_activated x"
    using assms(6) by (simp add: activation_match_key)
  with lowlevel_details [OF zug_reach_inv [OF assms(1)] fps.tmvts_ok [OF assms(2,3)] _ act] assms(4)
  show ?thesis
    by (auto simp: s' send_activation_def send_update_def activation_match_def)
qed

text \<open>
  A train that Darwin activates by its UID and date runs on the authoritative schedule of that
  day: no schedule of the UID that runs that day has a smaller STP indicator. The RID is
  recorded.
\<close>

theorem fuzzy_activation_authoritative:
  assumes "zug_reach s" "fdb_wf fdb"
    and "activate_train_darwin (fahrplan_client v C fdb) uu now uid date rid s = (Inr t, s')"
  shows "\<exists>sch. least_stp sch (auth_candidates C fdb uid date SOURCE_ITPS) \<and>
    tr_parent_uid t = uid \<and> tr_parent_start_date t = sch_start_date sch \<and>
    tr_parent_stp_indicator t = sch_stp_indicator sch \<and> tr_date t = date \<and>
    get_train_for_darwin_rid (zs_db s') rid = Inr t"
proof -
  obtain t0 db1 where act: "activator_darwin (fahrplan_client v C fdb) uu uid date (zs_db s) = (Inr t0, db1)"
    using assms(3) by (auto simp: activate_train_darwin_def split: prod.splits sum.splits)
  let ?u = "update_trains (\<lambda>t. tr_id t = tr_id t0) (\<lambda>t. t\<lparr>tr_darwin_rid := Some rid\<rparr>) db1"
  have t: "t = t0\<lparr>tr_darwin_rid := Some rid\<rparr>" and db: "zs_db s' = snd ?u"
    using assms(3)
    by (auto simp: activate_train_darwin_def act update_trains_unique_def Let_def send_activation_def
        send_update_def split: sum.splits if_splits prod.splits)
  obtain sch where sch: "fa_by_uid_on_date (fahrplan_client v C fdb) uid date SOURCE_ITPS = Inr sch"
    and low: "activate_lowlevel uu \<lparr>ad_uid = uid, ad_start_date = sch_start_date sch,
      ad_stp_indicator = sch_stp_indicator sch, ad_source = uint (sch_source sch), ad_run_date = date\<rparr>
      (map from_itps (fahrplan_mvts_of fdb sch)) (zs_db s) = (Inr t0, db1)"
    by (rule fps.darwin_lowlevel [OF assms(2) act])
  have least: "least_stp sch (auth_candidates C fdb uid date SOURCE_ITPS)"
    using sch schedule_on_date_Inr by (simp add: fahrplan_client_sched fahrplan_status.call_Inr_iff)
  have mem: "t0 \<in> set (zdb_trains db1)" and match: "tr_parent_uid t0 = uid"
    "tr_parent_start_date t0 = sch_start_date sch" "tr_parent_stp_indicator t0 = sch_stp_indicator sch"
    "tr_date t0 = date"
    by (rule activate_lowlevel_cases [OF zug_reach_inv [OF assms(1)] from_itps_originals low];
        simp add: activation_match_def)+
  have "t \<in> set (zdb_trains (zs_db s'))"
    using mem by (force simp: db t update_trains_def)
  moreover have "zdb_inv (zs_db s')"
    using activate_train_darwin_inv [OF zug_reach_inv [OF assms(1)],
      of "fahrplan_client v C fdb" uu now uid date rid] assms(3) by simp
  ultimately have "nth0 (filter (\<lambda>x. tr_darwin_rid x = Some rid) (zdb_trains (zs_db s'))) = Some t"
    by (intro nth0_filter_unique) (auto simp: t intro: uniq_onD [OF zdb_invD(5)])
  with least match show ?thesis
    by (auto simp: get_train_for_darwin_rid_def t)
qed

section \<open>Concrete activations\<close>

definition sample_ad :: activation_details where
  "sample_ad = \<lparr>ad_uid = ''C12345'', ad_start_date = NaiveDate 737421, ad_stp_indicator = ''P'',
     ad_source = 0, ad_run_date = NaiveDate 737430\<rparr>"

definition sample_tmvt :: train_mvt where
  "sample_tmvt = from_itps (sample_mvt 1 1 ''EUSTON'' ACTION_DEPARTURE 36000)"

definition sample_activated :: zug_db where
  "sample_activated =
     \<lparr>zdb_trains = [sample_train], zdb_mvts = [sample_tmvt\<lparr>tm_id := 1, tm_parent_train := 1\<rparr>], zdb_corpus = []\<rparr>"

lemma sample_activation:
  "activate_lowlevel (Uuid 1) sample_ad [sample_tmvt] (zs_db zug_init) = (Inr sample_train, sample_activated)"
  by (simp add: activate_lowlevel_def activate_copy_def new_train_def insert_train_def conflicts_def
      trust_unique_def copy_mvts_def insert_train_mvt_def mvt_unique_def update_trains_def next_rowid_def
      sample_ad_def sample_tmvt_def from_itps_def sample_train_def sample_activated_def zug_init_def Let_def)

lemma activate_idempotent_witness:
  "activate_lowlevel (Uuid 2) sample_ad [sample_tmvt] sample_activated = (Inr sample_train, sample_activated)"
  using activate_idempotent [OF zug_reach.start, where uu = "Uuid 1" and uu' = "Uuid 2" and ad = sample_ad
      and ms = "[sample_mvt 1 1 ''EUSTON'' ACTION_DEPARTURE 36000]"] sample_activation
  by (simp add: sample_tmvt_def)

lemma sample_mvts_of:
  "fahrplan_mvts_of (sample_db [''O'', ''P'']) (sample_schedule 1 ''O'') =
     [sample_mvt 1 1 ''EUSTON'' ACTION_DEPARTURE 36000, sample_mvt 2 1 ''WATFDJ'' ACTION_PASS 37000]"
  by (simp add: fahrplan_mvts_of_def sample_db_def sample_schedule_def)
     (simp add: sample_mvt_def smv_key_def less_eq_prod_def chrono_orders)

lemma lowlevel_empty:
  "\<exists>t db1. activate_lowlevel uu ad (map from_itps ms) (zs_db zug_init) = (Inr t, db1)"
proof (cases "activate_lowlevel uu ad (map from_itps ms) (zs_db zug_init)")
  case (Pair r db1)
  with activate_lowlevel_Inl [OF zug_reach_inv [OF zug_reach.start] from_itps_originals, of uu ad ms]
  show ?thesis by (cases r) (auto simp: zug_init_def)
qed

lemma activated_train_follows_schedule_witness:
  "\<exists>t s' d. activate_train (fahrplan_client ''0.1'' chrono_civil (sample_db [''O'', ''P''])) (Uuid 1)
      (NaiveDateTime (NaiveDate 737430) (NaiveTime 36000 0)) ''C12345'' (NaiveDate 737421) ''O'' 0
      (NaiveDate 737430) zug_init = (Inr t, s') \<and>
    get_train_details (zs_db s') (tr_tspl_id t) = Inr d \<and>
    map tm_tiploc (td_mvts d) = [''EUSTON'', ''WATFDJ'']"
proof -
  let ?sch = "sample_schedule 1 ''O''" and ?now = "NaiveDateTime (NaiveDate 737430) (NaiveTime 36000 0)"
  have sch: "?sch \<in> set (fdb_schedules (sample_db [''O'', ''P'']))" "sch_uid ?sch = ''C12345''"
    "sch_start_date ?sch = NaiveDate 737421" "sch_stp_indicator ?sch = ''O''" "uint (sch_source ?sch) = 0"
    by (simp_all add: sample_db_def sample_schedule_def SOURCE_ITPS_def)
  obtain t s' where act: "activate_train (fahrplan_client ''0.1'' chrono_civil (sample_db [''O'', ''P'']))
      (Uuid 1) ?now ''C12345'' (NaiveDate 737421) ''O'' 0 (NaiveDate 737430) zug_init = (Inr t, s')"
  proof -
    note low = fps.nrod_lowlevel [OF sample_wf sch(1), of "''0.1''" chrono_civil "Uuid 1" "NaiveDate 737430"
        "zs_db zug_init", unfolded sch]
    obtain t db1 where "activator_nrod (fahrplan_client ''0.1'' chrono_civil (sample_db [''O'', ''P'']))
        (Uuid 1) ''C12345'' (NaiveDate 737421) ''O'' 0 (NaiveDate 737430) (zs_db zug_init) = (Inr t, db1)"
      unfolding low using lowlevel_empty by blast
    then show thesis by (intro that) (simp add: activate_train_def)
  qed
  have ne: "fahrplan_mvts_of (sample_db [''O'', ''P'']) ?sch \<noteq> []" by (simp add: sample_mvts_of)
  have none: "\<forall>x\<in>set (zdb_trains (zs_db zug_init)). activation_key x = (sch_uid ?sch, sch_start_date ?sch,
      sch_stp_indicator ?sch, uint (sch_source ?sch), NaiveDate 737430) \<longrightarrow> \<not> tr_activated x"
    by (simp add: zug_init_def)
  obtain d where d: "get_train_details (zs_db s') (tr_tspl_id t) = Inr d"
    "map tm_plain (td_mvts d) = map from_itps (fahrplan_mvts_of (sample_db [''O'', ''P'']) ?sch)"
    using activated_train_follows_schedule [OF zug_reach.start sample_wf sch(1) ne _ none] act
    unfolding sch by blast
  have "map tm_tiploc (td_mvts d) = map tm_tiploc (map tm_plain (td_mvts d))" by (simp add: tm_plain_def)
  also have "\<dots> = [''EUSTON'', ''WATFDJ'']"
    unfolding d(2) by (simp add: sample_mvts_of from_itps_def sample_mvt_def)
  finally show ?thesis using act d(1) by (intro exI conjI)
qed

lemma fuzzy_activation_authoritative_witness:
  "\<exists>t s'. activate_train_darwin (fahrplan_client ''0.1'' chrono_civil (sample_db [''O'', ''P''])) (Uuid 1)
      (NaiveDateTime (NaiveDate 737430) (NaiveTime 36000 0)) ''C12345'' (NaiveDate 737430) ''rid1''
      zug_init = (Inr t, s') \<and> get_train_for_darwin_rid (zs_db s') ''rid1'' = Inr t"
proof -
  let ?F = "fahrplan_client ''0.1'' chrono_civil (sample_db [''O'', ''P''])"
  let ?sch = "sample_schedule 1 ''O''" and ?now = "NaiveDateTime (NaiveDate 737430) (NaiveTime 36000 0)"
  have "find_schedule_on_date chrono_civil (sample_db [''O'', ''P'']) ''C12345'' (NaiveDate 737430) SOURCE_ITPS = Inr ?sch"
    by (simp add: find_schedule_on_date_def sample_defs)
  then have s: "fa_by_uid_on_date ?F ''C12345'' (NaiveDate 737430) SOURCE_ITPS = Inr ?sch"
    by (simp add: fahrplan_client_sched)
  have sch: "?sch \<in> set (fdb_schedules (sample_db [''O'', ''P'']))"
    by (simp add: sample_db_def)
  have act: "\<exists>t ms. activator_darwin ?F (Uuid 1) ''C12345'' (NaiveDate 737430) (zs_db zug_init) =
      (Inr t, \<lparr>zdb_trains = [t], zdb_mvts = ms, zdb_corpus = []\<rparr>)"
    using fps.tmvts [OF sample_wf sch]
    by (simp add: activator_darwin_def s sample_mvts_of activate_lowlevel_def activate_copy_def new_train_def
        insert_train_def conflicts_def trust_unique_def copy_mvts_def insert_train_mvt_def mvt_unique_def
        update_trains_def next_rowid_def from_itps_def zug_init_def Let_def)
  then obtain t s' where "activate_train_darwin ?F (Uuid 1) ?now ''C12345'' (NaiveDate 737430) ''rid1'' zug_init = (Inr t, s')"
    by (auto simp: activate_train_darwin_def update_trains_unique_def update_trains_def Let_def)
  with fuzzy_activation_authoritative [OF zug_reach.start sample_wf this] show ?thesis by auto
qed

end
