(* ===== verification/Zugfuhrer_Updates.thy ===== *)
theory Zugfuhrer_Updates
  imports Zugfuhrer_Activation
begin

text \<open>
  The handlers of \<open>ctx.rs\<close> that change state: what the database looks like in every reachable
  state, what a Darwin or TRUST update does to it, and what a request that fails leaves behind.
\<close>

section \<open>Movement updates\<close>

text \<open>The original movements are what an update is matched against, and no update changes them.\<close>

lemma trust_matches_snoc:
  "tm_updates m \<noteq> None \<Longrightarrow>
   trust_matches (db\<lparr>zdb_mvts := zdb_mvts db @ [m]\<rparr>) t upd = trust_matches db t upd"
  by (simp add: trust_matches_def)

lemma find_train_mvts [simp]: "find_train (db\<lparr>zdb_mvts := ms\<rparr>) tid = find_train db tid"
  by (simp add: find_train_def)

section \<open>The lookup by TRUST id\<close>

text \<open>No train is marked as crossing midnight, so the second half of the condition never holds.\<close>

lemma trust_lookup_iff:
  assumes inv: "zdb_inv db"
  shows "get_train_for_trust_id C db trust_id date = Inr t \<longleftrightarrow>
    t \<in> set (zdb_trains db) \<and> tr_trust_id t = Some trust_id \<and> tr_date t = date"
proof -
  let ?P = "\<lambda>t. tr_trust_id t = Some trust_id \<and> (tr_date t = date \<or> tr_crosses_midnight t \<and> tr_date t = date_pred C date)"
  have P: "?P x \<longleftrightarrow> tr_trust_id x = Some trust_id \<and> tr_date x = date" if "x \<in> set (zdb_trains db)" for x
    using zdb_invD(9) [OF inv that] by blast
  have "y = x" if "x \<in> set (zdb_trains db)" "y \<in> set (zdb_trains db)"
    "tr_trust_id x = Some trust_id" "tr_date x = date" "tr_trust_id y = Some trust_id" "tr_date y = date" for x y
    using that by (intro uniq_onD [OF zdb_invD(6) [OF inv], of y x "(date, trust_id)"]) (simp_all add: trust_unique_def)
  then have "nth0 (filter ?P (zdb_trains db)) = Some t \<longleftrightarrow>
      t \<in> set (zdb_trains db) \<and> tr_trust_id t = Some trust_id \<and> tr_date t = date"
    using P by (auto dest!: nth0_filter_Some intro!: nth0_filter_unique)
  then show ?thesis by (simp add: get_train_for_trust_id_def Let_def)
qed

section \<open>Properties\<close>

text \<open>
  C2. In every reachable state: a schedule is activated at most once for a day, a RID belongs to one
  train and a TRUST id to one train a day; every movement belongs to one activated train; a movement
  that is an update comes from TRUST or Darwin and updates an original movement of the same train at the same place,
  and at most one of the updates of a movement comes from Darwin.
\<close>

theorem zug_reachable_consistent:
  assumes "zug_reach s" and "t \<in> set (zdb_trains (zs_db s))" and "t' \<in> set (zdb_trains (zs_db s))"
    and "m \<in> set (zdb_mvts (zs_db s))"
  shows "(activation_key t = activation_key t' \<or> tr_darwin_rid t \<noteq> None \<and> tr_darwin_rid t = tr_darwin_rid t' \<or>
      tr_trust_id t \<noteq> None \<and> tr_trust_id t = tr_trust_id t' \<and> tr_date t = tr_date t' \<longrightarrow> t = t') \<and>
    (\<exists>!p. p \<in> set (zdb_trains (zs_db s)) \<and> tr_id p = tm_parent_train m \<and> tr_activated p) \<and>
    (\<forall>u. tm_updates m = Some u \<longrightarrow> tm_source m \<in> {SOURCE_TRUST, SOURCE_DARWIN_LIVE} \<and>
      (\<exists>x\<in>set (zdb_mvts (zs_db s)). tm_id x = u \<and> tm_updates x = None \<and>
        tm_parent_train x = tm_parent_train m \<and> tm_tiploc x = tm_tiploc m)) \<and>
    (tm_updates m = None \<longrightarrow> (\<forall>a\<in>set (zdb_mvts (zs_db s)). \<forall>b\<in>set (zdb_mvts (zs_db s)).
      is_darwin_of m a \<and> is_darwin_of m b \<longrightarrow> a = b))"
proof -
  note inv = zug_reach_inv [OF assms(1)]
  note ok = zdb_invD(10) [OF inv assms(4)]
  have rid: "t = t'" if "tr_darwin_rid t \<noteq> None" "tr_darwin_rid t = tr_darwin_rid t'"
    using that uniq_onD [OF zdb_invD(5) [OF inv] assms(2,3)] by (metis not_None_eq)
  have tid: "t = t'" if "tr_trust_id t \<noteq> None" "tr_trust_id t = tr_trust_id t'" "tr_date t = tr_date t'"
  proof -
    from that(1) obtain x where "tr_trust_id t = Some x" by blast
    then show ?thesis
      using that(2,3) by (intro uniq_onD [OF zdb_invD(6) [OF inv] assms(2,3), of "(tr_date t, x)"])
        (simp_all add: trust_unique_def)
  qed
  note key = distinct_mapD [OF zdb_invD(3) [OF inv] assms(2,3)]
  have parent: "\<exists>!p. p \<in> set (zdb_trains (zs_db s)) \<and> tr_id p = tm_parent_train m \<and> tr_activated p"
    using ok train_by_id [OF inv] unfolding mvt_ok_def by (metis (no_types, lifting))
  have upd: "tm_source m \<in> {SOURCE_TRUST, SOURCE_DARWIN_LIVE} \<and>
      (\<exists>x\<in>set (zdb_mvts (zs_db s)). tm_id x = u \<and> tm_updates x = None \<and> tm_parent_train x = tm_parent_train m \<and> tm_tiploc x = tm_tiploc m)"
    if "tm_updates m = Some u" for u
    using ok that unfolding mvt_ok_def by (simp, blast)
  have darwin: "a = b" if "a \<in> set (zdb_mvts (zs_db s))" "b \<in> set (zdb_mvts (zs_db s))"
    "is_darwin_of m a" "is_darwin_of m b" for a b
    using uniq_onD [OF zdb_invD(8) [OF inv, unfolded darwin_once_def] that(1,2), of "tm_id m"] that(3,4)
    by (simp add: is_darwin_of_def)
  show ?thesis using key rid tid parent upd darwin by blast
qed
text \<open>
  C27. A Darwin update replaces the Darwin estimate of the one movement it matches: that movement then has
  exactly one Darwin estimate, the new one, all other movements stay, and the new one is
  broadcast.
\<close>

theorem darwin_update_replaces:
  assumes "zug_reach s" "process_darwin_mvt_update now tid upd s = (Inr m, s')"
  shows "\<exists>t x. find_train (zs_db s) tid = Inr t \<and> darwin_matches (zs_db s) t upd = [x] \<and>
    filter (is_darwin_of x) (zdb_mvts (zs_db s')) = [m] \<and>
    filter (\<lambda>y. \<not> is_darwin_of x y) (zdb_mvts (zs_db s')) = filter (\<lambda>y. \<not> is_darwin_of x y) (zdb_mvts (zs_db s)) \<and>
    tm_parent_train m = tr_id t \<and> tm_time m = du_updated_time upd \<and>
    zdb_trains (zs_db s') = zdb_trains (zs_db s) \<and>
    zs_cast s' = zs_cast s @ [\<lparr>bp_ts = now, bp_update = BcMovement m\<rparr>]"
  by (rule process_darwin_Inr [OF zug_reach_inv [OF assms(1)] assms(2)])
     (auto simp: filter_empty_conv conj_comms)

text \<open>
  C29. A TRUST movement adds a report to the one movement it matches and removes nothing; the same report
  sent again is refused with a constraint violation and changes nothing.
\<close>

theorem trust_update_once:
  assumes "zug_reach s" "process_trust_mvt_update now tid upd s = (Inr m, s')"
  shows "zs_db s' = (zs_db s)\<lparr>zdb_mvts := zdb_mvts (zs_db s) @ [m]\<rparr> \<and> tm_source m = SOURCE_TRUST \<and> tm_actual m \<and>
    (\<exists>t x. find_train (zs_db s) tid = Inr t \<and> trust_matches (zs_db s) t upd = [x] \<and>
       tm_updates m = Some (tm_id x) \<and> tm_parent_train m = tr_id t \<and> tm_time m = tu_actual_time upd) \<and>
    process_trust_mvt_update now' tid upd s' = (Inl (ZRsql (ConstraintUnique ''train_movements_unique'')), s')"
proof (rule process_trust_Inr [OF assms(2)], goal_cases)
  case (1 t x rid m0)
  have "find_train (zs_db s') tid = Inr t" "trust_matches (zs_db s') t upd = [x]"
    using 1 by (simp_all add: trust_matches_snoc)
  moreover have "conflicts mvt_unique (zdb_mvts (zs_db s')) m0"
    using 1 by (simp add: conflicts_def mvt_unique_def)
  ultimately have "process_trust_mvt_update now' tid upd s' =
      (Inl (ZRsql (ConstraintUnique ''train_movements_unique'')), s')"
    using 1(3) by (simp add: process_trust_mvt_update_def single_mvt_def insert_train_mvt_def Let_def)
  with 1 show ?case by simp
qed

text \<open>
  The lookup by TRUST id finds the train of exactly that day: no train is ever marked as crossing
  midnight, so the part of the query about the previous day finds nothing.
\<close>

theorem trust_lookup_same_day:
  assumes "zug_reach s"
  shows "get_train_for_trust_id C (zs_db s) trust_id date = Inr t \<longleftrightarrow>
    t \<in> set (zdb_trains (zs_db s)) \<and> tr_trust_id t = Some trust_id \<and> tr_date t = date"
  by (rule trust_lookup_iff [OF zug_reach_inv [OF assms]])

lemma failed_activation_unchanged:
  assumes "zug_reach s"
  shows "activate_lowlevel uu ad (map from_itps ms) (zs_db s) = (Inl e, db1) \<Longrightarrow> db1 = zs_db s"
    and "activator_darwin F uu uid date (zs_db s) = (Inl e, db1) \<Longrightarrow> db1 = zs_db s"
    and "activator_nrod F uu uid d stp src date (zs_db s) = (Inl e, db1) \<Longrightarrow> db1 = zs_db s"
proof -
  show none: "db1 = zs_db s" if "activate_lowlevel uu ad (map from_itps ms) (zs_db s) = (Inl e, db1)" for ad ms e db1
    using activate_lowlevel_Inl [OF zug_reach_inv [OF assms] from_itps_originals that] by simp
  show "db1 = zs_db s" if "activator_darwin F uu uid date (zs_db s) = (Inl e, db1)"
    using that none by (auto simp: activator_darwin_def get_tmvts_for_schedule_def res_map_Inr split: sum.splits)
  show "db1 = zs_db s" if "activator_nrod F uu uid d stp src date (zs_db s) = (Inl e, db1)"
    using that none [where ms = "[]"] none
    by (auto simp: activator_nrod_def get_tmvts_for_schedule_def res_map_Inr split: sum.splits option.splits)
qed

lemma update_no_train:
  assumes "update_trains P f db = (0, db1)"
  shows "db1 = db"
proof -
  have "map (\<lambda>t. if P t then f t else t) (zdb_trains db) = zdb_trains db"
    using assms by (intro map_idI) (auto simp: update_trains_def filter_empty_conv)
  with assms show ?thesis by (simp add: update_trains_def)
qed

text \<open>
  C36. A request that is answered with an error has changed nothing and broadcast nothing, with one
  exception: a Darwin activation whose RID belongs to another train leaves the train it activated.
\<close>

theorem failed_request_changes_nothing:
  assumes "zug_reach s" "zug_on_request ua C F uu now req s = (Inl e, s')"
  shows "zs_cast s' = zs_cast s \<and>
    (s' = s \<or> (\<exists>uid rid date. req = ZActivateFuzzy uid rid date) \<and>
      e = ZRsql (ConstraintUnique ''trains.darwin_rid'') \<and>
      (\<exists>uid rid date t. req = ZActivateFuzzy uid rid date \<and>
         activator_darwin F uu uid date (zs_db s) = (Inr t, zs_db s')))"
proof -
  note unchanged = failed_activation_unchanged [OF assms(1)]
  have nop: "snd (update_trains P f (zs_db s)) = zs_db s" if "fst (update_trains P f (zs_db s)) = 0" for P f
    using that by (intro update_no_train) (simp add: prod_eq_iff)
  show ?thesis
  proof (cases req)
    case (ZActivateFuzzy uid rid date)
    with assms(2) unchanged(2) show ?thesis
      by (cases "activator_darwin F uu uid date (zs_db s)")
         (auto simp: activate_train_darwin_def zug_json_def update_trains_unique_def Let_def res_map_def
          split: sum.splits if_splits prod.splits)
  next
    case (ZActivate uid d stp src date)
    with assms(2) unchanged(3) show ?thesis
      by (cases "activator_nrod F uu uid d stp src date (zs_db s)")
         (auto simp: activate_train_def zug_json_def res_map_def split: sum.splits)
  next
    case (ZAssociate tid trust_id)
    with assms(2) show ?thesis
      by (auto dest!: update_no_train simp: associate_trust_id_def zug_json_def res_map_def update_trains_unique_def Let_def
          split: sum.splits if_splits prod.splits)
  next
    case (ZTerminate tid)
    with assms(2) nop show ?thesis
      by (auto simp: terminate_train_def zug_json_def res_map_def split_beta split: sum.splits if_splits)
  next
    case (ZCancel tid)
    with assms(2) nop show ?thesis
      by (auto simp: cancel_train_def zug_json_def res_map_def split_beta split: sum.splits if_splits)
  qed (use assms(2) in \<open>auto simp: zug_json_def res_map_def process_darwin_mvt_update_def
      process_trust_mvt_update_def split: sum.splits\<close>)
qed

section \<open>A reachable state\<close>

text \<open>CORPUS with one entry is imported, then the train of \<open>sample_schedule\<close> is activated.\<close>

definition sample_now :: naive_datetime where
  "sample_now = NaiveDateTime (NaiveDate 737430) (NaiveTime 36000 0)"

definition sample_corpus :: corpus_entry where
  "sample_corpus = \<lparr>ce_stanox = Some ''72410'', ce_uic = None, ce_crs = None, ce_tiploc = Some ''EUSTON'',
     ce_nlc = None, ce_nlcdesc = None, ce_nlcdesc16 = None\<rparr>"

definition sample_api :: fahrplan_api where
  "sample_api =
     \<lparr>fa_by_uid_on_date = \<lambda>uid d src. Inr (sample_schedule 1 ''P''),
      fa_for_activation = \<lambda>uid d stp src. Inr (sample_schedule 1 ''P''),
      fa_schedule = \<lambda>uu. Inr \<lparr>sd_sched = sample_schedule 1 ''P'',
        sd_mvts = [sample_mvt 1 1 ''EUSTON'' ACTION_DEPARTURE 36000]\<rparr>\<rparr>"

definition sample_state :: zug_state where
  "sample_state =
     \<lparr>zs_db = sample_activated\<lparr>zdb_corpus := [sample_corpus]\<rparr>,
      zs_cast = [\<lparr>bp_ts = sample_now, bp_update = BcActivation sample_train\<rparr>]\<rparr>"

lemma sample_reach: "zug_reach sample_state"
proof -
  let ?s = "zug_init\<lparr>zs_db := corpus_import \<lparr>tiploc_data = [sample_corpus]\<rparr> (zs_db zug_init)\<rparr>"
  have "zug_reach ?s"
    by (rule zug_reach.step [OF zug_reach.start zug_step.corpus]) (simp add: corpus_should_import_def zug_init_def)
  moreover have "zug_step ?s (snd (zug_on_request '''' chrono_civil sample_api (Uuid 1) sample_now
      (ZActivate ''C12345'' (NaiveDate 737421) ''P'' 0 (NaiveDate 737430)) ?s))"
    by (rule zug_step.request)
  moreover have "snd (zug_on_request '''' chrono_civil sample_api (Uuid 1) sample_now
      (ZActivate ''C12345'' (NaiveDate 737421) ''P'' 0 (NaiveDate 737430)) ?s) = sample_state"
    by (simp add: activate_train_def activator_nrod_def sample_api_def get_tmvts_for_schedule_def
        corpus_import_def contains_data_def insert_corpus_def sample_corpus_def zug_init_def
        activate_lowlevel_def activate_copy_def new_train_def insert_train_def conflicts_def
        trust_unique_def copy_mvts_def insert_train_mvt_def mvt_unique_def update_trains_def next_rowid_def
        sample_tmvt_def from_itps_def sample_train_def sample_activated_def Let_def sample_state_def
        send_activation_def send_update_def)
  ultimately show ?thesis by (metis zug_reach.step)
qed

lemma zug_reachable_consistent_witness:
  "\<exists>!p. p \<in> set (zdb_trains (zs_db sample_state)) \<and> tr_id p = 1 \<and> tr_activated p"
  using zug_reachable_consistent [OF sample_reach, of sample_train sample_train
      "sample_tmvt\<lparr>tm_id := 1, tm_parent_train := 1\<rparr>"]
  by (simp add: sample_state_def sample_activated_def)

definition sample_darwin :: darwin_mvt_update where
  "sample_darwin =
     \<lparr>du_tiploc = ''EUSTON'', du_planned_time = NaiveTime 36000 0, du_planned_day_offset = 0,
      du_planned_action = ACTION_DEPARTURE, du_updated_time = NaiveTime 36300 0, du_time_actual = False,
      du_delay_unknown = False, du_platform = Some ''4'', du_platsup = False\<rparr>"

definition sample_trust :: trust_mvt_update where
  "sample_trust =
     \<lparr>tu_stanox = ''72410'', tu_planned_time = NaiveTime 36000 0, tu_planned_day_offset = 0,
      tu_planned_action = ACTION_DEPARTURE, tu_actual_time = NaiveTime 36240 0,
      tu_actual_public_time = None, tu_platform = None\<rparr>"

lemmas sample_state_defs = sample_state_def sample_activated_def sample_train_def sample_tmvt_def
  sample_mvt_def from_itps_def sample_corpus_def find_train_def single_mvt_def insert_train_mvt_def
  conflicts_def mvt_unique_def next_rowid_def delete_mvts_def Let_def send_mvt_def send_update_def source_defs

lemma sample_darwin_result:
  "\<exists>m s'. process_darwin_mvt_update sample_now (Uuid 1) sample_darwin sample_state = (Inr m, s')"
  by (simp add: process_darwin_mvt_update_def darwin_matches_def sample_darwin_def sample_state_defs)

lemma sample_trust_result:
  "\<exists>m s'. process_trust_mvt_update sample_now (Uuid 1) sample_trust sample_state = (Inr m, s')"
  by (simp add: process_trust_mvt_update_def trust_matches_def sample_trust_def sample_state_defs ACTION_DEPARTURE_def)

lemma darwin_update_replaces_witness:
  "\<exists>m s'. process_darwin_mvt_update sample_now (Uuid 1) sample_darwin sample_state = (Inr m, s') \<and>
     tm_time m = NaiveTime 36300 0 \<and> zdb_trains (zs_db s') = [sample_train]"
proof -
  obtain m s' where res: "process_darwin_mvt_update sample_now (Uuid 1) sample_darwin sample_state = (Inr m, s')"
    using sample_darwin_result by blast
  from darwin_update_replaces [OF sample_reach res] have "tm_time m = NaiveTime 36300 0 \<and> zdb_trains (zs_db s') = [sample_train]"
    by (auto simp: sample_darwin_def) (simp add: sample_state_def sample_activated_def)
  with res show ?thesis by blast
qed

lemma trust_update_once_witness:
  "\<exists>m s'. process_trust_mvt_update sample_now (Uuid 1) sample_trust sample_state = (Inr m, s') \<and>
     process_trust_mvt_update sample_now (Uuid 1) sample_trust s' =
       (Inl (ZRsql (ConstraintUnique ''train_movements_unique'')), s')"
proof -
  obtain m s' where res: "process_trust_mvt_update sample_now (Uuid 1) sample_trust sample_state = (Inr m, s')"
    using sample_trust_result by blast
  with trust_update_once [OF sample_reach res] show ?thesis by blast
qed

lemma trust_lookup_same_day_witness:
  "get_train_for_trust_id chrono_civil (zs_db sample_state) ''1A23'' (NaiveDate 737431) \<noteq> Inr sample_train"
  using trust_lookup_same_day [OF sample_reach, of chrono_civil "''1A23''" "NaiveDate 737431" sample_train]
  by (simp add: sample_train_def)

lemma failed_request_changes_nothing_witness:
  "snd (zug_on_request '''' chrono_civil sample_api (Uuid 2) sample_now (ZTerminate (Uuid 9)) sample_state) = sample_state"
proof -
  have "zug_on_request '''' chrono_civil sample_api (Uuid 2) sample_now (ZTerminate (Uuid 9)) sample_state =
      (Inl ZNotFound, snd (zug_on_request '''' chrono_civil sample_api (Uuid 2) sample_now (ZTerminate (Uuid 9)) sample_state))"
    by (simp add: terminate_train_def update_trains_def zug_json_def sample_state_def sample_activated_def sample_train_def)
  from failed_request_changes_nothing [OF sample_reach this] show ?thesis by simp
qed

end
