(* ===== verification/Zugfuhrer_Queries.thy ===== *)
theory Zugfuhrer_Queries
  imports Zugfuhrer_Updates
begin

text \<open>
  What the two movement queries of \<open>ctx.rs\<close> answer. SQLite fixes no order of the rows of a join:
  a vector is described by its first element and the (multi)set of the others.
\<close>

section \<open>Grouping rows into vectors\<close>

definition group_rows :: "('a \<Rightarrow> int \<times> train_mvt \<times> train_mvt option) \<Rightarrow> 'a list \<Rightarrow> (int \<times> train_mvt list) list" where
  "group_rows f rows = fold (\<lambda>r. case f r of (i, m, u) \<Rightarrow> extend_entry i m u) rows []"

definition row_updates :: "('a \<Rightarrow> int \<times> train_mvt \<times> train_mvt option) \<Rightarrow> 'a list \<Rightarrow> train_mvt list" where
  "row_updates f rows = concat (map (\<lambda>r. opt_list (snd (snd (f r)))) rows)"

lemma row_updates_simps [simp]:
  "row_updates f [] = []" "row_updates f (r # rows) = opt_list (snd (snd (f r))) @ row_updates f rows"
  by (simp_all add: row_updates_def)

lemma row_updates_set: "x \<in> set (row_updates f rows) \<longleftrightarrow> (\<exists>r\<in>set rows. snd (snd (f r)) = Some x)"
  by (induction rows) (auto split: option.splits)

lemma map_of_extend_entry:
  "map_of (extend_entry i m u acc) =
     (map_of acc)(i \<mapsto> (case map_of acc i of Some l \<Rightarrow> l | None \<Rightarrow> [m]) @ opt_list u)"
  by (simp add: extend_entry_def split: option.split)

lemma map_of_group_fold:
  "map_of (fold (\<lambda>r. case f r of (i, m, u) \<Rightarrow> extend_entry i m u) rows acc) i =
     (let rs = filter (\<lambda>r. fst (f r) = i) rows
      in case map_of acc i of
           Some l \<Rightarrow> Some (l @ row_updates f rs)
         | None \<Rightarrow> (case rs of [] \<Rightarrow> None | r # _ \<Rightarrow> Some (fst (snd (f r)) # row_updates f rs)))"
proof (induction rows arbitrary: acc)
  case Nil
  then show ?case by (simp split: option.split)
next
  case (Cons r rows)
  obtain j m u where "f r = (j, m, u)" by (cases "f r")
  with Cons.IH [of "extend_entry j m u acc"] show ?case
    by (cases "map_of acc i") (auto simp: map_of_extend_entry Let_def split: list.split)
qed

lemma map_of_group:
  "map_of (group_rows f rows) i =
     (case filter (\<lambda>r. fst (f r) = i) rows of
        [] \<Rightarrow> None | r # rs \<Rightarrow> Some (fst (snd (f r)) # row_updates f (r # rs)))"
  by (simp add: group_rows_def map_of_group_fold Let_def split: list.split)

lemma group_head:
  assumes "map_of (group_rows f rows) i = Some (x # l)"
  shows "\<exists>r\<in>set rows. fst (f r) = i \<and> fst (snd (f r)) = x"
proof -
  obtain r rs where r: "filter (\<lambda>r. fst (f r) = i) rows = r # rs" "x = fst (snd (f r))"
    using assms by (auto simp: map_of_group split: list.splits)
  then have "r \<in> set (filter (\<lambda>r. fst (f r) = i) rows)" by simp
  with r(2) show ?thesis by auto
qed

lemma group_entry:
  assumes "r \<in> set rows" "fst (f r) = i"
  shows "\<exists>x. map_of (group_rows f rows) i = Some (x # row_updates f (filter (\<lambda>r. fst (f r) = i) rows))"
proof -
  have "filter (\<lambda>r. fst (f r) = i) rows \<noteq> []" using assms by (auto simp: filter_empty_conv)
  then show ?thesis by (auto simp: map_of_group split: list.split)
qed

section \<open>The rows\<close>

lemma updates_of_distinct: "zdb_inv db \<Longrightarrow> distinct (updates_of db m)"
  by (auto simp: updates_of_def distinct_map dest!: zdb_invD(4))

lemma mvt_by_id:
  "zdb_inv db \<Longrightarrow> m \<in> set (zdb_mvts db) \<Longrightarrow> m' \<in> set (zdb_mvts db) \<Longrightarrow> tm_id m = tm_id m' \<Longrightarrow> m = m'"
  by (auto dest: zdb_invD(4) intro: distinct_mapD)

lemma outer_join_set:
  "u \<in> set (outer_join xs) \<longleftrightarrow> (case u of None \<Rightarrow> xs = [] | Some x \<Rightarrow> x \<in> set xs)"
  by (auto simp: outer_join_def split: option.splits)

lemma zug_mvt_rows_set:
  "(m, t, u) \<in> set (zug_mvt_rows db tpl st en date) \<longleftrightarrow>
     m \<in> set (zdb_mvts db) \<and> t \<in> set (zdb_trains db) \<and> tr_id t = tm_parent_train m \<and>
     u \<in> set (outer_join (updates_of db m)) \<and> tm_in_window tpl st en m \<and> tr_date t = date"
  by (auto simp: zug_mvt_rows_def)

lemma zug_conn_rows_set:
  "(m, t, c, u, cu) \<in> set (zug_conn_rows db tpl conn st en date) \<longleftrightarrow>
     m \<in> set (zdb_mvts db) \<and> t \<in> set (zdb_trains db) \<and> tr_id t = tm_parent_train m \<and>
     c \<in> set (zdb_mvts db) \<and> tm_parent_train c = tm_parent_train m \<and>
     u \<in> set (outer_join (updates_of db m)) \<and> cu \<in> set (outer_join (updates_of db c)) \<and>
     tm_in_window tpl st en m \<and> tm_updates c = None \<and> tr_date t = date \<and> tm_tiploc c = conn"
  by (auto simp: zug_conn_rows_def)

lemma outer_join_ne: "\<exists>u. u \<in> set (outer_join xs)"
  by (cases xs) (auto simp: outer_join_def)

lemma row_updates_mset:
  assumes "distinct rs" "\<And>r. r \<in> set rs \<longleftrightarrow> (\<exists>u\<in>set (outer_join us). r = (m, t, u))" "distinct us"
  shows "mset (row_updates (\<lambda>(m, t, u). (tm_id m, m, u)) rs) = mset us"
proof -
  have "distinct (map (\<lambda>r. snd (snd r)) rs)"
    using assms(1,2) by (auto simp: distinct_map inj_on_def)
  moreover have "set (map (\<lambda>r. snd (snd r)) rs) = set (outer_join us)"
    using assms(2) by force
  moreover have "distinct (outer_join us)"
    using assms(3) by (simp add: outer_join_def distinct_map)
  ultimately have "mset (map (\<lambda>r. snd (snd r)) rs) = mset (outer_join us)"
    by (metis set_eq_iff_mset_eq_distinct)
  moreover have "mset (row_updates (\<lambda>(m, t, u). (tm_id m, m, u)) rs) =
      (\<Sum>u\<in>#mset (map (\<lambda>r. snd (snd r)) rs). mset (opt_list u))"
    by (induction rs) (auto split: option.split)
  moreover have "(\<Sum>u\<in>#mset (outer_join us). mset (opt_list u)) = mset us"
    by (cases us) (auto simp: outer_join_def image_mset.compositionality comp_def)
  ultimately show ?thesis by simp
qed

lemma group_some: "map_of (group_rows f rows) i = Some l \<Longrightarrow> \<exists>r\<in>set rows. fst (f r) = i"
  by (cases l) (auto simp: map_of_group filter_eq_Cons_iff dest: group_head split: list.splits)

text \<open>The trains of the rows: under the id of each the train itself, since ids are unique.\<close>

lemma group_trains:
  assumes "zdb_inv db" "\<And>r. r \<in> set rows \<Longrightarrow> g r \<in> set (zdb_trains db)"
  shows "map_of (fold (\<lambda>r. AList.update (tr_id (g r)) (g r)) rows []) i = Some t \<longleftrightarrow>
    (\<exists>r\<in>set rows. g r = t \<and> tr_id t = i)"
  using fold_update_exact [of rows "\<lambda>r. tr_id (g r)" g i t] train_by_id [OF assms(1)] assms(2) by blast

lemma passing_answer:
  assumes "calculate_non_midnight_aware_times C ts dur = (st, en)"
  shows "zq_mvts (zug_get_mvts_passing_through C db tpl ts dur) =
      group_rows (\<lambda>(m, t, u). (tm_id m, m, u)) (zug_mvt_rows db tpl st en (dt_date ts))"
    and "zq_trains (zug_get_mvts_passing_through C db tpl ts dur) =
      fold (\<lambda>r. AList.update (tr_id (fst (snd r))) (fst (snd r))) (zug_mvt_rows db tpl st en (dt_date ts)) []"
  using assms by (simp_all add: zug_get_mvts_passing_through_def group_rows_def case_prod_unfold Let_def)

lemma passing_trains_exact:
  assumes inv: "zdb_inv db" and win: "calculate_non_midnight_aware_times C ts dur = (st, en)"
  shows "map_of (zq_trains (zug_get_mvts_passing_through C db tpl ts dur)) i = Some t \<longleftrightarrow>
    t \<in> set (zdb_trains db) \<and> tr_id t = i \<and> tr_date t = dt_date ts \<and>
    (\<exists>m\<in>set (zdb_mvts db). tm_in_window tpl st en m \<and> tm_parent_train m = i)"
proof -
  have "map_of (zq_trains (zug_get_mvts_passing_through C db tpl ts dur)) i = Some t \<longleftrightarrow>
      (\<exists>r\<in>set (zug_mvt_rows db tpl st en (dt_date ts)). fst (snd r) = t \<and> tr_id t = i)"
    unfolding passing_answer(2) [OF win]
    by (rule group_trains [OF inv]) (auto simp: zug_mvt_rows_set)
  also have "\<dots> \<longleftrightarrow> (\<exists>m u. (m, t, u) \<in> set (zug_mvt_rows db tpl st en (dt_date ts))) \<and> tr_id t = i"
    by force
  finally show ?thesis unfolding zug_mvt_rows_set using outer_join_ne by metis
qed

lemma passing_entry:
  assumes inv: "zdb_inv db"
    and m: "m \<in> set (zdb_mvts db)" "tm_in_window tpl st en m"
    and t: "t \<in> set (zdb_trains db)" "tr_id t = tm_parent_train m" "tr_date t = date"
  shows "\<exists>us. map_of (group_rows (\<lambda>(m, t, u). (tm_id m, m, u)) (zug_mvt_rows db tpl st en date)) (tm_id m) =
    Some (m # us) \<and> mset us = mset (updates_of db m)"
proof -
  let ?rows = "zug_mvt_rows db tpl st en date" and ?f = "\<lambda>(m, t, u). (tm_id m, m, u)"
  let ?rs = "filter (\<lambda>r. fst (?f r) = tm_id m) ?rows"
  obtain u where "u \<in> set (outer_join (updates_of db m))" using outer_join_ne by blast
  with m t have row: "(m, t, u) \<in> set ?rows" by (simp add: zug_mvt_rows_set)
  obtain x where x: "map_of (group_rows ?f ?rows) (tm_id m) = Some (x # row_updates ?f ?rs)"
    using group_entry [OF row, of ?f] by auto
  obtain t' u' where "(x, t', u') \<in> set ?rows" "tm_id x = tm_id m"
    using group_head [OF x] by auto
  then have "x = m" unfolding zug_mvt_rows_set by (blast intro: mvt_by_id [OF inv _ m(1)])
  moreover have "mset (row_updates ?f ?rs) = mset (updates_of db m)"
  proof (rule row_updates_mset [where t = t])
    show "distinct ?rs" by (simp add: zug_mvt_rows_def)
    show "r \<in> set ?rs \<longleftrightarrow> (\<exists>u\<in>set (outer_join (updates_of db m)). r = (m, t, u))" for r
    proof -
      obtain a b c where r: "r = (a, b, c)" by (cases r)
      have "a \<in> set (zdb_mvts db) \<and> tm_id a = tm_id m \<longleftrightarrow> a = m"
        using m(1) by (blast intro: mvt_by_id [OF inv _ m(1)])
      moreover have "b \<in> set (zdb_trains db) \<and> tr_id b = tm_parent_train m \<longleftrightarrow> b = t"
        using t(1,2) by (metis train_by_id [OF inv])
      ultimately show ?thesis using m t unfolding r by (auto simp: zug_mvt_rows_set)
    qed
  qed (rule updates_of_distinct [OF inv])
  ultimately show ?thesis using x by blast
qed

section \<open>Properties\<close>

text \<open>
  C33. The movement query: an original movement at the place, in the time window, of a train of that day
  is shown, as a vector of itself followed by exactly its updates, and nothing else is shown; the
  trains in the answer are exactly the trains of the movements shown.
\<close>

theorem movement_query_exact:
  assumes "zug_reach s" "db = zs_db s" "calculate_non_midnight_aware_times C ts dur = (st, en)"
    and "q = zug_get_mvts_passing_through C db tpl ts dur"
  shows "(\<forall>m t. m \<in> set (zdb_mvts db) \<and> tm_in_window tpl st en m \<and> t \<in> set (zdb_trains db) \<and>
        tr_id t = tm_parent_train m \<and> tr_date t = dt_date ts \<longrightarrow>
      map_of (zq_trains q) (tr_id t) = Some t \<and>
      (\<exists>us. map_of (zq_mvts q) (tm_id m) = Some (m # us) \<and> mset us = mset (updates_of db m))) \<and>
    (\<forall>i l. map_of (zq_mvts q) i = Some l \<longrightarrow> (\<exists>m t. m \<in> set (zdb_mvts db) \<and> tm_id m = i \<and>
      tm_in_window tpl st en m \<and> t \<in> set (zdb_trains db) \<and> tr_id t = tm_parent_train m \<and> tr_date t = dt_date ts))"
proof -
  note inv = zug_reach_inv [OF assms(1), folded assms(2)]
  have q: "zq_mvts q = group_rows (\<lambda>(m, t, u). (tm_id m, m, u)) (zug_mvt_rows db tpl st en (dt_date ts))"
    by (simp add: assms(4) passing_answer [OF assms(3)])
  have "\<exists>m t. m \<in> set (zdb_mvts db) \<and> tm_id m = i \<and>
      tm_in_window tpl st en m \<and> t \<in> set (zdb_trains db) \<and> tr_id t = tm_parent_train m \<and> tr_date t = dt_date ts"
    if "map_of (zq_mvts q) i = Some l" for i l
  proof -
    from group_some [OF that [unfolded q]]
    obtain m t u where "(m, t, u) \<in> set (zug_mvt_rows db tpl st en (dt_date ts))" "tm_id m = i"
      by auto
    then show ?thesis unfolding zug_mvt_rows_set by blast
  qed
  moreover have "map_of (zq_trains q) (tr_id t) = Some t"
    if "m \<in> set (zdb_mvts db)" "tm_in_window tpl st en m" "t \<in> set (zdb_trains db)"
      "tr_id t = tm_parent_train m" "tr_date t = dt_date ts" for m t
    using that by (auto simp: assms(4) passing_trains_exact [OF inv assms(3)] simp del: map_of_eq_Some_iff)
  ultimately show ?thesis
    using passing_entry [OF inv] unfolding q by blast
qed

section \<open>The connecting query\<close>

lemma connecting_answer_groups:
  assumes "calculate_non_midnight_aware_times C ts dur = (st, en)"
  shows "zc_mvts (zug_get_connecting_mvts C db tpl ts dur conn) =
      group_rows (\<lambda>(m, t, c, u, cu). (tm_id m, m, u)) (zug_conn_rows db tpl conn st en (dt_date ts))"
    and "zc_connecting_mvts (zug_get_connecting_mvts C db tpl ts dur conn) =
      group_rows (\<lambda>(m, t, c, u, cu). (tm_id m, c, cu)) (zug_conn_rows db tpl conn st en (dt_date ts))"
    and "zc_trains (zug_get_connecting_mvts C db tpl ts dur conn) =
      fold (\<lambda>r. AList.update (tr_id (fst (snd r))) (fst (snd r))) (zug_conn_rows db tpl conn st en (dt_date ts)) []"
  using assms by (simp_all add: zug_get_connecting_mvts_def group_rows_def case_prod_unfold Let_def)

definition connections :: "zug_db \<Rightarrow> string \<Rightarrow> train_mvt \<Rightarrow> train_mvt list" where
  "connections db conn m =
     filter (\<lambda>c. tm_parent_train c = tm_parent_train m \<and> tm_updates c = None \<and> tm_tiploc c = conn) (zdb_mvts db)"

lemma opt_update_rows:
  "(\<exists>u\<in>set (outer_join us). u = Some x) \<longleftrightarrow> x \<in> set us"
  by (auto simp: outer_join_set)

lemma connecting_rows_of:
  assumes inv: "zdb_inv db"
    and m: "m \<in> set (zdb_mvts db)" "tm_in_window tpl st en m"
    and t: "t \<in> set (zdb_trains db)" "tr_id t = tm_parent_train m" "tr_date t = date"
    and m': "tm_id m' = tm_id m"
  shows "(m', t', c, u, cu) \<in> set (zug_conn_rows db tpl conn st en date) \<longleftrightarrow>
    m' = m \<and> t' = t \<and> c \<in> set (connections db conn m) \<and>
    u \<in> set (outer_join (updates_of db m)) \<and> cu \<in> set (outer_join (updates_of db c))"
proof -
  have "m' \<in> set (zdb_mvts db) \<longleftrightarrow> m' = m"
    using m(1) m' by (blast intro: mvt_by_id [OF inv _ m(1)])
  moreover have "t' \<in> set (zdb_trains db) \<and> tr_id t' = tm_parent_train m \<longleftrightarrow> t' = t"
    using t(1,2) by (metis train_by_id [OF inv])
  ultimately show ?thesis using m t by (auto simp: zug_conn_rows_set connections_def)
qed

text \<open>A vector of the connecting query: its head and the updates in it, for either of the two maps.\<close>

lemma connecting_entry:
  assumes inv: "zdb_inv db"
    and m: "m \<in> set (zdb_mvts db)" "tm_in_window tpl st en m"
    and t: "t \<in> set (zdb_trains db)" "tr_id t = tm_parent_train m" "tr_date t = date"
    and c: "connections db conn m \<noteq> []"
    and f: "f = (\<lambda>(m, t, c, u, cu). (tm_id m, g m c, h u cu))"
  shows "\<exists>c us. map_of (group_rows f (zug_conn_rows db tpl conn st en date)) (tm_id m) = Some (g m c # us) \<and>
    c \<in> set (connections db conn m) \<and>
    set us = {x. \<exists>c\<in>set (connections db conn m). \<exists>u\<in>set (outer_join (updates_of db m)).
      \<exists>cu\<in>set (outer_join (updates_of db c)). h u cu = Some x}"
proof -
  let ?rows = "zug_conn_rows db tpl conn st en date"
  note rows = connecting_rows_of [OF inv m t]
  obtain c0 where c0: "c0 \<in> set (connections db conn m)" using c by (meson hd_in_set)
  obtain u cu where "u \<in> set (outer_join (updates_of db m))" "cu \<in> set (outer_join (updates_of db c0))"
    using outer_join_ne by blast
  with c0 have row: "(m, t, c0, u, cu) \<in> set ?rows" by (simp add: rows)
  let ?rs = "filter (\<lambda>r. fst (f r) = tm_id m) ?rows"
  obtain x where x: "map_of (group_rows f ?rows) (tm_id m) = Some (x # row_updates f ?rs)"
    using group_entry [OF row, of f "tm_id m"] by (auto simp: f)
  obtain m' t' c1 u' cu' where "(m', t', c1, u', cu') \<in> set ?rows" "tm_id m' = tm_id m" "x = g m' c1"
    using group_head [OF x] by (auto simp: f)
  then have head: "x = g m c1" "c1 \<in> set (connections db conn m)" by (simp_all add: rows)
  have mem: "r \<in> set ?rs \<longleftrightarrow> (\<exists>c\<in>set (connections db conn m). \<exists>u\<in>set (outer_join (updates_of db m)).
      \<exists>cu\<in>set (outer_join (updates_of db c)). r = (m, t, c, u, cu))" for r
  proof -
    obtain a b c d e where r: "r = (a, b, c, d, e)" by (cases r)
    show ?thesis using rows [of a b c d e conn] rows [of m b c d e conn] by (auto simp: r f)
  qed
  have ex: "(\<exists>r\<in>set ?rs. Q r) \<longleftrightarrow> (\<exists>c\<in>set (connections db conn m). \<exists>u\<in>set (outer_join (updates_of db m)).
      \<exists>cu\<in>set (outer_join (updates_of db c)). Q (m, t, c, u, cu))" for Q
    unfolding Bex_def mem by blast
  have "set (row_updates f ?rs) = {x. \<exists>c\<in>set (connections db conn m). \<exists>u\<in>set (outer_join (updates_of db m)).
      \<exists>cu\<in>set (outer_join (updates_of db c)). h u cu = Some x}"
    unfolding set_eq_iff row_updates_set ex by (simp add: f)
  with x head show ?thesis by blast
qed

text \<open>
  The connecting query: when the train of an original movement in the window has original movements
  at the other place, the movement is shown as a vector of itself and its updates, and under
  the same id one of the connecting movements followed by the updates of \<^emph>\<open>all\<close> of them. A train that
  stops has two movements there, arriving and departing: the updates of one follow the other.
\<close>

theorem connecting_query_answer:
  assumes "zug_reach s" "db = zs_db s" "calculate_non_midnight_aware_times C ts dur = (st, en)"
    and "q = zug_get_connecting_mvts C db tpl ts dur conn"
    and "m \<in> set (zdb_mvts db)" "tm_in_window tpl st en m"
    and "t \<in> set (zdb_trains db)" "tr_id t = tm_parent_train m" "tr_date t = dt_date ts"
    and "connections db conn m \<noteq> []"
  shows "\<exists>us c cus. map_of (zc_mvts q) (tm_id m) = Some (m # us) \<and> set us = set (updates_of db m) \<and>
    map_of (zc_connecting_mvts q) (tm_id m) = Some (c # cus) \<and> c \<in> set (connections db conn m) \<and>
    set cus = (\<Union>c'\<in>set (connections db conn m). set (updates_of db c')) \<and>
    map_of (zc_trains q) (tr_id t) = Some t"
proof -
  note inv = zug_reach_inv [OF assms(1), folded assms(2)]
  note entry = connecting_entry [OF inv assms(5-10)]
  have "\<exists>us. map_of (zc_mvts q) (tm_id m) = Some (m # us) \<and> set us = set (updates_of db m)"
    using entry [where g = "\<lambda>m c. m" and h = "\<lambda>u cu. u", OF refl] outer_join_ne assms(10)
    by (fastforce simp: assms(4) connecting_answer_groups(1) [OF assms(3)] outer_join_set)
  moreover have "\<exists>c cus. map_of (zc_connecting_mvts q) (tm_id m) = Some (c # cus) \<and> c \<in> set (connections db conn m) \<and>
    set cus = (\<Union>c'\<in>set (connections db conn m). set (updates_of db c'))"
    using entry [where g = "\<lambda>m c. c" and h = "\<lambda>u cu. cu", OF refl] outer_join_ne
    by (fastforce simp: assms(4) connecting_answer_groups(2) [OF assms(3)] outer_join_set)
  moreover have "map_of (zc_trains q) (tr_id t) = Some t"
  proof -
    obtain c u cu where "c \<in> set (connections db conn m)" "u \<in> set (outer_join (updates_of db m))"
      "cu \<in> set (outer_join (updates_of db c))"
      using assms(10) outer_join_ne by (meson hd_in_set)
    then have "(m, t, c, u, cu) \<in> set (zug_conn_rows db tpl conn st en (dt_date ts))"
      by (simp add: connecting_rows_of [OF inv assms(5-9)])
    then show ?thesis
      unfolding assms(4) connecting_answer_groups(3) [OF assms(3)]
      by (subst group_trains [OF inv]) (auto simp: zug_conn_rows_set intro: bexI [of _ "(m, t, c, u, cu)"])
  qed
  ultimately show ?thesis by blast
qed

section \<open>Concrete answers\<close>

lemma sample_query_window:
  "calculate_non_midnight_aware_times chrono_civil sample_now 3600 = (NaiveTime 32400 0, NaiveTime 39600 0)"
  unfolding sample_now_def by (rule sample_window)

lemma movement_query_exact_witness:
  "\<exists>us. map_of (zq_mvts (zug_get_mvts_passing_through chrono_civil (zs_db sample_state) ''EUSTON'' sample_now 3600)) 1 =
     Some (sample_tmvt\<lparr>tm_id := 1, tm_parent_train := 1\<rparr> # us)"
proof -
  let ?m = "sample_tmvt\<lparr>tm_id := 1, tm_parent_train := 1\<rparr>"
  have "?m \<in> set (zdb_mvts (zs_db sample_state))" "sample_train \<in> set (zdb_trains (zs_db sample_state))"
    by (simp_all add: sample_state_def sample_activated_def)
  moreover have "tm_in_window ''EUSTON'' (NaiveTime 32400 0) (NaiveTime 39600 0) ?m"
    by (simp add: tm_in_window_def sample_tmvt_def sample_mvt_def from_itps_def chrono_orders)
  moreover have "tr_id sample_train = tm_parent_train ?m" "tr_date sample_train = dt_date sample_now" "tm_id ?m = 1"
    by (simp_all add: sample_train_def sample_now_def)
  ultimately show ?thesis
    using movement_query_exact [OF sample_reach refl sample_query_window refl, of "''EUSTON''"] by metis
qed

text \<open>A train that stops at Watford Junction, with a Darwin estimate for its departure from there.\<close>

definition calling_mvt :: "int \<Rightarrow> string \<Rightarrow> u8 \<Rightarrow> nat \<Rightarrow> train_mvt" where
  "calling_mvt i tpl act secs = (from_itps (sample_mvt i 1 tpl act secs))\<lparr>tm_id := i, tm_parent_train := 1\<rparr>"

definition calling_update :: train_mvt where
  "calling_update =
     \<lparr>tm_id = 4, tm_parent_train = 1, tm_updates = Some 3, tm_tiploc = ''WATFDJ'', tm_action = ACTION_DEPARTURE,
      tm_actual = False, tm_time = NaiveTime 37300 0, tm_public_time = None, tm_day_offset = 0,
      tm_source = SOURCE_DARWIN_LIVE, tm_platform = None, tm_pfm_suppr = False, tm_unknown_delay = False\<rparr>"

definition calling_state :: "train_mvt list \<Rightarrow> broadcast_packet list \<Rightarrow> zug_state" where
  "calling_state us ps =
     \<lparr>zs_db = \<lparr>zdb_trains = [sample_train],
        zdb_mvts = [calling_mvt 1 ''EUSTON'' ACTION_DEPARTURE 36000, calling_mvt 2 ''WATFDJ'' ACTION_ARRIVAL 37000,
                    calling_mvt 3 ''WATFDJ'' ACTION_DEPARTURE 37060] @ us, zdb_corpus = []\<rparr>,
      zs_cast = \<lparr>bp_ts = sample_now, bp_update = BcActivation sample_train\<rparr> # ps\<rparr>"

definition calling_api :: fahrplan_api where
  "calling_api = sample_api\<lparr>fa_schedule := \<lambda>uu. Inr \<lparr>sd_sched = sample_schedule 1 ''P'',
     sd_mvts = [sample_mvt 1 1 ''EUSTON'' ACTION_DEPARTURE 36000, sample_mvt 2 1 ''WATFDJ'' ACTION_ARRIVAL 37000,
                sample_mvt 3 1 ''WATFDJ'' ACTION_DEPARTURE 37060]\<rparr>\<rparr>"

definition calling_darwin :: darwin_mvt_update where
  "calling_darwin =
     \<lparr>du_tiploc = ''WATFDJ'', du_planned_time = NaiveTime 37060 0, du_planned_day_offset = 0,
      du_planned_action = ACTION_DEPARTURE, du_updated_time = NaiveTime 37300 0, du_time_actual = False,
      du_delay_unknown = False, du_platform = None, du_platsup = False\<rparr>"

lemma calling_activated: "zug_reach (calling_state [] [])"
proof -
  let ?act = "ZActivate ''C12345'' (NaiveDate 737421) ''P'' 0 (NaiveDate 737430)"
  have act: "snd (zug_on_request '''' chrono_civil calling_api (Uuid 1) sample_now ?act zug_init) = calling_state [] []"
    by (simp add: activate_train_def activator_nrod_def calling_api_def sample_api_def get_tmvts_for_schedule_def
        zug_init_def activate_lowlevel_def activate_copy_def new_train_def insert_train_def conflicts_def
        trust_unique_def copy_mvts_def insert_train_mvt_def mvt_unique_def update_trains_def next_rowid_def
        from_itps_def sample_train_def Let_def calling_state_def calling_mvt_def sample_mvt_def
        send_activation_def send_update_def)
  show ?thesis by (metis act zug_reach.step zug_reach.start zug_step.request)
qed

lemma calling_reach:
  "zug_reach (calling_state [calling_update] [\<lparr>bp_ts = sample_now, bp_update = BcMovement calling_update\<rparr>])"
proof -
  have upd: "snd (zug_on_request '''' chrono_civil calling_api (Uuid 1) sample_now
      (ZDarwinUpdate (Uuid 1) calling_darwin) (calling_state [] [])) =
    calling_state [calling_update] [\<lparr>bp_ts = sample_now, bp_update = BcMovement calling_update\<rparr>]"
    by (simp add: process_darwin_mvt_update_def darwin_matches_def calling_darwin_def calling_state_def
        calling_mvt_def calling_update_def ACTION_ARRIVAL_def ACTION_DEPARTURE_def sample_state_defs)
  show ?thesis by (metis upd calling_activated zug_reach.step zug_step.request)
qed

lemma calling_connections:
  "connections (zs_db (calling_state [calling_update] ps)) ''WATFDJ'' (calling_mvt 1 ''EUSTON'' ACTION_DEPARTURE 36000) =
     [calling_mvt 2 ''WATFDJ'' ACTION_ARRIVAL 37000, calling_mvt 3 ''WATFDJ'' ACTION_DEPARTURE 37060]"
  by (simp add: connections_def calling_state_def calling_update_def)
     (simp add: calling_mvt_def sample_mvt_def from_itps_def)

lemma connecting_query_answer_witness:
  "\<exists>c cus. map_of (zc_connecting_mvts (zug_get_connecting_mvts chrono_civil
      (zs_db (calling_state [calling_update] [\<lparr>bp_ts = sample_now, bp_update = BcMovement calling_update\<rparr>]))
      ''EUSTON'' sample_now 3600 ''WATFDJ'')) 1 = Some (c # cus) \<and> calling_update \<in> set cus"
proof -
  let ?s = "calling_state [calling_update] [\<lparr>bp_ts = sample_now, bp_update = BcMovement calling_update\<rparr>]"
  let ?m = "calling_mvt 1 ''EUSTON'' ACTION_DEPARTURE 36000"
  have 1: "?m \<in> set (zdb_mvts (zs_db ?s))" "sample_train \<in> set (zdb_trains (zs_db ?s))"
    by (simp_all add: calling_state_def)
  have 2: "tm_in_window ''EUSTON'' (NaiveTime 32400 0) (NaiveTime 39600 0) ?m"
    by (simp add: tm_in_window_def calling_mvt_def sample_mvt_def from_itps_def chrono_orders)
  have 3: "tr_id sample_train = tm_parent_train ?m" "tr_date sample_train = dt_date sample_now" "tm_id ?m = 1"
    by (simp_all add: sample_train_def sample_now_def calling_mvt_def)
  have 4: "connections (zs_db ?s) ''WATFDJ'' ?m \<noteq> []" by (simp add: calling_connections)
  have 5: "calling_update \<in> set (updates_of (zs_db ?s) (calling_mvt 3 ''WATFDJ'' ACTION_DEPARTURE 37060))"
    by (simp add: updates_of_def calling_state_def) (simp add: calling_update_def calling_mvt_def)
  from connecting_query_answer [OF calling_reach refl sample_query_window refl 1(1) 2 1(2) 3(1,2) 4] 3(3) 5
  show ?thesis unfolding calling_connections by fastforce
qed

end
