(* ===== verification/Zugfuhrer_Live.thy ===== *)
theory Zugfuhrer_Live
  imports Zugfuhrer_Updates
begin

text \<open>
  \<open>broadcast.rs\<close> of \<open>tspl-zugfuhrer\<close>: \<open>LiveBroadcaster::run\<close> hands every packet to the channels of its
  connections and drops the channels whose receiver is gone; \<open>LiveHandler::run\<close>, a thread per
  connection, first sends the running trains of the day and then what comes from its channel.

  The threads interleave: their steps are the relation \<open>live_step\<close>. The sockets, the clock and the
  database are parameters of a step. \<open>lv_log\<close> and \<open>lc_start\<close> only record what was
  broadcast and when a connection came; no step reads them.
\<close>

section \<open>State\<close>

datatype live_phase = LSyncing | LRunning | LDead

record live_conn =
  lc_phase :: live_phase
  lc_queue :: "broadcast_packet list"
  lc_out :: "broadcast_packet list"
  lc_start :: nat

record live_state =
  lv_running :: bool
  lv_streams :: "nat list"
  lv_conns :: "live_conn list"
  lv_log :: "broadcast_packet list"

section \<open>\<open>LiveBroadcaster\<close>\<close>

text \<open>\<open>Vec::remove\<close> panics when the index is out of range.\<close>

definition vec_remove :: "nat \<Rightarrow> 'a list \<Rightarrow> 'a list option" where
  "vec_remove i xs = (if i < length xs then Some (take i xs @ drop (Suc i) xs) else None)"

fun remove_all_idx :: "nat list \<Rightarrow> 'a list \<Rightarrow> 'a list option" where
  "remove_all_idx [] xs = Some xs"
| "remove_all_idx (i # is) xs = (case vec_remove i xs of None \<Rightarrow> None | Some ys \<Rightarrow> remove_all_idx is ys)"

definition failed_idx :: "('a \<Rightarrow> bool) \<Rightarrow> 'a list \<Rightarrow> nat list" where
  "failed_idx live xs = map fst (filter (\<lambda>(i, x). \<not> live x) (enumerate 0 xs))"

text \<open>\<open>tx.send\<close>: it fails when the handler has ended.\<close>

definition conn_send :: "broadcast_packet \<Rightarrow> live_conn \<Rightarrow> live_conn" where
  "conn_send p c = (if lc_phase c = LDead then c else c\<lparr>lc_queue := lc_queue c @ [p]\<rparr>)"

definition conn_live :: "live_state \<Rightarrow> nat \<Rightarrow> bool" where
  "conn_live s i \<longleftrightarrow> (case nth0 (drop i (lv_conns s)) of None \<Rightarrow> False | Some c \<Rightarrow> lc_phase c \<noteq> LDead)"

definition live_update :: "broadcast_packet \<Rightarrow> live_state \<Rightarrow> live_state option" where
  "live_update p s =
     (let to_remove = failed_idx (conn_live s) (lv_streams s)
      in map_option
           (\<lambda>streams. s\<lparr>lv_streams := streams,
              lv_conns := map (\<lambda>(i, c). if i \<in> set (lv_streams s) then conn_send p c else c)
                            (enumerate 0 (lv_conns s)),
              lv_log := lv_log s @ [p]\<rparr>)
           (remove_all_idx (rev to_remove) (lv_streams s)))"

text \<open>
  A new connection. When the address of the peer cannot be read any more, \<open>?\<close> ends the loop of the
  broadcaster: it will handle neither connections nor updates.
\<close>

definition live_connect :: "bool \<Rightarrow> live_state \<Rightarrow> live_state" where
  "live_connect peer_addr s =
     (if \<not> peer_addr then s\<lparr>lv_running := False, lv_streams := []\<rparr>
      else s\<lparr>lv_streams := lv_streams s @ [length (lv_conns s)],
             lv_conns := lv_conns s @
               [\<lparr>lc_phase = LSyncing, lc_queue = [], lc_out = [], lc_start = length (lv_log s)\<rparr>]\<rparr>)"

section \<open>\<open>LiveHandler\<close>\<close>

text \<open>\<open>send\<close>: \<open>ok\<close> says whether the socket took the packet; an error ends the handler.\<close>

definition handler_send :: "bool \<Rightarrow> broadcast_packet \<Rightarrow> live_conn \<Rightarrow> live_conn" where
  "handler_send ok p c = (if ok then c\<lparr>lc_out := lc_out c @ [p]\<rparr> else c\<lparr>lc_phase := LDead\<rparr>)"

definition sync_trains :: "naive_date \<Rightarrow> zug_db \<Rightarrow> train list" where
  "sync_trains today db = filter (\<lambda>t. tr_date t = today \<and> \<not> tr_terminated t) (zdb_trains db)"

text \<open>The loop over the trains, with the moment and the fate of each write.\<close>

fun handler_sync :: "(naive_datetime \<times> bool) list \<Rightarrow> train list \<Rightarrow> live_conn \<Rightarrow> live_conn" where
  "handler_sync env [] c = c\<lparr>lc_phase := LRunning\<rparr>"
| "handler_sync [] (t # ts) c = c\<lparr>lc_phase := LDead\<rparr>"
| "handler_sync ((now, ok) # env) (t # ts) c =
     (let c1 = handler_send ok \<lparr>bp_ts = now, bp_update = BcSyncTrain t\<rparr> c
      in if ok then handler_sync env ts c1 else c1)"

text \<open>One turn of the final loop, with a packet in the channel.\<close>

definition handler_turn :: "bool \<Rightarrow> live_conn \<Rightarrow> live_conn" where
  "handler_turn ok c =
     (case lc_queue c of
        [] \<Rightarrow> c
      | p # ps \<Rightarrow> handler_send ok p (c\<lparr>lc_queue := ps\<rparr>))"

section \<open>Steps\<close>

inductive live_step :: "live_state \<Rightarrow> live_state \<Rightarrow> bool" where
  update: "lv_running s \<Longrightarrow> live_update p s = Some t \<Longrightarrow> live_step s t"
| connect: "lv_running s \<Longrightarrow> live_step s (live_connect peer_addr s)"
| sync: "i < length (lv_conns s) \<Longrightarrow> lc_phase (lv_conns s ! i) = LSyncing \<Longrightarrow>
    live_step s (s\<lparr>lv_conns := (lv_conns s)[i := handler_sync env (sync_trains today db) (lv_conns s ! i)]\<rparr>)"
| turn: "i < length (lv_conns s) \<Longrightarrow> lc_phase (lv_conns s ! i) = LRunning \<Longrightarrow>
    live_step s (s\<lparr>lv_conns := (lv_conns s)[i := handler_turn ok (lv_conns s ! i)]\<rparr>)"

definition live_init :: live_state where
  "live_init = \<lparr>lv_running = True, lv_streams = [], lv_conns = [], lv_log = []\<rparr>"

inductive live_reach :: "live_state \<Rightarrow> bool" where
  start: "live_reach live_init"
| step: "live_reach s \<Longrightarrow> live_step s t \<Longrightarrow> live_reach t"

inductive_cases live_stepE: "live_step s t"

section \<open>Removing the dead channels\<close>

lemma remove_all_append:
  "remove_all_idx (is @ js) xs = Option.bind (remove_all_idx is xs) (remove_all_idx js)"
  by (induction "is" arbitrary: xs) (simp_all split: option.split)

lemma remove_all_failed:
  "remove_all_idx (rev (map fst (filter (\<lambda>(i, x). \<not> live x) (enumerate (length pre) xs)))) (pre @ xs) =
     Some (pre @ filter live xs)"
proof (induction xs arbitrary: pre)
  case Nil
  then show ?case by simp
next
  case (Cons x xs)
  from Cons.IH [of "pre @ [x]"] show ?case
    by (simp add: remove_all_append vec_remove_def)
qed

text \<open>Removing from the back keeps the other indexes valid: the result is the list of live channels.\<close>

lemma remove_failed: "remove_all_idx (rev (failed_idx live xs)) xs = Some (filter live xs)"
  using remove_all_failed [of live "[]" xs] by (simp add: failed_idx_def)

lemma live_update_eq:
  "live_update p s = Some (s\<lparr>lv_streams := filter (conn_live s) (lv_streams s),
     lv_conns := map (\<lambda>(i, c). if i \<in> set (lv_streams s) then conn_send p c else c) (enumerate 0 (lv_conns s)),
     lv_log := lv_log s @ [p]\<rparr>)"
  by (simp add: live_update_def remove_failed)

section \<open>What a client receives\<close>

text \<open>
  The part of a client's output that came from its channel follows the packets of the
  synchronization. While the client lives nothing is lost: what is in its channel is what is missing.
\<close>

definition is_sync :: "broadcast_packet \<Rightarrow> bool" where
  "is_sync p \<longleftrightarrow> (case bp_update p of BcSyncTrain t \<Rightarrow> True | _ \<Rightarrow> False)"

definition conn_ok :: "broadcast_packet list \<Rightarrow> live_conn \<Rightarrow> bool" where
  "conn_ok log c \<longleftrightarrow>
     (\<exists>pre del rest. lc_out c = pre @ del \<and> (\<forall>p\<in>set pre. is_sync p) \<and> lc_start c \<le> length log \<and>
        drop (lc_start c) log = del @ rest \<and>
        (lc_phase c \<noteq> LDead \<longrightarrow> rest = lc_queue c) \<and> (lc_phase c = LSyncing \<longrightarrow> lc_out c = []))"

definition live_inv :: "live_state \<Rightarrow> bool" where
  "live_inv s \<longleftrightarrow>
     (\<forall>i\<in>set (lv_streams s). i < length (lv_conns s)) \<and>
     (\<forall>i<length (lv_conns s). conn_ok (lv_log s) (lv_conns s ! i) \<and>
        (lv_running s \<and> lc_phase (lv_conns s ! i) \<noteq> LDead \<longrightarrow> i \<in> set (lv_streams s)))"

lemma conn_ok_send:
  assumes "conn_ok log c" shows "conn_ok (log @ [p]) (conn_send p c)"
proof -
  obtain pre del rest where c: "lc_out c = pre @ del" "\<forall>p\<in>set pre. is_sync p" "lc_start c \<le> length log"
    "drop (lc_start c) log = del @ rest" "lc_phase c \<noteq> LDead \<longrightarrow> rest = lc_queue c"
    "lc_phase c = LSyncing \<longrightarrow> lc_out c = []"
    using assms unfolding conn_ok_def by blast
  then show ?thesis
    unfolding conn_ok_def
    by (intro exI [of _ pre] exI [of _ del] exI [of _ "rest @ [p]"]) (simp add: conn_send_def)
qed

lemma conn_ok_dead:
  assumes "conn_ok log c" "lc_phase c = LDead" shows "conn_ok (log @ [p]) c"
  using conn_ok_send [OF assms(1), of p] assms(2) by (simp add: conn_send_def)

lemma conn_ok_turn:
  assumes "conn_ok log c" "lc_phase c = LRunning" shows "conn_ok log (handler_turn ok c)"
proof (cases "lc_queue c")
  case Nil
  with assms show ?thesis by (simp add: handler_turn_def)
next
  case (Cons p ps)
  obtain pre del where c: "lc_out c = pre @ del" "\<forall>p\<in>set pre. is_sync p" "lc_start c \<le> length log"
    "drop (lc_start c) log = del @ lc_queue c"
    using assms unfolding conn_ok_def by auto
  show ?thesis
  proof (cases ok)
    case True
    with c Cons assms(2) show ?thesis
      unfolding conn_ok_def
      by (intro exI [of _ pre] exI [of _ "del @ [p]"] exI [of _ ps]) (simp add: handler_turn_def handler_send_def)
  next
    case False
    with c Cons show ?thesis
      unfolding conn_ok_def
      by (intro exI [of _ pre] exI [of _ del] exI [of _ "p # ps"]) (simp add: handler_turn_def handler_send_def)
  qed
qed

text \<open>The synchronization writes packets of the trains, in order, until the socket fails or all are written.\<close>

lemma handler_sync_out:
  "\<exists>ps k. lc_out (handler_sync env ts c) = lc_out c @ ps \<and> map bp_update ps = map BcSyncTrain (take k ts) \<and>
     lc_queue (handler_sync env ts c) = lc_queue c \<and> lc_start (handler_sync env ts c) = lc_start c \<and>
     (lc_phase (handler_sync env ts c) = LRunning \<and> length ts \<le> k \<or> lc_phase (handler_sync env ts c) = LDead)"
proof (induction env ts c rule: handler_sync.induct)
  case (1 env c)
  then show ?case by (auto intro!: exI [of _ "[]"])
next
  case (2 t ts c)
  then show ?case by (auto intro!: exI [of _ "[]"] exI [of _ 0])
next
  case (3 now ok env t ts c)
  let ?p = "\<lparr>bp_ts = now, bp_update = BcSyncTrain t\<rparr>"
  show ?case
  proof (cases ok)
    case True
    from 3 [OF refl True] obtain ps k where
      "lc_out (handler_sync env ts (handler_send ok ?p c)) = lc_out (handler_send ok ?p c) @ ps"
      "map bp_update ps = map BcSyncTrain (take k ts)"
      "lc_queue (handler_sync env ts (handler_send ok ?p c)) = lc_queue (handler_send ok ?p c)"
      "lc_start (handler_sync env ts (handler_send ok ?p c)) = lc_start (handler_send ok ?p c)"
      "lc_phase (handler_sync env ts (handler_send ok ?p c)) = LRunning \<and> length ts \<le> k \<or>
       lc_phase (handler_sync env ts (handler_send ok ?p c)) = LDead"
      by blast
    with True show ?thesis
      by (intro exI [of _ "?p # ps"] exI [of _ "Suc k"]) (simp add: handler_send_def Let_def)
  next
    case False
    then show ?thesis
      by (intro exI [of _ "[]"] exI [of _ 0]) (simp add: handler_send_def Let_def)
  qed
qed

lemma conn_ok_sync:
  assumes "conn_ok log c" "lc_phase c = LSyncing" shows "conn_ok log (handler_sync env ts c)"
proof -
  obtain ps k where h: "lc_out (handler_sync env ts c) = lc_out c @ ps" "map bp_update ps = map BcSyncTrain (take k ts)"
    "lc_queue (handler_sync env ts c) = lc_queue c" "lc_start (handler_sync env ts c) = lc_start c"
    "lc_phase (handler_sync env ts c) = LRunning \<or> lc_phase (handler_sync env ts c) = LDead"
    using handler_sync_out [of env ts c] by blast
  have "\<forall>p\<in>set ps. is_sync p"
  proof
    fix p assume "p \<in> set ps"
    then have "bp_update p \<in> set (map BcSyncTrain (take k ts))" unfolding h(2) [symmetric] by simp
    then show "is_sync p" by (auto simp: is_sync_def)
  qed
  moreover have "lc_out c = []" "drop (lc_start c) log = lc_queue c" "lc_start c \<le> length log"
    using assms unfolding conn_ok_def by auto
  ultimately show ?thesis
    unfolding conn_ok_def
    by (intro exI [of _ ps] exI [of _ "[]"] exI [of _ "lc_queue c"]) (use h in auto)
qed

section \<open>Every step keeps the invariant\<close>

lemma live_inv_conn:
  assumes "live_inv s" "i < length (lv_conns s)" "conn_ok (lv_log s) c"
    and "lc_phase c \<noteq> LDead \<longrightarrow> lc_phase (lv_conns s ! i) \<noteq> LDead"
  shows "live_inv (s\<lparr>lv_conns := (lv_conns s)[i := c]\<rparr>)"
  using assms unfolding live_inv_def by (auto simp: nth_list_update)

lemma conn_live_nth: "i < length (lv_conns s) \<Longrightarrow> conn_live s i \<longleftrightarrow> lc_phase (lv_conns s ! i) \<noteq> LDead"
  by (simp add: conn_live_def Cons_nth_drop_Suc [symmetric])

lemma live_update_inv:
  assumes inv: "live_inv s" and upd: "live_update p s = Some t" and run: "lv_running s"
  shows "live_inv t"
proof -
  have t: "lv_streams t = filter (conn_live s) (lv_streams s)" "lv_running t = lv_running s"
    "lv_log t = lv_log s @ [p]" "length (lv_conns t) = length (lv_conns s)"
    using upd by (auto simp: live_update_eq)
  have nth: "lv_conns t ! i = (if i \<in> set (lv_streams s) then conn_send p (lv_conns s ! i) else lv_conns s ! i)"
    if "i < length (lv_conns s)" for i
    using upd that by (auto simp: live_update_eq nth_enumerate_eq)
  have "conn_ok (lv_log t) (lv_conns t ! i) \<and>
      (lc_phase (lv_conns t ! i) \<noteq> LDead \<longrightarrow> i \<in> set (lv_streams t))" if i: "i < length (lv_conns s)" for i
  proof (cases "i \<in> set (lv_streams s)")
    case True
    have "conn_ok (lv_log s) (lv_conns s ! i)" using inv i by (simp add: live_inv_def)
    then have "conn_ok (lv_log t) (lv_conns t ! i)" by (simp add: t nth [OF i] True conn_ok_send)
    moreover have "i \<in> set (lv_streams t)" if "lc_phase (lv_conns t ! i) \<noteq> LDead"
      using that by (simp add: t nth [OF i] True conn_live_nth [OF i] conn_send_def split: if_splits)
    ultimately show ?thesis by blast
  next
    case False
    have "conn_ok (lv_log s) (lv_conns s ! i)" using inv i by (simp add: live_inv_def)
    moreover have "lc_phase (lv_conns s ! i) = LDead"
      using inv i run False unfolding live_inv_def by blast
    ultimately show ?thesis by (simp add: t(3) nth [OF i] False conn_ok_dead)
  qed
  moreover have "\<forall>i\<in>set (lv_streams t). i < length (lv_conns t)"
    using inv by (simp add: live_inv_def t)
  ultimately show ?thesis unfolding live_inv_def t(4) by blast
qed

lemma live_connect_inv:
  assumes "live_inv s"
  shows "live_inv (live_connect peer_addr s)"
proof -
  have "conn_ok (lv_log s) \<lparr>lc_phase = LSyncing, lc_queue = [], lc_out = [], lc_start = length (lv_log s)\<rparr>"
    by (simp add: conn_ok_def)
  with assms show ?thesis
    by (auto simp: live_inv_def live_connect_def nth_append less_Suc_eq)
qed

lemma live_step_inv: "live_step s t \<Longrightarrow> live_inv s \<Longrightarrow> live_inv t"
proof (induction rule: live_step.induct)
  case (update s p t)
  then show ?case by (blast intro: live_update_inv)
next
  case (connect s peer_addr)
  then show ?case by (blast intro: live_connect_inv)
next
  case (sync i s env today db)
  then have "conn_ok (lv_log s) (lv_conns s ! i)" by (simp add: live_inv_def)
  from conn_ok_sync [OF this sync.hyps(2)] sync show ?case by (intro live_inv_conn) simp_all
next
  case (turn i s ok)
  then have "conn_ok (lv_log s) (lv_conns s ! i)" by (simp add: live_inv_def)
  from conn_ok_turn [OF this turn.hyps(2)] turn show ?case by (intro live_inv_conn) simp_all
qed

lemma live_reach_inv: "live_reach s \<Longrightarrow> live_inv s"
proof (induction rule: live_reach.induct)
  case start
  show ?case by (simp add: live_init_def live_inv_def)
next
  case (step s t)
  then show ?case by (blast intro: live_step_inv)
qed

section \<open>Properties\<close>


text \<open>
  A connection whose peer has gone before its address is read ends broadcasting for good: no client that
  is connected then or later gets another update.
\<close>

theorem bad_connection_stops_broadcast:
  assumes "rtranclp live_step (live_connect False s) t"
  shows "\<not> lv_running t \<and> lv_log t = lv_log s \<and> length (lv_conns t) = length (lv_conns s)"
  using assms
proof (induction rule: rtranclp_induct)
  case base
  show ?case by (simp add: live_connect_def)
next
  case (step t u)
  from step.hyps(2) step.IH show ?case by (auto elim!: live_stepE)
qed

definition sample_packet :: broadcast_packet where
  "sample_packet = \<lparr>bp_ts = sample_now, bp_update = BcActivation sample_train\<rparr>"


lemma bad_connection_stops_broadcast_witness:
  "\<not> lv_running (live_connect False live_init)"
  using bad_connection_stops_broadcast [OF rtranclp.rtrancl_refl [of live_step "live_connect False live_init"]] by simp

end
