(* ===== verification/Verknupfen.thy ===== *)
theory Verknupfen
  imports Zugfuhrer_Queries
begin

text \<open>
  \<open>tspl-verknupfen\<close>: it asks \<open>tspl-fahrplan\<close> for the schedule movements at a place and
  \<open>tspl-zugfuhrer\<close> for the train movements, drops the schedules that have become trains, and merges
  an original movement with its updates into one \<open>DeduplicatedMvt\<close>.

  The two services are a record of functions. \<open>assert_eq!\<close> and the \<open>unwrap\<close>s are the error
  \<open>VPanic\<close>; the properties show that it is not reached on answers of \<open>tspl-zugfuhrer\<close>.
\<close>

section \<open>Types\<close>

record time_with_source =
  tws_source :: int
  tws_time :: naive_time

datatype dedup_src = DSchedule int | DTrain int

record dedup_mvt =
  dm_src :: dedup_src
  dm_tiploc :: string
  dm_action :: u8
  dm_time :: time_with_source
  dm_actual :: bool
  dm_time_scheduled :: "time_with_source option"
  dm_canx :: bool
  dm_pfm_scheduled :: "string option"
  dm_pfm_actual :: "string option"
  dm_pfm_suppr :: bool

record ver_mqr =
  vq_mvts :: "dedup_mvt list"
  vq_schedules :: "(int \<times> schedule) list"
  vq_trains :: "(int \<times> train) list"

datatype ver_error =
  VInvalidPath
| VRemoteInvariantsViolated
| VRpc rpc_error
| VPanic

text \<open>A panic ends the process (the profiles abort on one); for the client that is a failed request.\<close>

fun ver_status_code :: "ver_error \<Rightarrow> nat" where
  "ver_status_code VInvalidPath = 400"
| "ver_status_code (VRpc r) = rpc_status_code r"
| "ver_status_code VRemoteInvariantsViolated = 502"
| "ver_status_code VPanic = 500"

interpretation ver_status: error_status ver_status_code
proof
  show "\<not> is_success (ver_status_code e)" for e
    using rpc_status.no_success by (cases e) (simp_all add: is_success_def)
qed

section \<open>Merging a movement with its updates\<close>

text \<open>The local variables of the loop body.\<close>

record dedup_vars =
  dv_time_scheduled :: "time_with_source option"
  dv_time :: "time_with_source option"
  dv_pfm_scheduled :: "string option"
  dv_pfm_actual :: "string option"
  dv_pfm_suppr :: bool
  dv_actual :: bool
  dv_tiploc :: "string option"
  dv_action :: "u8 option"

definition dedup_start :: dedup_vars where
  "dedup_start =
     \<lparr>dv_time_scheduled = None, dv_time = None, dv_pfm_scheduled = None, dv_pfm_actual = None,
      dv_pfm_suppr = False, dv_actual = False, dv_tiploc = None, dv_action = None\<rparr>"

definition time_of :: "train_mvt \<Rightarrow> time_with_source" where
  "time_of m = \<lparr>tws_source = tm_source m, tws_time = tm_time m\<rparr>"

definition dedup_step :: "train_mvt \<Rightarrow> dedup_vars \<Rightarrow> dedup_vars" where
  "dedup_step m v0 =
     (let v = v0\<lparr>dv_tiploc := Some (tm_tiploc m), dv_action := Some (tm_action m)\<rparr>;
          v1 = (if tm_source m = SOURCE_SCHED_ITPS
                then v\<lparr>dv_pfm_scheduled := tm_platform m, dv_time_scheduled := Some (time_of m)\<rparr>
                else if tm_source m = SOURCE_TRUST
                then v\<lparr>dv_actual := True, dv_time := Some (time_of m), dv_pfm_actual := tm_platform m\<rparr>
                else if tm_source m = SOURCE_DARWIN_LIVE
                then (let w = v\<lparr>dv_pfm_actual := opt_or (dv_pfm_actual v) (tm_platform m)\<rparr>
                      in if \<not> dv_actual v then w\<lparr>dv_time := Some (time_of m)\<rparr> else w)
                else v)
      in if tm_pfm_suppr m then v1\<lparr>dv_pfm_suppr := True\<rparr> else v1)"

definition dedup_train ::
    "(int \<times> train) list \<Rightarrow> int \<times> train_mvt list \<Rightarrow> ver_error + dedup_mvt" where
  "dedup_train trains entry =
     (case snd entry of
        [] \<Rightarrow> Inl VRemoteInvariantsViolated
      | first # _ \<Rightarrow>
          (let tid = tm_parent_train first
           in res_bind (ok_or VRemoteInvariantsViolated (map_of trains tid)) (\<lambda>train.
                let v = fold dedup_step (snd entry) dedup_start
                in res_bind
                     (case dv_time v of
                        None \<Rightarrow>
                          if dv_actual v then Inl VPanic
                          else res_map (\<lambda>t. (t, None)) (ok_or VPanic (dv_time_scheduled v))
                      | Some t \<Rightarrow> Inr (t, dv_time_scheduled v))
                     (\<lambda>(time, time_scheduled).
                        res_bind (ok_or VPanic (dv_tiploc v)) (\<lambda>tiploc.
                        res_map (\<lambda>action.
                          \<lparr>dm_src = DTrain tid, dm_tiploc = tiploc, dm_action = action,
                           dm_time = time, dm_actual = dv_actual v, dm_time_scheduled = time_scheduled,
                           dm_canx = tr_cancelled train, dm_pfm_scheduled = dv_pfm_scheduled v,
                           dm_pfm_actual = dv_pfm_actual v, dm_pfm_suppr = dv_pfm_suppr v\<rparr>)
                          (ok_or VPanic (dv_action v)))))))"

section \<open>Schedules\<close>

definition obsolete_keys :: "(int \<times> train) list \<Rightarrow> (string \<times> naive_date \<times> string \<times> int) list" where
  "obsolete_keys trains =
     map (\<lambda>(_, t). (tr_parent_uid t, tr_parent_start_date t, tr_parent_stp_indicator t, tr_parent_source t)) trains"

definition sched_key :: "schedule \<Rightarrow> string \<times> naive_date \<times> string \<times> int" where
  "sched_key s = (sch_uid s, sch_start_date s, sch_stp_indicator s, uint (sch_source s))"

definition dedup_schedule :: "int \<Rightarrow> schedule_mvt \<Rightarrow> dedup_mvt" where
  "dedup_schedule sid m =
     \<lparr>dm_src = DSchedule sid, dm_tiploc = smv_tiploc m, dm_action = smv_action m,
      dm_time = \<lparr>tws_source = SOURCE_SCHED_ITPS, tws_time = smv_time m\<rparr>, dm_actual = False,
      dm_time_scheduled = None, dm_canx = False, dm_pfm_scheduled = smv_platform m,
      dm_pfm_actual = None, dm_pfm_suppr = False\<rparr>"

text \<open>Both halves of \<open>get_mvts_passing_through\<close> after the two requests.\<close>

definition ver_merge :: "fahrplan_mqr \<Rightarrow> zug_mqr \<Rightarrow> ver_error + ver_mqr" where
  "ver_merge fahrplan zug =
     (let scheds = obsolete_keys (zq_trains zug);
          schedules = retain (\<lambda>_ s. sched_key s \<notin> set scheds) (fq_schedules fahrplan)
      in res_map
           (\<lambda>dmvts.
              \<lparr>vq_mvts = dmvts @
                 List.map_filter
                   (\<lambda>(sid, m). case map_of schedules sid of
                      Some _ \<Rightarrow> Some (dedup_schedule sid m)
                    | None \<Rightarrow> None)
                   (fq_mvts fahrplan),
               vq_schedules = schedules, vq_trains = zq_trains zug\<rparr>)
           (res_mapM (dedup_train (zq_trains zug)) (zq_mvts zug)))"

section \<open>The request\<close>

text \<open>
  The moment is written into the URL in whole seconds; a leap second is written as second 60. The duration is
  written in whole seconds and read as a \<open>u32\<close>, which it is.
\<close>

fun whole_secs :: "naive_datetime \<Rightarrow> naive_datetime" where
  "whole_secs (NaiveDateTime d (NaiveTime s f)) =
     NaiveDateTime d (NaiveTime s (if f < 10 ^ 9 then 0 else 10 ^ 9))"

record ver_services =
  vs_fahrplan :: "string \<Rightarrow> naive_datetime \<Rightarrow> u32 \<Rightarrow> rpc_error + fahrplan_mqr"
  vs_zugfuhrer :: "string \<Rightarrow> naive_datetime \<Rightarrow> u32 \<Rightarrow> rpc_error + zug_mqr"

definition ver_get_mvts_passing_through ::
    "ver_services \<Rightarrow> string \<Rightarrow> naive_datetime \<Rightarrow> u32 \<Rightarrow> ver_error + ver_mqr" where
  "ver_get_mvts_passing_through V tpl ts within_dur =
     res_bind (map_err VRpc (vs_fahrplan V tpl (whole_secs ts) within_dur)) (\<lambda>fahrplan.
     res_bind (map_err VRpc (vs_zugfuhrer V tpl (whole_secs ts) within_dur)) (\<lambda>zug.
     ver_merge fahrplan zug))"

datatype ver_request = VRoot | VMvtsThrough string naive_datetime u32 | VOther

fun ver_on_request :: "string \<Rightarrow> ver_services \<Rightarrow> ver_request \<Rightarrow> ver_error + ver_mqr response" where
  "ver_on_request ua V VRoot = Inr (text_response ua)"
| "ver_on_request ua V (VMvtsThrough tiploc ts dur) =
     res_map json_response (ver_get_mvts_passing_through V tiploc ts dur)"
| "ver_on_request ua V VOther = Inl VInvalidPath"

section \<open>What merging gives\<close>

text \<open>
  A vector as \<open>tspl-zugfuhrer\<close> promises it: an original movement, then updates that TRUST or Darwin
  sent for it, at the same place.
\<close>

definition vector_ok :: "train_mvt list \<Rightarrow> bool" where
  "vector_ok ms \<longleftrightarrow>
     (\<exists>m us. ms = m # us \<and> tm_source m = SOURCE_SCHED_ITPS \<and>
        (\<forall>u\<in>set us. (tm_source u = SOURCE_TRUST \<or> tm_source u = SOURCE_DARWIN_LIVE) \<and> tm_tiploc u = tm_tiploc m))"

definition times_from :: "int \<Rightarrow> train_mvt list \<Rightarrow> time_with_source list" where
  "times_from src us = map time_of (filter (\<lambda>u. tm_source u = src) us)"

text \<open>The loop over the updates: what is actual comes from TRUST, and TRUST takes precedence over Darwin.\<close>

definition merged :: "dedup_vars \<Rightarrow> train_mvt list \<Rightarrow> dedup_vars \<Rightarrow> bool" where
  "merged v us w \<longleftrightarrow>
     dv_time_scheduled w = dv_time_scheduled v \<and> dv_pfm_scheduled w = dv_pfm_scheduled v \<and>
     dv_actual w = (dv_actual v \<or> times_from SOURCE_TRUST us \<noteq> []) \<and>
     (dv_pfm_suppr w \<longleftrightarrow> dv_pfm_suppr v \<or> (\<exists>u\<in>set us. tm_pfm_suppr u)) \<and>
     dv_time w = (if times_from SOURCE_TRUST us \<noteq> [] then Some (last (times_from SOURCE_TRUST us))
                  else if dv_actual v then dv_time v
                  else if times_from SOURCE_DARWIN_LIVE us \<noteq> []
                  then Some (last (times_from SOURCE_DARWIN_LIVE us)) else dv_time v) \<and>
     dv_tiploc w = (if us = [] then dv_tiploc v else Some (tm_tiploc (last us))) \<and>
     dv_action w = (if us = [] then dv_action v else Some (tm_action (last us)))"

lemma times_from_snoc:
  "times_from src (us @ [u]) = times_from src us @ (if tm_source u = src then [time_of u] else [])"
  by (simp add: times_from_def)

lemma merged_step:
  assumes "merged v us w" "tm_source u = SOURCE_TRUST \<or> tm_source u = SOURCE_DARWIN_LIVE"
  shows "merged v (us @ [u]) (dedup_step u w)"
  using assms(2)
proof
  assume "tm_source u = SOURCE_TRUST"
  with assms(1) show ?thesis
    by (simp add: merged_def dedup_step_def times_from_snoc source_defs Let_def)
next
  assume "tm_source u = SOURCE_DARWIN_LIVE"
  with assms(1) show ?thesis
    by (simp add: merged_def dedup_step_def times_from_snoc source_defs Let_def split: if_split)
qed

lemma merged_updates:
  assumes "\<forall>u\<in>set us. tm_source u = SOURCE_TRUST \<or> tm_source u = SOURCE_DARWIN_LIVE"
  shows "merged v us (fold dedup_step us v)"
  using assms
proof (induction us rule: rev_induct)
  case Nil
  then show ?case by (simp add: merged_def times_from_def)
next
  case (snoc u us)
  then show ?case by (simp add: merged_step)
qed

text \<open>What is shown for a vector \<open>m # us\<close> of train \<open>t\<close>.\<close>

definition merged_mvt :: "train \<Rightarrow> train_mvt \<Rightarrow> train_mvt list \<Rightarrow> dedup_mvt \<Rightarrow> bool" where
  "merged_mvt t m us d \<longleftrightarrow>
     dm_src d = DTrain (tr_id t) \<and> dm_tiploc d = tm_tiploc m \<and> dm_canx d = tr_cancelled t \<and>
     dm_pfm_scheduled d = tm_platform m \<and>
     (dm_actual d \<longleftrightarrow> (\<exists>u\<in>set us. tm_source u = SOURCE_TRUST)) \<and>
     (dm_pfm_suppr d \<longleftrightarrow> (\<exists>u\<in>set (m # us). tm_pfm_suppr u)) \<and>
     (if us = [] then dm_time d = time_of m \<and> dm_time_scheduled d = None
      else dm_time_scheduled d = Some (time_of m) \<and>
        (\<exists>u\<in>set us. dm_time d = time_of u \<and> (dm_actual d \<longrightarrow> tm_source u = SOURCE_TRUST)))"

lemma last_times_from:
  "times_from src us \<noteq> [] \<Longrightarrow> \<exists>u\<in>set us. last (times_from src us) = time_of u \<and> tm_source u = src"
proof -
  assume "times_from src us \<noteq> []"
  then have "last (times_from src us) \<in> set (times_from src us)" by (rule last_in_set)
  then show ?thesis by (auto simp: times_from_def)
qed

lemma times_from_empty: "times_from src us \<noteq> [] \<longleftrightarrow> (\<exists>u\<in>set us. tm_source u = src)"
  by (auto simp: times_from_def filter_empty_conv)

lemma dedup_train_vector:
  assumes "vector_ok (m # us)" "map_of trains (tm_parent_train m) = Some t" "tr_id t = tm_parent_train m"
  shows "\<exists>d. dedup_train trains (i, m # us) = Inr d \<and> merged_mvt t m us d"
proof -
  have m: "tm_source m = SOURCE_SCHED_ITPS"
    and us: "\<forall>u\<in>set us. tm_source u = SOURCE_TRUST \<or> tm_source u = SOURCE_DARWIN_LIVE"
    and tpl: "\<forall>u\<in>set us. tm_tiploc u = tm_tiploc m"
    using assms(1) by (auto simp: vector_ok_def)
  define v where "v = dedup_step m dedup_start"
  have v: "dv_time_scheduled v = Some (time_of m)" "dv_time v = None" "dv_pfm_scheduled v = tm_platform m"
    "\<not> dv_actual v" "dv_pfm_suppr v = tm_pfm_suppr m" "dv_tiploc v = Some (tm_tiploc m)" "dv_action v = Some (tm_action m)"
    by (simp_all add: v_def dedup_step_def dedup_start_def m source_defs Let_def)
  define w where "w = fold dedup_step us v"
  have w: "merged v us w" unfolding w_def using us by (rule merged_updates)
  have tl: "dv_tiploc w = Some (tm_tiploc m)" using w tpl v(6) by (simp add: merged_def)
  have "dv_action w \<noteq> None" using w v(7) by (simp add: merged_def)
  then obtain a where ac: "dv_action w = Some a" by blast
  have fold_eq: "fold dedup_step (m # us) dedup_start = w" by (simp add: w_def v_def)
  show ?thesis
  proof (cases "us = []")
    case True
    with w v have "dv_time w = None" "\<not> dv_actual w" "dv_time_scheduled w = Some (time_of m)"
      "dv_pfm_scheduled w = tm_platform m" "dv_pfm_suppr w = tm_pfm_suppr m"
      by (simp_all add: merged_def times_from_def)
    then show ?thesis
      using True assms(2,3) tl ac fold_eq
      by (simp add: dedup_train_def merged_mvt_def)
  next
    case False
    then obtain u where "u \<in> set us" by (cases us) auto
    with us have some: "times_from SOURCE_TRUST us \<noteq> [] \<or> times_from SOURCE_DARWIN_LIVE us \<noteq> []"
      unfolding times_from_empty by blast
    have act: "dv_actual w \<longleftrightarrow> (\<exists>u\<in>set us. tm_source u = SOURCE_TRUST)"
      using w v(4) by (simp add: merged_def times_from_empty)
    obtain x u where x: "dv_time w = Some x" "u \<in> set us" "x = time_of u" "dv_actual w \<longrightarrow> tm_source u = SOURCE_TRUST"
      using w v(4) some last_times_from [of SOURCE_TRUST us] last_times_from [of SOURCE_DARWIN_LIVE us]
      by (cases "times_from SOURCE_TRUST us = []") (auto simp: merged_def)
    have "dv_time_scheduled w = Some (time_of m)" "dv_pfm_scheduled w = tm_platform m"
      "dv_pfm_suppr w \<longleftrightarrow> (\<exists>u\<in>set (m # us). tm_pfm_suppr u)"
      using w v by (simp_all add: merged_def)
    then show ?thesis
      using assms(2,3) tl ac fold_eq x act False
      by (simp add: dedup_train_def merged_mvt_def) blast
  qed
qed

section \<open>The contract of \<open>tspl-zugfuhrer\<close>\<close>

text \<open>
  What the answers of a train service in the states \<open>ok\<close> promise: every vector is an original movement
  with its updates, and its train is in the answer.
\<close>

locale movement_server =
  fixes ok :: "'s \<Rightarrow> bool"
    and answer :: "'s \<Rightarrow> string \<Rightarrow> naive_datetime \<Rightarrow> int \<Rightarrow> zug_mqr"
  assumes vectors: "ok s \<Longrightarrow> (i, l) \<in> set (zq_mvts (answer s tpl ts dur)) \<Longrightarrow> vector_ok l"
    and parents: "ok s \<Longrightarrow> (i, l) \<in> set (zq_mvts (answer s tpl ts dur)) \<Longrightarrow>
      \<exists>t. map_of (zq_trains (answer s tpl ts dur)) (tm_parent_train (hd l)) = Some t \<and>
        tr_id t = tm_parent_train (hd l)"
begin

lemma entry_merged:
  assumes "ok s" "(i, l) \<in> set (zq_mvts (answer s tpl ts dur))"
  shows "\<exists>d t. dedup_train (zq_trains (answer s tpl ts dur)) (i, l) = Inr d \<and>
    map_of (zq_trains (answer s tpl ts dur)) (tm_parent_train (hd l)) = Some t \<and> merged_mvt t (hd l) (tl l) d"
proof -
  obtain m us where l: "l = m # us" using vectors [OF assms] by (auto simp: vector_ok_def)
  with dedup_train_vector [OF vectors [OF assms, unfolded l]] parents [OF assms] show ?thesis by auto
qed

lemma all_merged:
  assumes "ok s" "set es \<subseteq> set (zq_mvts (answer s tpl ts dur))"
  shows "\<exists>ds. res_mapM (dedup_train (zq_trains (answer s tpl ts dur))) es = Inr ds \<and>
    list_all2 (\<lambda>(i, l) d. \<exists>t. map_of (zq_trains (answer s tpl ts dur)) (tm_parent_train (hd l)) = Some t \<and>
      merged_mvt t (hd l) (tl l) d) es ds"
  using assms(2)
proof (induction es)
  case Nil
  then show ?case by simp
next
  case (Cons e es)
  obtain i l where e: "e = (i, l)" by (cases e)
  with Cons.prems have "(i, l) \<in> set (zq_mvts (answer s tpl ts dur))" by simp
  from entry_merged [OF assms(1) this] Cons show ?case by (auto simp: e)
qed

lemma merge_succeeds:
  assumes "ok s"
  shows "\<exists>q ds. ver_merge fq (answer s tpl ts dur) = Inr q \<and>
    vq_trains q = zq_trains (answer s tpl ts dur) \<and>
    vq_schedules q = retain (\<lambda>_ x. sched_key x \<notin> set (obsolete_keys (zq_trains (answer s tpl ts dur)))) (fq_schedules fq) \<and>
    vq_mvts q = ds @ List.map_filter (\<lambda>(sid, m). case map_of (vq_schedules q) sid of
        Some _ \<Rightarrow> Some (dedup_schedule sid m) | None \<Rightarrow> None) (fq_mvts fq) \<and>
    list_all2 (\<lambda>(i, l) d. \<exists>t. map_of (vq_trains q) (tm_parent_train (hd l)) = Some t \<and>
      merged_mvt t (hd l) (tl l) d) (zq_mvts (answer s tpl ts dur)) ds"
proof -
  obtain ds where "res_mapM (dedup_train (zq_trains (answer s tpl ts dur))) (zq_mvts (answer s tpl ts dur)) = Inr ds"
    "list_all2 (\<lambda>(i, l) d. \<exists>t. map_of (zq_trains (answer s tpl ts dur)) (tm_parent_train (hd l)) = Some t \<and>
      merged_mvt t (hd l) (tl l) d) (zq_mvts (answer s tpl ts dur)) ds"
    using all_merged [OF assms order_refl] by blast
  then show ?thesis by (simp add: ver_merge_def Let_def)
qed

end

section \<open>\<open>tspl-zugfuhrer\<close> keeps the contract\<close>

lemma distinct_group: "distinct (map fst (group_rows f rows))"
proof -
  have "distinct (map fst (fold (\<lambda>r. case f r of (i, m, u) \<Rightarrow> extend_entry i m u) rows acc))"
    if "distinct (map fst acc)" for acc
    using that
    by (induction rows arbitrary: acc)
       (auto simp: extend_entry_def distinct_fst_update split: option.split prod.split)
  then show ?thesis by (simp add: group_rows_def)
qed

lemma passing_vector:
  assumes inv: "zdb_inv db" and q: "q = zug_get_mvts_passing_through C db tpl ts dur"
    and l: "(i, l) \<in> set (zq_mvts q)"
  shows "\<exists>m us t. l = m # us \<and> m \<in> set (zdb_mvts db) \<and> tm_updates m = None \<and> tm_id m = i \<and>
    mset us = mset (updates_of db m) \<and> map_of (zq_trains q) (tm_parent_train m) = Some t \<and> tr_id t = tm_parent_train m"
proof -
  obtain st en where win: "calculate_non_midnight_aware_times C ts dur = (st, en)" by fastforce
  let ?rows = "zug_mvt_rows db tpl st en (dt_date ts)"
  have map: "map_of (group_rows (\<lambda>(m, t, u). (tm_id m, m, u)) ?rows) i = Some l"
    by (rule map_of_is_SomeI [OF distinct_group]) (use l in \<open>simp add: q passing_answer [OF win]\<close>)
  from group_some [OF this] obtain m t u where "(m, t, u) \<in> set ?rows" and i: "tm_id m = i" by auto
  then have m: "m \<in> set (zdb_mvts db)" "tm_in_window tpl st en m"
    and t: "t \<in> set (zdb_trains db)" "tr_id t = tm_parent_train m" "tr_date t = dt_date ts"
    unfolding zug_mvt_rows_set by blast+
  obtain us where "l = m # us" "mset us = mset (updates_of db m)"
    using passing_entry [OF inv m t] map by (auto simp: i)
  moreover have "map_of (zq_trains q) (tm_parent_train m) = Some t"
    unfolding q passing_trains_exact [OF inv win] using m t by auto
  moreover have "tm_updates m = None" using m(2) by (simp add: tm_in_window_def)
  ultimately show ?thesis using m(1) t(2) i by blast
qed

lemma updates_of_ok:
  assumes inv: "zdb_inv db" and m: "m \<in> set (zdb_mvts db)" and u: "u \<in> set (updates_of db m)"
  shows "(tm_source u = SOURCE_TRUST \<or> tm_source u = SOURCE_DARWIN_LIVE) \<and> tm_tiploc u = tm_tiploc m"
proof -
  have u': "u \<in> set (zdb_mvts db)" "tm_updates u = Some (tm_id m)" using u by (simp_all add: updates_of_def)
  then obtain x where "x \<in> set (zdb_mvts db)" "tm_id x = tm_id m" "tm_tiploc x = tm_tiploc u"
    and src: "tm_source u \<in> {SOURCE_TRUST, SOURCE_DARWIN_LIVE}"
    using zdb_invD(10) [OF inv u'(1)] by (auto simp: mvt_ok_def)
  moreover from this have "x = m" by (blast intro: mvt_by_id [OF inv _ m])
  ultimately show ?thesis by auto
qed

interpretation zug: movement_server zug_reach "\<lambda>s. zug_get_mvts_passing_through C (zs_db s)" for C
proof
  fix s :: zug_state and i l tpl ts dur
  let ?q = "zug_get_mvts_passing_through C (zs_db s) tpl ts dur"
  assume reach: "zug_reach s" and l: "(i, l) \<in> set (zq_mvts ?q)"
  note inv = zug_reach_inv [OF reach]
  obtain m us t where *: "l = m # us" "m \<in> set (zdb_mvts (zs_db s))" "tm_updates m = None"
    "mset us = mset (updates_of (zs_db s) m)" "map_of (zq_trains ?q) (tm_parent_train m) = Some t"
    "tr_id t = tm_parent_train m"
    using passing_vector [OF inv refl l] by blast
  then show "\<exists>t. map_of (zq_trains ?q) (tm_parent_train (hd l)) = Some t \<and> tr_id t = tm_parent_train (hd l)"
    by simp
  have "tm_source m = SOURCE_SCHED_ITPS"
    using zdb_invD(10) [OF inv *(2)] *(3) by (simp add: mvt_ok_def)
  moreover have "set us = set (updates_of (zs_db s) m)" using *(4) by (rule mset_eq_setD)
  ultimately show "vector_ok l"
    using updates_of_ok [OF inv *(2)] by (auto simp: vector_ok_def *(1))
qed

section \<open>The three services together\<close>

text \<open>\<open>tspl-verknupfen\<close> in front of the models of \<open>tspl-fahrplan\<close> and \<open>tspl-zugfuhrer\<close>.\<close>

definition services :: "chrono \<Rightarrow> fahrplan_db \<Rightarrow> zug_state \<Rightarrow> ver_services" where
  "services C fdb s =
     \<lparr>vs_fahrplan = \<lambda>tpl ts dur. rpc_call (\<lambda>_. '''') ''fahrplan'' fahrplan_status_code (\<lambda>_. '''')
        (get_mvts_passing_through C fdb tpl ts (uint dur)),
      vs_zugfuhrer = \<lambda>tpl ts dur. rpc_call (\<lambda>_. '''') ''zugfuhrer'' zug_status_code (\<lambda>_. '''')
        (Inr (zug_get_mvts_passing_through C (zs_db s) tpl ts (uint dur)))\<rparr>"

lemma ver_unfold:
  assumes "zug_reach s" "get_mvts_passing_through C fdb tpl (whole_secs ts) (uint dur) = Inr fq"
    and "zq = zug_get_mvts_passing_through C (zs_db s) tpl (whole_secs ts) (uint dur)"
  shows "\<exists>q ds. ver_get_mvts_passing_through (services C fdb s) tpl ts dur = Inr q \<and>
    vq_trains q = zq_trains zq \<and>
    vq_schedules q = retain (\<lambda>_ x. sched_key x \<notin> set (obsolete_keys (zq_trains zq))) (fq_schedules fq) \<and>
    vq_mvts q = ds @ List.map_filter (\<lambda>(sid, m). case map_of (vq_schedules q) sid of
        Some _ \<Rightarrow> Some (dedup_schedule sid m) | None \<Rightarrow> None) (fq_mvts fq) \<and>
    list_all2 (\<lambda>(i, l) d. \<exists>t. map_of (vq_trains q) (tm_parent_train (hd l)) = Some t \<and>
      merged_mvt t (hd l) (tl l) d) (zq_mvts zq) ds"
  using zug.merge_succeeds [OF assms(1), of fq C tpl "whole_secs ts" "uint dur"]
  by (simp add: ver_get_mvts_passing_through_def services_def assms(2,3) zug_status.call_Inr)

lemma list_all2_partner:
  assumes "list_all2 R xs ys"
  shows "x \<in> set xs \<Longrightarrow> \<exists>y\<in>set ys. R x y" "y \<in> set ys \<Longrightarrow> \<exists>x\<in>set xs. R x y"
  using assms by (induction rule: list_all2_induct) auto

lemma ver_Inr:
  assumes "zug_reach s" "ver_get_mvts_passing_through (services C fdb s) tpl ts dur = Inr q"
    and "zq = zug_get_mvts_passing_through C (zs_db s) tpl (whole_secs ts) (uint dur)"
  obtains fq ds where "get_mvts_passing_through C fdb tpl (whole_secs ts) (uint dur) = Inr fq"
    "vq_trains q = zq_trains zq"
    "vq_schedules q = retain (\<lambda>_ x. sched_key x \<notin> set (obsolete_keys (zq_trains zq))) (fq_schedules fq)"
    "vq_mvts q = ds @ List.map_filter (\<lambda>(sid, m). case map_of (vq_schedules q) sid of
        Some _ \<Rightarrow> Some (dedup_schedule sid m) | None \<Rightarrow> None) (fq_mvts fq)"
    "\<And>i l. (i, l) \<in> set (zq_mvts zq) \<Longrightarrow> \<exists>d\<in>set ds. \<exists>t. map_of (zq_trains zq) (tm_parent_train (hd l)) = Some t \<and>
      merged_mvt t (hd l) (tl l) d"
    "\<And>d. d \<in> set ds \<Longrightarrow> \<exists>i l t. (i, l) \<in> set (zq_mvts zq) \<and> map_of (zq_trains zq) (tm_parent_train (hd l)) = Some t \<and>
      merged_mvt t (hd l) (tl l) d"
proof -
  obtain fq where fq: "get_mvts_passing_through C fdb tpl (whole_secs ts) (uint dur) = Inr fq"
    using assms(2)
    by (cases "get_mvts_passing_through C fdb tpl (whole_secs ts) (uint dur)")
       (simp_all add: ver_get_mvts_passing_through_def services_def fahrplan_status.call_Inl)
  from ver_unfold [OF assms(1) fq assms(3)] assms(2) obtain ds where
    q: "vq_trains q = zq_trains zq"
    "vq_schedules q = retain (\<lambda>_ x. sched_key x \<notin> set (obsolete_keys (zq_trains zq))) (fq_schedules fq)"
    "vq_mvts q = ds @ List.map_filter (\<lambda>(sid, m). case map_of (vq_schedules q) sid of
        Some _ \<Rightarrow> Some (dedup_schedule sid m) | None \<Rightarrow> None) (fq_mvts fq)"
    and all: "list_all2 (\<lambda>(i, l) d. \<exists>t. map_of (zq_trains zq) (tm_parent_train (hd l)) = Some t \<and>
      merged_mvt t (hd l) (tl l) d) (zq_mvts zq) ds"
    by auto
  show thesis
  proof (rule that [OF fq q])
    show "\<exists>d\<in>set ds. \<exists>t. map_of (zq_trains zq) (tm_parent_train (hd l)) = Some t \<and> merged_mvt t (hd l) (tl l) d"
      if "(i, l) \<in> set (zq_mvts zq)" for i l
      using list_all2_partner(1) [OF all that] by auto
    show "\<exists>i l t. (i, l) \<in> set (zq_mvts zq) \<and> map_of (zq_trains zq) (tm_parent_train (hd l)) = Some t \<and>
      merged_mvt t (hd l) (tl l) d" if "d \<in> set ds" for d
      using list_all2_partner(2) [OF all that] by auto
  qed
qed

lemma dedup_train_shown:
  assumes "zug_reach s" "ver_get_mvts_passing_through (services C fdb s) tpl ts dur = Inr q"
    and "calculate_non_midnight_aware_times C (whole_secs ts) (uint dur) = (st, en)"
    and *: "m \<in> set (zdb_mvts (zs_db s))" "tm_in_window tpl st en m" "t \<in> set (zdb_trains (zs_db s))"
      "tr_id t = tm_parent_train m" "tr_date t = dt_date (whole_secs ts)"
  shows "\<exists>d\<in>set (vq_mvts q). \<exists>us. merged_mvt t m us d \<and> mset us = mset (updates_of (zs_db s) m)"
proof -
  note inv = zug_reach_inv [OF assms(1)]
  let ?zq = "zug_get_mvts_passing_through C (zs_db s) tpl (whole_secs ts) (uint dur)"
  obtain us where us: "map_of (zq_mvts ?zq) (tm_id m) = Some (m # us)" "mset us = mset (updates_of (zs_db s) m)"
    using passing_entry [OF inv *] by (auto simp: passing_answer [OF assms(3)])
  have t: "map_of (zq_trains ?zq) (tm_parent_train m) = Some t"
    unfolding passing_trains_exact [OF inv assms(3)] using * by auto
  show ?thesis
  proof (rule ver_Inr [OF assms(1,2) refl], goal_cases)
    case (1 fq ds)
    from t 1(5) [OF map_of_SomeD [OF us(1)]] obtain d where "d \<in> set ds" "merged_mvt t m us d" by auto
    with us(2) 1(4) show ?case by auto
  qed
qed

section \<open>Properties\<close>

text \<open>
  C35. In front of the other two services \<open>tspl-verknupfen\<close> never panics and never reports that invariants of
  the others are violated: a query of it fails exactly when the query of \<open>tspl-fahrplan\<close> does.
\<close>

theorem verknupfen_never_panics:
  assumes "zug_reach s"
  shows "case ver_get_mvts_passing_through (services C fdb s) tpl ts dur of
      Inl e \<Rightarrow> (\<exists>r. e = VRpc r) \<and> (\<exists>x. get_mvts_passing_through C fdb tpl (whole_secs ts) (uint dur) = Inl x)
    | Inr q \<Rightarrow> \<exists>fq. get_mvts_passing_through C fdb tpl (whole_secs ts) (uint dur) = Inr fq"
proof (cases "get_mvts_passing_through C fdb tpl (whole_secs ts) (uint dur)")
  case (Inl x)
  then show ?thesis
    by (simp add: ver_get_mvts_passing_through_def services_def fahrplan_status.call_Inl)
next
  case (Inr fq)
  with ver_unfold [OF assms Inr refl] show ?thesis by auto
qed


text \<open>
  A schedule that was activated as a train of that day that runs through the place in the window
  is not in the answer: its information comes from the train only.
\<close>

theorem activated_schedule_suppressed:
  assumes "zug_reach s" "ver_get_mvts_passing_through (services C fdb s) tpl ts dur = Inr q"
    and "calculate_non_midnight_aware_times C (whole_secs ts) (uint dur) = (st, en)"
    and "m \<in> set (zdb_mvts (zs_db s))" "tm_in_window tpl st en m"
    and "t \<in> set (zdb_trains (zs_db s))" "tr_id t = tm_parent_train m" "tr_date t = dt_date (whole_secs ts)"
    and "sched_key sch = (tr_parent_uid t, tr_parent_start_date t, tr_parent_stp_indicator t, tr_parent_source t)"
  shows "map_of (vq_trains q) (tr_id t) = Some t \<and> (\<forall>i. map_of (vq_schedules q) i \<noteq> Some sch)"
proof -
  note inv = zug_reach_inv [OF assms(1)]
  let ?zq = "zug_get_mvts_passing_through C (zs_db s) tpl (whole_secs ts) (uint dur)"
  have t: "map_of (zq_trains ?zq) (tr_id t) = Some t"
    unfolding passing_trains_exact [OF inv assms(3)] using assms(4-8) by auto
  then have key: "sched_key sch \<in> set (obsolete_keys (zq_trains ?zq))"
    using map_of_SomeD [OF t] by (force simp: obsolete_keys_def assms(9))
  show ?thesis
  proof (rule ver_Inr [OF assms(1,2) refl], goal_cases)
    case (1 fq ds)
    have "map_of (vq_schedules q) i \<noteq> Some sch" for i
      using key unfolding 1(3) by (auto dest: map_of_SomeD)
    with t 1(2) show ?case by auto
  qed
qed

text \<open>
  A movement of a schedule that was not activated is shown under its own id, if a schedule in the answer
  happens to have the \<^emph>\<open>movement's\<close> id: \<open>fahrplan.schedules.get(&sid)\<close> is looked up by the key of the
  map of movements, which is the id of the movement and not of its schedule.
\<close>

theorem schedule_movements_by_movement_id:
  assumes "zug_reach s" "ver_get_mvts_passing_through (services C fdb s) tpl ts dur = Inr q"
    and "get_mvts_passing_through C fdb tpl (whole_secs ts) (uint dur) = Inr fq"
  shows "(\<exists>d\<in>set (vq_mvts q). dm_src d = DSchedule i) \<longleftrightarrow>
    i \<in> fst ` set (fq_mvts fq) \<and> map_of (vq_schedules q) i \<noteq> None"
proof (rule ver_Inr [OF assms(1,2) refl], goal_cases)
  case (1 fq' ds)
  have "\<exists>t. dm_src d = DTrain t" if "d \<in> set ds" for d
    using 1(6) [OF that] by (auto simp: merged_mvt_def)
  moreover have "fq' = fq" using 1(1) assms(3) by simp
  ultimately show ?case
    by (force simp: 1(4) map_filter_def dedup_schedule_def split: option.splits if_splits)
qed

section \<open>Concrete queries\<close>

lemma sample_whole_secs: "whole_secs sample_now = sample_now" "uint (3600 :: u32) = 3600"
  by (simp_all add: sample_now_def)

lemma sample_fahrplan: "\<exists>fq. get_mvts_passing_through chrono_civil fdb tpl (whole_secs sample_now) (uint (3600 :: u32)) = Inr fq"
  unfolding sample_whole_secs
  by (simp add: get_mvts_passing_through_def sample_query_window)
     (simp add: sample_now_def sample_day Let_def)

lemma sample_ver:
  "zug_reach s \<Longrightarrow> \<exists>q. ver_get_mvts_passing_through (services chrono_civil fdb s) tpl sample_now 3600 = Inr q"
  using sample_fahrplan [of fdb tpl] ver_unfold by blast

lemma verknupfen_never_panics_witness:
  "ver_get_mvts_passing_through (services chrono_civil (sample_db [''P'']) sample_state) ''EUSTON'' sample_now 3600
     \<noteq> Inl VPanic"
  using verknupfen_never_panics [OF sample_reach, of chrono_civil "sample_db [''P'']" "''EUSTON''" sample_now 3600]
  by auto

lemma sample_in_zug_window:
  "calculate_non_midnight_aware_times chrono_civil (whole_secs sample_now) (uint (3600 :: u32)) =
     (NaiveTime 32400 0, NaiveTime 39600 0)"
  unfolding sample_whole_secs by (rule sample_query_window)

lemma sample_state_mvt:
  "sample_tmvt\<lparr>tm_id := 1, tm_parent_train := 1\<rparr> \<in> set (zdb_mvts (zs_db sample_state))"
  "sample_train \<in> set (zdb_trains (zs_db sample_state))"
  "tm_in_window ''EUSTON'' (NaiveTime 32400 0) (NaiveTime 39600 0) (sample_tmvt\<lparr>tm_id := 1, tm_parent_train := 1\<rparr>)"
  "tr_id sample_train = tm_parent_train (sample_tmvt\<lparr>tm_id := 1, tm_parent_train := 1\<rparr>)"
  "tr_date sample_train = dt_date (whole_secs sample_now)"
  by (simp_all add: sample_state_def sample_activated_def tm_in_window_def sample_tmvt_def sample_mvt_def
      from_itps_def chrono_orders sample_train_def sample_now_def)

lemma sample_dedup:
  fixes fdb :: fahrplan_db
  obtains q d where "ver_get_mvts_passing_through (services chrono_civil fdb sample_state) ''EUSTON'' sample_now 3600 = Inr q"
    "d \<in> set (vq_mvts q)" "dm_src d = DTrain 1" "dm_tiploc d = ''EUSTON''" "map_of (vq_trains q) 1 = Some sample_train"
proof -
  obtain q where q: "ver_get_mvts_passing_through (services chrono_civil fdb sample_state) ''EUSTON'' sample_now 3600 = Inr q"
    using sample_ver [OF sample_reach] by blast
  obtain d us where "d \<in> set (vq_mvts q)" "merged_mvt sample_train (sample_tmvt\<lparr>tm_id := 1, tm_parent_train := 1\<rparr>) us d"
    using dedup_train_shown [OF sample_reach q sample_in_zug_window sample_state_mvt(1,3,2,4,5)] by blast
  then have d: "d \<in> set (vq_mvts q)" "dm_src d = DTrain 1" "dm_tiploc d = ''EUSTON''"
    by (simp_all add: merged_mvt_def) (simp_all add: sample_train_def sample_tmvt_def from_itps_def sample_mvt_def)
  have "map_of (zq_trains (zug_get_mvts_passing_through chrono_civil (zs_db sample_state) ''EUSTON'' (whole_secs sample_now)
      (uint (3600 :: u32)))) 1 = Some sample_train"
    unfolding passing_trains_exact [OF zug_reach_inv [OF sample_reach] sample_in_zug_window]
    using sample_state_mvt by (auto simp: sample_train_def)
  moreover have "vq_trains q = zq_trains (zug_get_mvts_passing_through chrono_civil (zs_db sample_state) ''EUSTON''
      (whole_secs sample_now) (uint (3600 :: u32)))"
    by (rule ver_Inr [OF sample_reach q refl])
  ultimately have "map_of (vq_trains q) 1 = Some sample_train" by simp
  with q d that show thesis by blast
qed


lemma activated_schedule_suppressed_witness:
  "\<exists>q. ver_get_mvts_passing_through (services chrono_civil (sample_db [''P'']) sample_state) ''EUSTON'' sample_now 3600 = Inr q \<and>
     map_of (vq_schedules q) 1 \<noteq> Some (sample_schedule 1 ''P'')"
proof -
  obtain q where q: "ver_get_mvts_passing_through (services chrono_civil (sample_db [''P'']) sample_state) ''EUSTON'' sample_now 3600 = Inr q"
    using sample_ver [OF sample_reach] by blast
  have "sched_key (sample_schedule 1 ''P'') = (tr_parent_uid sample_train, tr_parent_start_date sample_train,
      tr_parent_stp_indicator sample_train, tr_parent_source sample_train)"
    by (simp add: sched_key_def sample_schedule_def sample_train_def SOURCE_ITPS_def)
  from activated_schedule_suppressed [OF sample_reach q sample_in_zug_window sample_state_mvt(1,3,2,4,5) this] q
  show ?thesis by blast
qed

text \<open>An overlay replaces a schedule: the overlay is in the answer, its movement at Euston is not.\<close>

lemma overlay_rows:
  "fahrplan_mvt_rows (sample_db [''P'', ''O'']) ''EUSTON'' (NaiveTime 32400 0) (NaiveTime 39600 0)
     (NaiveDate 737430) MONDAY =
   [(m, s, Some s2). (m, s) \<leftarrow> [(sample_mvt 1 1 ''EUSTON'' ACTION_DEPARTURE 36000, sample_schedule 1 ''P''),
                               (sample_mvt 3 2 ''EUSTON'' ACTION_DEPARTURE 36300, sample_schedule 2 ''O'')],
                    s2 \<leftarrow> [sample_schedule 1 ''P'', sample_schedule 2 ''O'']]"
proof -
  have "\<not> in_window ''EUSTON'' (NaiveTime 32400 0) (NaiveTime 39600 0) (sample_mvt 2 1 ''WATFDJ'' ACTION_PASS 37000)"
    "in_window ''EUSTON'' (NaiveTime 32400 0) (NaiveTime 39600 0) (sample_mvt 1 1 ''EUSTON'' ACTION_DEPARTURE 36000)"
    "in_window ''EUSTON'' (NaiveTime 32400 0) (NaiveTime 39600 0) (sample_mvt 3 2 ''EUSTON'' ACTION_DEPARTURE 36300)"
    by (simp_all add: in_window_def sample_mvt_def chrono_orders)
  moreover have "sch_id (sample_schedule i x) = i" "sch_uid (sample_schedule i x) = ''C12345''"
    "smv_parent_sched (sample_mvt i j t a n) = j" for i j x t a n
    by (simp_all add: sample_schedule_def sample_mvt_def)
  ultimately show ?thesis
    by (simp add: fahrplan_mvt_rows_def sample_db_def sample_valid outer_join_def)
qed

lemma overlay_query:
  "get_mvts_passing_through chrono_civil (sample_db [''P'', ''O'']) ''EUSTON'' (whole_secs sample_now) (uint (3600 :: u32)) =
     Inr \<lparr>fq_mvts = [(3, sample_mvt 3 2 ''EUSTON'' ACTION_DEPARTURE 36300)],
          fq_schedules = [(2, sample_schedule 2 ''O'')]\<rparr>"
  unfolding sample_whole_secs
  by (simp add: get_mvts_passing_through_def sample_query_window)
     (simp add: sample_now_def sample_day overlay_rows, simp add: sample_mvt_def sample_schedule_def
       process_schedule_join_def uid_scheds_to_id_scheds_def retain_def Let_def)

lemma schedule_movements_by_movement_id_witness:
  "\<exists>q. ver_get_mvts_passing_through (services chrono_civil (sample_db [''P'', ''O'']) zug_init) ''EUSTON'' sample_now 3600 = Inr q \<and>
     vq_schedules q = [(2, sample_schedule 2 ''O'')] \<and> \<not> (\<exists>d\<in>set (vq_mvts q). dm_src d = DSchedule 3)"
proof -
  have "zug_get_mvts_passing_through chrono_civil (zs_db zug_init) ''EUSTON'' sample_now 3600 = \<lparr>zq_mvts = [], zq_trains = []\<rparr>"
    by (simp add: zug_get_mvts_passing_through_def zug_mvt_rows_def zug_init_def split_beta)
  then obtain q where q: "ver_get_mvts_passing_through (services chrono_civil (sample_db [''P'', ''O'']) zug_init) ''EUSTON'' sample_now 3600 = Inr q"
    and sch: "vq_schedules q = [(2, sample_schedule 2 ''O'')]"
    using ver_unfold [OF zug_reach.start overlay_query refl] by (auto simp: sample_whole_secs obsolete_keys_def retain_def)
  have "\<not> (\<exists>d\<in>set (vq_mvts q). dm_src d = DSchedule 3)"
    using schedule_movements_by_movement_id [OF zug_reach.start q overlay_query, of 3] by (simp add: sch)
  with q sch show ?thesis by blast
qed

end
