(* ===== verification/Darwin_Types.thy ===== *)
theory Darwin_Types
  imports Chrono
begin

text \<open>
  The data of \<open>darwin-types\<close>, field by field: \<open>common.rs\<close>, \<open>forecasts.rs\<close>, \<open>schedule.rs\<close>, \<open>pport.rs\<close>; its
  errors, without the payload that third-party errors carry; and the events of the XML reader.
\<close>

section \<open>The events of the XML reader\<close>

record xml_name =
  xn_local :: string
  xn_namespace :: "string option"
  xn_prefix :: "string option"

datatype xml_event =
  XStartDocument
| XEndDocument
| XPi string "string option"
| XStart xml_name "(xml_name \<times> string) list"
| XEnd xml_name
| XCData string
| XComment string
| XChars string
| XWhitespace string

text \<open>\<open>XmlStartElement\<close>; its namespace map is never read.\<close>

record xml_start =
  xs_name :: xml_name
  xs_attributes :: "(xml_name \<times> string) list"

datatype darwin_error =
  DwChrono
| DwParseInt
| DwEndMismatch xml_name
| DwUnexpectedEvent xml_event
| DwUnexpectedStart xml_name
| DwParseBool
| DwExpected string
| DwMissing string
| DwBuildFail string
| DwXmlError
| DwUnexpectedEnd

section \<open>Train status\<close>

datatype platform_source = Plat_Planned | Plat_Automatic | Plat_Manual

record platform_data =
  pd_platform :: string
  pd_platsup :: bool
  pd_cis_platsup :: bool
  pd_platsrc :: platform_source
  pd_conf :: bool

record ts_time_data =
  tt_et :: "naive_time option"
  tt_wet :: "naive_time option"
  tt_at :: "naive_time option"
  tt_at_removed :: bool
  tt_etmin :: "naive_time option"
  tt_et_unknown :: bool
  tt_delayed :: bool
  tt_src :: "string option"
  tt_src_inst :: "string option"
  tt_at_class :: "string option"

record circular_times =
  ct_wta :: "naive_time option"
  ct_wtd :: "naive_time option"
  ct_wtp :: "naive_time option"
  ct_pta :: "naive_time option"
  ct_ptd :: "naive_time option"

record disruption_reason =
  dr_reason :: string
  dr_tiploc :: "string option"
  dr_near :: bool

record ts_location =
  tl_tiploc :: string
  tl_timings :: circular_times
  tl_arr :: "ts_time_data option"
  tl_dep :: "ts_time_data option"
  tl_pass :: "ts_time_data option"
  tl_plat :: "platform_data option"
  tl_suppr :: bool
  tl_length :: u32
  tl_detach_front :: bool

record train_status_msg =
  ts_late_reason :: "disruption_reason option"
  ts_locations :: "ts_location list"
  ts_rid :: string
  ts_uid :: string
  ts_start_date :: naive_date
  ts_is_reverse_formation :: bool

section \<open>Schedules\<close>

record sched_loc_attributes =
  sla_tpl :: string
  sla_act :: string
  sla_plan_act :: "string option"
  sla_can :: bool

record call_pt_attributes =
  cpa_pta :: "naive_time option"
  cpa_ptd :: "naive_time option"

record loc_or =
  or_sla :: sched_loc_attributes
  or_cpa :: call_pt_attributes
  or_wta :: "naive_time option"
  or_wtd :: naive_time
  or_fd :: "string option"

record loc_op_or =
  opor_sla :: sched_loc_attributes
  opor_wta :: "naive_time option"
  opor_wtd :: naive_time

record loc_ip =
  ip_sla :: sched_loc_attributes
  ip_cpa :: call_pt_attributes
  ip_wta :: naive_time
  ip_wtd :: naive_time
  ip_rdelay_mins :: int
  ip_fd :: "string option"

record loc_op_ip =
  opip_sla :: sched_loc_attributes
  opip_wta :: naive_time
  opip_wtd :: naive_time
  opip_rdelay_mins :: int

record loc_pp =
  pp_sla :: sched_loc_attributes
  pp_wtp :: naive_time
  pp_rdelay_mins :: int

record loc_dt =
  dt_sla :: sched_loc_attributes
  dt_cpa :: call_pt_attributes
  dt_wta :: naive_time
  dt_wtd :: "naive_time option"
  dt_rdelay_mins :: int

record loc_op_dt =
  opdt_sla :: sched_loc_attributes
  opdt_wta :: naive_time
  opdt_wtd :: "naive_time option"
  opdt_rdelay_mins :: int

datatype darwin_location =
  DLocOr loc_or
| DLocOpOr loc_op_or
| DLocIp loc_ip
| DLocOpIp loc_op_ip
| DLocPp loc_pp
| DLocDt loc_dt
| DLocOpDt loc_op_dt

record darwin_schedule =
  ds_rid :: string
  ds_uid :: string
  ds_train_id :: string
  ds_ssd :: naive_date
  ds_toc :: string
  ds_status :: string
  ds_train_cat :: string
  ds_is_passenger_svc :: bool
  ds_is_active :: bool
  ds_deleted :: bool
  ds_is_charter :: bool
  ds_cancel_reason :: "disruption_reason option"
  ds_locations :: "darwin_location list"

record deactivated_schedule =
  dea_rid :: string

section \<open>The push port\<close>

record data_response =
  rsp_train_status :: "train_status_msg list"
  rsp_schedule :: "darwin_schedule list"
  rsp_deactivated :: "deactivated_schedule list"
  rsp_update_origin :: "string option"
  rsp_request_source :: "string option"
  rsp_request_id :: "string option"

datatype pport_element =
  DataResponse data_response
| PportUnimplemented

text \<open>The timestamp is a local time with the offset in seconds.\<close>

record pport =
  pp_inner :: pport_element
  pp_ts :: "naive_datetime \<times> int"
  pp_version :: string

end
