(* ===== verification/Nrod.thy ===== *)
theory Nrod
  imports Zugfuhrer_Updates Ntrod_Movements Darwin_Types Std_Parse
begin

text \<open>
  \<open>tspl-nrod\<close>: the workers that turn the messages of TRUST (\<open>nrod.rs\<close>) and Darwin (\<open>darwin.rs\<close>)
  into requests to \<open>tspl-zugfuhrer\<close>. A worker is a store of the trains it knows and the state of the
  service it calls; \<open>?\<close> is \<open>nbind\<close>. The service is a parameter \<open>Z\<close>; \<open>zug_service\<close> is the model of
  \<open>tspl-zugfuhrer\<close> behind HTTP. \<open>hdr\<close> says which strings are valid header values. Values that are written
  into a header or a URL and read back by the other side are passed on as they are.

  The store is shared by the workers of a feed; one worker's view is modelled, in which the store
  changes only by its own insertions.
\<close>

section \<open>Calls\<close>

datatype nrod_error =
  NRpc rpc_error
| NHeader
| NTrustId
| NNoPlannedTime
| NTimings
| NUnimplemented

record 's worker =
  nw_store :: "(string \<times> uuid) list"
  nw_zug :: 's

type_synonym ('s, 'a) nrod_m = "'s worker \<Rightarrow> (nrod_error + 'a) \<times> 's worker"
type_synonym 's zug_call = "zug_request \<Rightarrow> 's \<Rightarrow> (rpc_error + zug_body) \<times> 's"

definition nret :: "'a \<Rightarrow> ('s, 'a) nrod_m" where
  "nret a w = (Inr a, w)"

definition nlift :: "nrod_error + 'a \<Rightarrow> ('s, 'a) nrod_m" where
  "nlift r w = (r, w)"

definition nbind :: "('s, 'a) nrod_m \<Rightarrow> ('a \<Rightarrow> ('s, 'b) nrod_m) \<Rightarrow> ('s, 'b) nrod_m" where
  "nbind m f w = (case m w of (Inl e, w1) \<Rightarrow> (Inl e, w1) | (Inr a, w1) \<Rightarrow> f a w1)"

definition remember :: "string \<Rightarrow> uuid \<Rightarrow> ('s, unit) nrod_m" where
  "remember k u w = (Inr (), w\<lparr>nw_store := AList.update k u (nw_store w)\<rparr>)"

definition need_header :: "(string \<Rightarrow> bool) \<Rightarrow> string \<Rightarrow> ('s, unit) nrod_m" where
  "need_header hdr v = nlift (if hdr v then Inr () else Inl NHeader)"

text \<open>\<open>zrpc.req\<close> for an answer of the type that \<open>sel\<close> reads.\<close>

definition zreq :: "'s zug_call \<Rightarrow> (zug_body \<Rightarrow> 'a option) \<Rightarrow> zug_request \<Rightarrow> ('s, 'a) nrod_m" where
  "zreq Z sel req w =
     (case Z req (nw_zug w) of
        (r, s) \<Rightarrow>
          (res_bind (map_err NRpc r) (\<lambda>b. ok_or (NRpc (Reqwest ''json'')) (sel b)), w\<lparr>nw_zug := s\<rparr>))"

fun as_train :: "zug_body \<Rightarrow> train option" where
  "as_train (ZBTrain t) = Some t"
| "as_train _ = None"

fun as_mvt :: "zug_body \<Rightarrow> train_mvt option" where
  "as_mvt (ZBMvt m) = Some m"
| "as_mvt _ = None"

fun as_unit :: "zug_body \<Rightarrow> unit option" where
  "as_unit ZBUnit = Some ()"
| "as_unit _ = None"

section \<open>TRUST\<close>

definition trust_id_extract_day_of_month :: "string \<Rightarrow> nrod_error + nat" where
  "trust_id_extract_day_of_month tid =
     (if length tid < 10 then Inl NTrustId
      else ok_or NTrustId (parse_u32 (take 2 (drop 8 tid))))"

definition lookup_trust_id :: "'s zug_call \<Rightarrow> string \<Rightarrow> naive_date \<Rightarrow> ('s, uuid) nrod_m" where
  "lookup_trust_id Z tid date w =
     (case map_of (nw_store w) tid of
        Some u \<Rightarrow> (Inr u, w)
      | None \<Rightarrow>
          nbind (zreq Z as_train (ZByTrustId tid date)) (\<lambda>train.
          nbind (remember tid (tr_tspl_id train)) (\<lambda>_.
          nret (tr_tspl_id train))) w)"

definition activation_source :: "schedule_source \<Rightarrow> u8" where
  "activation_source s = (case s of Source_CifItps \<Rightarrow> SOURCE_ITPS | Source_VstpTops \<Rightarrow> SOURCE_VSTP)"

definition handle_activation :: "(string \<Rightarrow> bool) \<Rightarrow> 's zug_call \<Rightarrow> activation \<Rightarrow> ('s, unit) nrod_m" where
  "handle_activation hdr Z a =
     nbind (need_header hdr (act_train_uid a)) (\<lambda>_.
     nbind (zreq Z as_train
        (ZActivate (act_train_uid a) (act_schedule_start_date a) [as_char (act_schedule_type a)]
           (uint (activation_source (act_schedule_source a))) (dt_date (act_origin_dep_timestamp a)))) (\<lambda>train.
     nbind (zreq Z as_unit (ZAssociate (tr_tspl_id train) (act_train_id a))) (\<lambda>_.
     remember (act_train_id a) (tr_tspl_id train))))"

definition handle_cancellation :: "'s zug_call \<Rightarrow> cancellation \<Rightarrow> ('s, unit) nrod_m" where
  "handle_cancellation Z c =
     nbind (lookup_trust_id Z (canx_train_id c) (dt_date (canx_canx_timestamp c))) (\<lambda>tspl_id.
     zreq Z as_unit (ZCancel tspl_id))"

definition event_action :: "event_type \<Rightarrow> u8" where
  "event_action e = (case e of Event_Arrival \<Rightarrow> 0 | Event_Destination \<Rightarrow> 0 | Event_Departure \<Rightarrow> 1)"

definition trust_day_offset :: "chrono \<Rightarrow> naive_date \<Rightarrow> nat \<Rightarrow> u8" where
  "trust_day_offset C planned start_dom = (if day_of_month C planned = start_dom then 0 else 1)"

definition trust_update :: "movement \<Rightarrow> naive_datetime \<Rightarrow> u8 \<Rightarrow> trust_mvt_update" where
  "trust_update m planned_ts day_offset =
     \<lparr>tu_stanox = mvt_loc_stanox m, tu_planned_time = dt_time planned_ts,
      tu_planned_day_offset = day_offset, tu_planned_action = event_action (mvt_event_type m),
      tu_actual_time = dt_time (mvt_actual_timestamp m), tu_actual_public_time = None,
      tu_platform = mvt_platform m\<rparr>"

definition handle_movement ::
    "chrono \<Rightarrow> (string \<Rightarrow> bool) \<Rightarrow> 's zug_call \<Rightarrow> movement \<Rightarrow> ('s, unit) nrod_m" where
  "handle_movement C hdr Z m =
     (if mvt_offroute_ind m then nret ()
      else
        nbind (nlift (ok_or NNoPlannedTime (mvt_planned_timestamp m))) (\<lambda>planned_ts.
        nbind (lookup_trust_id Z (mvt_train_id m) (dt_date planned_ts)) (\<lambda>tspl_id.
        nbind (need_header hdr (mvt_loc_stanox m)) (\<lambda>_.
        nbind (nlift (trust_id_extract_day_of_month (mvt_train_id m))) (\<lambda>start_dom.
        nbind (case mvt_platform m of None \<Rightarrow> nret () | Some p \<Rightarrow> need_header hdr p) (\<lambda>_.
        nbind (zreq Z as_mvt (ZTrustMovement tspl_id
           (trust_update m planned_ts (trust_day_offset C (dt_date planned_ts) start_dom)))) (\<lambda>_.
        if mvt_train_terminated m then zreq Z as_unit (ZTerminate tspl_id) else nret ())))))))"

text \<open>A batch: a message that fails is logged, and the next one is taken. \<open>None\<close> is a batch that does not parse.\<close>

definition handle_record ::
    "chrono \<Rightarrow> (string \<Rightarrow> bool) \<Rightarrow> 's zug_call \<Rightarrow> mvt_record \<Rightarrow> ('s, unit) nrod_m" where
  "handle_record C hdr Z r =
     (case rec_body r of
        BodyActivation a \<Rightarrow> handle_activation hdr Z a
      | BodyMovement m \<Rightarrow> handle_movement C hdr Z m
      | BodyCancellation c \<Rightarrow> handle_cancellation Z c
      | _ \<Rightarrow> nlift (Inl NUnimplemented))"

definition on_mvt_message ::
    "chrono \<Rightarrow> (string \<Rightarrow> bool) \<Rightarrow> 's zug_call \<Rightarrow> mvt_record list option \<Rightarrow> 's worker \<Rightarrow> 's worker" where
  "on_mvt_message C hdr Z recs w =
     (case recs of None \<Rightarrow> w | Some rs \<Rightarrow> fold (\<lambda>r w. snd (handle_record C hdr Z r w)) rs w)"

section \<open>Darwin\<close>

definition lookup_or_activate_train ::
    "(string \<Rightarrow> bool) \<Rightarrow> 's zug_call \<Rightarrow> string \<Rightarrow> string \<Rightarrow> naive_date \<Rightarrow> ('s, uuid) nrod_m" where
  "lookup_or_activate_train hdr Z rid uid ssd w =
     (case map_of (nw_store w) rid of
        Some u \<Rightarrow> (Inr u, w)
      | None \<Rightarrow>
          (case zreq Z as_train (ZByDarwinRid rid) w of
             (Inr train, w1) \<Rightarrow>
               nbind (remember rid (tr_tspl_id train)) (\<lambda>_. nret (tr_tspl_id train)) w1
           | (Inl e, w1) \<Rightarrow>
               if e = NRpc RemoteNotFound
               then nbind (need_header hdr rid) (\<lambda>_.
                    nbind (need_header hdr uid) (\<lambda>_.
                    nbind (zreq Z as_train (ZActivateFuzzy uid rid ssd)) (\<lambda>train.
                    nbind (remember rid (tr_tspl_id train)) (\<lambda>_.
                    nret (tr_tspl_id train))))) w1
               else (Inl e, w1)))"

record ts_update =
  up_time_sched :: naive_time
  up_day_offset :: u8
  up_tiploc :: string
  up_action :: u8
  up_tstd :: ts_time_data
  up_platform :: "platform_data option"

text \<open>
  The closure \<open>update_day_offset\<close> over \<open>last_time\<close> and \<open>day_offset\<close>; the offset is an unsigned byte and
  wraps.
\<close>

definition update_day_offset ::
    "chrono \<Rightarrow> naive_time \<Rightarrow> naive_time option \<times> u8 \<Rightarrow> naive_time option \<times> u8" where
  "update_day_offset C t st =
     (case fst st of
        Some l \<Rightarrow>
          if t < l
          then (if hours_since C l t \<ge> 6 then (Some l, snd st + 1) else st)
          else (if hours_since C t l \<ge> 18 then (Some l, snd st - 1) else st)
      | None \<Rightarrow> (Some t, snd st))"

type_synonym flat_state = "(naive_time option \<times> u8) \<times> ts_update list"

text \<open>One of the three \<open>if let\<close> blocks: the data, the scheduled time, the platform that goes with it.\<close>

definition push_update ::
    "chrono \<Rightarrow> string \<Rightarrow> u8 \<Rightarrow> naive_time option \<Rightarrow> platform_data option \<Rightarrow> ts_time_data option \<Rightarrow>
     flat_state \<Rightarrow> nrod_error + flat_state" where
  "push_update C tpl action sched plat data st =
     (case data of
        None \<Rightarrow> Inr st
      | Some d \<Rightarrow>
          res_map
            (\<lambda>t. let off = update_day_offset C t (fst st)
                 in (off, snd st @ [\<lparr>up_time_sched = t, up_day_offset = snd off, up_tiploc = tpl,
                      up_action = action, up_tstd = d, up_platform = plat\<rparr>]))
            (ok_or NTimings sched))"

definition flatten_location :: "chrono \<Rightarrow> ts_location \<Rightarrow> flat_state \<Rightarrow> nrod_error + flat_state" where
  "flatten_location C loc st =
     (let t = tl_timings loc; tpl = tl_tiploc loc
      in res_bind (push_update C tpl 0 (opt_or (ct_wta t) (ct_pta t)) (tl_plat loc) (tl_arr loc) st) (\<lambda>st1.
         res_bind (push_update C tpl 1 (opt_or (ct_wtd t) (ct_ptd t)) (tl_plat loc) (tl_dep loc) st1)
           (push_update C tpl 2 (ct_wtp t) None (tl_pass loc))))"

definition flatten_locations :: "chrono \<Rightarrow> ts_location list \<Rightarrow> nrod_error + ts_update list" where
  "flatten_locations C locs = res_map snd (res_fold (flatten_location C) locs ((None, 0), []))"

definition update_time :: "ts_time_data \<Rightarrow> naive_time option" where
  "update_time d = opt_or (opt_or (tt_at d) (tt_wet d)) (tt_et d)"

definition darwin_update :: "ts_update \<Rightarrow> naive_time \<Rightarrow> darwin_mvt_update" where
  "darwin_update u t =
     \<lparr>du_tiploc = up_tiploc u, du_planned_time = up_time_sched u, du_planned_day_offset = up_day_offset u,
      du_planned_action = up_action u, du_updated_time = t, du_time_actual = (tt_at (up_tstd u) \<noteq> None),
      du_delay_unknown = tt_delayed (up_tstd u), du_platform = map_option pd_platform (up_platform u),
      du_platsup = (case up_platform u of None \<Rightarrow> False | Some p \<Rightarrow> pd_platsup p)\<rparr>"

text \<open>Step 2: an update that the service refuses is logged and skipped, a bad header ends the function.\<close>

fun send_updates :: "(string \<Rightarrow> bool) \<Rightarrow> 's zug_call \<Rightarrow> uuid \<Rightarrow> ts_update list \<Rightarrow> ('s, unit) nrod_m" where
  "send_updates hdr Z tid [] = nret ()"
| "send_updates hdr Z tid (u # us) =
     (case update_time (up_tstd u) of
        None \<Rightarrow> send_updates hdr Z tid us
      | Some t \<Rightarrow>
          nbind (need_header hdr (up_tiploc u)) (\<lambda>_.
          nbind (case up_platform u of None \<Rightarrow> nret () | Some p \<Rightarrow> need_header hdr (pd_platform p)) (\<lambda>_.
          (\<lambda>w. send_updates hdr Z tid us (snd (zreq Z as_mvt (ZDarwinUpdate tid (darwin_update u t)) w))))))"

definition process_ts ::
    "chrono \<Rightarrow> (string \<Rightarrow> bool) \<Rightarrow> 's zug_call \<Rightarrow> train_status_msg \<Rightarrow> ('s, unit) nrod_m" where
  "process_ts C hdr Z ts =
     nbind (lookup_or_activate_train hdr Z (ts_rid ts) (ts_uid ts) (ts_start_date ts)) (\<lambda>tid.
     nbind (nlift (flatten_locations C (ts_locations ts))) (\<lambda>us.
     send_updates hdr Z tid us))"

definition process_pport ::
    "chrono \<Rightarrow> (string \<Rightarrow> bool) \<Rightarrow> 's zug_call \<Rightarrow> pport_element \<Rightarrow> 's worker \<Rightarrow> 's worker" where
  "process_pport C hdr Z pp w =
     (case pp of
        DataResponse dr \<Rightarrow> fold (\<lambda>ts w. snd (process_ts C hdr Z ts w)) (rsp_train_status dr) w
      | PportUnimplemented \<Rightarrow> w)"

section \<open>The service behind HTTP\<close>

definition zug_service ::
    "string \<Rightarrow> chrono \<Rightarrow> fahrplan_api \<Rightarrow> uuid \<Rightarrow> naive_datetime \<Rightarrow> zug_state zug_call" where
  "zug_service ua C F uu now req s =
     (case zug_on_request ua C F uu now req s of
        (r, s1) \<Rightarrow>
          (req_with_headers (\<lambda>_. '''') ''zugfuhrer'' (Inr (process_request zug_status_code (\<lambda>_. '''') r)), s1))"

end
