(* ===== verification/Nrod_Props.thy ===== *)
theory Nrod_Props
  imports Nrod
begin

text \<open>
  What the workers of \<open>tspl-nrod\<close> do to \<open>tspl-zugfuhrer\<close> and to their store of known trains.
  The locale \<open>train_service\<close> is what they rely on about the service they call; the model of
  \<open>tspl-zugfuhrer\<close> behind HTTP is its interpretation.
\<close>

section \<open>Running a worker\<close>

text \<open>After \<open>m\<close> the invariant holds, and \<open>Q\<close> if \<open>m\<close> succeeded.\<close>

definition runs_to ::
    "('s worker \<Rightarrow> bool) \<Rightarrow> ('s, 'a) nrod_m \<Rightarrow> 's worker \<Rightarrow> ('a \<Rightarrow> 's worker \<Rightarrow> bool) \<Rightarrow> bool" where
  "runs_to I m w Q \<longleftrightarrow> I (snd (m w)) \<and> (\<forall>a. fst (m w) = Inr a \<longrightarrow> Q a (snd (m w)))"

lemma runs_to_bind:
  assumes "runs_to I m w P" "\<And>a v. I v \<Longrightarrow> P a v \<Longrightarrow> runs_to I (f a) v Q"
  shows "runs_to I (nbind m f) w Q"
proof (cases "m w")
  case (Pair r v)
  with assms show ?thesis by (cases r) (simp_all add: runs_to_def nbind_def)
qed

lemma runs_to_simple:
  "I w \<Longrightarrow> runs_to I (nret a) w (\<lambda>_ _. True)" "I w \<Longrightarrow> runs_to I (nlift r) w (\<lambda>_ _. True)"
  "I w \<Longrightarrow> runs_to I (need_header hdr v) w (\<lambda>_ _. True)"
  by (simp_all add: runs_to_def nret_def nlift_def need_header_def)

lemma runs_to_True: "runs_to I m w (\<lambda>_ _. True) \<longleftrightarrow> I (snd (m w))"
  by (simp add: runs_to_def)

section \<open>The contract of the train service\<close>

text \<open>
  The states \<open>ok\<close> are kept by every call, trains are never forgotten, and a train in an answer is a train of
  the service.
\<close>

locale train_service =
  fixes Z :: "'s zug_call"
    and ok :: "'s \<Rightarrow> bool"
    and ids :: "'s \<Rightarrow> uuid set"
  assumes keeps: "ok s \<Longrightarrow> ok (snd (Z req s))"
    and grows: "ok s \<Longrightarrow> ids s \<subseteq> ids (snd (Z req s))"
    and known: "ok s \<Longrightarrow> fst (Z req s) = Inr (ZBTrain t) \<Longrightarrow> tr_tspl_id t \<in> ids (snd (Z req s))"
begin

definition inv :: "'s worker \<Rightarrow> bool" where
  "inv w \<longleftrightarrow> ok (nw_zug w) \<and> (\<forall>u\<in>ran (map_of (nw_store w)). u \<in> ids (nw_zug w))"

lemma zreq_inv: "inv w \<Longrightarrow> runs_to inv (zreq Z sel req) w (\<lambda>_ _. True)"
  using keeps [of "nw_zug w" req] grows [of "nw_zug w" req]
  by (auto simp: runs_to_def inv_def zreq_def split: prod.splits)

lemma zreq_train: "inv w \<Longrightarrow> runs_to inv (zreq Z as_train req) w (\<lambda>t v. tr_tspl_id t \<in> ids (nw_zug v))"
proof -
  assume w: "inv w"
  have "tr_tspl_id t \<in> ids (nw_zug (snd (zreq Z as_train req w)))" if "fst (zreq Z as_train req w) = Inr t" for t
  proof -
    obtain r s where Z: "Z req (nw_zug w) = (r, s)" by (cases "Z req (nw_zug w)")
    with that obtain b where "r = Inr b" "as_train b = Some t"
      by (auto simp: zreq_def res_bind_Inr)
    then have "fst (Z req (nw_zug w)) = Inr (ZBTrain t)"
      using Z by (cases b) simp_all
    from known [OF _ this] w show ?thesis by (simp add: inv_def zreq_def Z)
  qed
  with zreq_inv [OF w, of as_train req] show ?thesis by (simp add: runs_to_def)
qed

lemma remember_inv: "inv w \<Longrightarrow> u \<in> ids (nw_zug w) \<Longrightarrow> runs_to inv (remember k u) w (\<lambda>_ _. True)"
  by (auto simp: runs_to_def remember_def inv_def ran_def split: if_splits)

text \<open>One rule per kind of step, for a sequence.\<close>

lemma bind_train:
  assumes "inv w" "\<And>t v. inv v \<Longrightarrow> tr_tspl_id t \<in> ids (nw_zug v) \<Longrightarrow> runs_to inv (f t) v Q"
  shows "runs_to inv (nbind (zreq Z as_train req) f) w Q"
  by (rule runs_to_bind [OF zreq_train [OF assms(1)]]) (rule assms(2))

lemma bind_keep:
  assumes "inv w" "u \<in> ids (nw_zug w)" "\<And>a v. inv v \<Longrightarrow> u \<in> ids (nw_zug v) \<Longrightarrow> runs_to inv (f a) v Q"
  shows "runs_to inv (nbind (zreq Z sel req) f) w Q"
proof (rule runs_to_bind)
  show "runs_to inv (zreq Z sel req) w (\<lambda>_ v. u \<in> ids (nw_zug v))"
    using zreq_inv [OF assms(1), of sel req] grows [of "nw_zug w" req] assms(1,2)
    by (auto simp: runs_to_def inv_def zreq_def split: prod.splits)
qed (rule assms(3))

lemma bind_other:
  assumes "inv w"
  shows "u \<in> ids (nw_zug w) \<Longrightarrow> (\<And>a v. inv v \<Longrightarrow> runs_to inv (f a) v Q) \<Longrightarrow>
      runs_to inv (nbind (remember k u) f) w Q"
    and "(\<And>a v. inv v \<Longrightarrow> runs_to inv (f a) v Q) \<Longrightarrow> runs_to inv (nbind (need_header hdr x) f) w Q"
    and "(\<And>a v. inv v \<Longrightarrow> runs_to inv (g a) v Q) \<Longrightarrow> runs_to inv (nbind (nlift r) g) w Q"
    and "(\<And>a v. inv v \<Longrightarrow> runs_to inv (h a) v Q) \<Longrightarrow> runs_to inv (nbind (zreq Z sel req) h) w Q"
  using assms
  by (blast intro: runs_to_bind [OF remember_inv] runs_to_bind [OF runs_to_simple(2)]
      runs_to_bind [OF runs_to_simple(3)] runs_to_bind [OF zreq_inv])+

lemmas steps = bind_train bind_other runs_to_simple zreq_inv remember_inv

lemma lookup_inv:
  assumes "inv w"
  shows "runs_to inv (lookup_trust_id Z tid date) w (\<lambda>_ _. True)"
    and "runs_to inv (lookup_or_activate_train hdr Z rid uid ssd) w (\<lambda>_ _. True)"
proof -
  have "runs_to inv (nbind (zreq Z as_train (ZByTrustId tid date)) (\<lambda>train.
          nbind (remember tid (tr_tspl_id train)) (\<lambda>_. nret (tr_tspl_id train)))) w (\<lambda>_ _. True)"
    by (rule steps assms | assumption)+
  with assms show "runs_to inv (lookup_trust_id Z tid date) w (\<lambda>_ _. True)"
    by (cases "map_of (nw_store w) tid") (simp_all add: runs_to_def lookup_trust_id_def)
  have act: "runs_to inv (nbind (need_header hdr rid) (\<lambda>_. nbind (need_header hdr uid) (\<lambda>_.
      nbind (zreq Z as_train (ZActivateFuzzy uid rid ssd)) (\<lambda>train.
      nbind (remember rid (tr_tspl_id train)) (\<lambda>_. nret (tr_tspl_id train)))))) v (\<lambda>_ _. True)" if "inv v" for v
    by (rule steps that | assumption)+
  obtain r v where z: "zreq Z as_train (ZByDarwinRid rid) w = (r, v)" by (cases "zreq Z as_train (ZByDarwinRid rid) w")
  have v: "inv v" "\<And>t. r = Inr t \<Longrightarrow> tr_tspl_id t \<in> ids (nw_zug v)"
    using zreq_train [OF assms, of "ZByDarwinRid rid"] by (simp_all add: z runs_to_def)
  have rem: "runs_to inv (nbind (remember rid (tr_tspl_id t)) (\<lambda>_. nret (tr_tspl_id t))) v (\<lambda>_ _. True)"
    if "r = Inr t" for t
    by (rule steps v that | assumption)+
  show "runs_to inv (lookup_or_activate_train hdr Z rid uid ssd) w (\<lambda>_ _. True)"
    using assms act [OF v(1)] rem v(1)
    by (cases "map_of (nw_store w) rid"; cases r) (auto simp: runs_to_def lookup_or_activate_train_def z)
qed

lemma optional_header_inv:
  "inv w \<Longrightarrow> runs_to inv (case p of None \<Rightarrow> nret () | Some x \<Rightarrow> need_header hdr (g x)) w (\<lambda>_ _. True)"
  by (cases p) (simp_all add: runs_to_simple)

lemmas sequence = runs_to_bind [OF lookup_inv(1)] runs_to_bind [OF lookup_inv(2)]
  runs_to_bind [OF optional_header_inv] runs_to_bind [OF optional_header_inv [where g = "\<lambda>x. x"]]

lemma handlers_inv:
  assumes "inv w"
  shows "runs_to inv (handle_activation hdr Z a) w (\<lambda>_ _. True)"
    and "runs_to inv (handle_cancellation Z c) w (\<lambda>_ _. True)"
    and "runs_to inv (handle_movement C hdr Z m) w (\<lambda>_ _. True)"
proof -
  show "runs_to inv (handle_activation hdr Z a) w (\<lambda>_ _. True)"
    unfolding handle_activation_def
    by (rule bind_other(2) [OF assms], rule bind_train, assumption, rule bind_keep, assumption, assumption,
        rule remember_inv, assumption, assumption)
  show "runs_to inv (handle_cancellation Z c) w (\<lambda>_ _. True)"
    unfolding handle_cancellation_def by (rule sequence steps assms | assumption)+
  show "runs_to inv (handle_movement C hdr Z m) w (\<lambda>_ _. True)"
  proof (cases "mvt_offroute_ind m")
    case True
    then show ?thesis using assms by (simp add: handle_movement_def runs_to_simple)
  next
    case False
    have last: "runs_to inv (if mvt_train_terminated m then zreq Z as_unit (ZTerminate u) else nret ()) v (\<lambda>_ _. True)"
      if "inv v" for u v
      using that by (simp add: zreq_inv runs_to_simple)
    show ?thesis
      unfolding handle_movement_def if_not_P [OF False]
      by (rule sequence bind_other(2-4) last assms | assumption)+
  qed
qed

lemma handle_record_inv: "inv w \<Longrightarrow> inv (snd (handle_record C hdr Z r w))"
  using handlers_inv by (simp add: handle_record_def nlift_def runs_to_True split: mvt_body.split)

lemma on_mvt_message_inv: "inv w \<Longrightarrow> inv (on_mvt_message C hdr Z recs w)"
proof -
  have "inv w \<Longrightarrow> inv (fold (\<lambda>r w. snd (handle_record C hdr Z r w)) rs w)" for rs
    by (induction rs arbitrary: w) (simp_all add: handle_record_inv)
  then show "inv w \<Longrightarrow> inv (on_mvt_message C hdr Z recs w)"
    by (simp add: on_mvt_message_def split: option.split)
qed

lemma send_updates_inv: "inv w \<Longrightarrow> runs_to inv (send_updates hdr Z tid us) w (\<lambda>_ _. True)"
proof (induction us arbitrary: w)
  case Nil
  then show ?case by (simp add: runs_to_simple)
next
  case (Cons u us)
  show ?case
  proof (cases "update_time (up_tstd u)")
    case None
    with Cons show ?thesis by (simp add: runs_to_def)
  next
    case (Some t)
    have call: "runs_to inv (\<lambda>w. send_updates hdr Z tid us (snd (zreq Z as_mvt req w))) v (\<lambda>_ _. True)" if "inv v" for v req
      using Cons.IH [of "snd (zreq Z as_mvt req v)"] zreq_inv [OF that, of as_mvt req] by (simp add: runs_to_def)
    have "runs_to inv (send_updates hdr Z tid (u # us)) w (\<lambda>_ _. True)"
      unfolding send_updates.simps Some option.case
      by (rule sequence bind_other(2) call Cons.prems | assumption)+
    then show ?thesis .
  qed
qed

lemma process_pport_inv: "inv w \<Longrightarrow> inv (process_pport C hdr Z pp w)"
proof -
  have "runs_to inv (process_ts C hdr Z ts) w (\<lambda>_ _. True)" if "inv w" for ts w
    unfolding process_ts_def by (rule sequence bind_other(3) send_updates_inv that | assumption)+
  then have "inv w \<Longrightarrow> inv (fold (\<lambda>ts w. snd (process_ts C hdr Z ts w)) tss w)" for tss
    by (induction tss arbitrary: w) (simp_all add: runs_to_True)
  then show "inv w \<Longrightarrow> inv (process_pport C hdr Z pp w)"
    by (simp add: process_pport_def split: pport_element.split)
qed

end

section \<open>\<open>tspl-zugfuhrer\<close> keeps the contract\<close>

definition train_ids :: "zug_state \<Rightarrow> uuid set" where
  "train_ids s = tr_tspl_id ` set (zdb_trains (zs_db s))"

lemma update_trains_ids:
  "(\<And>t. tr_tspl_id (f t) = tr_tspl_id t) \<Longrightarrow>
   tr_tspl_id ` set (zdb_trains (snd (update_trains P f db))) = tr_tspl_id ` set (zdb_trains db)"
proof -
  assume f: "\<And>t. tr_tspl_id (f t) = tr_tspl_id t"
  have "map tr_tspl_id (zdb_trains (snd (update_trains P f db))) = map tr_tspl_id (zdb_trains db)"
    by (simp add: update_trains_def f)
  then show ?thesis by (metis set_map)
qed

lemma copy_mvts_trains: "copy_mvts tid ms db = Inr db' \<Longrightarrow> zdb_trains db' = zdb_trains db"
  unfolding copy_mvts_def
  by (rule res_fold_invariant [where P = "\<lambda>x. zdb_trains x = zdb_trains db"])
     (auto simp: res_map_Inr insert_train_mvt_Inr)

lemma insert_train_ids:
  "insert_train t db = Inr (i, db') \<Longrightarrow> tr_tspl_id ` set (zdb_trains db) \<subseteq> tr_tspl_id ` set (zdb_trains db')"
  by (auto simp: insert_train_def Let_def split: if_splits)

lemma activate_copy_ids:
  assumes "activate_copy uu ad ms train db = Inr (t, db')"
  shows "tr_tspl_id ` set (zdb_trains db) \<subseteq> tr_tspl_id ` set (zdb_trains db')"
proof -
  obtain t1 db1 where first: "(case train of Some t \<Rightarrow> Inr (t, db)
        | None \<Rightarrow> (let t = new_train uu ad
                  in res_map (\<lambda>(i, db1). (t\<lparr>tr_id := i\<rparr>, db1)) (insert_train t db))) = Inr (t1, db1)"
    and rest: "(if \<not> tr_activated t1 \<and> length ms > 0
          then res_map (\<lambda>db2. (t1\<lparr>tr_activated := True\<rparr>,
                    snd (update_trains (\<lambda>x. tr_id x = tr_id t1) (\<lambda>x. x\<lparr>tr_activated := True\<rparr>) db2)))
                 (copy_mvts (tr_id t1) ms db1)
          else Inr (t1, db1)) = Inr (t, db')"
    using assms unfolding activate_copy_def res_bind_Inr by auto
  have "tr_tspl_id ` set (zdb_trains db) \<subseteq> tr_tspl_id ` set (zdb_trains db1)"
  proof (cases train)
    case None
    with first obtain i where "insert_train (new_train uu ad) db = Inr (i, db1)"
      by (auto simp: Let_def res_map_Inr)
    then show ?thesis by (rule insert_train_ids)
  next
    case (Some x)
    with first show ?thesis by simp
  qed
  also have "\<dots> = tr_tspl_id ` set (zdb_trains db')"
  proof (cases "\<not> tr_activated t1 \<and> length ms > 0")
    case True
    then obtain db2 where "copy_mvts (tr_id t1) ms db1 = Inr db2"
      "db' = snd (update_trains (\<lambda>x. tr_id x = tr_id t1) (\<lambda>x. x\<lparr>tr_activated := True\<rparr>) db2)"
      using rest by (auto simp: res_map_Inr)
    then show ?thesis by (simp add: update_trains_ids copy_mvts_trains)
  next
    case False
    with rest show ?thesis by (simp only: if_not_P) simp
  qed
  finally show ?thesis .
qed

lemma activate_lowlevel_ids:
  "tr_tspl_id ` set (zdb_trains db) \<subseteq> tr_tspl_id ` set (zdb_trains (snd (activate_lowlevel uu ad ms db)))"
  by (auto simp: activate_lowlevel_def Let_def dest!: activate_copy_ids split: option.splits sum.splits)

lemma activate_lowlevel_known:
  "zdb_inv db \<Longrightarrow> originals ms \<Longrightarrow> activate_lowlevel uu ad ms db = (Inr t, db1) \<Longrightarrow> t \<in> set (zdb_trains db1)"
  by (erule activate_lowlevel_cases) auto

lemma activator_ids:
  assumes "zdb_inv db"
  shows "activator_darwin F uu uid d db = (r, db1) \<Longrightarrow>
      tr_tspl_id ` set (zdb_trains db) \<subseteq> tr_tspl_id ` set (zdb_trains db1) \<and> (\<forall>t. r = Inr t \<longrightarrow> t \<in> set (zdb_trains db1))"
    and "activator_nrod F uu uid sd stp src d db = (r, db1) \<Longrightarrow>
      tr_tspl_id ` set (zdb_trains db) \<subseteq> tr_tspl_id ` set (zdb_trains db1) \<and> (\<forall>t. r = Inr t \<longrightarrow> t \<in> set (zdb_trains db1))"
proof -
  have low: "tr_tspl_id ` set (zdb_trains db) \<subseteq> tr_tspl_id ` set (zdb_trains db1) \<and> (\<forall>t. r = Inr t \<longrightarrow> t \<in> set (zdb_trains db1))"
    if "activate_lowlevel uu ad ms db = (r, db1)" "originals ms" for ad ms
    using that activate_lowlevel_ids [of db uu ad ms] activate_lowlevel_known [OF assms that(2)] by auto
  have orig: "originals ms" if "get_tmvts_for_schedule F sched = Inr ms" for sched ms
    using that by (auto simp: get_tmvts_for_schedule_def res_map_Inr from_itps_originals)
  have nil: "originals []" by (simp add: originals_def)
  show "activator_darwin F uu uid d db = (r, db1) \<Longrightarrow>
      tr_tspl_id ` set (zdb_trains db) \<subseteq> tr_tspl_id ` set (zdb_trains db1) \<and> (\<forall>t. r = Inr t \<longrightarrow> t \<in> set (zdb_trains db1))"
    using low orig by (fastforce simp: activator_darwin_def split: sum.splits)
  show "activator_nrod F uu uid sd stp src d db = (r, db1) \<Longrightarrow>
      tr_tspl_id ` set (zdb_trains db) \<subseteq> tr_tspl_id ` set (zdb_trains db1) \<and> (\<forall>t. r = Inr t \<longrightarrow> t \<in> set (zdb_trains db1))"
    using low orig nil by (fastforce simp: activator_nrod_def split: sum.splits option.splits)
qed

lemma request_ids:
  assumes "zdb_inv (zs_db s)"
  shows "train_ids s \<subseteq> train_ids (snd (zug_on_request ua C F uu now req s))"
proof (cases req)
  case (ZActivate uid sd stp src d)
  obtain r db1 where a: "activator_nrod F uu uid sd stp src d (zs_db s) = (r, db1)"
    by (cases "activator_nrod F uu uid sd stp src d (zs_db s)")
  with activator_ids(2) [OF assms a] show ?thesis
    by (cases r) (simp_all add: ZActivate activate_train_def train_ids_def send_activation_def send_update_def)
next
  case (ZActivateFuzzy uid rid d)
  obtain r db1 where a: "activator_darwin F uu uid d (zs_db s) = (r, db1)"
    by (cases "activator_darwin F uu uid d (zs_db s)")
  with activator_ids(1) [OF assms a] show ?thesis
    by (cases r) (auto simp: ZActivateFuzzy activate_train_darwin_def train_ids_def send_activation_def
        send_update_def update_trains_unique_def Let_def split_beta update_trains_ids split: sum.split)
qed (auto simp: train_ids_def terminate_train_def cancel_train_def associate_trust_id_def
      update_trains_unique_def Let_def split_beta update_trains_ids process_darwin_mvt_update_def
      process_trust_mvt_update_def send_mvt_def send_update_def res_bind_Inr res_map_Inr
      insert_train_mvt_Inr delete_mvts_def split: sum.splits)

lemma request_known:
  assumes "zdb_inv (zs_db s)"
    and "fst (zug_on_request ua C F uu now req s) = Inr resp" "rs_body resp = Json (ZBTrain t)"
  shows "tr_tspl_id t \<in> train_ids (snd (zug_on_request ua C F uu now req s))"
proof (cases req)
  case (ZActivate uid sd stp src d)
  obtain r db1 where a: "activator_nrod F uu uid sd stp src d (zs_db s) = (r, db1)"
    by (cases "activator_nrod F uu uid sd stp src d (zs_db s)")
  with activator_ids(2) [OF assms(1) a] assms(2,3) show ?thesis
    by (cases r) (auto simp: ZActivate activate_train_def train_ids_def send_activation_def send_update_def
        zug_json_def json_response_def)
next
  case (ZActivateFuzzy uid rid d)
  obtain r db1 where a: "activator_darwin F uu uid d (zs_db s) = (r, db1)"
    by (cases "activator_darwin F uu uid d (zs_db s)")
  with activator_ids(1) [OF assms(1) a] assms(2,3) show ?thesis
    by (cases r) (auto simp: ZActivateFuzzy activate_train_darwin_def train_ids_def send_activation_def
        send_update_def update_trains_unique_def Let_def split_beta update_trains_ids zug_json_def
        json_response_def split: sum.splits)
qed (use assms(2,3) in \<open>auto simp: zug_json_def json_response_def text_response_def res_map_Inr train_ids_def
      get_train_for_trust_id_def get_train_for_darwin_rid_def dest!: nth0_filter_Some\<close>)

interpretation zserv: train_service "zug_service ua C F uu now" zug_reach train_ids for ua C F uu now
proof
  fix s req t
  assume reach: "zug_reach s"
  note inv = zug_reach_inv [OF reach]
  have snd: "snd (zug_service ua C F uu now req s) = snd (zug_on_request ua C F uu now req s)"
    by (simp add: zug_service_def split_beta)
  show "zug_reach (snd (zug_service ua C F uu now req s))"
    unfolding snd by (rule zug_reach.step [OF reach zug_step.request])
  show "train_ids s \<subseteq> train_ids (snd (zug_service ua C F uu now req s))"
    unfolding snd by (rule request_ids [OF inv])
  assume "fst (zug_service ua C F uu now req s) = Inr (ZBTrain t)"
  then obtain resp where "fst (zug_on_request ua C F uu now req s) = Inr resp" "rs_body resp = Json (ZBTrain t)"
    by (auto simp: zug_service_def split_beta req_with_headers_def process_request_def
        zug_status.no_success split: sum.splits if_splits body.splits)
  then show "tr_tspl_id t \<in> train_ids (snd (zug_service ua C F uu now req s))"
    unfolding snd by (rule request_known [OF inv])
qed

section \<open>Answers of the service\<close>

lemma zug_service_Inr:
  "fst (zug_service ua C F uu now req s) = Inr b \<longleftrightarrow>
     (\<exists>resp. fst (zug_on_request ua C F uu now req s) = Inr resp \<and> rs_body resp = Json b \<and>
        is_success (rs_status resp))"
  by (auto simp: zug_service_def split_beta req_with_headers_def process_request_def is_success_def
      zug_status.no_success [unfolded is_success_def] split: sum.splits if_splits body.splits)

lemma zug_service_snd [simp]:
  "snd (zug_service ua C F uu now req s) = snd (zug_on_request ua C F uu now req s)"
  by (simp add: zug_service_def split_beta)

lemma zug_service_not_found:
  "fst (zug_on_request ua C F uu now req s) = Inl ZNotFound \<Longrightarrow>
   fst (zug_service ua C F uu now req s) = Inl RemoteNotFound"
  by (simp add: zug_service_def split_beta req_with_headers_def process_request_def)

lemma nbind_Inr:
  "nbind m f w = (Inr b, w') \<longleftrightarrow> (\<exists>a v. m w = (Inr a, v) \<and> f a v = (Inr b, w'))"
  by (auto simp: nbind_def split: prod.splits sum.splits)

lemma zreq_Inr:
  "zreq (zug_service ua C F uu now) sel req w = (Inr a, w') \<longleftrightarrow>
     (\<exists>b resp. fst (zug_on_request ua C F uu now req (nw_zug w)) = Inr resp \<and> rs_body resp = Json b \<and>
        is_success (rs_status resp) \<and> sel b = Some a) \<and>
     w' = w\<lparr>nw_zug := snd (zug_on_request ua C F uu now req (nw_zug w))\<rparr>"
proof -
  have "zreq (zug_service ua C F uu now) sel req w =
      (res_bind (map_err NRpc (fst (zug_service ua C F uu now req (nw_zug w))))
         (\<lambda>b. ok_or (NRpc (Reqwest ''json'')) (sel b)),
       w\<lparr>nw_zug := snd (zug_on_request ua C F uu now req (nw_zug w))\<rparr>)"
    by (simp add: zreq_def split_beta)
  then show ?thesis by (auto simp: res_bind_Inr zug_service_Inr)
qed

lemma activate_request:
  assumes "zug_reach s" "fst (zug_on_request ua C F uu now (ZActivate uid sd stp src d) s) = Inr resp"
    and "rs_body resp = Json (ZBTrain t)"
  shows "t \<in> set (zdb_trains (zs_db (snd (zug_on_request ua C F uu now (ZActivate uid sd stp src d) s)))) \<and>
    activation_key t = (uid, sd, stp, src, d)"
proof -
  obtain r db1 where a: "activator_nrod F uu uid sd stp src d (zs_db s) = (r, db1)"
    by (cases "activator_nrod F uu uid sd stp src d (zs_db s)")
  have r: "r = Inr t" and db1: "zs_db (snd (zug_on_request ua C F uu now (ZActivate uid sd stp src d) s)) = db1"
    using assms(2,3) by (auto simp: activate_train_def a zug_json_def json_response_def send_activation_def
        send_update_def split: sum.splits)
  obtain ms where low: "activate_lowlevel uu \<lparr>ad_uid = uid, ad_start_date = sd, ad_stp_indicator = stp,
      ad_source = src, ad_run_date = d\<rparr> ms (zs_db s) = (Inr t, db1)" and ms: "originals ms"
    using a from_itps_originals unfolding r activator_nrod_def
    by (auto simp: get_tmvts_for_schedule_def res_map_Inr originals_def split: sum.splits option.splits)
  show ?thesis
    unfolding db1
    by (rule activate_lowlevel_cases [OF zug_reach_inv [OF assms(1)] ms low]) (auto simp: activation_match_key)
qed

end
