(* ===== verification/Nrod_Trust.thy ===== *)
theory Nrod_Trust
  imports Nrod_Props
begin

text \<open>
  What the messages of the feeds do: the store of known trains, activations, movements that are recorded
  and movements that are lost.
\<close>

section \<open>Properties\<close>


text \<open>
  C26. An activation message that is processed leaves a train of the schedule and day of the message that has the
  TRUST id, and the worker finds it under this id from then on, whatever the date.
\<close>

theorem activation_links_trust_id:
  assumes "zug_reach (nw_zug w)" "handle_activation hdr (zug_service ua C F uu now) a w = (Inr (), v)"
  shows "\<exists>t\<in>set (zdb_trains (zs_db (nw_zug v))).
    activation_key t = (act_train_uid a, act_schedule_start_date a, [as_char (act_schedule_type a)],
      uint (activation_source (act_schedule_source a)), dt_date (act_origin_dep_timestamp a)) \<and>
    tr_trust_id t = Some (act_train_id a) \<and>
    lookup_trust_id Z (act_train_id a) date v = (Inr (tr_tspl_id t), v)"
proof -
  let ?req = "ZActivate (act_train_uid a) (act_schedule_start_date a) [as_char (act_schedule_type a)]
      (uint (activation_source (act_schedule_source a))) (dt_date (act_origin_dep_timestamp a))"
  obtain t resp s1 resp2 where resp: "fst (zug_on_request ua C F uu now ?req (nw_zug w)) = Inr resp"
    "rs_body resp = Json (ZBTrain t)"
    and s1: "s1 = snd (zug_on_request ua C F uu now ?req (nw_zug w))"
    and resp2: "fst (zug_on_request ua C F uu now (ZAssociate (tr_tspl_id t) (act_train_id a)) s1) = Inr resp2"
    and v: "v = w\<lparr>nw_zug := snd (zug_on_request ua C F uu now (ZAssociate (tr_tspl_id t) (act_train_id a)) s1),
      nw_store := AList.update (act_train_id a) (tr_tspl_id t) (nw_store w)\<rparr>"
    using assms(2)
    by (auto simp: handle_activation_def nbind_Inr zreq_Inr need_header_def nlift_def remember_def
        split: if_splits elim!: as_train.elims)
  have t: "t \<in> set (zdb_trains (zs_db s1))" "activation_key t = (act_train_uid a, act_schedule_start_date a,
      [as_char (act_schedule_type a)], uint (activation_source (act_schedule_source a)), dt_date (act_origin_dep_timestamp a))"
    using activate_request [OF assms(1) resp] by (simp_all add: s1)
  have db: "zs_db (nw_zug v) = snd (update_trains (\<lambda>x. tr_tspl_id x = tr_tspl_id t)
      (\<lambda>x. x\<lparr>tr_trust_id := Some (act_train_id a)\<rparr>) (zs_db s1))"
    using resp2 by (auto simp: v associate_trust_id_def zug_json_def update_trains_unique_def Let_def split_beta
        split: sum.splits if_splits)
  have "t\<lparr>tr_trust_id := Some (act_train_id a)\<rparr> \<in> set (zdb_trains (zs_db (nw_zug v)))"
    using t(1) by (force simp: db update_trains_def)
  moreover have "lookup_trust_id Z (act_train_id a) date v = (Inr (tr_tspl_id t), v)"
    by (simp add: lookup_trust_id_def v)
  ultimately show ?thesis using t(2) by (intro bexI) auto
qed


section \<open>Movements\<close>

lemma lookup_trust_id_Inr:
  assumes "zug_reach (nw_zug w)" "lookup_trust_id (zug_service ua C F uu now) tid date w = (Inr u, v)"
  shows "nw_zug v = nw_zug w \<and> (map_of (nw_store w) tid = Some u \<or>
    (\<exists>t\<in>set (zdb_trains (zs_db (nw_zug w))). tr_tspl_id t = u \<and> tr_trust_id t = Some tid \<and> tr_date t = date))"
proof (cases "map_of (nw_store w) tid")
  case None
  obtain t v1 where call: "zreq (zug_service ua C F uu now) as_train (ZByTrustId tid date) w = (Inr t, v1)"
    and rest: "u = tr_tspl_id t" "nw_zug v = nw_zug v1"
    using assms(2) by (auto simp: lookup_trust_id_def None nbind_Inr remember_def nret_def)
  from call have "get_train_for_trust_id C (zs_db (nw_zug w)) tid date = Inr t" "nw_zug v1 = nw_zug w"
    by (auto simp: zreq_Inr zug_json_def res_map_Inr json_response_def)
  with rest show ?thesis by (auto simp: trust_lookup_iff [OF zug_reach_inv [OF assms(1)]])
qed (use assms(2) in \<open>simp add: lookup_trust_id_def\<close>)

lemma terminate_request:
  assumes "fst (zug_on_request ua C F uu now (ZTerminate tid) s) = Inr resp"
  shows "zdb_mvts (zs_db (snd (zug_on_request ua C F uu now (ZTerminate tid) s))) = zdb_mvts (zs_db s) \<and>
    (\<exists>t\<in>set (zdb_trains (zs_db (snd (zug_on_request ua C F uu now (ZTerminate tid) s)))).
       tr_tspl_id t = tid \<and> tr_terminated t)"
proof -
  obtain t where "t \<in> set (zdb_trains (zs_db s))" "tr_tspl_id t = tid"
    using assms
    by (auto simp: terminate_train_def zug_json_def res_map_Inr update_trains_def filter_empty_conv split: if_splits)
  then have "t\<lparr>tr_terminated := True\<rparr> \<in> set (zdb_trains (zs_db (snd (zug_on_request ua C F uu now (ZTerminate tid) s))))"
    by (force simp: terminate_train_def update_trains_def split_beta)
  with \<open>tr_tspl_id t = tid\<close> show ?thesis
    by (intro conjI bexI) (simp_all add: terminate_train_def update_trains_def split_beta)
qed

lemma trust_movement_request:
  assumes "fst (zug_on_request ua C F uu now (ZTrustMovement tid upd) s) = Inr resp"
    and "s' = snd (zug_on_request ua C F uu now (ZTrustMovement tid upd) s)"
  shows "\<exists>t x r. find_train (zs_db s) tid = Inr t \<and> trust_matches (zs_db s) t upd = [x] \<and>
    zs_db s' = (zs_db s)\<lparr>zdb_mvts := zdb_mvts (zs_db s) @ [r]\<rparr> \<and> tm_updates r = Some (tm_id x) \<and>
    tm_parent_train r = tr_id t \<and> tm_time r = tu_actual_time upd \<and> tm_actual r \<and> tm_source r = SOURCE_TRUST"
proof -
  obtain m where "process_trust_mvt_update now tid upd s = (Inr m, s')"
    using assms by (cases "process_trust_mvt_update now tid upd s") (auto simp: zug_json_def res_map_Inr)
  then show ?thesis
  proof (rule process_trust_Inr, goal_cases)
    case (1 t x rid m0)
    then show ?case by auto
  qed
qed

lemma handle_movement_Inr:
  assumes "handle_movement C hdr (zug_service ua C F uu now) m w = (Inr (), v)" "\<not> mvt_offroute_ind m"
  obtains ts u w1 dom resp s2 where "mvt_planned_timestamp m = Some ts"
    "lookup_trust_id (zug_service ua C F uu now) (mvt_train_id m) (dt_date ts) w = (Inr u, w1)"
    "trust_id_extract_day_of_month (mvt_train_id m) = Inr dom"
    "fst (zug_on_request ua C F uu now
       (ZTrustMovement u (trust_update m ts (trust_day_offset C (dt_date ts) dom))) (nw_zug w1)) = Inr resp"
    "s2 = snd (zug_on_request ua C F uu now
       (ZTrustMovement u (trust_update m ts (trust_day_offset C (dt_date ts) dom))) (nw_zug w1))"
    "if mvt_train_terminated m
     then (\<exists>resp. fst (zug_on_request ua C F uu now (ZTerminate u) s2) = Inr resp) \<and>
       nw_zug v = snd (zug_on_request ua C F uu now (ZTerminate u) s2)
     else nw_zug v = s2"
proof -
  obtain ts u w1 dom w2 r where steps: "mvt_planned_timestamp m = Some ts"
    "lookup_trust_id (zug_service ua C F uu now) (mvt_train_id m) (dt_date ts) w = (Inr u, w1)"
    "trust_id_extract_day_of_month (mvt_train_id m) = Inr dom"
    "zreq (zug_service ua C F uu now) as_mvt
       (ZTrustMovement u (trust_update m ts (trust_day_offset C (dt_date ts) dom))) w1 = (Inr r, w2)"
    "(if mvt_train_terminated m then zreq (zug_service ua C F uu now) as_unit (ZTerminate u) else nret ()) w2 = (Inr (), v)"
    using assms
    by (simp only: handle_movement_def if_False nbind_Inr nlift_def)
       (auto simp: need_header_def nlift_def nret_def ok_or_def split: if_splits option.splits)
  obtain resp where resp: "fst (zug_on_request ua C F uu now
       (ZTrustMovement u (trust_update m ts (trust_day_offset C (dt_date ts) dom))) (nw_zug w1)) = Inr resp"
    and w2: "nw_zug w2 = snd (zug_on_request ua C F uu now
       (ZTrustMovement u (trust_update m ts (trust_day_offset C (dt_date ts) dom))) (nw_zug w1))"
    using steps(4) by (auto simp: zreq_Inr simp del: zug_on_request.simps)
  show thesis
    by (rule that [OF steps(1-3) resp w2])
       (use steps(5) in \<open>auto simp: zreq_Inr nret_def split: if_splits simp del: zug_on_request.simps\<close>)
qed

text \<open>
  C21. A movement message that is processed adds exactly one report: the train is the one the store names, or
  the one of the planned day that has the TRUST id; the report refers to the original movement of that train with
  the planned time and the day offset computed from the TRUST id, carries the actual time, and a train
  reported as terminated is marked so.
\<close>

theorem trust_movement_recorded:
  assumes "zug_reach (nw_zug w)" "\<not> mvt_offroute_ind m"
    and "handle_movement C hdr (zug_service ua C F uu now) m w = (Inr (), v)"
  shows "\<exists>ts dom t x r. mvt_planned_timestamp m = Some ts \<and>
    trust_id_extract_day_of_month (mvt_train_id m) = Inr dom \<and>
    t \<in> set (zdb_trains (zs_db (nw_zug w))) \<and>
    (map_of (nw_store w) (mvt_train_id m) = Some (tr_tspl_id t) \<or>
     tr_trust_id t = Some (mvt_train_id m) \<and> tr_date t = dt_date ts) \<and>
    x \<in> set (zdb_mvts (zs_db (nw_zug w))) \<and> tm_parent_train x = tr_id t \<and> tm_updates x = None \<and>
    tm_time x = dt_time ts \<and> tm_day_offset x = (if day_of_month C (dt_date ts) = dom then 0 else 1) \<and>
    zdb_mvts (zs_db (nw_zug v)) = zdb_mvts (zs_db (nw_zug w)) @ [r] \<and> tm_updates r = Some (tm_id x) \<and>
    tm_parent_train r = tr_id t \<and> tm_time r = dt_time (mvt_actual_timestamp m) \<and> tm_actual r \<and>
    tm_source r = SOURCE_TRUST \<and>
    (mvt_train_terminated m \<longrightarrow>
       (\<exists>t'\<in>set (zdb_trains (zs_db (nw_zug v))). tr_tspl_id t' = tr_tspl_id t \<and> tr_terminated t'))"
proof (rule handle_movement_Inr [OF assms(3,2)], goal_cases)
  case (1 ts u w1 dom resp s2)
  have w1: "nw_zug w1 = nw_zug w" and known: "map_of (nw_store w) (mvt_train_id m) = Some u \<or>
      (\<exists>t\<in>set (zdb_trains (zs_db (nw_zug w))). tr_tspl_id t = u \<and> tr_trust_id t = Some (mvt_train_id m) \<and> tr_date t = dt_date ts)"
    using lookup_trust_id_Inr [OF assms(1) 1(2)] by blast+
  obtain t x r where upd: "find_train (zs_db (nw_zug w)) u = Inr t"
    "trust_matches (zs_db (nw_zug w)) t (trust_update m ts (trust_day_offset C (dt_date ts) dom)) = [x]"
    "zs_db s2 = (zs_db (nw_zug w))\<lparr>zdb_mvts := zdb_mvts (zs_db (nw_zug w)) @ [r]\<rparr>" "tm_updates r = Some (tm_id x)"
    "tm_parent_train r = tr_id t" "tm_time r = dt_time (mvt_actual_timestamp m)" "tm_actual r" "tm_source r = SOURCE_TRUST"
    using trust_movement_request [OF 1(4,5)] by (auto simp: w1 trust_update_def)
  have t: "t \<in> set (zdb_trains (zs_db (nw_zug w)))" "tr_tspl_id t = u"
    using upd(1) by (simp_all add: find_train_Inr [OF zug_reach_inv [OF assms(1)]])
  have x: "x \<in> set (zdb_mvts (zs_db (nw_zug w)))" "tm_parent_train x = tr_id t" "tm_updates x = None"
    "tm_time x = dt_time ts" "tm_day_offset x = (if day_of_month C (dt_date ts) = dom then 0 else 1)"
    using upd(2) by (auto simp: trust_matches_def filter_eq_Cons_iff trust_update_def trust_day_offset_def)
  have named: "map_of (nw_store w) (mvt_train_id m) = Some (tr_tspl_id t) \<or>
     tr_trust_id t = Some (mvt_train_id m) \<and> tr_date t = dt_date ts"
  proof -
    have "t' = t" if "t' \<in> set (zdb_trains (zs_db (nw_zug w)))" "tr_tspl_id t' = u" for t'
      using distinct_mapD [OF zdb_invD(2) [OF zug_reach_inv [OF assms(1)]] that(1) t(1)] that(2) t(2) by simp
    with known t(2) show ?thesis by blast
  qed
  have mvts: "zdb_mvts (zs_db (nw_zug v)) = zdb_mvts (zs_db (nw_zug w)) @ [r]"
    "mvt_train_terminated m \<longrightarrow> (\<exists>t'\<in>set (zdb_trains (zs_db (nw_zug v))). tr_tspl_id t' = tr_tspl_id t \<and> tr_terminated t')"
    using 1(6) upd(3) terminate_request [where s = s2 and tid = u and ua = ua and C = C and F = F and uu = uu and now = now] t(2)
    by (auto split: if_splits simp del: zug_on_request.simps)
  show ?case
    by (intro exI conjI) (rule 1(1) 1(3) t(1) named x mvts upd(4-8))+
qed

text \<open>
  A movement of a train the worker does not know is dropped, with nothing changed, when no train of the planned day
  has its TRUST id: the lookup asks for the day of the movement, and so loses the reports that a train makes
  after midnight.
\<close>

theorem trust_movement_other_day_dropped:
  assumes "zug_reach (nw_zug w)" "map_of (nw_store w) (mvt_train_id m) = None" "\<not> mvt_offroute_ind m"
    and "mvt_planned_timestamp m = Some ts"
    and "\<And>t. t \<in> set (zdb_trains (zs_db (nw_zug w))) \<Longrightarrow> tr_trust_id t = Some (mvt_train_id m) \<Longrightarrow>
      tr_date t \<noteq> dt_date ts"
  shows "handle_movement C hdr (zug_service ua C F uu now) m w = (Inl (NRpc RemoteNotFound), w)"
proof -
  have "get_train_for_trust_id C (zs_db (nw_zug w)) (mvt_train_id m) (dt_date ts) \<noteq> Inr t" for t
    using assms(5) by (auto simp: trust_lookup_iff [OF zug_reach_inv [OF assms(1)]])
  moreover have "get_train_for_trust_id C db i d = Inl ZNotFound \<or> (\<exists>t. get_train_for_trust_id C db i d = Inr t)" for db i d
    by (simp add: get_train_for_trust_id_def Let_def ok_or_def split: option.split)
  ultimately have "get_train_for_trust_id C (zs_db (nw_zug w)) (mvt_train_id m) (dt_date ts) = Inl ZNotFound" by blast
  then have "fst (zug_on_request ua C F uu now (ZByTrustId (mvt_train_id m) (dt_date ts)) (nw_zug w)) = Inl ZNotFound"
    by (simp add: zug_json_def)
  note zug_service_not_found [OF this]
  then have "zreq (zug_service ua C F uu now) as_train (ZByTrustId (mvt_train_id m) (dt_date ts)) w =
      (Inl (NRpc RemoteNotFound), w)"
    by (simp add: zreq_def split_beta)
  with assms(2-4) show ?thesis
    by (simp add: handle_movement_def nbind_def nlift_def lookup_trust_id_def)
qed

section \<open>A worker\<close>

definition sample_worker :: "zug_state worker" where
  "sample_worker = \<lparr>nw_store = [], nw_zug = sample_state\<rparr>"

definition sample_service :: "zug_state zug_call" where
  "sample_service = zug_service ''ua'' chrono_civil sample_api (Uuid 2) sample_now"

definition sample_activation_msg :: activation where
  "sample_activation_msg =
     \<lparr>act_schedule_source = Source_CifItps, act_train_file_address = None,
      act_schedule_end_date = NaiveDate 737430, act_train_id = ''721A23MX06'',
      act_tp_origin_timestamp = NaiveDate 737430, act_creation_timestamp = sample_now,
      act_tp_origin_stanox = None, act_origin_dep_timestamp = sample_now,
      act_train_service_code = ''22721000'', act_toc_id = ''20'', act_d1266_record_number = ''00000'',
      act_train_call_type = AutoMan_Automatic, act_train_uid = ''C12345'',
      act_train_call_mode = CallMode_Normal, act_schedule_type = StpPermanent,
      act_sched_origin_stanox = ''72410'', act_schedule_wtt_id = ''1A23M'',
      act_schedule_start_date = NaiveDate 737421\<rparr>"

definition sample_linked :: zug_state where
  "sample_linked = sample_state
     \<lparr>zs_db := (zs_db sample_state)\<lparr>zdb_trains := [sample_train\<lparr>tr_trust_id := Some ''721A23MX06''\<rparr>]\<rparr>,
      zs_cast := zs_cast sample_state @ [\<lparr>bp_ts = sample_now, bp_update = BcActivation sample_train\<rparr>]\<rparr>"

lemma sample_activate_call:
  "sample_service (ZActivate ''C12345'' (NaiveDate 737421) ''P'' 0 (NaiveDate 737430)) sample_state =
     (Inr (ZBTrain sample_train), sample_state
        \<lparr>zs_cast := zs_cast sample_state @ [\<lparr>bp_ts = sample_now, bp_update = BcActivation sample_train\<rparr>]\<rparr>)"
  by (simp add: sample_service_def zug_service_def activate_train_def activator_nrod_def sample_api_def
      get_tmvts_for_schedule_def activate_lowlevel_def activation_match_def sample_state_def
      sample_activated_def sample_train_def zug_json_def json_response_def process_request_def
      req_with_headers_def is_success_def send_activation_def send_update_def)

lemma sample_associate_call:
  "sample_service (ZAssociate (Uuid 1) ''721A23MX06'') (snd (sample_service
      (ZActivate ''C12345'' (NaiveDate 737421) ''P'' 0 (NaiveDate 737430)) sample_state)) = (Inr ZBUnit, sample_linked)"
  unfolding sample_activate_call
  by (simp add: sample_service_def zug_service_def associate_trust_id_def update_trains_unique_def
      update_trains_def sample_state_def sample_activated_def sample_train_def sample_linked_def
      trust_unique_def Let_def zug_json_def json_response_def process_request_def req_with_headers_def is_success_def)

lemma sample_activation_result:
  "handle_activation (\<lambda>_. True) sample_service sample_activation_msg sample_worker =
     (Inr (), \<lparr>nw_store = [(''721A23MX06'', Uuid 1)], nw_zug = sample_linked\<rparr>)"
proof -
  have [simp]: "tr_tspl_id sample_train = Uuid 1" "dt_date sample_now = NaiveDate 737430"
    by (simp_all add: sample_train_def sample_now_def)
  show ?thesis
    using sample_associate_call
    by (simp add: handle_activation_def nbind_def need_header_def nlift_def zreq_def remember_def
        sample_activation_msg_def sample_worker_def activation_source_def SOURCE_ITPS_def sample_activate_call)
qed

definition sample_header :: mvt_header where
  "sample_header = \<lparr>mh_msg_type = ''0001'', mh_source_dev_id = '''', mh_source_system_id = ''TRUST'',
     mh_original_data_source = ''TSIA'', mh_msg_queue_timestamp = sample_now\<rparr>"

definition sample_batch :: "mvt_record list" where
  "sample_batch = [\<lparr>rec_header = sample_header, rec_body = BodyActivation sample_activation_msg\<rparr>]"


lemma activation_links_trust_id_witness:
  "\<exists>t\<in>set (zdb_trains (zs_db sample_linked)). tr_trust_id t = Some ''721A23MX06''"
  using activation_links_trust_id [of sample_worker "\<lambda>_. True" "''ua''" chrono_civil sample_api "Uuid 2"
      sample_now sample_activation_msg]
    sample_activation_result [unfolded sample_service_def]
  by (force simp: sample_worker_def sample_reach sample_activation_msg_def)


lemma sample_linked_reach: "zug_reach sample_linked"
proof -
  have "zug_reach (snd (sample_service (ZActivate ''C12345'' (NaiveDate 737421) ''P'' 0 (NaiveDate 737430)) sample_state))"
    unfolding sample_service_def by (rule zserv.keeps [OF sample_reach])
  then have "zug_reach (snd (sample_service (ZAssociate (Uuid 1) ''721A23MX06'') (snd (sample_service
      (ZActivate ''C12345'' (NaiveDate 737421) ''P'' 0 (NaiveDate 737430)) sample_state))))"
    unfolding sample_service_def by (rule zserv.keeps)
  then show ?thesis unfolding sample_associate_call by simp
qed

definition sample_movement :: "naive_datetime \<Rightarrow> movement" where
  "sample_movement planned =
     \<lparr>mvt_event_type = Event_Departure, mvt_gbtt_timestamp = None, mvt_original_loc_stanox = None,
      mvt_planned_timestamp = Some planned, mvt_timetable_variation = 4, mvt_original_loc_timestamp = None,
      mvt_current_train_id = None, mvt_delay_monitoring_point = True, mvt_next_report_run_time = None,
      mvt_reporting_stanox = None, mvt_actual_timestamp = NaiveDateTime (NaiveDate 737430) (NaiveTime 36240 0),
      mvt_correction_ind = False, mvt_event_source = AutoMan_Automatic, mvt_train_file_address = None,
      mvt_platform = Some ''4'', mvt_division_code = ''20'', mvt_train_terminated = False,
      mvt_train_id = ''721A23MX06'', mvt_offroute_ind = False, mvt_variation_status = Variation_Late,
      mvt_train_service_code = ''22721000'', mvt_toc_id = ''20'', mvt_loc_stanox = ''72410'',
      mvt_auto_expected = Some True, mvt_direction_ind = Direction_Down, mvt_route = None,
      mvt_planned_event_type = Event_Departure, mvt_next_report_stanox = None, mvt_line_ind = None\<rparr>"

lemma sample_days:
  "trust_id_extract_day_of_month ''721A23MX06'' = Inr 6" "day_of_month chrono_civil (NaiveDate 737430) = 6"
  by (simp_all add: trust_id_extract_day_of_month_def parse_u32_def parse_unsigned_def is_digit_def digits_value_def
      chrono_civil_def civil_day_of_month_def civil_doy_def cut_def civil_month_day_def)

lemma sample_movement_result:
  "\<exists>v. handle_movement chrono_civil (\<lambda>_. True) sample_service (sample_movement sample_now)
     \<lparr>nw_store = [(''721A23MX06'', Uuid 1)], nw_zug = sample_linked\<rparr> = (Inr (), v)"
proof -
  let ?upd = "trust_update (sample_movement sample_now) sample_now 0"
  have now: "dt_date sample_now = NaiveDate 737430" "dt_time sample_now = NaiveTime 36000 0"
    by (simp_all add: sample_now_def)
  have upd: "?upd = sample_trust\<lparr>tu_platform := Some ''4''\<rparr>"
    by (simp add: trust_update_def sample_movement_def sample_trust_def now event_action_def ACTION_DEPARTURE_def)
  have "\<exists>m s. process_trust_mvt_update sample_now (Uuid 1) ?upd sample_linked = (Inr m, s)"
    unfolding upd
    by (simp add: process_trust_mvt_update_def trust_matches_def sample_trust_def sample_linked_def
        sample_state_defs ACTION_DEPARTURE_def)
  then obtain m s where "process_trust_mvt_update sample_now (Uuid 1) ?upd sample_linked = (Inr m, s)" by blast
  then have call: "sample_service (ZTrustMovement (Uuid 1) ?upd) sample_linked = (Inr (ZBMvt m), s)"
    by (simp add: sample_service_def zug_service_def zug_json_def json_response_def process_request_def
        req_with_headers_def is_success_def)
  have fields: "\<not> mvt_offroute_ind (sample_movement sample_now)" "mvt_platform (sample_movement sample_now) = Some ''4''"
    "mvt_planned_timestamp (sample_movement sample_now) = Some sample_now"
    "mvt_train_id (sample_movement sample_now) = ''721A23MX06''" "\<not> mvt_train_terminated (sample_movement sample_now)"
    by (simp_all add: sample_movement_def)
  show ?thesis
    by (simp add: handle_movement_def lookup_trust_id_def nbind_def nlift_def need_header_def zreq_def
        sample_days trust_day_offset_def fields nret_def now call)
qed


lemma trust_movement_recorded_witness:
  "\<exists>v r. handle_movement chrono_civil (\<lambda>_. True) sample_service (sample_movement sample_now)
      \<lparr>nw_store = [(''721A23MX06'', Uuid 1)], nw_zug = sample_linked\<rparr> = (Inr (), v) \<and>
    zdb_mvts (zs_db (nw_zug v)) = zdb_mvts (zs_db sample_linked) @ [r] \<and>
    tm_time r = NaiveTime 36240 0 \<and> tm_source r = SOURCE_TRUST"
proof -
  let ?w = "\<lparr>nw_store = [(''721A23MX06'', Uuid 1)], nw_zug = sample_linked\<rparr>"
  obtain v where res: "handle_movement chrono_civil (\<lambda>_. True) sample_service (sample_movement sample_now) ?w = (Inr (), v)"
    using sample_movement_result by blast
  moreover have "zug_reach (nw_zug ?w)" "\<not> mvt_offroute_ind (sample_movement sample_now)"
    by (simp_all add: sample_linked_reach sample_movement_def)
  note trust_movement_recorded [OF this res [unfolded sample_service_def]]
  ultimately show ?thesis by (auto simp: sample_movement_def)
qed

text \<open>A report for ten past midnight, from a worker that has been restarted.\<close>

lemma trust_movement_other_day_dropped_witness:
  "handle_movement chrono_civil (\<lambda>_. True) sample_service
     (sample_movement (NaiveDateTime (NaiveDate 737431) (NaiveTime 600 0)))
     \<lparr>nw_store = [], nw_zug = sample_linked\<rparr> =
   (Inl (NRpc RemoteNotFound), \<lparr>nw_store = [], nw_zug = sample_linked\<rparr>)"
proof -
  have "tr_date t \<noteq> NaiveDate 737431" if "t \<in> set (zdb_trains (zs_db sample_linked))" for t
    using that by (simp add: sample_linked_def sample_train_def)
  then show ?thesis
    unfolding sample_service_def
    by (intro trust_movement_other_day_dropped [where ts = "NaiveDateTime (NaiveDate 737431) (NaiveTime 600 0)"])
       (simp_all add: sample_movement_def sample_linked_reach)
qed

end
