(* ===== verification/Nrod_Darwin.thy ===== *)
theory Nrod_Darwin
  imports Nrod_Props
begin

text \<open>
  What a Darwin train status becomes: the updates it is flattened into with their day offsets, and the
  requests that are sent for them.
\<close>

section \<open>Day offsets\<close>

text \<open>The times that the closure counts up for and down for, seen from the time \<open>f\<close>.\<close>

definition counts_up :: "chrono \<Rightarrow> naive_time \<Rightarrow> naive_time \<Rightarrow> bool" where
  "counts_up C f t \<longleftrightarrow> t < f \<and> hours_since C f t \<ge> 6"

definition counts_down :: "chrono \<Rightarrow> naive_time \<Rightarrow> naive_time \<Rightarrow> bool" where
  "counts_down C f t \<longleftrightarrow> \<not> t < f \<and> hours_since C t f \<ge> 18"

definition offset_from :: "chrono \<Rightarrow> naive_time \<Rightarrow> naive_time list \<Rightarrow> u8" where
  "offset_from C f ts = of_nat (length (filter (counts_up C f) ts)) - of_nat (length (filter (counts_down C f) ts))"

definition offsets_ok :: "chrono \<Rightarrow> flat_state \<Rightarrow> bool" where
  "offsets_ok C st \<longleftrightarrow>
     (case map up_time_sched (snd st) of
        [] \<Rightarrow> fst st = (None, 0)
      | f # ts \<Rightarrow> fst st = (Some f, offset_from C f ts) \<and>
          map up_day_offset (snd st) = map (\<lambda>k. offset_from C f (take k ts)) [0..<Suc (length ts)])"

lemma offset_from_snoc:
  "offset_from C f (ts @ [t]) =
     offset_from C f ts + (if counts_up C f t then 1 else 0) - (if counts_down C f t then 1 else 0)"
  by (simp add: offset_from_def)

lemma update_day_offset_Some:
  "update_day_offset C t (Some f, off) =
     (Some f, off + (if counts_up C f t then 1 else 0) - (if counts_down C f t then 1 else 0))"
  by (simp add: update_day_offset_def counts_up_def counts_down_def)

lemma push_update_ok:
  assumes "offsets_ok C st" "push_update C tpl action sched plat data st = Inr st'"
  shows "offsets_ok C st'"
proof (cases data)
  case None
  with assms show ?thesis by (simp add: push_update_def)
next
  case (Some d)
  obtain t where st': "st' = (update_day_offset C t (fst st), snd st @ [\<lparr>up_time_sched = t,
      up_day_offset = snd (update_day_offset C t (fst st)), up_tiploc = tpl, up_action = action, up_tstd = d,
      up_platform = plat\<rparr>])"
    using assms(2) by (auto simp: push_update_def Some res_map_Inr Let_def)
  show ?thesis
  proof (cases "map up_time_sched (snd st)")
    case Nil
    with assms(1) show ?thesis
      by (simp add: offsets_ok_def st' update_day_offset_def offset_from_def)
  next
    case (Cons f ts)
    then have "fst st = (Some f, offset_from C f ts)"
      and "map up_day_offset (snd st) = map (\<lambda>k. offset_from C f (take k ts)) [0..<Suc (length ts)]"
      using assms(1) by (simp_all add: offsets_ok_def)
    with Cons show ?thesis
      by (simp add: offsets_ok_def st' update_day_offset_Some offset_from_snoc)
  qed
qed

lemma flatten_locations_ok:
  assumes "flatten_locations C locs = Inr us"
  obtains st where "offsets_ok C st" "snd st = us"
proof -
  have "offsets_ok C st'" if "offsets_ok C st" "flatten_location C loc st = Inr st'" for loc st st'
    using that by (auto simp: flatten_location_def Let_def res_bind_Inr
        intro: push_update_ok [OF push_update_ok [OF push_update_ok]])
  then have "offsets_ok C st" if "res_fold (flatten_location C) locs ((None, 0), []) = Inr st" for st
    by (rule res_fold_invariant [OF _ _ that]) (simp_all add: offsets_ok_def)
  with that assms show thesis by (auto simp: flatten_locations_def res_map_Inr)
qed

text \<open>
  C38. The day offset of an update counts the times before it, and its own, that lie six hours or more before the
  first time of the message, less those eighteen hours or more after it, as a byte. So it grows with every call
  after midnight, not once at midnight: the closure never moves \<open>last_time\<close> on.
\<close>

theorem darwin_day_offsets:
  assumes "flatten_locations C locs = Inr us" "k < length us"
  shows "up_day_offset (us ! k) =
    offset_from C (up_time_sched (us ! 0)) (map up_time_sched (take k (tl us)))"
proof -
  obtain st where st: "offsets_ok C st" "snd st = us" by (rule flatten_locations_ok [OF assms(1)])
  obtain u rest where us: "us = u # rest" using assms(2) by (cases us) simp_all
  have "up_day_offset (us ! k) = map up_day_offset us ! k" using assms(2) by simp
  also have "\<dots> = map (\<lambda>k. offset_from C (up_time_sched u) (take k (map up_time_sched rest)))
      [0..<Suc (length (map up_time_sched rest))] ! k"
    using st by (simp add: offsets_ok_def us)
  also have "\<dots> = offset_from C (up_time_sched u) (take k (map up_time_sched rest))"
    using assms(2) by (simp add: us del: upt_Suc)
  finally show ?thesis by (simp add: us take_map)
qed

text \<open>A train that calls at half past eleven, ten past midnight and twenty to one.\<close>

definition sample_times :: ts_time_data where
  "sample_times =
     \<lparr>tt_et = Some (NaiveTime 300 0), tt_wet = None, tt_at = None, tt_at_removed = False, tt_etmin = None,
      tt_et_unknown = False, tt_delayed = False, tt_src = None, tt_src_inst = None, tt_at_class = None\<rparr>"

definition sample_pass :: "string \<Rightarrow> nat \<Rightarrow> ts_location" where
  "sample_pass tpl secs =
     \<lparr>tl_tiploc = tpl,
      tl_timings = \<lparr>ct_wta = None, ct_wtd = None, ct_wtp = Some (NaiveTime secs 0), ct_pta = None, ct_ptd = None\<rparr>,
      tl_arr = None, tl_dep = None, tl_pass = Some sample_times, tl_plat = None, tl_suppr = False,
      tl_length = 0, tl_detach_front = False\<rparr>"

lemma darwin_day_offsets_witness:
  "\<exists>us. flatten_locations chrono_civil [sample_pass ''WATFDJ'' 84600, sample_pass ''BLTCHLY'' 600,
      sample_pass ''MKNSCEN'' 2400] = Inr us \<and> up_day_offset (us ! 2) = 2"
proof -
  obtain us where us: "flatten_locations chrono_civil [sample_pass ''WATFDJ'' 84600, sample_pass ''BLTCHLY'' 600,
      sample_pass ''MKNSCEN'' 2400] = Inr us" "map up_time_sched us = [NaiveTime 84600 0, NaiveTime 600 0, NaiveTime 2400 0]"
    by (simp add: flatten_locations_def flatten_location_def push_update_def sample_pass_def Let_def)
  then obtain a b c where abc: "us = [a, b, c]" "up_time_sched a = NaiveTime 84600 0"
    "up_time_sched b = NaiveTime 600 0" "up_time_sched c = NaiveTime 2400 0"
    by (auto simp: map_eq_Cons_conv)
  have "up_day_offset (us ! 2) = offset_from chrono_civil (NaiveTime 84600 0) [NaiveTime 600 0, NaiveTime 2400 0]"
    using darwin_day_offsets [OF us(1), of 2] abc by simp
  also have "\<dots> = 2"
    by (simp add: offset_from_def counts_up_def counts_down_def less_naive_time_def chrono_civil_def civil_hours_since_def)
  finally show ?thesis using us(1) by blast
qed


section \<open>The train of a message\<close>

lemma activate_darwin_rid:
  assumes "activate_train_darwin F uu now uid date rid s = (Inr t, s')" "zdb_inv (zs_db s)"
  shows "t \<in> set (zdb_trains (zs_db s')) \<and> tr_darwin_rid t = Some rid"
proof -
  obtain t0 db1 where act: "activator_darwin F uu uid date (zs_db s) = (Inr t0, db1)"
    using assms(1) by (auto simp: activate_train_darwin_def split: prod.splits sum.splits)
  have "t0 \<in> set (zdb_trains db1)" using activator_ids(1) [OF assms(2) act] by simp
  then have "t0\<lparr>tr_darwin_rid := Some rid\<rparr> \<in> set (zdb_trains (snd (update_trains (\<lambda>t. tr_id t = tr_id t0)
      (\<lambda>t. t\<lparr>tr_darwin_rid := Some rid\<rparr>) db1)))"
    by (force simp: update_trains_def)
  with assms(1) show ?thesis
    by (auto simp: activate_train_darwin_def act update_trains_unique_def Let_def send_activation_def
        send_update_def split: sum.splits if_splits prod.splits)
qed

text \<open>
  A message whose train is found or activated leaves the worker knowing it by its RID. If it did not know it
  before, \<open>tspl-zugfuhrer\<close> now has that train with the RID of the message.
\<close>

theorem darwin_train_known:
  assumes "zug_reach (nw_zug w)"
    and "lookup_or_activate_train hdr (zug_service ua C F uu now) rid uid ssd w = (Inr u, v)"
  shows "map_of (nw_store v) rid = Some u \<and>
    (map_of (nw_store w) rid = None \<longrightarrow>
      (\<exists>t\<in>set (zdb_trains (zs_db (nw_zug v))). tr_tspl_id t = u \<and> tr_darwin_rid t = Some rid))"
proof (cases "map_of (nw_store w) rid")
  case (Some u')
  with assms(2) show ?thesis by (simp add: lookup_or_activate_train_def)
next
  case None
  obtain r v1 where z: "zreq (zug_service ua C F uu now) as_train (ZByDarwinRid rid) w = (r, v1)"
    by (cases "zreq (zug_service ua C F uu now) as_train (ZByDarwinRid rid) w")
  have v1: "v1 = w"
    using z by (auto simp: zreq_def split_beta)
  show ?thesis
  proof (cases r)
    case (Inr t)
    then have "get_train_for_darwin_rid (zs_db (nw_zug w)) rid = Inr t"
      using z by (auto simp: zreq_Inr zug_json_def res_map_Inr json_response_def)
    then have "t \<in> set (zdb_trains (zs_db (nw_zug w)))" "tr_darwin_rid t = Some rid"
      by (auto simp: get_train_for_darwin_rid_def dest!: nth0_filter_Some)
    with assms(2) show ?thesis
      by (auto simp: lookup_or_activate_train_def None z Inr v1 nbind_Inr remember_def nret_def)
  next
    case (Inl e)
    obtain t v2 where call: "zreq (zug_service ua C F uu now) as_train (ZActivateFuzzy uid rid ssd) w = (Inr t, v2)"
      and u: "u = tr_tspl_id t" and v: "v = v2\<lparr>nw_store := AList.update rid (tr_tspl_id t) (nw_store v2)\<rparr>"
      using assms(2)
      by (auto simp: lookup_or_activate_train_def None z Inl v1 nbind_Inr remember_def nret_def need_header_def
          nlift_def split: if_splits)
    from call have "\<exists>s'. activate_train_darwin F uu now uid ssd rid (nw_zug w) = (Inr t, s') \<and> nw_zug v2 = s'"
      by (cases "activate_train_darwin F uu now uid ssd rid (nw_zug w)")
         (auto simp: zreq_Inr zug_json_def res_map_Inr json_response_def)
    with activate_darwin_rid [OF _ zug_reach_inv [OF assms(1)]] show ?thesis
      by (auto simp: u v)
  qed
qed

text \<open>The train of \<open>sample_state\<close>, by a RID that nobody knows yet.\<close>

lemma darwin_train_known_witness:
  "\<exists>v. lookup_or_activate_train (\<lambda>_. True) (zug_service ''ua'' chrono_civil sample_api (Uuid 2) sample_now)
      ''202001067612345'' ''C12345'' (NaiveDate 737430) \<lparr>nw_store = [], nw_zug = sample_state\<rparr> = (Inr (Uuid 1), v) \<and>
    map_of (nw_store v) ''202001067612345'' = Some (Uuid 1) \<and>
    (\<exists>t\<in>set (zdb_trains (zs_db (nw_zug v))). tr_darwin_rid t = Some ''202001067612345'')"
proof -
  let ?Z = "zug_service ''ua'' chrono_civil sample_api (Uuid 2) sample_now"
  let ?w = "\<lparr>nw_store = [], nw_zug = sample_state\<rparr>"
  have none: "?Z (ZByDarwinRid ''202001067612345'') sample_state = (Inl RemoteNotFound, sample_state)"
    by (simp add: zug_service_def get_train_for_darwin_rid_def sample_state_def sample_activated_def
        sample_train_def zug_json_def process_request_def req_with_headers_def)
  have "fst (activate_train_darwin sample_api (Uuid 2) sample_now ''C12345'' (NaiveDate 737430) ''202001067612345'' sample_state) =
      Inr (sample_train\<lparr>tr_darwin_rid := Some ''202001067612345''\<rparr>)"
    by (simp add: activate_train_darwin_def activator_darwin_def sample_api_def get_tmvts_for_schedule_def
        activate_lowlevel_def activation_match_def sample_state_def sample_activated_def sample_train_def
        sample_schedule_def SOURCE_ITPS_def update_trains_unique_def update_trains_def Let_def)
  then obtain s' where "activate_train_darwin sample_api (Uuid 2) sample_now ''C12345'' (NaiveDate 737430) ''202001067612345'' sample_state =
      (Inr (sample_train\<lparr>tr_darwin_rid := Some ''202001067612345''\<rparr>), s')"
    by (metis prod.collapse)
  then have "?Z (ZActivateFuzzy ''C12345'' ''202001067612345'' (NaiveDate 737430)) sample_state =
      (Inr (ZBTrain (sample_train\<lparr>tr_darwin_rid := Some ''202001067612345''\<rparr>)), s')"
    by (simp add: zug_service_def zug_json_def json_response_def process_request_def req_with_headers_def
        is_success_def)
  then obtain v where res: "lookup_or_activate_train (\<lambda>_. True) ?Z ''202001067612345'' ''C12345'' (NaiveDate 737430) ?w = (Inr (Uuid 1), v)"
    by (simp add: lookup_or_activate_train_def zreq_def none nbind_def need_header_def nlift_def remember_def
        nret_def sample_train_def)
  have "zug_reach (nw_zug ?w)" by (simp add: sample_reach)
  from darwin_train_known [OF this res] res show ?thesis by auto
qed

end
