(* ===== verification/Darwin_Xml.thy ===== *)
theory Darwin_Xml
  imports Darwin_Types Std_Parse
begin

text \<open>
  The deserializers of \<open>darwin-types\<close>. A reader is the list of the results of \<open>EventReader::next\<close>; at the
  end of the list it keeps giving \<open>EndDocument\<close>, as the documentation of the reader has it. A loop over events that
  does not end is the value \<open>None\<close>. The parsers of \<open>chrono\<close> are a parameter.

  The macros \<open>xml_attrs!\<close> and \<open>xml_iter!\<close> are the functions of those names; their arms are lists of
  handlers. A builder is a record of the values set so far.
\<close>

section \<open>Readers and decoders\<close>

type_synonym xml_reader = "(unit + xml_event) list"
type_synonym 'a decoded = "(darwin_error + 'a) option"
type_synonym 'a decoder = "xml_start \<Rightarrow> xml_reader \<Rightarrow> ('a \<times> xml_reader) decoded"

record darwin_parsers =
  dp_time_hms :: "string \<Rightarrow> naive_time option"
  dp_time_hm :: "string \<Rightarrow> naive_time option"
  dp_date :: "string \<Rightarrow> naive_date option"
  dp_rfc3339 :: "string \<Rightarrow> (naive_datetime \<times> int) option"

definition dret :: "darwin_error + 'a \<Rightarrow> 'a decoded" where
  "dret r = Some r"

definition dbind :: "'a decoded \<Rightarrow> ('a \<Rightarrow> 'b decoded) \<Rightarrow> 'b decoded" where
  "dbind m f = (case m of None \<Rightarrow> None | Some r \<Rightarrow> (case r of Inl e \<Rightarrow> Some (Inl e) | Inr a \<Rightarrow> f a))"

definition from_evt :: "xml_name \<Rightarrow> (xml_name \<times> string) list \<Rightarrow> xml_start" where
  "from_evt nm attrs = \<lparr>xs_name = nm, xs_attributes = attrs\<rparr>"

section \<open>Attributes\<close>

type_synonym 'b attr_handler = "string \<times> (string \<Rightarrow> 'b \<Rightarrow> darwin_error + 'b)"

definition xml_attrs :: "'b attr_handler list \<Rightarrow> (xml_name \<times> string) list \<Rightarrow> 'b \<Rightarrow> darwin_error + 'b" where
  "xml_attrs hs attrs b =
     res_fold
       (\<lambda>(n, v) b. case map_of hs (xn_local n) of None \<Rightarrow> Inl (DwExpected (xn_local n)) | Some f \<Rightarrow> f v b)
       attrs b"

text \<open>A field with a \<open>from\<close>; the macro's other arm for it is the concatenation of both names.\<close>

definition renamed :: "string \<Rightarrow> string \<Rightarrow> (string \<Rightarrow> 'b \<Rightarrow> darwin_error + 'b) \<Rightarrow> 'b attr_handler list" where
  "renamed name as_name f = [(as_name, f), (name @ ''INVALID'' @ as_name, f)]"

text \<open>The blocks of the arms: \<open>$value.parse()?\<close> at the types used, \<open>Some(value)\<close>, \<open>parse_time\<close>.\<close>

definition put_bool :: "(bool \<Rightarrow> 'b \<Rightarrow> 'b) \<Rightarrow> string \<Rightarrow> 'b \<Rightarrow> darwin_error + 'b" where
  "put_bool upd v b = res_map (\<lambda>x. upd x b) (ok_or DwParseBool (parse_bool v))"

definition put_i32 :: "(int \<Rightarrow> 'b \<Rightarrow> 'b) \<Rightarrow> string \<Rightarrow> 'b \<Rightarrow> darwin_error + 'b" where
  "put_i32 upd v b = res_map (\<lambda>x. upd x b) (ok_or DwParseInt (parse_i32 v))"

definition put_string :: "(string \<Rightarrow> 'b \<Rightarrow> 'b) \<Rightarrow> string \<Rightarrow> 'b \<Rightarrow> darwin_error + 'b" where
  "put_string upd v b = Inr (upd v b)"

definition parse_time :: "darwin_parsers \<Rightarrow> string \<Rightarrow> darwin_error + naive_time" where
  "parse_time D s =
     (case dp_time_hms D s of Some t \<Rightarrow> Inr t | None \<Rightarrow> ok_or DwChrono (dp_time_hm D s))"

definition put_time ::
    "darwin_parsers \<Rightarrow> (naive_time \<Rightarrow> 'b \<Rightarrow> 'b) \<Rightarrow> string \<Rightarrow> 'b \<Rightarrow> darwin_error + 'b" where
  "put_time D upd v b = res_map (\<lambda>x. upd x b) (parse_time D v)"

definition put_date ::
    "darwin_parsers \<Rightarrow> (naive_date \<Rightarrow> 'b \<Rightarrow> 'b) \<Rightarrow> string \<Rightarrow> 'b \<Rightarrow> darwin_error + 'b" where
  "put_date D upd v b = res_map (\<lambda>x. upd x b) (ok_or DwChrono (dp_date D v))"

text \<open>Building: a field that has to be set, and one that has a default.\<close>

definition required :: "string \<Rightarrow> 'a option \<Rightarrow> darwin_error + 'a" where
  "required name x = ok_or (DwBuildFail name) x"

definition or_default :: "'a \<Rightarrow> 'a option \<Rightarrow> 'a" where
  "or_default d x = (case x of None \<Rightarrow> d | Some a \<Rightarrow> a)"

section \<open>Content\<close>

type_synonym 'a child_handler = "xml_start \<Rightarrow> 'a \<Rightarrow> xml_reader \<Rightarrow> ('a \<times> xml_reader) decoded"

text \<open>
  \<open>children\<close> are the \<open>parse\<close> arms, \<open>chars\<close> the \<open>pat XmlEvent::Characters\<close> arm; \<open>lenient\<close> is the pragma. An
  unknown element is not skipped in the lenient loop: the loop goes on with its content.
\<close>

datatype 'a iter_step =
  IterStop "darwin_error + 'a \<times> xml_reader"
| IterNext 'a xml_reader

text \<open>One turn of the loop.\<close>

definition unexpected :: "bool \<Rightarrow> darwin_error \<Rightarrow> 'a \<Rightarrow> xml_reader \<Rightarrow> 'a iter_step" where
  "unexpected lenient e acc rd = (if lenient then IterNext acc rd else IterStop (Inl e))"

fun xml_event_step ::
    "bool \<Rightarrow> (string \<times> 'a child_handler) list \<Rightarrow> (string \<Rightarrow> 'a \<Rightarrow> darwin_error + 'a) option \<Rightarrow>
     xml_name \<Rightarrow> 'a \<Rightarrow> xml_event \<Rightarrow> xml_reader \<Rightarrow> 'a iter_step option" where
  "xml_event_step lenient children chars nm acc (XStart n attrs) rd =
     (case map_of children (xn_local n) of
        Some h \<Rightarrow>
          map_option (\<lambda>r. case r of Inl e \<Rightarrow> IterStop (Inl e) | Inr (acc1, rd1) \<Rightarrow> IterNext acc1 rd1)
            (h (from_evt n attrs) acc rd)
      | None \<Rightarrow> Some (unexpected lenient (DwUnexpectedStart n) acc rd))"
| "xml_event_step lenient children chars nm acc (XChars s) rd =
     (case chars of
        Some f \<Rightarrow> Some (case f s acc of Inl e \<Rightarrow> IterStop (Inl e) | Inr acc1 \<Rightarrow> IterNext acc1 rd)
      | None \<Rightarrow> Some (unexpected lenient (DwUnexpectedEvent (XChars s)) acc rd))"
| "xml_event_step lenient children chars nm acc (XEnd n) rd =
     Some (if n = nm then IterStop (Inr (acc, rd)) else unexpected lenient (DwUnexpectedEvent (XEnd n)) acc rd)"
| "xml_event_step lenient children chars nm acc (XWhitespace s) rd = Some (IterNext acc rd)"
| "xml_event_step lenient children chars nm acc ev rd =
     Some (unexpected lenient (DwUnexpectedEvent ev) acc rd)"

definition xml_step ::
    "bool \<Rightarrow> (string \<times> 'a child_handler) list \<Rightarrow> (string \<Rightarrow> 'a \<Rightarrow> darwin_error + 'a) option \<Rightarrow>
     xml_name \<Rightarrow> 'a \<Rightarrow> xml_reader \<Rightarrow> 'a iter_step option" where
  "xml_step lenient children chars nm acc rd =
     (case rd of
        [] \<Rightarrow> xml_event_step lenient children chars nm acc XEndDocument []
      | r # rd1 \<Rightarrow>
          (case r of
             Inl _ \<Rightarrow> Some (IterStop (Inl DwXmlError))
           | Inr ev \<Rightarrow> xml_event_step lenient children chars nm acc ev rd1))"

partial_function (option) xml_iter ::
    "bool \<Rightarrow> (string \<times> 'a child_handler) list \<Rightarrow> (string \<Rightarrow> 'a \<Rightarrow> darwin_error + 'a) option \<Rightarrow>
     xml_name \<Rightarrow> 'a \<Rightarrow> xml_reader \<Rightarrow> ('a \<times> xml_reader) decoded" where
  "xml_iter lenient children chars nm acc rd =
     Option.bind (xml_step lenient children chars nm acc rd) (\<lambda>s.
       case s of
         IterStop r \<Rightarrow> Some r
       | IterNext acc1 rd1 \<Rightarrow> xml_iter lenient children chars nm acc1 rd1)"

text \<open>\<open>parse "name", Type as x block\<close>\<close>

definition child :: "'c decoder \<Rightarrow> ('c \<Rightarrow> 'a \<Rightarrow> 'a) \<Rightarrow> 'a child_handler" where
  "child D f se acc rd = map_option (res_map (\<lambda>(x, rd1). (f x acc, rd1))) (D se rd)"

text \<open>\<open>ValueElement<T>\<close>\<close>

definition value_element :: "(string \<Rightarrow> darwin_error + 'a) \<Rightarrow> 'a decoder" where
  "value_element parse se rd =
     dbind (xml_iter False [] (Some (\<lambda>d _. res_map Some (parse d))) (xs_name se) None rd) (\<lambda>(ret, rd1).
     dret (res_map (\<lambda>x. (x, rd1)) (ok_or (DwMissing ''a value'') ret)))"

end
