(* ===== verification/Darwin_Decode.thy ===== *)
theory Darwin_Decode
  imports Darwin_Xml
begin

text \<open>
  The \<open>XmlDeserialize\<close> instances of \<open>common.rs\<close>, \<open>forecasts.rs\<close>, \<open>schedule.rs\<close> and \<open>pport.rs\<close>, in
  their order, and \<open>parse_pport_document\<close>.
\<close>

section \<open>\<open>common.rs\<close>\<close>

record circular_times_b =
  cb_wta :: "naive_time option option"
  cb_wtd :: "naive_time option option"
  cb_wtp :: "naive_time option option"
  cb_pta :: "naive_time option option"
  cb_ptd :: "naive_time option option"

definition circular_times_validate :: "circular_times_b \<Rightarrow> bool" where
  "circular_times_validate b \<longleftrightarrow>
     cb_wta b \<noteq> None \<or> cb_wtd b \<noteq> None \<or> cb_wtp b \<noteq> None \<or> cb_pta b \<noteq> None \<or> cb_ptd b \<noteq> None"

definition circular_times_build :: "circular_times_b \<Rightarrow> darwin_error + circular_times" where
  "circular_times_build b =
     (if circular_times_validate b
      then Inr \<lparr>ct_wta = or_default None (cb_wta b), ct_wtd = or_default None (cb_wtd b),
                ct_wtp = or_default None (cb_wtp b), ct_pta = or_default None (cb_pta b),
                ct_ptd = or_default None (cb_ptd b)\<rparr>
      else Inl (DwBuildFail ''At least one CircularTimes attribute must be defined''))"

record disruption_reason_b =
  db_reason :: "string option"
  db_tiploc :: "string option option"
  db_near :: "bool option"

definition disruption_reason_attrs :: "disruption_reason_b attr_handler list" where
  "disruption_reason_attrs =
     [(''tiploc'', put_string (\<lambda>x b. b\<lparr>db_tiploc := Some (Some x)\<rparr>)),
      (''near'', put_bool (\<lambda>x b. b\<lparr>db_near := Some x\<rparr>))]"

definition disruption_reason_build :: "disruption_reason_b \<Rightarrow> darwin_error + disruption_reason" where
  "disruption_reason_build b =
     res_map (\<lambda>reason. \<lparr>dr_reason = reason, dr_tiploc = or_default None (db_tiploc b),
                dr_near = or_default False (db_near b)\<rparr>)
       (required ''reason'' (db_reason b))"

definition disruption_reason_from_xml :: "disruption_reason decoder" where
  "disruption_reason_from_xml se rd =
     dbind (dret (xml_attrs disruption_reason_attrs (xs_attributes se)
       \<lparr>db_reason = None, db_tiploc = None, db_near = None\<rparr>)) (\<lambda>b.
     dbind (xml_iter False [] (Some (\<lambda>d b. Inr (b\<lparr>db_reason := Some d\<rparr>))) (xs_name se) b rd) (\<lambda>(b1, rd1).
     dret (res_map (\<lambda>x. (x, rd1)) (disruption_reason_build b1))))"

section \<open>\<open>forecasts.rs\<close>\<close>

definition platform_source_from_str :: "string \<Rightarrow> darwin_error + platform_source" where
  "platform_source_from_str s =
     (if s = ''P'' then Inr Plat_Planned else if s = ''A'' then Inr Plat_Automatic
      else if s = ''M'' then Inr Plat_Manual else Inl (DwExpected s))"

record platform_data_b =
  pb_platform :: "string option"
  pb_platsup :: "bool option"
  pb_cis_platsup :: "bool option"
  pb_platsrc :: "platform_source option"
  pb_conf :: "bool option"

definition platform_data_attrs :: "platform_data_b attr_handler list" where
  "platform_data_attrs =
     [(''platsup'', put_bool (\<lambda>x b. b\<lparr>pb_platsup := Some x\<rparr>)),
      (''platsrc'', \<lambda>v b. res_map (\<lambda>x. b\<lparr>pb_platsrc := Some x\<rparr>) (platform_source_from_str v)),
      (''conf'', put_bool (\<lambda>x b. b\<lparr>pb_conf := Some x\<rparr>))] @
     renamed ''cis_platsup'' ''cisPlatsup'' (put_bool (\<lambda>x b. b\<lparr>pb_cis_platsup := Some x\<rparr>))"

definition platform_data_build :: "platform_data_b \<Rightarrow> darwin_error + platform_data" where
  "platform_data_build b =
     res_map (\<lambda>platform. \<lparr>pd_platform = platform, pd_platsup = or_default False (pb_platsup b),
                pd_cis_platsup = or_default False (pb_cis_platsup b),
                pd_platsrc = or_default Plat_Planned (pb_platsrc b), pd_conf = or_default False (pb_conf b)\<rparr>)
       (required ''platform'' (pb_platform b))"

definition platform_data_from_xml :: "platform_data decoder" where
  "platform_data_from_xml se rd =
     dbind (dret (xml_attrs platform_data_attrs (xs_attributes se)
       \<lparr>pb_platform = None, pb_platsup = None, pb_cis_platsup = None, pb_platsrc = None, pb_conf = None\<rparr>)) (\<lambda>b.
     dbind (xml_iter False [] (Some (\<lambda>d b. Inr (b\<lparr>pb_platform := Some d\<rparr>))) (xs_name se) b rd) (\<lambda>(b1, rd1).
     dret (res_map (\<lambda>x. (x, rd1)) (platform_data_build b1))))"

text \<open>All fields of \<open>TsTimeData\<close> have defaults, and building cannot fail: the value is its own builder.\<close>

definition ts_time_data_default :: ts_time_data where
  "ts_time_data_default =
     \<lparr>tt_et = None, tt_wet = None, tt_at = None, tt_at_removed = False, tt_etmin = None,
      tt_et_unknown = False, tt_delayed = False, tt_src = None, tt_src_inst = None, tt_at_class = None\<rparr>"

definition ts_time_data_attrs :: "darwin_parsers \<Rightarrow> ts_time_data attr_handler list" where
  "ts_time_data_attrs D =
     [(''et'', put_time D (\<lambda>x b. b\<lparr>tt_et := Some x\<rparr>)), (''wet'', put_time D (\<lambda>x b. b\<lparr>tt_wet := Some x\<rparr>)),
      (''at'', put_time D (\<lambda>x b. b\<lparr>tt_at := Some x\<rparr>)), (''etmin'', put_time D (\<lambda>x b. b\<lparr>tt_etmin := Some x\<rparr>)),
      (''src'', put_string (\<lambda>x b. b\<lparr>tt_src := Some x\<rparr>))] @
     renamed ''src_inst'' ''srcInst'' (put_string (\<lambda>x b. b\<lparr>tt_src_inst := Some x\<rparr>)) @
     renamed ''at_class'' ''atClass'' (put_string (\<lambda>x b. b\<lparr>tt_at_class := Some x\<rparr>)) @
     renamed ''at_removed'' ''atRemoved'' (put_bool (\<lambda>x b. b\<lparr>tt_at_removed := x\<rparr>)) @
     renamed ''et_unknown'' ''etUnknown'' (put_bool (\<lambda>x b. b\<lparr>tt_et_unknown := x\<rparr>)) @
     [(''delayed'', put_bool (\<lambda>x b. b\<lparr>tt_delayed := x\<rparr>))]"

definition ts_time_data_from_xml :: "darwin_parsers \<Rightarrow> ts_time_data decoder" where
  "ts_time_data_from_xml D se rd =
     dbind (dret (xml_attrs (ts_time_data_attrs D) (xs_attributes se) ts_time_data_default)) (\<lambda>b.
     xml_iter False [] None (xs_name se) b rd)"

record ts_location_b =
  tb_tiploc :: "string option"
  tb_timings :: circular_times_b
  tb_arr :: "ts_time_data option option"
  tb_dep :: "ts_time_data option option"
  tb_pass :: "ts_time_data option option"
  tb_plat :: "platform_data option option"
  tb_suppr :: "bool option"
  tb_length :: "u32 option"
  tb_detach_front :: "bool option"

text \<open>The two builders of the element, \<open>ret\<close> and \<open>timings\<close>, are filled by the same attribute loop.\<close>

definition ts_location_start :: ts_location_b where
  "ts_location_start =
     \<lparr>tb_tiploc = None,
      tb_timings = \<lparr>cb_wta = None, cb_wtd = None, cb_wtp = None, cb_pta = None, cb_ptd = None\<rparr>,
      tb_arr = None, tb_dep = None, tb_pass = None, tb_plat = None, tb_suppr = None, tb_length = None,
      tb_detach_front = None\<rparr>"

definition ts_location_attrs :: "darwin_parsers \<Rightarrow> ts_location_b attr_handler list" where
  "ts_location_attrs D =
     [(''wta'', put_time D (\<lambda>x b. b\<lparr>tb_timings := (tb_timings b)\<lparr>cb_wta := Some (Some x)\<rparr>\<rparr>)),
      (''wtd'', put_time D (\<lambda>x b. b\<lparr>tb_timings := (tb_timings b)\<lparr>cb_wtd := Some (Some x)\<rparr>\<rparr>)),
      (''wtp'', put_time D (\<lambda>x b. b\<lparr>tb_timings := (tb_timings b)\<lparr>cb_wtp := Some (Some x)\<rparr>\<rparr>)),
      (''pta'', put_time D (\<lambda>x b. b\<lparr>tb_timings := (tb_timings b)\<lparr>cb_pta := Some (Some x)\<rparr>\<rparr>)),
      (''ptd'', put_time D (\<lambda>x b. b\<lparr>tb_timings := (tb_timings b)\<lparr>cb_ptd := Some (Some x)\<rparr>\<rparr>))] @
     renamed ''tiploc'' ''tpl'' (put_string (\<lambda>x b. b\<lparr>tb_tiploc := Some x\<rparr>))"

definition bool_element :: "bool decoder" where
  "bool_element = value_element (\<lambda>s. ok_or DwParseBool (parse_bool s))"

definition u32_element :: "u32 decoder" where
  "u32_element = value_element (\<lambda>s. res_map of_nat (ok_or DwParseInt (parse_u32 s)))"

definition ts_location_children :: "darwin_parsers \<Rightarrow> (string \<times> ts_location_b child_handler) list" where
  "ts_location_children D =
     [(''arr'', child (ts_time_data_from_xml D) (\<lambda>x b. b\<lparr>tb_arr := Some (Some x)\<rparr>)),
      (''dep'', child (ts_time_data_from_xml D) (\<lambda>x b. b\<lparr>tb_dep := Some (Some x)\<rparr>)),
      (''pass'', child (ts_time_data_from_xml D) (\<lambda>x b. b\<lparr>tb_pass := Some (Some x)\<rparr>)),
      (''suppr'', child bool_element (\<lambda>x b. b\<lparr>tb_suppr := Some x\<rparr>)),
      (''detachFront'', child bool_element (\<lambda>x b. b\<lparr>tb_detach_front := Some x\<rparr>)),
      (''length'', child u32_element (\<lambda>x b. b\<lparr>tb_length := Some x\<rparr>)),
      (''plat'', child platform_data_from_xml (\<lambda>x b. b\<lparr>tb_plat := Some (Some x)\<rparr>))]"

definition ts_location_build :: "circular_times \<Rightarrow> ts_location_b \<Rightarrow> darwin_error + ts_location" where
  "ts_location_build timings b =
     res_map (\<lambda>tiploc.
       \<lparr>tl_tiploc = tiploc, tl_timings = timings, tl_arr = or_default None (tb_arr b),
        tl_dep = or_default None (tb_dep b), tl_pass = or_default None (tb_pass b),
        tl_plat = or_default None (tb_plat b), tl_suppr = or_default False (tb_suppr b),
        tl_length = or_default 0 (tb_length b), tl_detach_front = or_default False (tb_detach_front b)\<rparr>)
       (required ''tiploc'' (tb_tiploc b))"

definition ts_location_from_xml :: "darwin_parsers \<Rightarrow> ts_location decoder" where
  "ts_location_from_xml D se rd =
     dbind (dret (xml_attrs (ts_location_attrs D) (xs_attributes se) ts_location_start)) (\<lambda>b.
     dbind (dret (circular_times_build (tb_timings b))) (\<lambda>timings.
     dbind (xml_iter False (ts_location_children D) None (xs_name se) b rd) (\<lambda>(b1, rd1).
     dret (res_map (\<lambda>x. (x, rd1)) (ts_location_build timings b1)))))"

record ts_b =
  sb_late_reason :: "disruption_reason option"
  sb_locations :: "ts_location list"
  sb_rid :: "string option"
  sb_uid :: "string option"
  sb_start_date :: "naive_date option"
  sb_is_reverse_formation :: "bool option"

definition ts_attrs :: "darwin_parsers \<Rightarrow> ts_b attr_handler list" where
  "ts_attrs D =
     [(''rid'', put_string (\<lambda>x b. b\<lparr>sb_rid := Some x\<rparr>)), (''uid'', put_string (\<lambda>x b. b\<lparr>sb_uid := Some x\<rparr>))] @
     renamed ''is_reverse_formation'' ''isReverseFormation''
       (put_bool (\<lambda>x b. b\<lparr>sb_is_reverse_formation := Some x\<rparr>)) @
     [(''ssd'', put_date D (\<lambda>x b. b\<lparr>sb_start_date := Some x\<rparr>))]"

text \<open>The variables \<open>locs\<close> and \<open>lr\<close> are fields of the builder from the start.\<close>

definition ts_children :: "darwin_parsers \<Rightarrow> (string \<times> ts_b child_handler) list" where
  "ts_children D =
     [(''Location'', child (ts_location_from_xml D) (\<lambda>x b. b\<lparr>sb_locations := sb_locations b @ [x]\<rparr>)),
      (''LateReason'', child disruption_reason_from_xml (\<lambda>x b. b\<lparr>sb_late_reason := Some x\<rparr>))]"

definition ts_build :: "ts_b \<Rightarrow> darwin_error + train_status_msg" where
  "ts_build b =
     res_bind (required ''rid'' (sb_rid b)) (\<lambda>rid.
     res_bind (required ''uid'' (sb_uid b)) (\<lambda>uid.
     res_map (\<lambda>start_date.
       \<lparr>ts_late_reason = sb_late_reason b, ts_locations = sb_locations b, ts_rid = rid, ts_uid = uid,
        ts_start_date = start_date, ts_is_reverse_formation = or_default False (sb_is_reverse_formation b)\<rparr>)
       (required ''start_date'' (sb_start_date b))))"

definition ts_start :: ts_b where
  "ts_start = \<lparr>sb_late_reason = None, sb_locations = [], sb_rid = None, sb_uid = None, sb_start_date = None,
     sb_is_reverse_formation = None\<rparr>"

definition ts_from_xml :: "darwin_parsers \<Rightarrow> train_status_msg decoder" where
  "ts_from_xml D se rd =
     dbind (dret (xml_attrs (ts_attrs D) (xs_attributes se) ts_start)) (\<lambda>b.
     dbind (xml_iter False (ts_children D) None (xs_name se) b rd) (\<lambda>(b1, rd1).
     dret (res_map (\<lambda>x. (x, rd1)) (ts_build b1))))"


section \<open>\<open>schedule.rs\<close>\<close>

text \<open>
  \<open>schedule_loc_deserialize!\<close>. The builders of the seven structs, and of the two structs inside them, are one record,
  of which each uses its fields.
\<close>

record loc_b =
  lb_tpl :: "string option"
  lb_act :: "string option"
  lb_plan_act :: "string option option"
  lb_can :: "bool option"
  lb_pta :: "naive_time option option"
  lb_ptd :: "naive_time option option"
  lb_wta :: "naive_time option"
  lb_wtd :: "naive_time option"
  lb_wtp :: "naive_time option"
  lb_rdelay_mins :: "int option"
  lb_fd :: "string option option"

definition loc_start :: loc_b where
  "loc_start = \<lparr>lb_tpl = None, lb_act = None, lb_plan_act = None, lb_can = None, lb_pta = None, lb_ptd = None,
     lb_wta = None, lb_wtd = None, lb_wtp = None, lb_rdelay_mins = None, lb_fd = None\<rparr>"

definition sla_attrs :: "loc_b attr_handler list" where
  "sla_attrs =
     [(''tpl'', put_string (\<lambda>x b. b\<lparr>lb_tpl := Some x\<rparr>)), (''act'', put_string (\<lambda>x b. b\<lparr>lb_act := Some x\<rparr>)),
      (''can'', put_bool (\<lambda>x b. b\<lparr>lb_can := Some x\<rparr>)),
      (''planAct'', put_string (\<lambda>x b. b\<lparr>lb_plan_act := Some (Some x)\<rparr>))]"

definition cpa_attrs :: "darwin_parsers \<Rightarrow> loc_b attr_handler list" where
  "cpa_attrs D =
     [(''pta'', put_time D (\<lambda>x b. b\<lparr>lb_pta := Some (Some x)\<rparr>)),
      (''ptd'', put_time D (\<lambda>x b. b\<lparr>lb_ptd := Some (Some x)\<rparr>))]"

definition wta_attr :: "darwin_parsers \<Rightarrow> loc_b attr_handler" where
  "wta_attr D = (''wta'', put_time D (\<lambda>x b. b\<lparr>lb_wta := Some x\<rparr>))"

definition wtd_attr :: "darwin_parsers \<Rightarrow> loc_b attr_handler" where
  "wtd_attr D = (''wtd'', put_time D (\<lambda>x b. b\<lparr>lb_wtd := Some x\<rparr>))"

definition wtp_attr :: "darwin_parsers \<Rightarrow> loc_b attr_handler" where
  "wtp_attr D = (''wtp'', put_time D (\<lambda>x b. b\<lparr>lb_wtp := Some x\<rparr>))"

definition fd_attr :: "loc_b attr_handler" where
  "fd_attr = (''fd'', put_string (\<lambda>x b. b\<lparr>lb_fd := Some (Some x)\<rparr>))"

definition rdelay_attrs :: "loc_b attr_handler list" where
  "rdelay_attrs = renamed ''rdelay_mins'' ''rdelay'' (put_i32 (\<lambda>x b. b\<lparr>lb_rdelay_mins := Some x\<rparr>))"

definition sla_build :: "loc_b \<Rightarrow> darwin_error + sched_loc_attributes" where
  "sla_build b =
     res_map (\<lambda>tpl. \<lparr>sla_tpl = tpl, sla_act = or_default ''  '' (lb_act b),
                sla_plan_act = or_default None (lb_plan_act b), sla_can = or_default False (lb_can b)\<rparr>)
       (required ''tpl'' (lb_tpl b))"

definition cpa_build :: "loc_b \<Rightarrow> call_pt_attributes" where
  "cpa_build b = \<lparr>cpa_pta = or_default None (lb_pta b), cpa_ptd = or_default None (lb_ptd b)\<rparr>"

text \<open>The body of the generated function; \<open>build\<close> gets the location attributes and the builder.\<close>

definition schedule_loc_deserialize ::
    "loc_b attr_handler list \<Rightarrow> (sched_loc_attributes \<Rightarrow> loc_b \<Rightarrow> darwin_error + 'a) \<Rightarrow> 'a decoder" where
  "schedule_loc_deserialize attrs build se rd =
     dbind (dret (xml_attrs attrs (xs_attributes se) loc_start)) (\<lambda>b.
     dbind (dret (sla_build b)) (\<lambda>sla.
     dbind (xml_iter False [] None (xs_name se) () rd) (\<lambda>(_, rd1).
     dret (res_map (\<lambda>x. (x, rd1)) (build sla b)))))"

definition loc_or_from_xml :: "darwin_parsers \<Rightarrow> loc_or decoder" where
  "loc_or_from_xml D =
     schedule_loc_deserialize (sla_attrs @ cpa_attrs D @ [wtd_attr D, wta_attr D, fd_attr])
       (\<lambda>sla b. res_map (\<lambda>wtd.
          \<lparr>or_sla = sla, or_cpa = cpa_build b, or_wta = lb_wta b, or_wtd = wtd,
           or_fd = or_default None (lb_fd b)\<rparr>) (required ''wtd'' (lb_wtd b)))"

definition loc_op_or_from_xml :: "darwin_parsers \<Rightarrow> loc_op_or decoder" where
  "loc_op_or_from_xml D =
     schedule_loc_deserialize (sla_attrs @ [wtd_attr D, wta_attr D])
       (\<lambda>sla b. res_map (\<lambda>wtd. \<lparr>opor_sla = sla, opor_wta = lb_wta b, opor_wtd = wtd\<rparr>)
          (required ''wtd'' (lb_wtd b)))"

definition loc_ip_from_xml :: "darwin_parsers \<Rightarrow> loc_ip decoder" where
  "loc_ip_from_xml D =
     schedule_loc_deserialize (sla_attrs @ cpa_attrs D @ [wtd_attr D, wta_attr D] @ rdelay_attrs @ [fd_attr])
       (\<lambda>sla b. res_bind (required ''wta'' (lb_wta b)) (\<lambda>wta. res_map (\<lambda>wtd.
          \<lparr>ip_sla = sla, ip_cpa = cpa_build b, ip_wta = wta, ip_wtd = wtd,
           ip_rdelay_mins = or_default 0 (lb_rdelay_mins b), ip_fd = or_default None (lb_fd b)\<rparr>)
          (required ''wtd'' (lb_wtd b))))"

definition loc_op_ip_from_xml :: "darwin_parsers \<Rightarrow> loc_op_ip decoder" where
  "loc_op_ip_from_xml D =
     schedule_loc_deserialize (sla_attrs @ [wtd_attr D, wta_attr D] @ rdelay_attrs)
       (\<lambda>sla b. res_bind (required ''wta'' (lb_wta b)) (\<lambda>wta. res_map (\<lambda>wtd.
          \<lparr>opip_sla = sla, opip_wta = wta, opip_wtd = wtd,
           opip_rdelay_mins = or_default 0 (lb_rdelay_mins b)\<rparr>)
          (required ''wtd'' (lb_wtd b))))"

definition loc_pp_from_xml :: "darwin_parsers \<Rightarrow> loc_pp decoder" where
  "loc_pp_from_xml D =
     schedule_loc_deserialize (sla_attrs @ [wtp_attr D] @ rdelay_attrs)
       (\<lambda>sla b. res_map (\<lambda>wtp.
          \<lparr>pp_sla = sla, pp_wtp = wtp, pp_rdelay_mins = or_default 0 (lb_rdelay_mins b)\<rparr>)
          (required ''wtp'' (lb_wtp b)))"

definition loc_dt_from_xml :: "darwin_parsers \<Rightarrow> loc_dt decoder" where
  "loc_dt_from_xml D =
     schedule_loc_deserialize (sla_attrs @ cpa_attrs D @ [wta_attr D, wtd_attr D] @ rdelay_attrs)
       (\<lambda>sla b. res_map (\<lambda>wta.
          \<lparr>dt_sla = sla, dt_cpa = cpa_build b, dt_wta = wta, dt_wtd = lb_wtd b,
           dt_rdelay_mins = or_default 0 (lb_rdelay_mins b)\<rparr>)
          (required ''wta'' (lb_wta b)))"

definition loc_op_dt_from_xml :: "darwin_parsers \<Rightarrow> loc_op_dt decoder" where
  "loc_op_dt_from_xml D =
     schedule_loc_deserialize (sla_attrs @ [wta_attr D, wtd_attr D] @ rdelay_attrs)
       (\<lambda>sla b. res_map (\<lambda>wta.
          \<lparr>opdt_sla = sla, opdt_wta = wta, opdt_wtd = lb_wtd b,
           opdt_rdelay_mins = or_default 0 (lb_rdelay_mins b)\<rparr>)
          (required ''wta'' (lb_wta b)))"

record schedule_b =
  hb_rid :: "string option"
  hb_uid :: "string option"
  hb_train_id :: "string option"
  hb_ssd :: "naive_date option"
  hb_toc :: "string option"
  hb_status :: "string option"
  hb_train_cat :: "string option"
  hb_is_passenger_svc :: "bool option"
  hb_is_active :: "bool option"
  hb_deleted :: "bool option"
  hb_is_charter :: "bool option"
  hb_cancel_reason :: "disruption_reason option option"
  hb_locations :: "darwin_location list"

definition schedule_start :: schedule_b where
  "schedule_start = \<lparr>hb_rid = None, hb_uid = None, hb_train_id = None, hb_ssd = None, hb_toc = None,
     hb_status = None, hb_train_cat = None, hb_is_passenger_svc = None, hb_is_active = None, hb_deleted = None,
     hb_is_charter = None, hb_cancel_reason = None, hb_locations = []\<rparr>"

definition schedule_attrs :: "darwin_parsers \<Rightarrow> schedule_b attr_handler list" where
  "schedule_attrs D =
     [(''ssd'', put_date D (\<lambda>x b. b\<lparr>hb_ssd := Some x\<rparr>)),
      (''rid'', put_string (\<lambda>x b. b\<lparr>hb_rid := Some x\<rparr>)), (''uid'', put_string (\<lambda>x b. b\<lparr>hb_uid := Some x\<rparr>))] @
     renamed ''train_id'' ''trainId'' (put_string (\<lambda>x b. b\<lparr>hb_train_id := Some x\<rparr>)) @
     [(''toc'', put_string (\<lambda>x b. b\<lparr>hb_toc := Some x\<rparr>)), (''status'', put_string (\<lambda>x b. b\<lparr>hb_status := Some x\<rparr>))] @
     renamed ''train_cat'' ''trainCat'' (put_string (\<lambda>x b. b\<lparr>hb_train_cat := Some x\<rparr>)) @
     renamed ''is_passenger_svc'' ''isPassengerSvc'' (put_bool (\<lambda>x b. b\<lparr>hb_is_passenger_svc := Some x\<rparr>)) @
     renamed ''is_active'' ''isActive'' (put_bool (\<lambda>x b. b\<lparr>hb_is_active := Some x\<rparr>)) @
     [(''deleted'', put_bool (\<lambda>x b. b\<lparr>hb_deleted := Some x\<rparr>))] @
     renamed ''is_charter'' ''isCharter'' (put_bool (\<lambda>x b. b\<lparr>hb_is_charter := Some x\<rparr>))"

definition push_loc :: "('a \<Rightarrow> darwin_location) \<Rightarrow> 'a \<Rightarrow> schedule_b \<Rightarrow> schedule_b" where
  "push_loc f x b = b\<lparr>hb_locations := hb_locations b @ [f x]\<rparr>"

definition schedule_children :: "darwin_parsers \<Rightarrow> (string \<times> schedule_b child_handler) list" where
  "schedule_children D =
     [(''OR'', child (loc_or_from_xml D) (push_loc DLocOr)),
      (''OPOR'', child (loc_op_or_from_xml D) (push_loc DLocOpOr)),
      (''IP'', child (loc_ip_from_xml D) (push_loc DLocIp)),
      (''OPIP'', child (loc_op_ip_from_xml D) (push_loc DLocOpIp)),
      (''PP'', child (loc_pp_from_xml D) (push_loc DLocPp)),
      (''DT'', child (loc_dt_from_xml D) (push_loc DLocDt)),
      (''OPDT'', child (loc_op_dt_from_xml D) (push_loc DLocOpDt)),
      (''cancelReason'', child disruption_reason_from_xml (\<lambda>x b. b\<lparr>hb_cancel_reason := Some (Some x)\<rparr>))]"

definition schedule_build :: "schedule_b \<Rightarrow> darwin_error + darwin_schedule" where
  "schedule_build b =
     res_bind (required ''rid'' (hb_rid b)) (\<lambda>rid.
     res_bind (required ''uid'' (hb_uid b)) (\<lambda>uid.
     res_bind (required ''train_id'' (hb_train_id b)) (\<lambda>train_id.
     res_bind (required ''ssd'' (hb_ssd b)) (\<lambda>ssd.
     res_map (\<lambda>toc.
       \<lparr>ds_rid = rid, ds_uid = uid, ds_train_id = train_id, ds_ssd = ssd, ds_toc = toc,
        ds_status = or_default ''P'' (hb_status b), ds_train_cat = or_default ''OO'' (hb_train_cat b),
        ds_is_passenger_svc = or_default True (hb_is_passenger_svc b),
        ds_is_active = or_default True (hb_is_active b), ds_deleted = or_default False (hb_deleted b),
        ds_is_charter = or_default False (hb_is_charter b),
        ds_cancel_reason = or_default None (hb_cancel_reason b), ds_locations = hb_locations b\<rparr>)
       (required ''toc'' (hb_toc b))))))"

definition darwin_schedule_from_xml :: "darwin_parsers \<Rightarrow> darwin_schedule decoder" where
  "darwin_schedule_from_xml D se rd =
     dbind (dret (xml_attrs (schedule_attrs D) (xs_attributes se) schedule_start)) (\<lambda>b.
     dbind (xml_iter False (schedule_children D) None (xs_name se) b rd) (\<lambda>(b1, rd1).
     dret (res_map (\<lambda>x. (x, rd1)) (schedule_build b1))))"

definition deactivated_from_xml :: "deactivated_schedule decoder" where
  "deactivated_from_xml se rd =
     dbind (dret (xml_attrs [(''rid'', put_string (\<lambda>x b. Some x))] (xs_attributes se) None)) (\<lambda>b.
     dbind (xml_iter False [] None (xs_name se) b rd) (\<lambda>(b1, rd1).
     dret (res_map (\<lambda>rid. (\<lparr>dea_rid = rid\<rparr>, rd1)) (required ''rid'' b1))))"

section \<open>\<open>pport.rs\<close>\<close>

definition data_response_default :: data_response where
  "data_response_default = \<lparr>rsp_train_status = [], rsp_schedule = [], rsp_deactivated = [],
     rsp_update_origin = None, rsp_request_source = None, rsp_request_id = None\<rparr>"

definition data_response_attrs :: "data_response attr_handler list" where
  "data_response_attrs =
     [(''updateOrigin'', put_string (\<lambda>x r. r\<lparr>rsp_update_origin := Some x\<rparr>)),
      (''requestSource'', put_string (\<lambda>x r. r\<lparr>rsp_request_source := Some x\<rparr>)),
      (''requestID'', put_string (\<lambda>x r. r\<lparr>rsp_request_id := Some x\<rparr>))]"

definition data_response_children :: "darwin_parsers \<Rightarrow> (string \<times> data_response child_handler) list" where
  "data_response_children D =
     [(''TS'', child (ts_from_xml D) (\<lambda>x r. r\<lparr>rsp_train_status := rsp_train_status r @ [x]\<rparr>)),
      (''schedule'', child (darwin_schedule_from_xml D) (\<lambda>x r. r\<lparr>rsp_schedule := rsp_schedule r @ [x]\<rparr>)),
      (''deactivated'', child deactivated_from_xml (\<lambda>x r. r\<lparr>rsp_deactivated := rsp_deactivated r @ [x]\<rparr>))]"

definition data_response_from_xml :: "darwin_parsers \<Rightarrow> data_response decoder" where
  "data_response_from_xml D se rd =
     dbind (dret (xml_attrs data_response_attrs (xs_attributes se) data_response_default)) (\<lambda>r.
     xml_iter True (data_response_children D) None (xs_name se) r rd)"

type_synonym pport_vars = "(naive_datetime \<times> int) option \<times> string option"

definition pport_attrs :: "darwin_parsers \<Rightarrow> pport_vars attr_handler list" where
  "pport_attrs D =
     [(''ts'', \<lambda>v (_, version). res_map (\<lambda>t. (Some t, version)) (ok_or DwChrono (dp_rfc3339 D v))),
      (''version'', put_string (\<lambda>x (ts, _). (ts, Some x)))]"

definition pport_children :: "darwin_parsers \<Rightarrow> (string \<times> pport_element child_handler) list" where
  "pport_children D =
     [(''uR'', child (data_response_from_xml D) (\<lambda>x _. DataResponse x)),
      (''sR'', child (data_response_from_xml D) (\<lambda>x _. DataResponse x))]"

definition pport_from_xml :: "darwin_parsers \<Rightarrow> pport decoder" where
  "pport_from_xml D se rd =
     dbind (dret (xml_attrs (pport_attrs D) (xs_attributes se) (None, None))) (\<lambda>(ts, version).
     dbind (xml_iter True (pport_children D) None (xs_name se) PportUnimplemented rd) (\<lambda>(elem, rd1).
     dret (res_bind (ok_or (DwMissing ''ts'') ts) (\<lambda>ts.
       res_map (\<lambda>version. (\<lparr>pp_inner = elem, pp_ts = ts, pp_version = version\<rparr>, rd1))
         (ok_or (DwMissing ''version'') version)))))"

text \<open>The events before the root element.\<close>

fun parse_pport_document :: "darwin_parsers \<Rightarrow> xml_reader \<Rightarrow> pport decoded" where
  "parse_pport_document D [] = Some (Inl DwUnexpectedEnd)"
| "parse_pport_document D (Inl _ # rd) = Some (Inl DwXmlError)"
| "parse_pport_document D (Inr ev # rd) =
     (case ev of
        XStart n attrs \<Rightarrow>
          if xn_local n = ''Pport'' then map_option (res_map fst) (pport_from_xml D (from_evt n attrs) rd)
          else Some (Inl (DwUnexpectedStart n))
      | XEndDocument \<Rightarrow> Some (Inl DwUnexpectedEnd)
      | _ \<Rightarrow> parse_pport_document D rd)"

end
