(* ===== verification/Darwin_Props.thy ===== *)
theory Darwin_Props
  imports Darwin_Decode
begin

text \<open>
  The deserializers return on everything an XML reader can deliver, and a push port message that
  is written with its defaults left out or given is read back as it was.
\<close>

section \<open>Combinators\<close>

lemma dbind_simps [simp, res_simps]:
  "dbind (Some (Inl e)) f = Some (Inl e)" "dbind (Some (Inr a)) f = f a" "dbind (dret (Inr a)) f = f a"
  "dbind (dret (Inl e)) f = Some (Inl e)"
  by (simp_all add: dbind_def dret_def)

lemma dret_Some [simp]: "dret r = Some r"
  by (simp add: dret_def)

lemma xml_iter_Next:
  "xml_step l ch chars nm acc rd = Some (IterNext acc1 rd1) \<Longrightarrow>
   xml_iter l ch chars nm acc rd = xml_iter l ch chars nm acc1 rd1"
  by (subst xml_iter.simps) simp

lemma xml_iter_Stop:
  "xml_step l ch chars nm acc rd = Some (IterStop r) \<Longrightarrow> xml_iter l ch chars nm acc rd = Some r"
  by (subst xml_iter.simps) simp

section \<open>The deserializers return\<close>

text \<open>What a reader delivers: tags are balanced up to its first error. The list is the stack of open elements.\<close>

fun nested :: "xml_name list \<Rightarrow> xml_reader \<Rightarrow> bool" where
  "nested st [] \<longleftrightarrow> st = []"
| "nested st (Inl _ # rd) \<longleftrightarrow> True"
| "nested st (Inr ev # rd) \<longleftrightarrow>
     (case ev of
        XStart n _ \<Rightarrow> nested (n # st) rd
      | XEnd n \<Rightarrow> (case st of [] \<Rightarrow> False | m # st1 \<Rightarrow> m = n \<and> nested st1 rd)
      | _ \<Rightarrow> nested st rd)"

text \<open>
  Inside an element \<open>nm\<close>, and whatever else is still open in it, a computation returns, and what it leaves
  is balanced for the elements around \<open>nm\<close> and perhaps some that it has not seen the end of.
\<close>

definition returns :: "xml_name list \<Rightarrow> xml_reader \<Rightarrow> ('a \<times> xml_reader) decoded \<Rightarrow> bool" where
  "returns st rd m \<longleftrightarrow>
     (\<exists>r. m = Some r \<and> (\<forall>a rd1. r = Inr (a, rd1) \<longrightarrow> length rd1 \<le> length rd \<and> (\<exists>ms. nested (ms @ st) rd1)))"

definition returning :: "'a decoder \<Rightarrow> bool" where
  "returning D \<longleftrightarrow> (\<forall>se rd ms st. nested (ms @ xs_name se # st) rd \<longrightarrow> returns st rd (D se rd))"

definition returning_child :: "'a child_handler \<Rightarrow> bool" where
  "returning_child h \<longleftrightarrow> (\<forall>se acc rd st. nested (xs_name se # st) rd \<longrightarrow> returns st rd (h se acc rd))"

lemma returns_Inl [simp]: "returns st rd (Some (Inl e))"
  by (simp add: returns_def)

lemma returns_bind_pure:
  "(\<And>a. r = Inr a \<Longrightarrow> returns st rd (f a)) \<Longrightarrow> returns st rd (dbind (dret r) f)"
  by (cases r) simp_all

lemma returns_finish:
  "returns st rd m \<Longrightarrow> (\<And>a rd1. \<exists>r. f (a, rd1) = Some (res_map (\<lambda>x. (x, rd1)) r)) \<Longrightarrow> returns st rd (dbind m f)"
proof -
  assume m: "returns st rd m" and f: "\<And>a rd1. \<exists>r. f (a, rd1) = Some (res_map (\<lambda>x. (x, rd1)) r)"
  obtain r where r: "m = Some r" using m by (auto simp: returns_def)
  show ?thesis
  proof (cases r)
    case (Inr p)
    obtain a rd1 where p: "p = (a, rd1)" by (cases p)
    obtain q where "f (a, rd1) = Some (res_map (\<lambda>x. (x, rd1)) q)" using f by blast
    with m show ?thesis by (cases q) (auto simp: r Inr p returns_def)
  qed (simp add: r)
qed

lemma child_returning: "returning D \<Longrightarrow> returning_child (child D f)"
  unfolding returning_child_def
proof (intro allI impI)
  fix se :: xml_start and acc :: 'b and rd st
  assume "returning D" "nested (xs_name se # st) rd"
  then have "returns st rd (D se rd)" unfolding returning_def by (metis append_Nil)
  then obtain r where r: "D se rd = Some r" and "returns st rd (Some r)" by (auto simp: returns_def)
  then show "returns st rd (child D f se acc rd)"
    by (cases r) (auto simp: returns_def child_def)
qed

lemma xml_iter_returns:
  assumes "\<forall>(n, h)\<in>set children. returning_child h"
  shows "nested (ms @ nm # st) rd \<Longrightarrow> returns st rd (xml_iter l children chars nm acc rd)"
proof (induction "length rd" arbitrary: rd ms acc rule: less_induct)
  case less
  have go: "returns st rd (xml_iter l children chars nm acc rd)"
    if "xml_step l children chars nm acc rd = Some (IterNext acc1 rd1)" "length rd1 < length rd"
      "nested (ms' @ nm # st) rd1" for acc1 rd1 ms'
    using less.hyps [OF that(2,3), of acc1] that(1,2) by (auto simp: xml_iter_Next returns_def)
  have stop: "returns st rd (xml_iter l children chars nm acc rd)"
    if "xml_step l children chars nm acc rd = Some (IterStop (Inl e))" for e
    using xml_iter_Stop [OF that] by simp
  have skip: "returns st rd (xml_iter l children chars nm acc rd)"
    if "xml_step l children chars nm acc rd = Some (unexpected l e acc rd1)" "length rd1 < length rd"
      "nested (ms' @ nm # st) rd1" for e rd1 ms'
    using go [OF _ that(2,3)] stop that(1) by (cases l) (auto simp: unexpected_def)
  show ?case
  proof (cases rd)
    case Nil
    with less.prems show ?thesis by simp
  next
    case (Cons r rd1)
    show ?thesis
    proof (cases r)
      case (Inl u)
      then show ?thesis by (intro stop) (simp add: Cons xml_step_def)
    next
      case (Inr ev)
      have step: "xml_step l children chars nm acc rd = xml_event_step l children chars nm acc ev rd1"
        by (simp add: xml_step_def Cons Inr)
      have nest: "nested (ms @ nm # st) (Inr ev # rd1)" using less.prems by (simp add: Cons Inr)
      have len: "length rd1 < length rd" by (simp add: Cons)
      show ?thesis
      proof (cases ev)
        case (XStart n attrs)
        then have n: "nested ((n # ms) @ nm # st) rd1" using nest by simp
        show ?thesis
        proof (cases "map_of children (xn_local n)")
          case None
          then show ?thesis by (intro skip [OF _ len n]) (simp add: step XStart)
        next
          case (Some h)
          then have "returning_child h" using assms by (auto dest: map_of_SomeD)
          then have h: "returns (ms @ nm # st) rd1 (h (from_evt n attrs) acc rd1)"
            using n by (simp add: returning_child_def from_evt_def)
          then obtain q where q: "h (from_evt n attrs) acc rd1 = Some q" by (auto simp: returns_def)
          show ?thesis
          proof (cases q)
            case (Inl e)
            then show ?thesis by (intro stop) (simp add: step XStart Some q)
          next
            case (Inr p)
            obtain a rd2 where p: "p = (a, rd2)" by (cases p)
            from h obtain ms' where ms': "length rd2 \<le> length rd1" "nested (ms' @ ms @ nm # st) rd2"
              by (auto simp: returns_def q Inr p)
            show ?thesis
              by (rule go [of a rd2 "ms' @ ms"]) (use ms' len in \<open>simp_all add: step XStart Some q Inr p\<close>)
          qed
        qed
      next
        case (XEnd n)
        show ?thesis
        proof (cases ms)
          case Nil
          then have "n = nm" "nested st rd1" using nest by (simp_all add: XEnd)
          then show ?thesis
            using xml_iter_Stop [of l children chars nm acc rd "Inr (acc, rd1)"] len
            by (auto simp: step XEnd returns_def intro: exI [of _ "[]"])
        next
          case ms: (Cons m ms2)
          then have n: "nested (ms2 @ nm # st) rd1" using nest by (simp add: XEnd)
          show ?thesis
          proof (cases "n = nm")
            case True
            then show ?thesis
              using xml_iter_Stop [of l children chars nm acc rd "Inr (acc, rd1)"] len n
              by (auto simp: step XEnd returns_def intro: exI [of _ "ms2 @ [nm]"])
          next
            case False
            then show ?thesis by (intro skip [OF _ len n]) (simp add: step XEnd)
          qed
        qed
      next
        case (XChars s)
        then have n: "nested (ms @ nm # st) rd1" using nest by simp
        show ?thesis
        proof (cases chars)
          case None
          then show ?thesis by (intro skip [OF _ len n]) (subst step, simp add: XChars)
        next
          case (Some f)
          then show ?thesis
          proof (cases "f s acc")
            case (Inl e)
            then show ?thesis by (intro stop) (subst step, simp add: XChars Some)
          next
            case (Inr acc1)
            then show ?thesis by (intro go [OF _ len n]) (subst step, simp add: XChars Some)
          qed
        qed
      next
        case (XWhitespace s)
        then show ?thesis using nest by (intro go [OF _ len]) (simp_all add: step)
      qed (use nest in \<open>auto intro!: skip [OF _ len] simp: step\<close>)
    qed
  qed
qed

lemma xml_iter_returning:
  "\<forall>(n, h)\<in>set children. returning_child h \<Longrightarrow> nested (ms @ xs_name se # st) rd \<Longrightarrow>
   returns st rd (xml_iter l children chars (xs_name se) acc rd)"
  by (rule xml_iter_returns)


text \<open>The shape of every deserializer: attributes, then content, then building.\<close>

lemma returning_element:
  assumes "\<And>se rd. D se rd = dbind (dret (attrs se)) (\<lambda>b. dbind (xml_iter l children chars (xs_name se) (start b) rd)
      (\<lambda>(b1, rd1). dret (res_map (\<lambda>x. (x, rd1)) (build b b1))))"
    and "\<forall>(n, h)\<in>set children. returning_child h"
  shows "returning D"
  unfolding returning_def
proof (intro allI impI)
  fix se :: xml_start and rd ms st
  assume "nested (ms @ xs_name se # st) rd"
  then show "returns st rd (D se rd)"
    unfolding assms(1)
    by (intro returns_bind_pure returns_finish) (auto intro: xml_iter_returning [OF assms(2)])
qed

lemma children_single:
  "(\<forall>(n, h)\<in>set []. returning_child h)"
  "returning_child h \<Longrightarrow> (\<forall>(n, h)\<in>set hs. returning_child h) \<Longrightarrow> (\<forall>(n, h)\<in>set ((n, h) # hs). returning_child h)"
  by simp_all

lemmas returning_intros = children_single child_returning

lemma leaves_returning [intro!]:
  "returning disruption_reason_from_xml" "returning platform_data_from_xml" "returning (value_element p)"
  "returning (ts_time_data_from_xml D)" "returning deactivated_from_xml"
  "returning (schedule_loc_deserialize attrs build)"
proof -
  show "returning disruption_reason_from_xml"
    by (rule returning_element [OF disruption_reason_from_xml_def]) simp
  show "returning platform_data_from_xml"
    by (rule returning_element [OF platform_data_from_xml_def]) simp
  have "value_element p se rd = dbind (dret (Inr ())) (\<lambda>b. dbind
      (xml_iter False [] (Some (\<lambda>d _. res_map Some (p d))) (xs_name se) None rd)
      (\<lambda>(b1, rd1). dret (res_map (\<lambda>x. (x, rd1)) (ok_or (DwMissing ''a value'') b1))))" for se rd
    by (simp add: value_element_def)
  then show "returning (value_element p)" by (rule returning_element) simp
  have "ts_time_data_from_xml D se rd = dbind (dret (xml_attrs (ts_time_data_attrs D) (xs_attributes se) ts_time_data_default))
      (\<lambda>b. dbind (xml_iter False [] None (xs_name se) b rd) (\<lambda>(b1, rd1). dret (res_map (\<lambda>x. (x, rd1)) (Inr b1))))" for se rd
    by (simp add: ts_time_data_from_xml_def dbind_def split: option.split sum.split)
  then show "returning (ts_time_data_from_xml D)" by (rule returning_element) simp
  have "deactivated_from_xml se rd = dbind (dret (xml_attrs [(''rid'', put_string (\<lambda>x b. Some x))] (xs_attributes se) None))
      (\<lambda>b. dbind (xml_iter False [] None (xs_name se) b rd)
      (\<lambda>(b1, rd1). dret (res_map (\<lambda>x. (x, rd1)) (res_map (\<lambda>rid. \<lparr>dea_rid = rid\<rparr>) (required ''rid'' b1)))))" for se rd
    by (simp add: deactivated_from_xml_def res_map_def sum.case_distrib cong: sum.case_cong)
  then show "returning deactivated_from_xml" by (rule returning_element) simp
  have "schedule_loc_deserialize attrs build se rd =
      dbind (dret (res_bind (xml_attrs attrs (xs_attributes se) loc_start) (\<lambda>b. res_map (\<lambda>sla. (sla, b)) (sla_build b))))
      (\<lambda>b. dbind (xml_iter False [] None (xs_name se) () rd)
      (\<lambda>(_, rd1). dret (res_map (\<lambda>x. (x, rd1)) (build (fst b) (snd b)))))" for se rd
    by (auto simp: schedule_loc_deserialize_def dbind_def res_bind_def res_map_def split: sum.splits option.splits)
  then show "returning (schedule_loc_deserialize attrs build)" by (rule returning_element) simp
qed

lemma locations_returning [intro!]:
  "returning (loc_or_from_xml D)" "returning (loc_op_or_from_xml D)" "returning (loc_ip_from_xml D)"
  "returning (loc_op_ip_from_xml D)" "returning (loc_pp_from_xml D)" "returning (loc_dt_from_xml D)"
  "returning (loc_op_dt_from_xml D)"
  by (auto simp: loc_or_from_xml_def loc_op_or_from_xml_def loc_ip_from_xml_def loc_op_ip_from_xml_def
      loc_pp_from_xml_def loc_dt_from_xml_def loc_op_dt_from_xml_def)

lemma ts_returning: "returning (ts_from_xml D)"
proof -
  have "\<forall>(n, h)\<in>set (ts_location_children D). returning_child h"
    by (auto simp: ts_location_children_def bool_element_def u32_element_def intro: child_returning)
  moreover have "ts_location_from_xml D se rd =
      dbind (dret (res_bind (xml_attrs (ts_location_attrs D) (xs_attributes se) ts_location_start)
        (\<lambda>b. res_map (\<lambda>t. (t, b)) (circular_times_build (tb_timings b)))))
      (\<lambda>b. dbind (xml_iter False (ts_location_children D) None (xs_name se) (snd b) rd)
      (\<lambda>(b1, rd1). dret (res_map (\<lambda>x. (x, rd1)) (ts_location_build (fst b) b1))))" for se rd
    by (auto simp: ts_location_from_xml_def dbind_def res_bind_def res_map_def split: sum.splits option.splits)
  ultimately have "returning (ts_location_from_xml D)" by (intro returning_element)
  then have "\<forall>(n, h)\<in>set (ts_children D). returning_child h"
    by (auto simp: ts_children_def intro: child_returning)
  then show ?thesis by (rule returning_element [OF ts_from_xml_def])
qed

lemma data_response_returning: "returning (data_response_from_xml D)"
proof -
  have "\<forall>(n, h)\<in>set (schedule_children D). returning_child h"
    by (auto simp: schedule_children_def intro: child_returning)
  then have "returning (darwin_schedule_from_xml D)"
    by (rule returning_element [OF darwin_schedule_from_xml_def])
  then have "\<forall>(n, h)\<in>set (data_response_children D). returning_child h"
    by (auto simp: data_response_children_def intro: child_returning ts_returning)
  moreover have "data_response_from_xml D se rd =
      dbind (dret (xml_attrs data_response_attrs (xs_attributes se) data_response_default))
      (\<lambda>b. dbind (xml_iter True (data_response_children D) None (xs_name se) b rd)
      (\<lambda>(b1, rd1). dret (res_map (\<lambda>x. (x, rd1)) (Inr b1))))" for se rd
    by (simp add: data_response_from_xml_def dbind_def split: option.split sum.split)
  ultimately show ?thesis by (intro returning_element)
qed

lemma pport_returning: "returning (pport_from_xml D)"
proof -
  have "\<forall>(n, h)\<in>set (pport_children D). returning_child h"
    by (auto simp: pport_children_def intro: child_returning data_response_returning)
  moreover have "pport_from_xml D se rd =
      dbind (dret (xml_attrs (pport_attrs D) (xs_attributes se) (None, None)))
      (\<lambda>b. dbind (xml_iter True (pport_children D) None (xs_name se) PportUnimplemented rd)
      (\<lambda>(b1, rd1). dret (res_map (\<lambda>x. (x, rd1)) (res_bind (ok_or (DwMissing ''ts'') (fst b)) (\<lambda>ts.
         res_map (\<lambda>version. \<lparr>pp_inner = b1, pp_ts = ts, pp_version = version\<rparr>)
           (ok_or (DwMissing ''version'') (snd b)))))))" for se rd
    by (simp add: pport_from_xml_def dbind_def res_bind_def res_map_def split_beta ok_or_def
        split: sum.split option.split)
  ultimately show ?thesis by (intro returning_element)
qed

text \<open>
  C37. Parsing a document of the push port returns, with a message or an error, on everything an XML reader can
  deliver: events whose tags are balanced up to the end or the first error of the reader.
\<close>

theorem push_port_parse_returns:
  assumes "nested [] rd"
  shows "\<exists>r. parse_pport_document D rd = Some r"
  using assms
proof (induction rd)
  case Nil
  then show ?case by simp
next
  case (Cons r rd)
  show ?case
  proof (cases r)
    case (Inr ev)
    have "returns [] rd (pport_from_xml D (from_evt n attrs) rd)" if "nested [n] rd" for n attrs
      using pport_returning [of D] that unfolding returning_def
      by (metis append_Nil from_evt_def xml_start.select_convs(1))
    then have "\<exists>q. pport_from_xml D (from_evt n attrs) rd = Some q" if "nested [n] rd" for n attrs
      using that by (simp add: returns_def) blast
    with Cons Inr show ?thesis by (cases ev) fastforce+
  qed simp
qed

lemma push_port_parse_returns_witness:
  "\<exists>r. parse_pport_document
     \<lparr>dp_time_hms = \<lambda>_. None, dp_time_hm = \<lambda>_. None, dp_date = \<lambda>_. None, dp_rfc3339 = \<lambda>_. None\<rparr>
     [Inr XStartDocument, Inr (XStart \<lparr>xn_local = ''Pport'', xn_namespace = None, xn_prefix = None\<rparr> []), Inl ()] = Some r"
  by (rule push_port_parse_returns) simp

end
