(* ===== verification/Darwin_Roundtrip.thy ===== *)
theory Darwin_Roundtrip
  imports Darwin_Props
begin

text \<open>
  A reference encoding of train status messages as push port documents, and the proof that the deserializers read
  back what was encoded. Attributes and elements with their default value are left out, as Darwin does.
\<close>

section \<open>Encoding\<close>

record printers =
  pr_time :: "naive_time \<Rightarrow> string"
  pr_date :: "naive_date \<Rightarrow> string"
  pr_timestamp :: "naive_datetime \<times> int \<Rightarrow> string"

definition reads_printed :: "darwin_parsers \<Rightarrow> printers \<Rightarrow> bool" where
  "reads_printed D P \<longleftrightarrow> (\<forall>t. dp_time_hms D (pr_time P t) = Some t) \<and>
     (\<forall>d. dp_date D (pr_date P d) = Some d) \<and> (\<forall>ts. dp_rfc3339 D (pr_timestamp P ts) = Some ts)"

definition local_name :: "string \<Rightarrow> xml_name" where
  "local_name s = \<lparr>xn_local = s, xn_namespace = None, xn_prefix = None\<rparr>"

definition enc_elem :: "string \<Rightarrow> (string \<times> string) list \<Rightarrow> xml_event list \<Rightarrow> xml_event list" where
  "enc_elem n attrs body = XStart (local_name n) (map (apfst local_name) attrs) # body @ [XEnd (local_name n)]"

definition enc_opt :: "string \<Rightarrow> ('a \<Rightarrow> string) \<Rightarrow> 'a option \<Rightarrow> (string \<times> string) list" where
  "enc_opt n pr x = (case x of None \<Rightarrow> [] | Some a \<Rightarrow> [(n, pr a)])"

definition enc_flag :: "string \<Rightarrow> bool \<Rightarrow> (string \<times> string) list" where
  "enc_flag n b = (if b then [(n, ''true'')] else [])"

definition enc_child :: "('a \<Rightarrow> xml_event list) \<Rightarrow> 'a option \<Rightarrow> xml_event list" where
  "enc_child enc x = (case x of None \<Rightarrow> [] | Some a \<Rightarrow> enc a)"

definition enc_time_data :: "printers \<Rightarrow> string \<Rightarrow> ts_time_data \<Rightarrow> xml_event list" where
  "enc_time_data P n t =
     enc_elem n
       (enc_opt ''et'' (pr_time P) (tt_et t) @ enc_opt ''wet'' (pr_time P) (tt_wet t) @
        enc_opt ''at'' (pr_time P) (tt_at t) @ enc_opt ''etmin'' (pr_time P) (tt_etmin t) @
        enc_opt ''src'' (\<lambda>s. s) (tt_src t) @ enc_opt ''srcInst'' (\<lambda>s. s) (tt_src_inst t) @
        enc_opt ''atClass'' (\<lambda>s. s) (tt_at_class t) @ enc_flag ''atRemoved'' (tt_at_removed t) @
        enc_flag ''etUnknown'' (tt_et_unknown t) @ enc_flag ''delayed'' (tt_delayed t))
       []"

definition enc_platsrc :: "platform_source \<Rightarrow> string" where
  "enc_platsrc s = (case s of Plat_Planned \<Rightarrow> ''P'' | Plat_Automatic \<Rightarrow> ''A'' | Plat_Manual \<Rightarrow> ''M'')"

definition enc_platform :: "platform_data \<Rightarrow> xml_event list" where
  "enc_platform p =
     enc_elem ''plat''
       (enc_flag ''platsup'' (pd_platsup p) @ enc_flag ''cisPlatsup'' (pd_cis_platsup p) @
        [(''platsrc'', enc_platsrc (pd_platsrc p))] @ enc_flag ''conf'' (pd_conf p))
       [XChars (pd_platform p)]"

definition enc_value :: "string \<Rightarrow> string \<Rightarrow> xml_event list" where
  "enc_value n v = enc_elem n [] [XChars v]"

definition enc_location :: "printers \<Rightarrow> ts_location \<Rightarrow> xml_event list" where
  "enc_location P l =
     enc_elem ''Location''
       ([(''tpl'', tl_tiploc l)] @
        enc_opt ''wta'' (pr_time P) (ct_wta (tl_timings l)) @ enc_opt ''wtd'' (pr_time P) (ct_wtd (tl_timings l)) @
        enc_opt ''wtp'' (pr_time P) (ct_wtp (tl_timings l)) @ enc_opt ''pta'' (pr_time P) (ct_pta (tl_timings l)) @
        enc_opt ''ptd'' (pr_time P) (ct_ptd (tl_timings l)))
       (enc_child (enc_time_data P ''arr'') (tl_arr l) @ enc_child (enc_time_data P ''dep'') (tl_dep l) @
        enc_child (enc_time_data P ''pass'') (tl_pass l) @ enc_child enc_platform (tl_plat l) @
        enc_value ''suppr'' (show_bool (tl_suppr l)) @ enc_value ''length'' (show_nat (unat (tl_length l))) @
        enc_value ''detachFront'' (show_bool (tl_detach_front l)))"

definition enc_reason :: "string \<Rightarrow> disruption_reason \<Rightarrow> xml_event list" where
  "enc_reason n r = enc_elem n (enc_opt ''tiploc'' (\<lambda>s. s) (dr_tiploc r) @ enc_flag ''near'' (dr_near r))
     [XChars (dr_reason r)]"

definition enc_ts :: "printers \<Rightarrow> train_status_msg \<Rightarrow> xml_event list" where
  "enc_ts P t =
     enc_elem ''TS''
       ([(''rid'', ts_rid t), (''uid'', ts_uid t), (''ssd'', pr_date P (ts_start_date t))] @
        enc_flag ''isReverseFormation'' (ts_is_reverse_formation t))
       (enc_child (enc_reason ''LateReason'') (ts_late_reason t) @ concat (map (enc_location P) (ts_locations t)))"

text \<open>Events that are no part of a train status message, for instance an element that is not known; they may stand
  before every message.\<close>

definition foreign :: "xml_event list \<Rightarrow> bool" where
  "foreign evs \<longleftrightarrow> (\<forall>e\<in>set evs. case e of
     XStart n _ \<Rightarrow> xn_local n \<notin> {''TS'', ''schedule'', ''deactivated''}
   | XEnd n \<Rightarrow> n \<noteq> local_name ''uR''
   | _ \<Rightarrow> True)"

definition enc_document ::
    "printers \<Rightarrow> (naive_datetime \<times> int) \<Rightarrow> string \<Rightarrow> string option \<Rightarrow> (xml_event list \<times> train_status_msg) list \<Rightarrow>
     xml_event list" where
  "enc_document P ts version origin items =
     XStartDocument #
     enc_elem ''Pport'' [(''ts'', pr_timestamp P ts), (''version'', version)]
       (enc_elem ''uR'' (enc_opt ''updateOrigin'' (\<lambda>s. s) origin) (concat (map (\<lambda>(j, t). j @ enc_ts P t) items))) @
     [XEndDocument]"

text \<open>\<open>CircularTimes\<close> has at least one time, which its builder checks.\<close>

definition timed :: "ts_location \<Rightarrow> bool" where
  "timed l \<longleftrightarrow> (let t = tl_timings l in ct_wta t \<noteq> None \<or> ct_wtd t \<noteq> None \<or> ct_wtp t \<noteq> None \<or>
     ct_pta t \<noteq> None \<or> ct_ptd t \<noteq> None)"

section \<open>Reading attributes back\<close>

definition given :: "('a \<Rightarrow> 'b) \<Rightarrow> 'a option \<Rightarrow> 'b \<Rightarrow> 'b" where
  "given emb x y = (case x of None \<Rightarrow> y | Some a \<Rightarrow> emb a)"

lemma given_simps [simp]:
  "given Some x None = x" "or_default None (given (\<lambda>a. Some (Some a)) x None) = x"
  "given (\<lambda>a. Some (Some a)) x None = None \<longleftrightarrow> x = None"
  by (simp_all add: given_def or_default_def split: option.split)

lemma or_default_simps [simp]: "or_default d None = d" "or_default d (Some a) = a"
  by (simp_all add: or_default_def)

lemma required_Some [simp]: "required n (Some a) = Inr a"
  by (simp add: required_def)

definition raised :: "'b \<Rightarrow> bool \<Rightarrow> 'b \<Rightarrow> 'b" where
  "raised x b y = (if b then x else y)"

lemma raised_simps [simp]: "raised True b False = b" "or_default False (raised (Some True) b None) = b"
  by (simp_all add: raised_def)

lemma given_fun: "given emb None = (\<lambda>y. y)" "given emb (Some a) = (\<lambda>_. emb a)"
  by (auto simp: given_def)

lemma raised_fun: "raised x False = (\<lambda>y. y)" "raised x True = (\<lambda>_. x)"
  by (auto simp: raised_def)

abbreviation xml_attributes :: "(string \<times> string) list \<Rightarrow> (xml_name \<times> string) list" where
  "xml_attributes \<equiv> map (apfst local_name)"

lemma xml_attrs_append:
  "xml_attrs hs (xml_attributes xs) b = Inr c \<Longrightarrow> xml_attrs hs (xml_attributes ys) c = Inr d \<Longrightarrow>
   xml_attrs hs (xml_attributes (xs @ ys)) b = Inr d"
  by (simp add: xml_attrs_def res_fold_append)

lemma xml_attrs_opt:
  assumes "map_of hs n = Some f" "\<And>a. f (pr a) b = Inr (upd (\<lambda>_. emb a) b)" "upd (\<lambda>y. y) b = b"
  shows "xml_attrs hs (xml_attributes (enc_opt n pr x)) b = Inr (upd (given emb x) b)"
  using assms
  by (cases x) (simp_all add: enc_opt_def xml_attrs_def local_name_def given_fun)

lemma xml_attrs_flag:
  assumes "map_of hs n = Some f" "f ''true'' b = Inr (upd (\<lambda>_. x) b)" "upd (\<lambda>y. y) b = b"
  shows "xml_attrs hs (xml_attributes (enc_flag n v)) b = Inr (upd (raised x v) b)"
  using assms
  by (cases v) (simp_all add: enc_flag_def xml_attrs_def local_name_def raised_fun)

lemma put_printed:
  "reads_printed D P \<Longrightarrow> put_time D upd (pr_time P t) b = Inr (upd t b)"
  "reads_printed D P \<Longrightarrow> put_date D upd' (pr_date P d) b' = Inr (upd' d b')"
  "put_bool upd'' ''true'' b'' = Inr (upd'' True b'')"
  "put_bool upd'' (show_bool v) b'' = Inr (upd'' v b'')"
  by (simp_all add: put_time_def parse_time_def put_date_def put_bool_def reads_printed_def
      parse_bool_def show_bool_def)

lemma time_data_attrs:
  assumes "reads_printed D P"
  shows "xml_attrs (ts_time_data_attrs D) (xml_attributes
      (enc_opt ''et'' (pr_time P) (tt_et t) @ enc_opt ''wet'' (pr_time P) (tt_wet t) @
        enc_opt ''at'' (pr_time P) (tt_at t) @ enc_opt ''etmin'' (pr_time P) (tt_etmin t) @
        enc_opt ''src'' (\<lambda>s. s) (tt_src t) @ enc_opt ''srcInst'' (\<lambda>s. s) (tt_src_inst t) @
        enc_opt ''atClass'' (\<lambda>s. s) (tt_at_class t) @ enc_flag ''atRemoved'' (tt_at_removed t) @
        enc_flag ''etUnknown'' (tt_et_unknown t) @ enc_flag ''delayed'' (tt_delayed t))) ts_time_data_default = Inr t"
    (is "?lhs = _")
proof -
  note defs = ts_time_data_attrs_def renamed_def put_printed(1,2) [OF assms] put_printed(3,4) put_string_def
  let ?A = "\<lambda>as. xml_attrs (ts_time_data_attrs D) (xml_attributes as)"
  have opt: "?A (enc_opt ''et'' (pr_time P) x) b = Inr (tt_et_update (given Some x) b)"
    "?A (enc_opt ''wet'' (pr_time P) x) b = Inr (tt_wet_update (given Some x) b)"
    "?A (enc_opt ''at'' (pr_time P) x) b = Inr (tt_at_update (given Some x) b)"
    "?A (enc_opt ''etmin'' (pr_time P) x) b = Inr (tt_etmin_update (given Some x) b)"
    "?A (enc_opt ''src'' (\<lambda>s. s) y) b = Inr (tt_src_update (given Some y) b)"
    "?A (enc_opt ''srcInst'' (\<lambda>s. s) y) b = Inr (tt_src_inst_update (given Some y) b)"
    "?A (enc_opt ''atClass'' (\<lambda>s. s) y) b = Inr (tt_at_class_update (given Some y) b)" for x y b
    by (rule xml_attrs_opt, simp add: defs, cases b, simp add: defs, cases b, simp)+
  have flag: "?A (enc_flag ''atRemoved'' v) b = Inr (tt_at_removed_update (raised True v) b)"
    "?A (enc_flag ''etUnknown'' v) b = Inr (tt_et_unknown_update (raised True v) b)"
    "?A (enc_flag ''delayed'' v) b = Inr (tt_delayed_update (raised True v) b)" for v b
    by (rule xml_attrs_flag, simp add: defs, cases b, simp add: defs, cases b, simp)+
  have "?lhs = Inr (tt_delayed_update (raised True (tt_delayed t)) (tt_et_unknown_update (raised True (tt_et_unknown t))
      (tt_at_removed_update (raised True (tt_at_removed t)) (tt_at_class_update (given Some (tt_at_class t))
      (tt_src_inst_update (given Some (tt_src_inst t)) (tt_src_update (given Some (tt_src t))
      (tt_etmin_update (given Some (tt_etmin t)) (tt_at_update (given Some (tt_at t))
      (tt_wet_update (given Some (tt_wet t)) (tt_et_update (given Some (tt_et t)) ts_time_data_default))))))))))"
    by (rule xml_attrs_append opt flag)+
  also have "\<dots> = Inr t" by (cases t) (simp add: ts_time_data_default_def)
  finally show ?thesis .
qed


lemma platform_attrs:
  "xml_attrs platform_data_attrs (xml_attributes
      (enc_flag ''platsup'' (pd_platsup p) @ enc_flag ''cisPlatsup'' (pd_cis_platsup p) @
        [(''platsrc'', enc_platsrc (pd_platsrc p))] @ enc_flag ''conf'' (pd_conf p)))
      \<lparr>pb_platform = None, pb_platsup = None, pb_cis_platsup = None, pb_platsrc = None, pb_conf = None\<rparr> =
    Inr \<lparr>pb_platform = None, pb_platsup = raised (Some True) (pd_platsup p) None,
      pb_cis_platsup = raised (Some True) (pd_cis_platsup p) None, pb_platsrc = Some (pd_platsrc p),
      pb_conf = raised (Some True) (pd_conf p) None\<rparr>"
    (is "?lhs = _")
proof -
  note defs = platform_data_attrs_def renamed_def put_printed(3)
  let ?A = "\<lambda>as. xml_attrs platform_data_attrs (xml_attributes as)"
  have flag: "?A (enc_flag ''platsup'' v) b = Inr (pb_platsup_update (raised (Some True) v) b)"
    "?A (enc_flag ''cisPlatsup'' v) b = Inr (pb_cis_platsup_update (raised (Some True) v) b)"
    "?A (enc_flag ''conf'' v) b = Inr (pb_conf_update (raised (Some True) v) b)" for v b
    by (rule xml_attrs_flag, simp add: defs, cases b, simp add: defs, cases b, simp)+
  have src: "?A [(''platsrc'', enc_platsrc (pd_platsrc p))] b = Inr (b\<lparr>pb_platsrc := Some (pd_platsrc p)\<rparr>)" for b
    by (simp add: xml_attrs_def local_name_def defs enc_platsrc_def platform_source_from_str_def
        split: platform_source.split)
  have "?lhs = Inr (pb_conf_update (raised (Some True) (pd_conf p)) (pb_platsrc_update (\<lambda>_. Some (pd_platsrc p))
      (pb_cis_platsup_update (raised (Some True) (pd_cis_platsup p)) (pb_platsup_update (raised (Some True) (pd_platsup p))
      \<lparr>pb_platform = None, pb_platsup = None, pb_cis_platsup = None, pb_platsrc = None, pb_conf = None\<rparr>))))"
    by (rule xml_attrs_append flag src)+
  then show ?thesis by simp
qed

lemma location_attrs:
  assumes "reads_printed D P"
  shows "xml_attrs (ts_location_attrs D) (xml_attributes
      ([(''tpl'', tl_tiploc l)] @
        enc_opt ''wta'' (pr_time P) (ct_wta (tl_timings l)) @ enc_opt ''wtd'' (pr_time P) (ct_wtd (tl_timings l)) @
        enc_opt ''wtp'' (pr_time P) (ct_wtp (tl_timings l)) @ enc_opt ''pta'' (pr_time P) (ct_pta (tl_timings l)) @
        enc_opt ''ptd'' (pr_time P) (ct_ptd (tl_timings l)))) ts_location_start =
    Inr (ts_location_start\<lparr>tb_tiploc := Some (tl_tiploc l), tb_timings :=
      \<lparr>cb_wta = given (\<lambda>a. Some (Some a)) (ct_wta (tl_timings l)) None,
       cb_wtd = given (\<lambda>a. Some (Some a)) (ct_wtd (tl_timings l)) None,
       cb_wtp = given (\<lambda>a. Some (Some a)) (ct_wtp (tl_timings l)) None,
       cb_pta = given (\<lambda>a. Some (Some a)) (ct_pta (tl_timings l)) None,
       cb_ptd = given (\<lambda>a. Some (Some a)) (ct_ptd (tl_timings l)) None\<rparr>\<rparr>)"
    (is "?lhs = _")
proof -
  note defs = ts_location_attrs_def renamed_def put_printed(1) [OF assms] put_string_def
  let ?A = "\<lambda>as. xml_attrs (ts_location_attrs D) (xml_attributes as)"
  let ?g = "\<lambda>x. given (\<lambda>a. Some (Some a)) x"
  have tpl: "?A [(''tpl'', s)] b = Inr (b\<lparr>tb_tiploc := Some s\<rparr>)" for s b
    by (simp add: xml_attrs_def local_name_def defs)
  have opt: "?A (enc_opt ''wta'' (pr_time P) x) b = Inr (b\<lparr>tb_timings := cb_wta_update (?g x) (tb_timings b)\<rparr>)"
    "?A (enc_opt ''wtd'' (pr_time P) x) b = Inr (b\<lparr>tb_timings := cb_wtd_update (?g x) (tb_timings b)\<rparr>)"
    "?A (enc_opt ''wtp'' (pr_time P) x) b = Inr (b\<lparr>tb_timings := cb_wtp_update (?g x) (tb_timings b)\<rparr>)"
    "?A (enc_opt ''pta'' (pr_time P) x) b = Inr (b\<lparr>tb_timings := cb_pta_update (?g x) (tb_timings b)\<rparr>)"
    "?A (enc_opt ''ptd'' (pr_time P) x) b = Inr (b\<lparr>tb_timings := cb_ptd_update (?g x) (tb_timings b)\<rparr>)" for x b
    by (cases x; cases b; cases "tb_timings b"; simp add: enc_opt_def xml_attrs_def local_name_def defs given_fun)+
  show ?thesis
    by (rule xml_attrs_append [OF tpl] xml_attrs_append [OF opt(1)] xml_attrs_append [OF opt(2)]
        xml_attrs_append [OF opt(3)] xml_attrs_append [OF opt(4)] | (simp add: opt(5), simp add: ts_location_start_def))+
qed

section \<open>Reading elements back\<close>

text \<open>The events are those of an element that the decoder reads as the value, whatever follows it.\<close>

definition reads :: "'a decoder \<Rightarrow> string \<Rightarrow> xml_event list \<Rightarrow> 'a \<Rightarrow> bool" where
  "reads D n evs x \<longleftrightarrow> (\<exists>attrs body. evs = enc_elem n attrs body \<and>
     (\<forall>rd. D (from_evt (local_name n) (xml_attributes attrs)) (map Inr (body @ [XEnd (local_name n)]) @ rd) =
       Some (Inr (x, rd))))"

lemma iter_child:
  assumes "reads D n evs x" "map_of children n = Some (child D f)"
  shows "xml_iter l children chars nm acc (map Inr evs @ rd) = xml_iter l children chars nm (f x acc) rd"
  using assms
  by (intro xml_iter_Next) (auto simp: reads_def enc_elem_def xml_step_def child_def local_name_def)

lemma iter_child_opt:
  assumes "\<And>x. y = Some x \<Longrightarrow> reads D n (enc x) x" "map_of children n = Some (child D f)"
  shows "xml_iter l children chars nm acc (map Inr (enc_child enc y) @ rd) =
    xml_iter l children chars nm (case y of None \<Rightarrow> acc | Some x \<Rightarrow> f x acc) rd"
  using assms iter_child [where D = D and children = children and f = f]
  by (cases y) (simp_all add: enc_child_def)

lemma iter_children:
  assumes "\<And>x. x \<in> set xs \<Longrightarrow> reads D n (enc x) x" "map_of children n = Some (child D f)"
  shows "xml_iter l children chars nm acc (map Inr (concat (map enc xs)) @ rd) =
    xml_iter l children chars nm (fold f xs acc) rd"
  using assms(1)
proof (induction xs arbitrary: acc)
  case (Cons x xs)
  then show ?case
    using iter_child [OF Cons.prems(1) assms(2), of x] by simp
qed simp

lemma iter_chars:
  "f s acc = Inr acc1 \<Longrightarrow> xml_iter l children (Some f) nm acc (Inr (XChars s) # rd) =
     xml_iter l children (Some f) nm acc1 rd"
  by (intro xml_iter_Next) (simp add: xml_step_def)

lemma iter_end: "xml_iter l children chars nm acc (Inr (XEnd nm) # rd) = Some (Inr (acc, rd))"
  by (intro xml_iter_Stop) (simp add: xml_step_def)

lemma readsI:
  assumes "evs = enc_elem n attrs body"
    and "\<And>rd. D (from_evt (local_name n) (xml_attributes attrs)) (map Inr body @ Inr (XEnd (local_name n)) # rd) =
      Some (Inr (x, rd))"
  shows "reads D n evs x"
  using assms by (auto simp: reads_def)

lemma reads_time_data: "reads_printed D P \<Longrightarrow> reads (ts_time_data_from_xml D) n (enc_time_data P n t) t"
  by (rule readsI [OF enc_time_data_def])
     (simp add: ts_time_data_from_xml_def from_evt_def time_data_attrs iter_end del: map_append)

lemma reads_platform: "reads platform_data_from_xml ''plat'' (enc_platform p) p"
  by (rule readsI [OF enc_platform_def])
     (simp add: platform_data_from_xml_def from_evt_def platform_attrs [simplified append_Cons append_Nil] iter_chars iter_end platform_data_build_def
        del: map_append)

lemma reads_bool: "reads bool_element n (enc_value n (show_bool b)) b"
  by (rule readsI [OF enc_value_def])
     (simp add: bool_element_def value_element_def from_evt_def iter_chars iter_end)

lemma reads_u32: "reads u32_element n (enc_value n (show_nat (unat k))) k"
  by (rule readsI [OF enc_value_def])
     (simp add: u32_element_def value_element_def from_evt_def iter_chars iter_end)


lemma reads_reason: "reads disruption_reason_from_xml n (enc_reason n r) r"
proof (rule readsI [OF enc_reason_def])
  have "xml_attrs disruption_reason_attrs (xml_attributes
      (enc_opt ''tiploc'' (\<lambda>s. s) (dr_tiploc r) @ enc_flag ''near'' (dr_near r)))
      \<lparr>db_reason = None, db_tiploc = None, db_near = None\<rparr> =
    Inr \<lparr>db_reason = None, db_tiploc = given (\<lambda>a. Some (Some a)) (dr_tiploc r) None,
      db_near = raised (Some True) (dr_near r) None\<rparr>"
    by (simp add: xml_attrs_def local_name_def enc_opt_def enc_flag_def disruption_reason_attrs_def put_string_def
        put_printed(3) given_def raised_def split: option.split)
  then show "disruption_reason_from_xml (from_evt (local_name n) (xml_attributes
      (enc_opt ''tiploc'' (\<lambda>s. s) (dr_tiploc r) @ enc_flag ''near'' (dr_near r))))
      (map Inr [XChars (dr_reason r)] @ Inr (XEnd (local_name n)) # rd) = Some (Inr (r, rd))" for rd
    by (simp add: disruption_reason_from_xml_def from_evt_def iter_chars iter_end disruption_reason_build_def
        del: map_append)
qed

text \<open>What the builder of a location holds after its elements.\<close>

definition location_built :: "ts_location \<Rightarrow> ts_location_b \<Rightarrow> ts_location_b" where
  "location_built l b =
     (let b1 = (case tl_arr l of None \<Rightarrow> b | Some x \<Rightarrow> b\<lparr>tb_arr := Some (Some x)\<rparr>);
          b2 = (case tl_dep l of None \<Rightarrow> b1 | Some x \<Rightarrow> b1\<lparr>tb_dep := Some (Some x)\<rparr>);
          b3 = (case tl_pass l of None \<Rightarrow> b2 | Some x \<Rightarrow> b2\<lparr>tb_pass := Some (Some x)\<rparr>);
          b4 = (case tl_plat l of None \<Rightarrow> b3 | Some x \<Rightarrow> b3\<lparr>tb_plat := Some (Some x)\<rparr>)
      in b4\<lparr>tb_suppr := Some (tl_suppr l), tb_length := Some (tl_length l),
            tb_detach_front := Some (tl_detach_front l)\<rparr>)"

lemma location_elements:
  assumes "reads_printed D P"
  shows "xml_iter False (ts_location_children D) None nm b (map Inr
      (enc_child (enc_time_data P ''arr'') (tl_arr l) @ enc_child (enc_time_data P ''dep'') (tl_dep l) @
        enc_child (enc_time_data P ''pass'') (tl_pass l) @ enc_child enc_platform (tl_plat l) @
        enc_value ''suppr'' (show_bool (tl_suppr l)) @ enc_value ''length'' (show_nat (unat (tl_length l))) @
        enc_value ''detachFront'' (show_bool (tl_detach_front l))) @ Inr (XEnd nm) # rd) =
    Some (Inr (location_built l b, rd))"
proof -
  let ?C = "ts_location_children D"
  have c: "map_of ?C ''arr'' = Some (child (ts_time_data_from_xml D) (\<lambda>x b. b\<lparr>tb_arr := Some (Some x)\<rparr>))"
    "map_of ?C ''dep'' = Some (child (ts_time_data_from_xml D) (\<lambda>x b. b\<lparr>tb_dep := Some (Some x)\<rparr>))"
    "map_of ?C ''pass'' = Some (child (ts_time_data_from_xml D) (\<lambda>x b. b\<lparr>tb_pass := Some (Some x)\<rparr>))"
    "map_of ?C ''plat'' = Some (child platform_data_from_xml (\<lambda>x b. b\<lparr>tb_plat := Some (Some x)\<rparr>))"
    "map_of ?C ''suppr'' = Some (child bool_element (\<lambda>x b. b\<lparr>tb_suppr := Some x\<rparr>))"
    "map_of ?C ''length'' = Some (child u32_element (\<lambda>x b. b\<lparr>tb_length := Some x\<rparr>))"
    "map_of ?C ''detachFront'' = Some (child bool_element (\<lambda>x b. b\<lparr>tb_detach_front := Some x\<rparr>))"
    by (simp_all add: ts_location_children_def)
  show ?thesis
    unfolding map_append append_assoc location_built_def Let_def
    by (subst iter_child_opt [OF reads_time_data [OF assms] c(1)],
        subst iter_child_opt [OF reads_time_data [OF assms] c(2)],
        subst iter_child_opt [OF reads_time_data [OF assms] c(3)],
        subst iter_child_opt [OF reads_platform c(4)],
        subst iter_child [OF reads_bool c(5)], subst iter_child [OF reads_u32 c(6)],
        subst iter_child [OF reads_bool c(7)], simp add: iter_end)
qed

lemma reads_location:
  assumes "reads_printed D P" "timed l"
  shows "reads (ts_location_from_xml D) ''Location'' (enc_location P l) l"
proof (rule readsI [OF enc_location_def])
  obtain b where b: "xml_attrs (ts_location_attrs D) (xml_attributes
      ([(''tpl'', tl_tiploc l)] @
        enc_opt ''wta'' (pr_time P) (ct_wta (tl_timings l)) @ enc_opt ''wtd'' (pr_time P) (ct_wtd (tl_timings l)) @
        enc_opt ''wtp'' (pr_time P) (ct_wtp (tl_timings l)) @ enc_opt ''pta'' (pr_time P) (ct_pta (tl_timings l)) @
        enc_opt ''ptd'' (pr_time P) (ct_ptd (tl_timings l)))) ts_location_start = Inr b"
    and bd: "b = ts_location_start\<lparr>tb_tiploc := Some (tl_tiploc l), tb_timings :=
      \<lparr>cb_wta = given (\<lambda>a. Some (Some a)) (ct_wta (tl_timings l)) None,
       cb_wtd = given (\<lambda>a. Some (Some a)) (ct_wtd (tl_timings l)) None,
       cb_wtp = given (\<lambda>a. Some (Some a)) (ct_wtp (tl_timings l)) None,
       cb_pta = given (\<lambda>a. Some (Some a)) (ct_pta (tl_timings l)) None,
       cb_ptd = given (\<lambda>a. Some (Some a)) (ct_ptd (tl_timings l)) None\<rparr>\<rparr>"
    using location_attrs [OF assms(1)] by blast
  have timings: "circular_times_build (tb_timings b) = Inr (tl_timings l)"
    using assms(2) by (simp add: circular_times_build_def circular_times_validate_def bd timed_def Let_def)
  have built: "ts_location_build (tl_timings l) (location_built l b) = Inr l"
    by (simp add: ts_location_build_def location_built_def Let_def bd ts_location_start_def split: option.split)
  show "ts_location_from_xml D (from_evt (local_name ''Location'') (xml_attributes
      ([(''tpl'', tl_tiploc l)] @
        enc_opt ''wta'' (pr_time P) (ct_wta (tl_timings l)) @ enc_opt ''wtd'' (pr_time P) (ct_wtd (tl_timings l)) @
        enc_opt ''wtp'' (pr_time P) (ct_wtp (tl_timings l)) @ enc_opt ''pta'' (pr_time P) (ct_pta (tl_timings l)) @
        enc_opt ''ptd'' (pr_time P) (ct_ptd (tl_timings l)))))
      (map Inr (enc_child (enc_time_data P ''arr'') (tl_arr l) @ enc_child (enc_time_data P ''dep'') (tl_dep l) @
        enc_child (enc_time_data P ''pass'') (tl_pass l) @ enc_child enc_platform (tl_plat l) @
        enc_value ''suppr'' (show_bool (tl_suppr l)) @ enc_value ''length'' (show_nat (unat (tl_length l))) @
        enc_value ''detachFront'' (show_bool (tl_detach_front l))) @ Inr (XEnd (local_name ''Location'')) # rd) =
      Some (Inr (l, rd))" for rd
    unfolding ts_location_from_xml_def from_evt_def xml_start.simps b
    by (simp only: dbind_simps timings location_elements [OF assms(1)] prod.case built res_map_simps dret_Some)
qed


lemma fold_locations: "fold (\<lambda>x b. b\<lparr>sb_locations := sb_locations b @ [x]\<rparr>) xs b = b\<lparr>sb_locations := sb_locations b @ xs\<rparr>"
  by (induction xs arbitrary: b) simp_all

lemma reads_ts:
  assumes "reads_printed D P" "\<forall>l\<in>set (ts_locations t). timed l"
  shows "reads (ts_from_xml D) ''TS'' (enc_ts P t) t"
proof (rule readsI [OF enc_ts_def])
  let ?b = "ts_start\<lparr>sb_rid := Some (ts_rid t), sb_uid := Some (ts_uid t), sb_start_date := Some (ts_start_date t),
    sb_is_reverse_formation := raised (Some True) (ts_is_reverse_formation t) None\<rparr>"
  have attrs: "xml_attrs (ts_attrs D) (xml_attributes
      ([(''rid'', ts_rid t), (''uid'', ts_uid t), (''ssd'', pr_date P (ts_start_date t))] @
        enc_flag ''isReverseFormation'' (ts_is_reverse_formation t))) ts_start = Inr ?b"
    by (simp add: xml_attrs_def local_name_def enc_flag_def ts_attrs_def renamed_def put_string_def
        put_printed(2) [OF assms(1)] put_printed(3) raised_def ts_start_def)
  have late: "map_of (ts_children D) ''LateReason'' = Some (child disruption_reason_from_xml (\<lambda>x b. b\<lparr>sb_late_reason := Some x\<rparr>))"
    and loc: "map_of (ts_children D) ''Location'' =
      Some (child (ts_location_from_xml D) (\<lambda>x b. b\<lparr>sb_locations := sb_locations b @ [x]\<rparr>))"
    by (simp_all add: ts_children_def)
  have locs: "reads (ts_location_from_xml D) ''Location'' (enc_location P l) l" if "l \<in> set (ts_locations t)" for l
    using reads_location [OF assms(1)] assms(2) that by blast
  have body: "xml_iter False (ts_children D) None nm b (map Inr (enc_child (enc_reason ''LateReason'') (ts_late_reason t) @
      concat (map (enc_location P) (ts_locations t))) @ Inr (XEnd nm) # rd) = Some (Inr
        ((case ts_late_reason t of None \<Rightarrow> b | Some x \<Rightarrow> b\<lparr>sb_late_reason := Some x\<rparr>)
          \<lparr>sb_locations := sb_locations (case ts_late_reason t of None \<Rightarrow> b | Some x \<Rightarrow> b\<lparr>sb_late_reason := Some x\<rparr>) @
             ts_locations t\<rparr>, rd))" for nm b rd
    unfolding map_append append_assoc
    by (subst iter_child_opt [OF reads_reason late], subst iter_children [OF locs loc], assumption,
        simp add: iter_end fold_locations)
  have built: "ts_build ((case ts_late_reason t of None \<Rightarrow> ?b | Some x \<Rightarrow> ?b\<lparr>sb_late_reason := Some x\<rparr>)
      \<lparr>sb_locations := sb_locations (case ts_late_reason t of None \<Rightarrow> ?b | Some x \<Rightarrow> ?b\<lparr>sb_late_reason := Some x\<rparr>) @
         ts_locations t\<rparr>) = Inr t"
    by (cases t) (simp add: ts_build_def ts_start_def split: option.split)
  show "ts_from_xml D (from_evt (local_name ''TS'') (xml_attributes
      ([(''rid'', ts_rid t), (''uid'', ts_uid t), (''ssd'', pr_date P (ts_start_date t))] @
        enc_flag ''isReverseFormation'' (ts_is_reverse_formation t))))
      (map Inr (enc_child (enc_reason ''LateReason'') (ts_late_reason t) @
        concat (map (enc_location P) (ts_locations t))) @ Inr (XEnd (local_name ''TS'')) # rd) = Some (Inr (t, rd))" for rd
    unfolding ts_from_xml_def from_evt_def xml_start.simps attrs
    by (simp only: dbind_simps body prod.case built res_map_simps dret_Some)
qed

lemma iter_foreign:
  assumes "foreign evs"
  shows "xml_iter True (data_response_children D) None (local_name ''uR'') acc (map Inr evs @ rd) =
    xml_iter True (data_response_children D) None (local_name ''uR'') acc rd"
  using assms
proof (induction evs)
  case (Cons e evs)
  have "xml_step True (data_response_children D) None (local_name ''uR'') acc (map Inr (e # evs) @ rd) =
      Some (IterNext acc (map Inr evs @ rd))"
    using Cons.prems
    by (cases e) (simp_all add: xml_step_def unexpected_def foreign_def data_response_children_def)
  with Cons show ?case by (simp add: xml_iter_Next foreign_def)
qed simp

lemma iter_items:
  assumes "\<forall>(j, t)\<in>set items. foreign j \<and> reads (ts_from_xml D) ''TS'' (enc_ts P t) t"
  shows "xml_iter True (data_response_children D) None (local_name ''uR'') acc
      (map Inr (concat (map (\<lambda>(j, t). j @ enc_ts P t) items)) @ rd) =
    xml_iter True (data_response_children D) None (local_name ''uR'')
      (acc\<lparr>rsp_train_status := rsp_train_status acc @ map snd items\<rparr>) rd"
  using assms
proof (induction items arbitrary: acc)
  case (Cons item items)
  obtain j t where item: "item = (j, t)" by (cases item)
  have ts: "map_of (data_response_children D) ''TS'' = Some (child (ts_from_xml D)
      (\<lambda>x r. r\<lparr>rsp_train_status := rsp_train_status r @ [x]\<rparr>))"
    by (simp add: data_response_children_def)
  from Cons.prems have "foreign j" "reads (ts_from_xml D) ''TS'' (enc_ts P t) t" by (simp_all add: item)
  with Cons show ?case
    by (simp add: item iter_foreign iter_child [OF _ ts])
qed simp

lemma parse_enc_document:
  assumes "reads_printed D P" "\<forall>(j, t)\<in>set items. foreign j \<and> (\<forall>l\<in>set (ts_locations t). timed l)"
  shows "parse_pport_document D (map Inr (enc_document P ts version origin items)) =
    Some (Inr \<lparr>pp_inner = DataResponse (data_response_default
        \<lparr>rsp_train_status := map snd items, rsp_update_origin := origin\<rparr>), pp_ts = ts, pp_version = version\<rparr>)"
proof -
  have items: "\<forall>(j, t)\<in>set items. foreign j \<and> reads (ts_from_xml D) ''TS'' (enc_ts P t) t"
    using reads_ts [OF assms(1)] assms(2) by fastforce
  have dr: "reads (data_response_from_xml D) ''uR''
      (enc_elem ''uR'' (enc_opt ''updateOrigin'' (\<lambda>s. s) origin) (concat (map (\<lambda>(j, t). j @ enc_ts P t) items)))
      (data_response_default\<lparr>rsp_train_status := map snd items, rsp_update_origin := origin\<rparr>)"
  proof (rule readsI [OF refl])
    have attrs: "xml_attrs data_response_attrs (xml_attributes (enc_opt ''updateOrigin'' (\<lambda>s. s) origin))
        data_response_default = Inr (data_response_default\<lparr>rsp_update_origin := origin\<rparr>)"
      by (simp add: xml_attrs_def local_name_def enc_opt_def data_response_attrs_def put_string_def
          data_response_default_def split: option.split)
    show "data_response_from_xml D (from_evt (local_name ''uR'') (xml_attributes (enc_opt ''updateOrigin'' (\<lambda>s. s) origin)))
        (map Inr (concat (map (\<lambda>(j, t). j @ enc_ts P t) items)) @ Inr (XEnd (local_name ''uR'')) # rd) =
        Some (Inr (data_response_default\<lparr>rsp_train_status := map snd items, rsp_update_origin := origin\<rparr>, rd))" for rd
      unfolding data_response_from_xml_def from_evt_def xml_start.simps attrs dbind_simps
      by (subst iter_items [OF items]) (simp add: iter_end data_response_default_def)
  qed
  have ur: "map_of (pport_children D) ''uR'' = Some (child (data_response_from_xml D) (\<lambda>x _. DataResponse x))"
    by (simp add: pport_children_def)
  have attrs: "xml_attrs (pport_attrs D) (xml_attributes [(''ts'', pr_timestamp P ts), (''version'', version)])
      (None, None) = Inr (Some ts, Some version)"
  proof -
    have "dp_rfc3339 D (pr_timestamp P ts) = Some ts" using assms(1) unfolding reads_printed_def by blast
    then show ?thesis by (simp add: xml_attrs_def local_name_def pport_attrs_def put_string_def)
  qed
  show ?thesis
    unfolding enc_document_def enc_elem_def [of "''Pport''"] list.map parse_pport_document.simps xml_event.case append_Cons
      append_assoc map_append
    using attrs
    by (simp add: pport_from_xml_def from_evt_def iter_child [OF dr ur] iter_end)
       (simp add: local_name_def iter_child [OF dr ur] iter_end)
qed



section \<open>A concrete document\<close>

text \<open>A format for lists of numbers, so that the parsers and printers can be given in full.\<close>

definition tally :: "nat list \<Rightarrow> string" where
  "tally ns = concat (map (\<lambda>n. replicate n CHR ''1'' @ '':'') ns)"

fun untally :: "nat \<Rightarrow> string \<Rightarrow> nat list" where
  "untally k [] = []"
| "untally k (c # s) = (if c = CHR '':'' then k # untally 0 s else untally (Suc k) s)"

lemma untally_tally: "untally 0 (tally ns) = ns"
proof (induction ns)
  case (Cons n ns)
  have "untally k (replicate m CHR ''1'' @ s) = untally (k + m) s" for k m s
    by (induction m arbitrary: k) simp_all
  with Cons show ?case by (simp add: tally_def)
qed (simp add: tally_def)

definition sample_printers :: printers where
  "sample_printers =
     \<lparr>pr_time = \<lambda>t. tally [nt_secs t, nt_frac t],
      pr_date = \<lambda>d. tally [nat (nd_days d), nat (- nd_days d)],
      pr_timestamp = \<lambda>(ts, off). tally [nat (nd_days (dt_date ts)), nat (- nd_days (dt_date ts)),
        nt_secs (dt_time ts), nt_frac (dt_time ts), nat off, nat (- off)]\<rparr>"

definition sample_parsers :: darwin_parsers where
  "sample_parsers =
     \<lparr>dp_time_hms = \<lambda>s. (case untally 0 s of [a, b] \<Rightarrow> Some (NaiveTime a b) | _ \<Rightarrow> None),
      dp_time_hm = \<lambda>s. None,
      dp_date = \<lambda>s. (case untally 0 s of [a, b] \<Rightarrow> Some (NaiveDate (int a - int b)) | _ \<Rightarrow> None),
      dp_rfc3339 = \<lambda>s. (case untally 0 s of
        [a, b, c, d, e, f] \<Rightarrow> Some (NaiveDateTime (NaiveDate (int a - int b)) (NaiveTime c d), int e - int f) | _ \<Rightarrow> None)\<rparr>"

lemma sample_reads_printed: "reads_printed sample_parsers sample_printers"
proof -
  have "dp_time_hms sample_parsers (pr_time sample_printers t) = Some t" for t
    by (cases t) (simp add: sample_parsers_def sample_printers_def untally_tally)
  moreover have "dp_date sample_parsers (pr_date sample_printers d) = Some d" for d
    by (cases d) (simp add: sample_parsers_def sample_printers_def untally_tally)
  moreover have "dp_rfc3339 sample_parsers (pr_timestamp sample_printers ts) = Some ts" for ts
  proof -
    obtain n s f off where "ts = (NaiveDateTime (NaiveDate n) (NaiveTime s f), off)"
      by (metis naive_date.exhaust naive_datetime.exhaust naive_time.exhaust prod.exhaust)
    then show ?thesis by (simp add: sample_parsers_def sample_printers_def untally_tally)
  qed
  ultimately show ?thesis by (simp add: reads_printed_def)
qed

definition sample_ts :: train_status_msg where
  "sample_ts =
     \<lparr>ts_late_reason = Some \<lparr>dr_reason = ''101'', dr_tiploc = Some ''EUSTON'', dr_near = True\<rparr>,
      ts_locations =
        [\<lparr>tl_tiploc = ''WATFDJ'',
          tl_timings = \<lparr>ct_wta = Some (NaiveTime 37000 0), ct_wtd = Some (NaiveTime 37060 0), ct_wtp = None,
            ct_pta = None, ct_ptd = None\<rparr>,
          tl_arr = Some (ts_time_data_default\<lparr>tt_at := Some (NaiveTime 37030 0), tt_src := Some ''TD''\<rparr>),
          tl_dep = Some (ts_time_data_default\<lparr>tt_et := Some (NaiveTime 37100 0), tt_delayed := True\<rparr>),
          tl_pass = None,
          tl_plat = Some \<lparr>pd_platform = ''8'', pd_platsup = True, pd_cis_platsup = False,
            pd_platsrc = Plat_Automatic, pd_conf = True\<rparr>,
          tl_suppr = False, tl_length = 8, tl_detach_front = False\<rparr>],
      ts_rid = ''202001067612345'', ts_uid = ''C12345'', ts_start_date = NaiveDate 737430,
      ts_is_reverse_formation = False\<rparr>"


end
