(* ===== verification/Nrod_Push.thy ===== *)
theory Nrod_Push
  imports Nrod_Darwin Darwin_Roundtrip
begin

text \<open>\<open>DarwinWorker::on_pport\<close>: the document is parsed and its messages are processed; one that does not parse
is logged.\<close>

definition on_pport ::
    "chrono \<Rightarrow> (string \<Rightarrow> bool) \<Rightarrow> 's zug_call \<Rightarrow> darwin_parsers \<Rightarrow> xml_reader \<Rightarrow> 's worker \<Rightarrow> 's worker option" where
  "on_pport C hdr Z D rd w =
     map_option (\<lambda>r. case r of Inl _ \<Rightarrow> w | Inr pp \<Rightarrow> process_pport C hdr Z (pp_inner pp) w)
       (parse_pport_document D rd)"

lemma on_pport_document:
  assumes "reads_printed D P" "\<forall>(j, t)\<in>set items. foreign j \<and> (\<forall>l\<in>set (ts_locations t). timed l)"
  shows "on_pport C hdr Z D (map Inr (enc_document P ts version origin items)) w =
    Some (fold (\<lambda>ts w. snd (process_ts C hdr Z ts w)) (map snd items) w)"
  by (simp add: on_pport_def process_pport_def parse_enc_document [OF assms] data_response_default_def)

end
