(* ===== verification/Nrod_Conn.thy ===== *)
theory Nrod_Conn
  imports Prelude
begin

text \<open>
  \<open>tspl-nrod/src/conn.rs\<close>: the STOMP connection. \<open>poll\<close> is called by the reactor; a call sees what the timer
  and the session have to say, which is its input, and changes the processor. What it asks of the session is
  appended to \<open>sp_cmds\<close>, what it sends to the workers to \<open>sp_tx\<close>.

  The session, the timer, \<open>from_utf8_lossy\<close> and the decompression are parameters. \<open>u64\<close> wraps, as it does in the
  release profile. The \<open>unwrap\<close>s are the error \<open>PollPanic\<close>.
\<close>

type_synonym u64 = "64 word"

section \<open>Subscriptions\<close>

datatype stomp_inner = Nrod | Darwin (queue_updates: "string option")

definition updates_name :: "string option \<Rightarrow> string" where
  "updates_name queue = (case queue of Some x \<Rightarrow> x | None \<Rightarrow> ''/topic/darwin.pushport-v16'')"

datatype 'f sess_cmd =
  Subscribe string string
| Reconnect
| Disconnect
| Ack 'f

text \<open>\<open>cd_body\<close> is \<open>from_utf8_lossy\<close> of the body, \<open>cd_gunzip\<close> the decompressed body.\<close>

record 'f codec =
  cd_body :: "'f \<Rightarrow> string"
  cd_gunzip :: "'f \<Rightarrow> string option"

fun on_connect :: "stomp_inner \<Rightarrow> 'f sess_cmd" where
  "on_connect Nrod = Subscribe ''/topic/TRAIN_MVT_ALL_TOC'' ''tspl-nrod''"
| "on_connect (Darwin queue) = Subscribe (updates_name queue) ''tspl-darwin''"

text \<open>What \<open>on_message\<close> sends.\<close>

fun on_message :: "'f codec \<Rightarrow> stomp_inner \<Rightarrow> string \<Rightarrow> 'f \<Rightarrow> string list" where
  "on_message D Nrod dest frame = (if dest = ''/topic/TRAIN_MVT_ALL_TOC'' then [cd_body D frame] else [])"
| "on_message D (Darwin queue) dest frame =
     (if dest = updates_name queue
      then (case cd_gunzip D frame of None \<Rightarrow> [] | Some st \<Rightarrow> [st])
      else [])"

section \<open>The processor\<close>

text \<open>\<open>sp_timeout\<close> is the armed timer, with the milliseconds it was set to.\<close>

record 'f processor =
  sp_timeout :: "u64 option"
  sp_timeout_ms :: u64
  sp_inner :: stomp_inner
  sp_cmds :: "'f sess_cmd list"
  sp_tx :: "string list"

definition new_processor :: "stomp_inner \<Rightarrow> 'f processor" where
  "new_processor inner = \<lparr>sp_timeout = None, sp_timeout_ms = 1000, sp_inner = inner, sp_cmds = [], sp_tx = []\<rparr>"

datatype 'f session_event =
  Connected
| ErrorFrame 'f
| Message string 'f
| Disconnected
| OtherEvent

datatype 'a async = Ready 'a | NotReady

datatype poll_error = TimerFailed | SessionFailed | PollPanic

text \<open>
  \<open>pi_timer\<close> is the answer of the armed timer, \<open>pi_reconnect\<close> whether \<open>reconnect\<close> works, \<open>pi_session\<close> the
  answer of the session and \<open>pi_new_timer\<close> whether a timer can be made and polled.
\<close>

record 'f poll_input =
  pi_timer :: "unit + unit async"
  pi_reconnect :: bool
  pi_session :: "unit + 'f session_event option async"
  pi_new_timer :: bool

fun on_event :: "'f codec \<Rightarrow> bool \<Rightarrow> 'f session_event \<Rightarrow> 'f processor \<Rightarrow> poll_error + 'f processor" where
  "on_event D new_timer Connected p = Inr (p\<lparr>sp_cmds := sp_cmds p @ [on_connect (sp_inner p)]\<rparr>)"
| "on_event D new_timer (ErrorFrame fr) p = Inr (p\<lparr>sp_cmds := sp_cmds p @ [Disconnect]\<rparr>)"
| "on_event D new_timer (Message destination frame) p =
     Inr (p\<lparr>sp_timeout := None, sp_timeout_ms := 1000,
            sp_tx := sp_tx p @ on_message D (sp_inner p) destination frame,
            sp_cmds := sp_cmds p @ [Ack frame]\<rparr>)"
| "on_event D new_timer Disconnected p =
     (if \<not> new_timer then Inl TimerFailed
      else Inr (p\<lparr>sp_timeout := Some (sp_timeout_ms p), sp_timeout_ms := sp_timeout_ms p * 2\<rparr>))"
| "on_event D new_timer OtherEvent p = Inr p"

definition poll_timer :: "'f poll_input \<Rightarrow> 'f processor \<Rightarrow> poll_error + 'f processor" where
  "poll_timer i p =
     (case (if sp_timeout p = None then Inr NotReady else pi_timer i) of
        Inl _ \<Rightarrow> Inl TimerFailed
      | Inr NotReady \<Rightarrow> Inr p
      | Inr (Ready _) \<Rightarrow>
          if pi_reconnect i then Inr (p\<lparr>sp_timeout := None, sp_cmds := sp_cmds p @ [Reconnect]\<rparr>) else Inl PollPanic)"

definition poll :: "'f codec \<Rightarrow> 'f poll_input \<Rightarrow> 'f processor \<Rightarrow> poll_error + 'f processor" where
  "poll D i p =
     res_bind (poll_timer i p) (\<lambda>p.
     case pi_session i of
       Inl _ \<Rightarrow> Inl SessionFailed
     | Inr NotReady \<Rightarrow> Inr p
     | Inr (Ready None) \<Rightarrow> Inl PollPanic
     | Inr (Ready (Some ev)) \<Rightarrow> on_event D (pi_new_timer i) ev p)"

text \<open>The reactor polls until an error ends the process.\<close>

definition polls :: "'f codec \<Rightarrow> 'f poll_input list \<Rightarrow> 'f processor \<Rightarrow> poll_error + 'f processor" where
  "polls D is = res_fold (poll D) is"

section \<open>What the session said\<close>

definition poll_event :: "'f poll_input \<Rightarrow> 'f session_event option" where
  "poll_event i = (case pi_session i of Inr (Ready ev) \<Rightarrow> ev | _ \<Rightarrow> None)"

definition events :: "'f poll_input list \<Rightarrow> 'f session_event list" where
  "events is = List.map_filter poll_event is"

fun is_message :: "'f session_event \<Rightarrow> bool" where
  "is_message (Message _ _) = True"
| "is_message _ = False"

text \<open>How often the connection was lost since the last message.\<close>

definition losses :: "'f session_event list \<Rightarrow> nat" where
  "losses evs = length (filter (\<lambda>e. e = Disconnected) (takeWhile (\<lambda>e. \<not> is_message e) (rev evs)))"

lemma losses_simps [simp]:
  "losses [] = 0" "losses (evs @ [Message d f]) = 0" "losses (evs @ [Disconnected]) = Suc (losses evs)"
  "losses (evs @ [Connected]) = losses evs" "losses (evs @ [ErrorFrame f]) = losses evs"
  "losses (evs @ [OtherEvent]) = losses evs"
  by (simp_all add: losses_def)

lemma events_snoc: "events (is @ [i]) = events is @ (case poll_event i of None \<Rightarrow> [] | Some e \<Rightarrow> [e])"
  by (simp add: events_def map_filter_def split: option.split)

lemma res_fold_snoc: "res_fold f (xs @ [x]) s = res_bind (res_fold f xs s) (f x)"
  by (induction xs arbitrary: s) (auto split: sum.split)

text \<open>An error ends the process, so a history without one can be extended by one call at a time.\<close>

lemma polls_induct [consumes 1, case_names start poll]:
  assumes "polls D is p0 = Inr p"
    and "P [] p0"
    and "\<And>is i p p'. polls D is p0 = Inr p \<Longrightarrow> P is p \<Longrightarrow> poll D i p = Inr p' \<Longrightarrow> P (is @ [i]) p'"
  shows "P is p"
  using assms(1)
proof (induction "is" arbitrary: p rule: rev_induct)
  case Nil
  then show ?case using assms(2) by (simp add: polls_def)
next
  case (snoc i "is")
  then obtain q where "polls D is p0 = Inr q" "poll D i q = Inr p"
    by (auto simp: polls_def res_fold_snoc res_bind_Inr)
  with snoc.IH show ?case by (blast intro: assms(3))
qed

lemma poll_cases:
  assumes "poll D i p = Inr p'"
  obtains q where "poll_timer i p = Inr q"
    "poll_event i = None \<and> p' = q \<or> (\<exists>e. poll_event i = Some e \<and> on_event D (pi_new_timer i) e q = Inr p')"
proof -
  obtain q where q: "poll_timer i p = Inr q" using assms by (auto simp: poll_def res_bind_Inr)
  have "poll_event i = None \<and> p' = q \<or> (\<exists>e. poll_event i = Some e \<and> on_event D (pi_new_timer i) e q = Inr p')"
    using assms by (auto simp: poll_def q poll_event_def split: sum.splits async.splits option.splits)
  with q show thesis by (rule that)
qed

lemma poll_timer_keeps:
  assumes "poll_timer i p = Inr q"
  shows "sp_timeout_ms q = sp_timeout_ms p" "sp_inner q = sp_inner p" "sp_tx q = sp_tx p"
    "sp_timeout q = sp_timeout p \<and> sp_cmds q = sp_cmds p \<or>
     sp_timeout p \<noteq> None \<and> sp_timeout q = None \<and> sp_cmds q = sp_cmds p @ [Reconnect]"
  using assms by (auto simp: poll_timer_def split: sum.splits async.splits if_splits)

section \<open>Properties\<close>

text \<open>What a message makes the processor send to the workers, and that it acknowledges it.\<close>

fun forwarded :: "'f codec \<Rightarrow> stomp_inner \<Rightarrow> 'f session_event \<Rightarrow> string list" where
  "forwarded D inner (Message dest f) = on_message D inner dest f"
| "forwarded D inner _ = []"

fun acked :: "'f session_event \<Rightarrow> 'f list" where
  "acked (Message dest f) = [f]"
| "acked _ = []"

fun ack_of :: "'f sess_cmd \<Rightarrow> 'f list" where
  "ack_of (Ack f) = [f]"
| "ack_of _ = []"

lemma ack_of_on_connect [simp]: "ack_of (on_connect inner) = []" "on_connect inner \<noteq> Reconnect"
  by (cases inner; simp)+

definition count_reconnects :: "'f sess_cmd list \<Rightarrow> nat" where
  "count_reconnects cmds = length (filter (\<lambda>c. c = Reconnect) cmds)"

definition count_losses :: "'f session_event list \<Rightarrow> nat" where
  "count_losses evs = length (filter (\<lambda>e. e = Disconnected) evs)"

text \<open>What holds of the processor after the events \<open>evs\<close>.\<close>

definition conn_inv :: "'f codec \<Rightarrow> stomp_inner \<Rightarrow> 'f session_event list \<Rightarrow> 'f processor \<Rightarrow> bool" where
  "conn_inv D inner evs p \<longleftrightarrow>
     sp_inner p = inner \<and> sp_timeout_ms p = 1000 * 2 ^ losses evs \<and>
     (\<forall>t. sp_timeout p = Some t \<longrightarrow> losses evs > 0 \<and> t = 1000 * 2 ^ (losses evs - 1)) \<and>
     count_reconnects (sp_cmds p) + (if sp_timeout p = None then 0 else 1) \<le> count_losses evs \<and>
     sp_tx p = concat (map (forwarded D inner) evs) \<and>
     concat (map ack_of (sp_cmds p)) = concat (map acked evs)"

lemma conn_inv_timer: "conn_inv D inner evs p \<Longrightarrow> poll_timer i p = Inr q \<Longrightarrow> conn_inv D inner evs q"
  using poll_timer_keeps [of i p q] by (cases "sp_timeout p") (auto simp: conn_inv_def count_reconnects_def)

lemma conn_inv_event:
  "conn_inv D inner evs p \<Longrightarrow> on_event D new_timer e p = Inr p' \<Longrightarrow> conn_inv D inner (evs @ [e]) p'"
  by (cases e) (auto simp: conn_inv_def count_reconnects_def count_losses_def split: if_splits)

lemma event_reconnects:
  "on_event D new_timer e p = Inr p' \<Longrightarrow> count_reconnects (sp_cmds p') = count_reconnects (sp_cmds p)"
  by (cases e) (auto simp: count_reconnects_def split: if_splits)

lemma conn_inv_polls: "polls D is (new_processor inner) = Inr p \<Longrightarrow> conn_inv D inner (events is) p"
proof (induction rule: polls_induct)
  case start
  then show ?case
    by (simp add: conn_inv_def new_processor_def count_reconnects_def count_losses_def events_def map_filter_def)
next
  case (poll "is" i p p')
  obtain q where q: "poll_timer i p = Inr q"
    "poll_event i = None \<and> p' = q \<or> (\<exists>e. poll_event i = Some e \<and> on_event D (pi_new_timer i) e q = Inr p')"
    using poll.hyps(2) by (rule poll_cases)
  from conn_inv_timer [OF poll.IH q(1)] q(2) show ?case
    by (auto simp: events_snoc intro: conn_inv_event)
qed

lemma pause_exact: "n \<le> 54 \<Longrightarrow> uint (1000 * 2 ^ n :: u64) = 1000 * 2 ^ n"
proof -
  assume n: "n \<le> 54"
  have "(1000 :: int) * 2 ^ n \<le> 1000 * 2 ^ 54"
    using n by (intro mult_left_mono power_increasing) simp_all
  then have "(1000 :: int) * 2 ^ n < 2 ^ LENGTH(64)" by simp
  then have "uint (word_of_int (1000 * 2 ^ n) :: u64) = 1000 * 2 ^ n"
    unfolding uint_word_of_int by (intro mod_pos_pos_trivial) simp_all
  then show ?thesis by simp
qed

text \<open>
  C39. The pause before a reconnection is 1000 ms doubled for each time the connection was lost since the last message,
  the last time not counted: that is what the armed timer is set to. A connection that is lost up to
  54 times in a row has not made the arithmetic on 64 bits wrap.
\<close>

theorem conn_backoff:
  assumes "polls D is (new_processor inner) = Inr p"
  shows "sp_timeout_ms p = 1000 * 2 ^ losses (events is) \<and>
    (\<forall>t. sp_timeout p = Some t \<longrightarrow> losses (events is) > 0 \<and> t = 1000 * 2 ^ (losses (events is) - 1)) \<and>
    (losses (events is) \<le> 54 \<longrightarrow> uint (sp_timeout_ms p) = 1000 * 2 ^ losses (events is))"
  using conn_inv_polls [OF assms] pause_exact [of "losses (events is)"] by (auto simp: conn_inv_def)

text \<open>
  The processor reconnects at most once for each time the connection was lost: a reconnection uses up the timer,
  and only a loss arms it. While the timer is armed, its going off makes the next call reconnect.
\<close>

theorem conn_reconnects:
  assumes "polls D is (new_processor inner) = Inr p"
  shows "count_reconnects (sp_cmds p) + (if sp_timeout p = None then 0 else 1) \<le> count_losses (events is) \<and>
    (\<forall>i p'. sp_timeout p \<noteq> None \<and> pi_timer i = Inr (Ready ()) \<and> poll D i p = Inr p' \<longrightarrow>
       count_reconnects (sp_cmds p') = Suc (count_reconnects (sp_cmds p)))"
proof (intro conjI allI impI, goal_cases)
  case 1
  then show ?case using conn_inv_polls [OF assms] by (simp add: conn_inv_def)
next
  case (2 i p')
  then have armed: "sp_timeout p \<noteq> None" "pi_timer i = Inr (Ready ())" and step: "poll D i p = Inr p'" by auto
  obtain q where q: "poll_timer i p = Inr q"
    "poll_event i = None \<and> p' = q \<or> (\<exists>e. poll_event i = Some e \<and> on_event D (pi_new_timer i) e q = Inr p')"
    using step by (rule poll_cases)
  have "count_reconnects (sp_cmds q) = Suc (count_reconnects (sp_cmds p))"
    using q(1) armed by (auto simp: poll_timer_def count_reconnects_def split: if_splits)
  then show ?case using q(2) event_reconnects by metis
qed

text \<open>
  Every message is acknowledged, once and in the order of arrival, and those of the subscribed queue that can be
  decoded are sent to the workers in that order; the rest are acknowledged and dropped.
\<close>

theorem conn_forwards:
  assumes "polls D is (new_processor inner) = Inr p"
  shows "sp_tx p = concat (map (forwarded D inner) (events is))"
    and "concat (map ack_of (sp_cmds p)) = concat (map acked (events is))"
  using conn_inv_polls [OF assms] by (simp_all add: conn_inv_def)

section \<open>A session\<close>

text \<open>It connects, a message arrives, the connection is lost twice before the timer goes off.\<close>

definition sample_codec :: "string codec" where
  "sample_codec = \<lparr>cd_body = \<lambda>f. f, cd_gunzip = \<lambda>f. Some f\<rparr>"

definition says :: "string session_event \<Rightarrow> string poll_input" where
  "says e = \<lparr>pi_timer = Inr NotReady, pi_reconnect = True, pi_session = Inr (Ready (Some e)), pi_new_timer = True\<rparr>"

definition goes_off :: "string poll_input" where
  "goes_off = \<lparr>pi_timer = Inr (Ready ()), pi_reconnect = True, pi_session = Inr NotReady, pi_new_timer = True\<rparr>"

definition sample_polls :: "string poll_input list" where
  "sample_polls = [says Connected, says (Message ''/topic/TRAIN_MVT_ALL_TOC'' ''moved''),
     says (Message ''/topic/OTHER'' ''else''), says Disconnected, says Disconnected]"

definition sample_processor :: "string processor" where
  "sample_processor = \<lparr>sp_timeout = Some 2000, sp_timeout_ms = 4000, sp_inner = Nrod,
     sp_cmds = [Subscribe ''/topic/TRAIN_MVT_ALL_TOC'' ''tspl-nrod'', Ack ''moved'', Ack ''else''], sp_tx = [''moved'']\<rparr>"

lemma sample_polled: "polls sample_codec sample_polls (new_processor Nrod) = Inr sample_processor"
  by (simp add: polls_def sample_polls_def says_def poll_def poll_timer_def new_processor_def sample_codec_def
      sample_processor_def)

lemma sample_events: "events sample_polls = [Connected, Message ''/topic/TRAIN_MVT_ALL_TOC'' ''moved'',
    Message ''/topic/OTHER'' ''else'', Disconnected, Disconnected]"
  by (simp add: events_def sample_polls_def says_def poll_event_def List.map_filter_simps)

lemma sample_losses: "losses (events sample_polls) = 2"
  by (simp add: sample_events losses_def)

lemma conn_backoff_witness:
  "uint (sp_timeout_ms sample_processor) = 1000 * 2 ^ 2 \<and> sp_timeout sample_processor = Some (1000 * 2 ^ 1)"
  using conn_backoff [OF sample_polled] by (simp add: sample_losses) (simp add: sample_processor_def)

lemma conn_reconnects_witness:
  "count_reconnects (sp_cmds sample_processor) + 1 \<le> 2 \<and>
   (\<exists>p. poll sample_codec goes_off sample_processor = Inr p \<and>
      count_reconnects (sp_cmds p) = Suc (count_reconnects (sp_cmds sample_processor)))"
proof -
  have armed: "sp_timeout sample_processor \<noteq> None" "pi_timer goes_off = Inr (Ready ())"
    by (simp_all add: sample_processor_def goes_off_def)
  obtain p where p: "poll sample_codec goes_off sample_processor = Inr p"
    by (simp add: poll_def poll_timer_def goes_off_def sample_processor_def)
  have "count_losses (events sample_polls) = 2" by (simp add: sample_events count_losses_def)
  with conn_reconnects [OF sample_polled] armed p show ?thesis by auto
qed

lemma conn_forwards_witness:
  "sp_tx sample_processor = [''moved''] \<and> concat (map ack_of (sp_cmds sample_processor)) = [''moved'', ''else'']"
  using conn_forwards [OF sample_polled] by (simp add: sample_events sample_codec_def)

end
