(* ===== verification/Db_Sync.thy ===== *)
theory Db_Sync
  imports Fahrplan_Import
begin

text \<open>
  How the schedule database travels: \<open>tspl-fahrplan-updater\<close> downloads it from the bucket, brings it up to
  date and uploads it again (\<open>main.rs\<close>, \<open>db_init.rs\<close>); \<open>tspl-fahrplan\<close> watches the bucket and
  swaps the database it serves (\<open>updater.rs\<close>).

  A database file is of a type of its own, which SQLite opens and writes: the record \<open>sqlite_files\<close>, with the
  laws \<open>db_files\<close>. The answers of the bucket are arguments of the operations; the section on the bucket puts
  both programs and the bucket into one step relation.
\<close>

section \<open>Files\<close>

text \<open>
  \<open>sq_open\<close> is \<open>initialize_db\<close> on a path with a file or without one, \<open>sq_vacuum\<close> is \<open>VACUUM INTO\<close>, and
  \<open>sq_empty\<close> is the file of no bytes that \<open>File::create\<close> makes.
\<close>

record 'f sqlite_files =
  sq_open :: "'f option \<Rightarrow> import_error + fahrplan_db"
  sq_vacuum :: "fahrplan_db \<Rightarrow> 'f"
  sq_empty :: 'f

locale db_files =
  fixes F :: "'f sqlite_files"
  assumes open_vacuum: "sq_open F (Some (sq_vacuum F db)) = Inr db"
    and open_new: "sq_open F None = Inr db \<Longrightarrow> db = empty_fdb"
    and open_empty: "sq_open F (Some (sq_empty F)) = Inr db \<Longrightarrow> db = empty_fdb"

definition plain_files :: "fahrplan_db sqlite_files" where
  "plain_files = \<lparr>sq_open = \<lambda>f. Inr (case f of None \<Rightarrow> empty_fdb | Some db \<Rightarrow> db), sq_vacuum = \<lambda>db. db, sq_empty = empty_fdb\<rparr>"

interpretation plain: db_files plain_files
  by unfold_locales (simp_all add: plain_files_def)

section \<open>\<open>db_init.rs\<close>\<close>

definition try_load_existing :: "'f sqlite_files \<Rightarrow> (int \<Rightarrow> bool) \<Rightarrow> 'f \<Rightarrow> fahrplan_db option" where
  "try_load_existing F ts_ok file =
     (case sq_open F (Some file) of
        Inl _ \<Rightarrow> None
      | Inr db \<Rightarrow> if \<not> check_schedule_files ts_ok db then None else Some db)"

text \<open>\<open>remove_ok\<close> is whether \<open>remove_file\<close> works.\<close>

definition load_or_create_db ::
    "'f sqlite_files \<Rightarrow> (int \<Rightarrow> bool) \<Rightarrow> bool \<Rightarrow> 'f option \<Rightarrow> import_error + fahrplan_db \<times> bool" where
  "load_or_create_db F ts_ok remove_ok path =
     (let create = res_map (\<lambda>db. (db, False)) (sq_open F None)
      in case path of
           Some file \<Rightarrow>
             (case try_load_existing F ts_ok file of
                Some db \<Rightarrow> Inr (db, True)
              | None \<Rightarrow> if \<not> remove_ok then Inl ImpIo else create)
         | None \<Rightarrow> create)"

section \<open>\<open>main.rs\<close> of the updater\<close>

datatype gcs_error = GcsNotFound | GcsFailed

datatype updater_error =
  UpdGcs gcs_error
| UpdImport import_error
| UpdTimedOut
| UpdVacuum

text \<open>
  What a run meets: the services and whether calls work. \<open>ur_uuid n\<close>, \<open>ur_today n\<close> and \<open>ur_feed n\<close> are for try
  \<open>n\<close> of an update.
\<close>

record 'f updater_run =
  ur_files :: "'f sqlite_files"
  ur_ts_ok :: "int \<Rightarrow> bool"
  ur_remove_ok :: bool
  ur_gcs_ok :: bool
  ur_vacuum_ok :: bool
  ur_upload_ok :: bool
  ur_sort :: "schedule_mvt list \<Rightarrow> schedule_mvt list"
  ur_uuid :: "nat \<Rightarrow> nat \<Rightarrow> uuid"
  ur_parse :: "string \<Rightarrow> schedule_file_record option"
  ur_chrono :: chrono
  ur_today :: "nat \<Rightarrow> naive_date"
  ur_feed :: "nat \<Rightarrow> string \<Rightarrow> import_error + (unit + string) list"
  ur_timeout :: "u32 option"
  ur_retries :: "u32 option"

text \<open>\<open>BACKUP_PATH\<close>, and \<open>CURRENT_OBJ\<close> in the bucket.\<close>

record 'f updater_disk =
  ud_backup :: "'f option"
  ud_object :: "'f option"

definition upload_backup :: "'f updater_run \<Rightarrow> 'f \<Rightarrow> 'f updater_disk \<Rightarrow> (updater_error + unit) \<times> 'f updater_disk" where
  "upload_backup R file disk =
     (if ur_upload_ok R then (Inr (), disk\<lparr>ud_object := Some file\<rparr>) else (Inl (UpdGcs GcsFailed), disk))"

text \<open>
  What is at \<open>CURRENT_PATH\<close> after the download. The file is created before the request, so when the object
  is not found an empty one is there.
\<close>

definition download_current :: "'f updater_run \<Rightarrow> 'f updater_disk \<Rightarrow> updater_error + 'f" where
  "download_current R disk =
     (if \<not> ur_gcs_ok R then Inl (UpdGcs GcsFailed)
      else case ud_object disk of Some f \<Rightarrow> Inr f | None \<Rightarrow> Inr (sq_empty (ur_files R)))"

definition run_import ::
    "'f updater_run \<Rightarrow> bool \<Rightarrow> fahrplan_db \<Rightarrow> ((updater_error + unit) \<times> fahrplan_db) option" where
  "run_import R update db =
     (if update
      then map_option (\<lambda>(ok, _, db1). (if ok then Inr () else Inl UpdTimedOut, db1))
        (update_database
           (\<lambda>n. do_update (ur_sort R) (ur_uuid R n) (ur_parse R) (ur_chrono R) (ur_today R n) (ur_feed R n))
           (ur_timeout R) (ur_retries R) db)
      else Some (case do_init (ur_sort R) (ur_uuid R 0) (ur_parse R) (ur_feed R 0) db of
          (r, db1) \<Rightarrow> (map_err UpdImport r, db1)))"

definition updater_main ::
    "'f updater_run \<Rightarrow> 'f updater_disk \<Rightarrow> ((updater_error + unit) \<times> 'f updater_disk) option" where
  "updater_main R disk =
     (case ud_backup disk of
        Some file \<Rightarrow> Some (upload_backup R file disk)
      | None \<Rightarrow>
          (case download_current R disk of
             Inl e \<Rightarrow> Some (Inl e, disk)
           | Inr current \<Rightarrow>
               (case load_or_create_db (ur_files R) (ur_ts_ok R) (ur_remove_ok R) (Some current) of
                  Inl e \<Rightarrow> Some (Inl (UpdImport e), disk)
                | Inr (db, update) \<Rightarrow>
                    map_option
                      (\<lambda>(r, db1).
                         case r of
                           Inl e \<Rightarrow> (Inl e, disk)
                         | Inr _ \<Rightarrow>
                             if \<not> ur_vacuum_ok R then (Inl UpdVacuum, disk)
                             else upload_backup R (sq_vacuum (ur_files R) db1)
                               (disk\<lparr>ud_backup := Some (sq_vacuum (ur_files R) db1)\<rparr>))
                      (run_import R update db))))"

section \<open>\<open>updater.rs\<close> of \<open>tspl-fahrplan\<close>\<close>

text \<open>\<open>bu_pool\<close> is the database behind the pool.\<close>

record db_updater =
  bu_last_updated :: string
  bu_pool :: fahrplan_db

datatype sync_error =
  SyncGcs gcs_error
| SyncNoUpdatedTs
| SyncSql import_error
| SyncPool
| SyncIo

text \<open>\<open>DbUpdater::init\<close> and \<open>check_if_changed\<close>, given the answer of \<open>get_object\<close>.\<close>

definition dbu_init :: "gcs_error + string option \<Rightarrow> fahrplan_db \<Rightarrow> sync_error + db_updater" where
  "dbu_init got pool =
     res_bind (map_err SyncGcs got) (\<lambda>obj.
     res_map (\<lambda>last_updated. \<lparr>bu_last_updated = last_updated, bu_pool = pool\<rparr>) (ok_or SyncNoUpdatedTs obj))"

definition check_if_changed ::
    "gcs_error + string option \<Rightarrow> db_updater \<Rightarrow> (sync_error + bool) \<times> db_updater" where
  "check_if_changed got u =
     (case got of
        Inl GcsNotFound \<Rightarrow> (Inr False, u)
      | Inl e \<Rightarrow> (Inl (SyncGcs e), u)
      | Inr None \<Rightarrow> (Inl SyncNoUpdatedTs, u)
      | Inr (Some last_updated) \<Rightarrow>
          if last_updated \<noteq> bu_last_updated u then (Inr True, u\<lparr>bu_last_updated := last_updated\<rparr>)
          else (Inr False, u))"

text \<open>What a download meets besides the bucket: the file at the temporary path, and whether calls work.\<close>

record 'f swap_env =
  sw_temp :: "'f option"
  sw_pool_ok :: "bool \<times> bool"
  sw_rename_ok :: bool

definition dbu_download ::
    "'f sqlite_files \<Rightarrow> 'f swap_env \<Rightarrow> gcs_error + 'f \<Rightarrow> db_updater \<Rightarrow> (sync_error + unit) \<times> db_updater" where
  "dbu_download F W got u =
     (case got of
        Inl e \<Rightarrow> (Inl (SyncGcs e), u)
      | Inr file \<Rightarrow>
          (case sq_open F (sw_temp W) of
             Inl e \<Rightarrow> (Inl (SyncSql e), u)
           | Inr temp \<Rightarrow>
               if \<not> fst (sw_pool_ok W) then (Inl SyncPool, u)
               else (let u = u\<lparr>bu_pool := temp\<rparr>
                     in if \<not> sw_rename_ok W then (Inl SyncIo, u)
                        else (case sq_open F (Some file) of
                                Inl e \<Rightarrow> (Inl (SyncSql e), u)
                              | Inr db \<Rightarrow>
                                  if \<not> snd (sw_pool_ok W) then (Inl SyncPool, u)
                                  else (Inr (), u\<lparr>bu_pool := db\<rparr>)))))"

text \<open>One turn of the loop of \<open>run\<close>; an error leaves the loop, and \<open>unwrap\<close> ends the process.\<close>

definition dbu_turn ::
    "'f sqlite_files \<Rightarrow> 'f swap_env \<Rightarrow> gcs_error + string option \<Rightarrow> gcs_error + 'f \<Rightarrow> db_updater \<Rightarrow>
     (sync_error + unit) \<times> db_updater" where
  "dbu_turn F W got file u =
     (case check_if_changed got u of
        (Inl e, u1) \<Rightarrow> (Inl e, u1)
      | (Inr changed, u1) \<Rightarrow> if changed then dbu_download F W file u1 else (Inr (), u1))"

section \<open>The bucket\<close>

datatype sync_phase = SStart | SFetch | SIdle | SDead

text \<open>
  The object with its time stamp, every stamp there ever was, the disk of the updater's job, and
  \<open>tspl-fahrplan\<close> with the point its updater has reached: before \<open>init\<close>, about to download, in the loop, ended.
\<close>

record 'f bucket_world =
  bw_object :: "(string \<times> 'f) option"
  bw_stamps :: "string set"
  bw_backup :: "'f option"
  bw_updater :: db_updater
  bw_phase :: sync_phase

text \<open>
  Runs of the job, on a disk that is kept or a new one, are interleaved with what \<open>tspl-fahrplan\<close> does, its check and
  its download being two steps. An upload gets a stamp that was never used.
\<close>

inductive bucket_step :: "'f sqlite_files \<Rightarrow> 'f bucket_world \<Rightarrow> 'f bucket_world \<Rightarrow> bool" for F where
  run: "ur_files R = F \<Longrightarrow> stamp \<notin> bw_stamps w \<Longrightarrow>
    updater_main R \<lparr>ud_backup = bw_backup w, ud_object = map_option snd (bw_object w)\<rparr> = Some (r, d) \<Longrightarrow>
    bucket_step F w (w\<lparr>bw_backup := ud_backup d,
      bw_object := (case r of Inr _ \<Rightarrow> map_option (Pair stamp) (ud_object d) | Inl _ \<Rightarrow> bw_object w),
      bw_stamps := insert stamp (bw_stamps w)\<rparr>)"
| new_disk: "bucket_step F w (w\<lparr>bw_backup := None\<rparr>)"
| init: "bw_phase w = SStart \<Longrightarrow> bw_object w = Some (stamp, file) \<Longrightarrow> dbu_init (Inr (Some stamp)) pool = Inr u \<Longrightarrow>
    bucket_step F w (w\<lparr>bw_updater := u, bw_phase := SFetch\<rparr>)"
| check: "bw_phase w = SIdle \<Longrightarrow> got = (case bw_object w of None \<Rightarrow> Inl GcsNotFound | Some (stamp, _) \<Rightarrow> Inr (Some stamp)) \<Longrightarrow>
    check_if_changed got (bw_updater w) = (Inr changed, u) \<Longrightarrow>
    bucket_step F w (w\<lparr>bw_updater := u, bw_phase := (if changed then SFetch else SIdle)\<rparr>)"
| fetch: "bw_phase w = SFetch \<Longrightarrow> bw_object w = Some (stamp, file) \<Longrightarrow>
    dbu_download F W (Inr file) (bw_updater w) = (r, u) \<Longrightarrow>
    bucket_step F w (w\<lparr>bw_updater := u, bw_phase := (case r of Inr _ \<Rightarrow> SIdle | Inl _ \<Rightarrow> SDead)\<rparr>)"
| fail: "bucket_step F w (w\<lparr>bw_phase := SDead\<rparr>)"

definition good_file :: "'f sqlite_files \<Rightarrow> 'f \<Rightarrow> bool" where
  "good_file F file \<longleftrightarrow> (\<forall>db. sq_open F (Some file) = Inr db \<longrightarrow> import_inv db)"

text \<open>At first nothing runs, and if there is an object it holds what an import left.\<close>

inductive bucket_reach :: "'f sqlite_files \<Rightarrow> 'f bucket_world \<Rightarrow> bool" for F where
  start: "bw_phase w = SStart \<Longrightarrow> bw_backup w = None \<Longrightarrow> fst ` set_option (bw_object w) \<subseteq> bw_stamps w \<Longrightarrow>
    \<forall>f\<in>snd ` set_option (bw_object w). good_file F f \<Longrightarrow> bucket_reach F w"
| step: "bucket_reach F w \<Longrightarrow> bucket_step F w w' \<Longrightarrow> bucket_reach F w'"

section \<open>Imports keep the invariant\<close>

lemma apply_schedule_records_inv:
  assumes "import_inv db"
  shows "import_inv (snd (apply_schedule_records sort_u new_v4 parse reads db))"
proof (cases "res_fold (apply_line sort_u new_v4 parse) reads \<lparr>is_line = [], is_metaseq = None, is_drawn = 0, is_db = db\<rparr>")
  case (Inl e)
  with assms show ?thesis by (simp add: apply_schedule_records_def)
next
  case (Inr st)
  from apply_records_inv [OF _ this] assms show ?thesis by (simp add: apply_schedule_records_def Inr)
qed

lemma update_loop_invariant:
  assumes attempt: "\<And>n s. P s \<Longrightarrow> P (snd (attempt n s))"
    and "update_loop attempt retries n cur t s = Some y" "P s"
  shows "P (snd (snd y))"
proof -
  let ?Q = "\<lambda>a retries n cur t s y. a = attempt \<longrightarrow> P s \<longrightarrow> P (snd (snd y))"
  have "?Q attempt retries n cur t s y"
  proof (rule update_loop.raw_induct [where P = ?Q, OF _ assms(2)], intro impI, goal_cases)
    case (1 loop a retries n cur t s y)
    obtain r s1 where r: "a n s = (r, s1)" by fastforce
    with attempt [OF 1(4), of n] 1(3) have "P s1" by simp
    with 1 r show ?case
      by (cases r) (fastforce simp: Let_def bind_eq_Some_conv split: if_splits)+
  qed
  with assms show ?thesis by blast
qed

lemma run_import_inv:
  assumes "import_inv db" "run_import R update db = Some (r, db1)"
  shows "import_inv db1"
proof (cases update)
  case True
  have step: "import_inv (snd (do_update sort_u new_v4 parse C today feed d))" if "import_inv d" for sort_u new_v4 parse C today feed d
    using that by (simp add: do_update_def apply_schedule_records_inv split: sum.split)
  from True assms(2) obtain ok sleeps where "update_loop
      (\<lambda>n. do_update (ur_sort R) (ur_uuid R n) (ur_parse R) (ur_chrono R) (ur_today R n) (ur_feed R n))
      (case ur_retries R of None \<Rightarrow> UPDATE_RETRIES | Some r \<Rightarrow> r) 0 0
      (case ur_timeout R of None \<Rightarrow> UPDATE_TIMEOUT_MS | Some t \<Rightarrow> t) db = Some (ok, sleeps, db1)"
    by (auto simp: run_import_def update_database_def split: if_splits)
  from update_loop_invariant [of import_inv, OF step this assms(1)] show ?thesis by simp
next
  case False
  with assms show ?thesis
    using apply_schedule_records_inv [OF assms(1)]
    by (auto simp: run_import_def do_init_def split: sum.splits prod.splits) (metis snd_conv)
qed

context db_files
begin

lemma loaded_inv:
  assumes "good_file F file" "load_or_create_db F ts_ok remove_ok (Some file) = Inr (db, update)"
  shows "import_inv db"
  using assms open_new empty_inv
  by (auto simp: load_or_create_db_def try_load_existing_def good_file_def Let_def res_map_Inr split: sum.splits if_splits)

lemma main_good:
  assumes "ur_files R = F" "\<forall>f\<in>set_option (ud_object disk). good_file F f" "\<forall>f\<in>set_option (ud_backup disk). good_file F f"
    and "updater_main R disk = Some (r, disk')"
  shows "(\<forall>f\<in>set_option (ud_backup disk'). good_file F f)"
    and "r = Inr () \<Longrightarrow> \<exists>f. ud_object disk' = Some f \<and> ud_backup disk' = Some f \<and> good_file F f \<and>
      (ud_backup disk = None \<longrightarrow> (\<exists>db. sq_open F (Some f) = Inr db))"
    and "r \<noteq> Inr () \<Longrightarrow> ud_object disk' = ud_object disk"
proof -
  have vacuum: "good_file F (sq_vacuum F db)" if "import_inv db" for db
    using that by (simp add: good_file_def open_vacuum)
  have empty: "good_file F (sq_empty F)"
    using open_empty empty_inv by (auto simp: good_file_def)
  have current: "good_file F f" if "download_current R disk = Inr f" for f
    using that assms(1,2) empty by (auto simp: download_current_def split: if_splits option.splits)
  have "(\<forall>f\<in>set_option (ud_backup disk'). good_file F f) \<and>
    (if r = Inr () then \<exists>f. ud_object disk' = Some f \<and> ud_backup disk' = Some f \<and> good_file F f \<and>
      (ud_backup disk = None \<longrightarrow> (\<exists>db. sq_open F (Some f) = Inr db))
     else ud_object disk' = ud_object disk)"
  proof (cases "ud_backup disk")
    case (Some f)
    with assms show ?thesis by (auto simp: updater_main_def upload_backup_def split: if_splits)
  next
    case None
    show ?thesis
    proof (cases "download_current R disk")
      case (Inl e)
      with None assms show ?thesis by (auto simp: updater_main_def)
    next
      case (Inr fl)
      show ?thesis
      proof (cases "load_or_create_db F (ur_ts_ok R) (ur_remove_ok R) (Some fl)")
        case (Inl e)
        with None Inr assms show ?thesis by (auto simp: updater_main_def)
      next
        case loaded: (Inr p)
        obtain db update where p: "p = (db, update)" by (cases p)
        note db = loaded_inv [OF current [OF Inr] loaded [unfolded p]]
        from assms(4) obtain q db1 where run: "run_import R update db = Some (q, db1)"
          and eq: "(case q of Inl e \<Rightarrow> (Inl e, disk) | Inr _ \<Rightarrow>
            if \<not> ur_vacuum_ok R then (Inl UpdVacuum, disk)
            else upload_backup R (sq_vacuum (ur_files R) db1) (disk\<lparr>ud_backup := Some (sq_vacuum (ur_files R) db1)\<rparr>)) = (r, disk')"
          by (auto simp: updater_main_def None Inr loaded p assms(1))
        from vacuum [OF run_import_inv [OF db run]] None eq show ?thesis
          by (auto simp: upload_backup_def assms(1) open_vacuum split: sum.splits if_splits)
      qed
    qed
  qed
  then show "\<forall>f\<in>set_option (ud_backup disk'). good_file F f"
    and "r = Inr () \<Longrightarrow> \<exists>f. ud_object disk' = Some f \<and> ud_backup disk' = Some f \<and> good_file F f \<and>
      (ud_backup disk = None \<longrightarrow> (\<exists>db. sq_open F (Some f) = Inr db))"
    and "r \<noteq> Inr () \<Longrightarrow> ud_object disk' = ud_object disk"
    by auto
qed

end

section \<open>The invariant of the bucket\<close>

definition bucket_inv :: "'f sqlite_files \<Rightarrow> 'f bucket_world \<Rightarrow> bool" where
  "bucket_inv F w \<longleftrightarrow>
     (\<forall>stamp f. bw_object w = Some (stamp, f) \<longrightarrow> stamp \<in> bw_stamps w \<and> good_file F f) \<and>
     (\<forall>f. bw_backup w = Some f \<longrightarrow> good_file F f) \<and>
     (bw_phase w = SFetch \<or> bw_phase w = SIdle \<longrightarrow> bu_last_updated (bw_updater w) \<in> bw_stamps w) \<and>
     (bw_phase w = SIdle \<longrightarrow> import_inv (bu_pool (bw_updater w)) \<and>
        (\<forall>f. bw_object w = Some (bu_last_updated (bw_updater w), f) \<longrightarrow> sq_open F (Some f) = Inr (bu_pool (bw_updater w))))"

lemma check_if_changed_cases:
  assumes "check_if_changed got u = (Inr changed, u')"
  shows "bu_pool u' = bu_pool u" "changed \<or> u' = u"
    "changed \<Longrightarrow> got = Inr (Some (bu_last_updated u'))"
    "\<not> changed \<Longrightarrow> got = Inl GcsNotFound \<or> got = Inr (Some (bu_last_updated u))"
  using assms by (auto simp: check_if_changed_def split: sum.splits gcs_error.splits option.splits if_splits)

lemma dbu_download_cases:
  assumes "dbu_download F W got u = (r, u')"
  shows "bu_last_updated u' = bu_last_updated u"
    "r = Inr () \<Longrightarrow> \<exists>file. got = Inr file \<and> sq_open F (Some file) = Inr (bu_pool u')"
  using assms by (auto simp: dbu_download_def Let_def split: sum.splits if_splits)

lemma bucket_step_inv:
  assumes "db_files F" "bucket_inv F w" "bucket_step F w w'"
  shows "bucket_inv F w'"
  using assms(3,2)
proof (cases rule: bucket_step.cases)
  case (run R stamp r d)
  note good = db_files.main_good [OF assms(1) run(2) _ _ run(4)]
  show ?thesis
  proof (cases r)
    case (Inl e)
    have "\<forall>f\<in>set_option (ud_backup d). good_file F f"
      by (rule good(1)) (use assms(2) in \<open>auto simp: bucket_inv_def\<close>)
    with assms(2) Inl run(1) show ?thesis by (auto simp: bucket_inv_def)
  next
    case (Inr x)
    from good(2) have "\<exists>f. ud_object d = Some f \<and> ud_backup d = Some f \<and> good_file F f"
      using assms(2) Inr by (fastforce simp: bucket_inv_def)
    with assms(2) Inr run(1,3) show ?thesis by (auto simp: bucket_inv_def)
  qed
next
  case new_disk
  with assms(2) show ?thesis by (simp add: bucket_inv_def)
next
  case (init stamp fl pool u)
  with assms(2) show ?thesis by (auto simp: bucket_inv_def dbu_init_def)
next
  case (check got changed u)
  with assms(2) check_if_changed_cases [OF check(4)] show ?thesis
    by (auto simp: bucket_inv_def split: option.splits)
next
  case (fetch stamp fl W r u)
  with assms(2) dbu_download_cases [OF fetch(4)] show ?thesis
    by (auto simp: bucket_inv_def good_file_def split: sum.splits)
next
  case fail
  with assms(2) show ?thesis by (simp add: bucket_inv_def)
qed

lemma bucket_reach_inv:
  assumes "db_files F" "bucket_reach F w"
  shows "bucket_inv F w"
  using assms(2)
proof (induction rule: bucket_reach.induct)
  case (start w)
  then show ?case by (auto simp: bucket_inv_def)
next
  case (step w w')
  then show ?case using bucket_step_inv [OF assms(1)] by blast
qed


lemma run_import_returns:
  assumes "ur_retries R \<noteq> Some (- 1)"
  shows "\<exists>r db1. run_import R update db = Some (r, db1)"
proof -
  define retries where "retries = (case ur_retries R of None \<Rightarrow> 9 | Some r \<Rightarrow> r)"
  have "retries \<noteq> - 1" using assms by (auto simp: retries_def split: option.splits)
  from update_loop_returns [OF this, of 0] show ?thesis
    by (fastforce simp: run_import_def update_database_def UPDATE_RETRIES_def retries_def split: option.splits prod.splits)
qed

section \<open>Properties\<close>

text \<open>
  A run of \<open>tspl-fahrplan-updater\<close> on a new disk always returns. If it fails the object in the bucket is
  as before; if it succeeds the object is a database that satisfies the invariant of imports, provided the object
  it started from did, whether that was updated, rejected and rebuilt, or not there at all.
\<close>

theorem updater_run:
  assumes "db_files F" "ur_files R = F" "ur_retries R \<noteq> Some (- 1)"
    and "ud_backup disk = None" "\<forall>f. ud_object disk = Some f \<longrightarrow> good_file F f"
  shows "\<exists>r disk'. updater_main R disk = Some (r, disk') \<and>
    (case r of Inl e \<Rightarrow> ud_object disk' = ud_object disk
     | Inr _ \<Rightarrow> \<exists>f db. ud_object disk' = Some f \<and> sq_open F (Some f) = Inr db \<and> import_inv db)"
proof -
  have "\<exists>x. updater_main R disk = Some x"
  proof (cases "\<exists>f db update. download_current R disk = Inr f \<and>
      load_or_create_db F (ur_ts_ok R) (ur_remove_ok R) (Some f) = Inr (db, update)")
    case True
    then obtain f db update where "download_current R disk = Inr f"
      "load_or_create_db F (ur_ts_ok R) (ur_remove_ok R) (Some f) = Inr (db, update)" by blast
    with run_import_returns [OF assms(3), of update db] show ?thesis
      by (auto simp: updater_main_def assms(2,4) simp del: split_paired_Ex)
  next
    case False
    then show ?thesis by (auto simp: updater_main_def assms(2,4) split: sum.splits)
  qed
  then obtain r disk' where main: "updater_main R disk = Some (r, disk')" by (metis prod.exhaust)
  note good = db_files.main_good [OF assms(1,2) _ _ main]
  show ?thesis
  proof (cases r)
    case (Inl e)
    then have "ud_object disk' = ud_object disk" by (intro good(3)) (use assms in auto)
    with main Inl show ?thesis by auto
  next
    case (Inr x)
    then obtain f db where "ud_object disk' = Some f" "good_file F f" "sq_open F (Some f) = Inr db"
      using good(2) assms(4,5) by auto
    with main Inr show ?thesis by (auto simp: good_file_def)
  qed
qed


text \<open>
  C32. No upload is missed, not even one between a check and its download: a turn of the loop in which
  the calls work and the bucket does not change ends with \<open>tspl-fahrplan\<close> serving what is in the bucket.
\<close>

theorem sync_converges:
  assumes "db_files F" "bucket_reach F w" "bw_phase w = SIdle"
    and "bw_object w = Some (stamp, f)" "sq_open F (Some f) = Inr db"
    and "sq_open F (sw_temp W) = Inr temp" "sw_pool_ok W = (True, True)" "sw_rename_ok W"
  shows "\<exists>u. dbu_turn F W (Inr (Some stamp)) (Inr f) (bw_updater w) = (Inr (), u) \<and>
    bu_pool u = db \<and> bu_last_updated u = stamp"
proof (cases "stamp = bu_last_updated (bw_updater w)")
  case True
  then have "sq_open F (Some f) = Inr (bu_pool (bw_updater w))"
    using bucket_reach_inv [OF assms(1,2)] assms(3,4) by (auto simp: bucket_inv_def)
  with True assms(5) show ?thesis by (simp add: dbu_turn_def check_if_changed_def)
next
  case False
  then show ?thesis
    by (simp add: dbu_turn_def check_if_changed_def dbu_download_def assms(5-8) Let_def)
qed

section \<open>An update on its way\<close>

definition sample_updater :: "fahrplan_db updater_run" where
  "sample_updater =
     \<lparr>ur_files = plain_files, ur_ts_ok = \<lambda>_. True, ur_remove_ok = True, ur_gcs_ok = True, ur_vacuum_ok = True,
      ur_upload_ok = True, ur_sort = sort_key smv_key, ur_uuid = \<lambda>_ n. Uuid (of_nat n), ur_parse = sample_parse,
      ur_chrono = chrono_civil, ur_today = \<lambda>_. NaiveDate 737430, ur_feed = \<lambda>_ _. Inr [Inr ''T'', Inr ''S''],
      ur_timeout = None, ur_retries = None\<rparr>"

text \<open>The first run finds no object and fills a new database; a second one on the same disk uploads its backup.\<close>

lemma sample_main:
  obtains db where "length (fdb_schedules db) = 1"
    "updater_main sample_updater \<lparr>ud_backup = None, ud_object = None\<rparr> =
       Some (Inr (), \<lparr>ud_backup = Some db, ud_object = Some db\<rparr>)"
    "updater_main sample_updater \<lparr>ud_backup = Some db, ud_object = Some db\<rparr> =
       Some (Inr (), \<lparr>ud_backup = Some db, ud_object = Some db\<rparr>)"
proof -
  obtain db where db: "apply_schedule_records (sort_key smv_key) (\<lambda>n. Uuid (of_nat n)) sample_parse
       [Inr ''T'', Inr ''S''] empty_fdb = (Inr (), db)" "length (fdb_schedules db) = 1"
    using sample_import by blast
  have "load_or_create_db plain_files (\<lambda>_. True) True (Some empty_fdb) = Inr (empty_fdb, False)"
    by (simp add: load_or_create_db_def try_load_existing_def plain_files_def check_schedule_files_def)
       (simp add: empty_fdb_def)
  then have load: "load_or_create_db (ur_files sample_updater) (ur_ts_ok sample_updater) (ur_remove_ok sample_updater) (Some empty_fdb) =
      Inr (empty_fdb, False)"
    by (simp add: sample_updater_def)
  have current: "download_current sample_updater \<lparr>ud_backup = None, ud_object = None\<rparr> = Inr empty_fdb"
    by (simp add: download_current_def sample_updater_def plain_files_def)
  have imp: "run_import sample_updater False empty_fdb = Some (Inr (), db)"
    by (simp add: run_import_def do_init_def sample_updater_def db(1))
  have flags: "ur_vacuum_ok sample_updater" "ur_upload_ok sample_updater" "sq_vacuum (ur_files sample_updater) d = d" for d
    by (simp_all add: sample_updater_def plain_files_def)
  show thesis
    by (rule that [of db]) (simp_all add: db(2) updater_main_def current load imp upload_backup_def flags)
qed

lemma updater_run_witness:
  "\<exists>disk' db. updater_main sample_updater \<lparr>ud_backup = None, ud_object = None\<rparr> = Some (Inr (), disk') \<and>
     ud_object disk' = Some db \<and> import_inv db \<and> length (fdb_schedules db) = 1"
proof -
  obtain db where db: "length (fdb_schedules db) = 1" "updater_main sample_updater \<lparr>ud_backup = None, ud_object = None\<rparr> =
       Some (Inr (), \<lparr>ud_backup = Some db, ud_object = Some db\<rparr>)"
    by (rule sample_main)
  have "ur_files sample_updater = plain_files" "ur_retries sample_updater \<noteq> Some (- 1)"
    by (simp_all add: sample_updater_def)
  from updater_run [OF plain.db_files_axioms this, of "\<lparr>ud_backup = None, ud_object = None\<rparr>"] db show ?thesis
    by (simp add: plain_files_def)
qed

definition sample_world :: "fahrplan_db \<Rightarrow> string \<Rightarrow> string set \<Rightarrow> fahrplan_db bucket_world" where
  "sample_world db stamp stamps =
     \<lparr>bw_object = Some (stamp, db), bw_stamps = stamps, bw_backup = Some db,
      bw_updater = \<lparr>bu_last_updated = ''1'', bu_pool = db\<rparr>, bw_phase = SIdle\<rparr>"

lemma sample_worlds:
  obtains db where "length (fdb_schedules db) = 1" "bucket_reach plain_files (sample_world db ''1'' {''1''})"
    "bucket_reach plain_files (sample_world db ''2'' {''1'', ''2''})"
proof -
  obtain db where len: "length (fdb_schedules db) = 1"
    and main: "updater_main sample_updater \<lparr>ud_backup = None, ud_object = None\<rparr> =
       Some (Inr (), \<lparr>ud_backup = Some db, ud_object = Some db\<rparr>)"
    "updater_main sample_updater \<lparr>ud_backup = Some db, ud_object = Some db\<rparr> =
       Some (Inr (), \<lparr>ud_backup = Some db, ud_object = Some db\<rparr>)"
    by (rule sample_main)
  have files: "ur_files sample_updater = plain_files" by (simp add: sample_updater_def)
  let ?u = "\<lparr>bu_last_updated = ''1'', bu_pool = empty_fdb\<rparr>"
  let ?w0 = "\<lparr>bw_object = None, bw_stamps = {}, bw_backup = None, bw_updater = ?u, bw_phase = SStart\<rparr>"
  let ?w1 = "\<lparr>bw_object = Some (''1'', db), bw_stamps = {''1''}, bw_backup = Some db, bw_updater = ?u, bw_phase = SStart\<rparr>"
  let ?w2 = "?w1\<lparr>bw_phase := SFetch\<rparr>"
  have "bucket_reach plain_files ?w0" by (rule bucket_reach.start) simp_all
  moreover have "bucket_step plain_files ?w0 ?w1"
    using bucket_step.run [OF files, of "''1''" ?w0 "Inr ()"] main(1) by simp
  ultimately have "bucket_reach plain_files ?w1" by (rule bucket_reach.step)
  moreover have "bucket_step plain_files ?w1 ?w2"
    using bucket_step.init [of ?w1 "''1''" db empty_fdb ?u plain_files] by (simp add: dbu_init_def)
  ultimately have "bucket_reach plain_files ?w2" by (rule bucket_reach.step)
  moreover have "bucket_step plain_files ?w2 (sample_world db ''1'' {''1''})"
    using bucket_step.fetch [of ?w2 "''1''" db plain_files "\<lparr>sw_temp = None, sw_pool_ok = (True, True), sw_rename_ok = True\<rparr>"]
    by (simp add: dbu_download_def plain_files_def sample_world_def)
  ultimately have idle: "bucket_reach plain_files (sample_world db ''1'' {''1''})" by (rule bucket_reach.step)
  moreover have "bucket_step plain_files (sample_world db ''1'' {''1''}) (sample_world db ''2'' {''1'', ''2''})"
    using bucket_step.run [OF files, of "''2''" "sample_world db ''1'' {''1''}" "Inr ()"] main(2)
    by (simp add: sample_world_def insert_commute)
  ultimately have "bucket_reach plain_files (sample_world db ''2'' {''1'', ''2''})" by (rule bucket_reach.step)
  with len idle show thesis by (rule that)
qed


lemma sync_converges_witness:
  "\<exists>w db u. bucket_reach plain_files w \<and> bu_last_updated (bw_updater w) = ''1'' \<and>
     dbu_turn plain_files \<lparr>sw_temp = None, sw_pool_ok = (True, True), sw_rename_ok = True\<rparr> (Inr (Some ''2'')) (Inr db) (bw_updater w) =
       (Inr (), u) \<and> bu_pool u = db \<and> bu_last_updated u = ''2''"
proof -
  obtain db where db: "bucket_reach plain_files (sample_world db ''2'' {''1'', ''2''})"
    by (rule sample_worlds)
  let ?w = "sample_world db ''2'' {''1'', ''2''}"
  let ?W = "\<lparr>sw_temp = None, sw_pool_ok = (True, True), sw_rename_ok = True\<rparr> :: fahrplan_db swap_env"
  have "bw_phase ?w = SIdle" "bw_object ?w = Some (''2'', db)" "sq_open plain_files (Some db) = Inr db"
    "sq_open plain_files (sw_temp ?W) = Inr empty_fdb" "sw_pool_ok ?W = (True, True)" "sw_rename_ok ?W"
    by (simp_all add: sample_world_def plain_files_def)
  from sync_converges [OF plain.db_files_axioms db this] db show ?thesis
    by (intro exI [of _ ?w] exI [of _ db]) (simp add: sample_world_def)
qed


end
