(* ===== verification/Msn.thy ===== *)
theory Msn
  imports Chrono Std_Parse
begin

text \<open>
  \<open>atoc-msn\<close>: the parser of the Master Station Names file, a record a line. Its parser combinators come from
  \<open>nom\<close>: \<open>tag!\<close> and \<open>take!\<close> are a parameter with the laws \<open>nom_laws\<close>, the macros that put
  parsers in sequence (\<open>do_parse!\<close>), one after the other (\<open>count!\<close>) and side by side (\<open>alt_complete!\<close>) are written
  out. A parser gives the rest of the line and a value; \<open>None\<close> is an error or incomplete input, which
  \<open>alt_complete!\<close> treats alike.
\<close>

section \<open>Types\<close>

record msn_header =
  mh_version :: string
  mh_timestamp :: naive_datetime
  mh_seq :: u32

datatype cate_type = Cate_Not | Cate_Small | Cate_Medium | Cate_Large | Cate_SubsidiaryTiploc

record msn_station =
  ms_name :: string
  ms_cate_type :: cate_type
  ms_tiploc :: string
  ms_subsidiary_crs :: string
  ms_crs :: string
  ms_easting :: u32
  ms_estimated :: bool
  ms_northing :: u32
  ms_change_time :: u8

record msn_station_alias =
  ma_name :: string
  ma_alias :: string

datatype msn_record =
  MsnHeader msn_header
| MsnStation msn_station
| MsnAlias msn_station_alias
| MsnOther string

section \<open>Combinators\<close>

record nom =
  nom_tag :: "string \<Rightarrow> string \<Rightarrow> string option"
  nom_take :: "nat \<Rightarrow> string \<Rightarrow> (string \<times> string) option"

locale nom_laws =
  fixes N :: nom
  assumes tag_yes: "nom_tag N t (t @ s) = Some s"
    and tag_no: "take (length t) s \<noteq> t \<Longrightarrow> nom_tag N t s = None"
    and take_yes: "length t = n \<Longrightarrow> nom_take N n (t @ s) = Some (s, t)"

definition nom_model :: nom where
  "nom_model =
     \<lparr>nom_tag = \<lambda>t s. if take (length t) s = t then Some (drop (length t) s) else None,
      nom_take = \<lambda>n s. if n \<le> length s then Some (drop n s, take n s) else None\<rparr>"

interpretation nom: nom_laws nom_model
  by unfold_locales (simp_all add: nom_model_def)

fun count_tag :: "nom \<Rightarrow> string \<Rightarrow> nat \<Rightarrow> string \<Rightarrow> string option" where
  "count_tag N t 0 s = Some s"
| "count_tag N t (Suc n) s = Option.bind (nom_tag N t s) (count_tag N t n)"

text \<open>\<open>tag!\<close>, \<open>count!(tag!)\<close> and \<open>take!\<close> with the rest of the sequence.\<close>

definition seq_tag :: "nom \<Rightarrow> string \<Rightarrow> (string \<Rightarrow> 'a option) \<Rightarrow> string \<Rightarrow> 'a option" where
  "seq_tag N t k s = Option.bind (nom_tag N t s) k"

definition seq_spaces :: "nom \<Rightarrow> nat \<Rightarrow> (string \<Rightarrow> 'a option) \<Rightarrow> string \<Rightarrow> 'a option" where
  "seq_spaces N n k s = Option.bind (count_tag N '' '' n s) k"

definition seq_take :: "nom \<Rightarrow> nat \<Rightarrow> (string \<Rightarrow> string \<Rightarrow> 'a option) \<Rightarrow> string \<Rightarrow> 'a option" where
  "seq_take N n k s = Option.bind (nom_take N n s) (\<lambda>(rest, x). k x rest)"

section \<open>Parsers\<close>

text \<open>The parsers of \<open>chrono\<close> for the formats of the header.\<close>

record msn_chrono =
  mc_date :: "string \<Rightarrow> naive_date option"
  mc_time :: "string \<Rightarrow> naive_time option"

definition msn_header_value ::
    "msn_chrono \<Rightarrow> string \<Rightarrow> string \<Rightarrow> string \<Rightarrow> string \<Rightarrow> msn_header option" where
  "msn_header_value T ver date time s =
     Option.bind (parse_u32 (str_trim s)) (\<lambda>sq.
     Option.bind (mc_time T time) (\<lambda>t.
     Option.bind (mc_date T date) (\<lambda>d.
     Some \<lparr>mh_version = ver, mh_timestamp = NaiveDateTime d t, mh_seq = of_nat sq\<rparr>)))"

definition msn_header_p :: "nom \<Rightarrow> msn_chrono \<Rightarrow> string \<Rightarrow> (string \<times> msn_header) option" where
  "msn_header_p N T =
     seq_tag N ''A'' (seq_spaces N 29 (seq_tag N ''FILE-SPEC='' (seq_take N 8 (\<lambda>ver. seq_take N 8 (\<lambda>date.
     seq_tag N '' '' (seq_take N 8 (\<lambda>time. seq_spaces N 3 (seq_take N 2 (\<lambda>sq rest.
     map_option (\<lambda>h. ('''', h)) (msn_header_value T ver date time sq))))))))))"

definition cate_type_p :: "nom \<Rightarrow> string \<Rightarrow> (string \<times> cate_type) option" where
  "cate_type_p N s =
     (case nom_tag N ''0'' s of Some r \<Rightarrow> Some (r, Cate_Not) | None \<Rightarrow>
     (case nom_tag N ''1'' s of Some r \<Rightarrow> Some (r, Cate_Small) | None \<Rightarrow>
     (case nom_tag N ''2'' s of Some r \<Rightarrow> Some (r, Cate_Medium) | None \<Rightarrow>
     (case nom_tag N ''3'' s of Some r \<Rightarrow> Some (r, Cate_Large) | None \<Rightarrow>
     map_option (\<lambda>r. (r, Cate_SubsidiaryTiploc)) (nom_tag N ''9'' s)))))"

definition msn_station_value ::
    "string \<Rightarrow> cate_type \<Rightarrow> string \<Rightarrow> string \<Rightarrow> string \<Rightarrow> string \<Rightarrow> string \<Rightarrow> string \<Rightarrow> string \<Rightarrow> msn_station option" where
  "msn_station_value name cate tiploc subsidiary_crs crs easting estimated northing change_time =
     Option.bind (parse_u32 (str_trim easting)) (\<lambda>e.
     Option.bind (parse_u32 (str_trim northing)) (\<lambda>n.
     Option.bind (parse_u8 (str_trim change_time)) (\<lambda>c.
     Some \<lparr>ms_name = str_trim name, ms_cate_type = cate, ms_tiploc = str_trim tiploc,
           ms_subsidiary_crs = str_trim subsidiary_crs, ms_crs = str_trim crs, ms_easting = of_nat e,
           ms_estimated = (estimated = ''E''), ms_northing = of_nat n, ms_change_time = of_nat c\<rparr>)))"

definition msn_station_p :: "nom \<Rightarrow> string \<Rightarrow> (string \<times> msn_station) option" where
  "msn_station_p N =
     seq_tag N ''A'' (seq_spaces N 4 (seq_take N 30 (\<lambda>name s.
     Option.bind (cate_type_p N s) (\<lambda>(s1, cate).
     seq_take N 7 (\<lambda>tiploc. seq_take N 3 (\<lambda>subsidiary_crs. seq_spaces N 3 (seq_take N 3 (\<lambda>crs.
     seq_take N 5 (\<lambda>easting. seq_take N 1 (\<lambda>estimated. seq_take N 5 (\<lambda>northing. seq_take N 2 (\<lambda>change_time rest.
     map_option (\<lambda>st. ('''', st))
       (msn_station_value name cate tiploc subsidiary_crs crs easting estimated northing change_time))))))))) s1))))"

definition msn_station_alias_p :: "nom \<Rightarrow> string \<Rightarrow> (string \<times> msn_station_alias) option" where
  "msn_station_alias_p N =
     seq_tag N ''L'' (seq_spaces N 4 (seq_take N 30 (\<lambda>name. seq_tag N '' '' (seq_take N 30 (\<lambda>alias.
     seq_spaces N 16 (\<lambda>rest. Some (rest, \<lparr>ma_name = str_trim name, ma_alias = str_trim alias\<rparr>)))))))"

definition msn_record_p :: "nom \<Rightarrow> msn_chrono \<Rightarrow> string \<Rightarrow> string \<times> msn_record" where
  "msn_record_p N T s =
     (case msn_header_p N T s of Some (r, h) \<Rightarrow> (r, MsnHeader h) | None \<Rightarrow>
     (case msn_station_p N s of Some (r, st) \<Rightarrow> (r, MsnStation st) | None \<Rightarrow>
     (case msn_station_alias_p N s of Some (r, a) \<Rightarrow> (r, MsnAlias a) | None \<Rightarrow> ('''', MsnOther s))))"


section \<open>Lines of a station\<close>

definition pad_right :: "nat \<Rightarrow> string \<Rightarrow> string" where
  "pad_right n s = s @ replicate (n - length s) CHR '' ''"

definition pad_left :: "nat \<Rightarrow> string \<Rightarrow> string" where
  "pad_left n s = replicate (n - length s) CHR '' '' @ s"

definition enc_cate :: "cate_type \<Rightarrow> string" where
  "enc_cate c = (case c of Cate_Not \<Rightarrow> ''0'' | Cate_Small \<Rightarrow> ''1'' | Cate_Medium \<Rightarrow> ''2'' | Cate_Large \<Rightarrow> ''3''
     | Cate_SubsidiaryTiploc \<Rightarrow> ''9'')"

definition enc_station :: "msn_station \<Rightarrow> string" where
  "enc_station s =
     ''A    '' @ pad_right 30 (ms_name s) @ enc_cate (ms_cate_type s) @ pad_right 7 (ms_tiploc s) @
     pad_right 3 (ms_subsidiary_crs s) @ ''   '' @ pad_right 3 (ms_crs s) @
     pad_left 5 (show_nat (unat (ms_easting s))) @ (if ms_estimated s then ''E'' else '' '') @
     pad_left 5 (show_nat (unat (ms_northing s))) @ pad_left 2 (show_nat (unat (ms_change_time s)))"

definition trimmed :: "string \<Rightarrow> bool" where
  "trimmed s \<longleftrightarrow> (s \<noteq> [] \<longrightarrow> \<not> is_space (hd s) \<and> \<not> is_space (last s))"

text \<open>Values that fit the columns.\<close>

definition station_fits :: "msn_station \<Rightarrow> bool" where
  "station_fits s \<longleftrightarrow>
     ms_name s \<noteq> [] \<and> length (ms_name s) \<le> 30 \<and> trimmed (ms_name s) \<and>
     length (ms_tiploc s) \<le> 7 \<and> trimmed (ms_tiploc s) \<and>
     length (ms_subsidiary_crs s) \<le> 3 \<and> trimmed (ms_subsidiary_crs s) \<and>
     length (ms_crs s) \<le> 3 \<and> trimmed (ms_crs s) \<and>
     unat (ms_easting s) < 100000 \<and> unat (ms_northing s) < 100000 \<and> unat (ms_change_time s) < 100"

lemma str_trim_padded:
  assumes "trimmed s"
  shows "str_trim (replicate j CHR '' '' @ s @ replicate k CHR '' '') = s"
proof -
  have sp: "dropWhile is_space (replicate m CHR '' '' @ t) = dropWhile is_space t" for m t
    by (induction m) (simp_all add: is_space_def)
  have sp0: "dropWhile is_space (replicate m CHR '' '') = []" for m
    using sp [of m "[]"] by simp
  show ?thesis
  proof (cases "s = []")
    case True
    then show ?thesis by (simp add: str_trim_def sp0 is_space_def flip: replicate_add)
  next
    case False
    then obtain a as where a: "s = a # as" "\<not> is_space a" using assms by (cases s) (auto simp: trimmed_def)
    obtain b bs where b: "rev s = b # bs" "\<not> is_space b"
      using False assms by (cases "rev s") (auto simp: trimmed_def hd_rev [symmetric])
    have "str_trim (replicate j CHR '' '' @ s @ replicate k CHR '' '') =
        rev (dropWhile is_space (rev (s @ replicate k CHR '' '')))"
      using a by (simp add: str_trim_def sp)
    also have "\<dots> = rev (rev s)" using b by (simp add: sp)
    finally show ?thesis by simp
  qed
qed

lemma trim_pads [simp]: "trimmed s \<Longrightarrow> str_trim (pad_right n s) = s" "trimmed s \<Longrightarrow> str_trim (pad_left n s) = s"
  using str_trim_padded [of s 0] str_trim_padded [of s _ 0] by (simp_all add: pad_right_def pad_left_def)

lemma length_pads [simp]:
  "length s \<le> n \<Longrightarrow> length (pad_right n s) = n" "length s \<le> n \<Longrightarrow> length (pad_left n s) = n"
  by (simp_all add: pad_right_def pad_left_def)

lemma digit_no_space: "is_digit c \<Longrightarrow> \<not> is_space c"
  by (auto simp: is_digit_def is_space_def less_eq_char_def)

lemma trimmed_show_nat: "trimmed (show_nat n)"
proof -
  have "list_all is_digit (show_nat n)" "show_nat n \<noteq> []" using show_nat_digits by blast+
  then show ?thesis by (auto simp: trimmed_def list_all_iff digit_no_space)
qed

lemma length_show_nat: "n < 10 ^ k \<Longrightarrow> 0 < k \<Longrightarrow> length (show_nat n) \<le> k"
proof (induction k arbitrary: n)
  case (Suc k)
  show ?case
  proof (cases "n < 10")
    case True
    then show ?thesis by (simp add: show_nat.simps [of n])
  next
    case False
    then have "n div 10 < 10 ^ k" "0 < k" using Suc.prems by (auto intro: gr0I)
    then show ?thesis using Suc.IH [of "n div 10"] False by (simp add: show_nat.simps [of n])
  qed
qed simp

context nom_laws
begin

lemma seq_tag_yes: "seq_tag N t k (t @ s) = k s"
  by (simp add: seq_tag_def tag_yes)

lemma seq_take_yes: "length t = n \<Longrightarrow> seq_take N n k (t @ s) = k t s"
  by (simp add: seq_take_def take_yes)

lemma count_spaces: "count_tag N '' '' n (replicate n CHR '' '' @ s) = Some s"
  by (induction n) (use tag_yes [of "'' ''"] in simp_all)

lemma count_too_few: "n < m \<Longrightarrow> c \<noteq> CHR '' '' \<Longrightarrow> count_tag N '' '' m (replicate n CHR '' '' @ c # s) = None"
proof (induction n arbitrary: m)
  case 0
  then show ?case by (cases m) (simp_all add: tag_no)
next
  case (Suc n)
  then show ?case using tag_yes [of "'' ''"] by (cases m) simp_all
qed

lemma seq_spaces_yes: "seq_spaces N n k (replicate n CHR '' '' @ s) = k s"
  by (simp add: seq_spaces_def count_spaces)

lemma cate_type_yes: "cate_type_p N (enc_cate c @ s) = Some (s, c)"
proof -
  have no: "nom_tag N [a] (b # s) = None" if "a \<noteq> b" for a b using that by (intro tag_no) simp
  have yes: "nom_tag N [a] (a # s) = Some s" for a using tag_yes [of "[a]" s] by simp
  show ?thesis by (cases c) (simp_all add: enc_cate_def cate_type_p_def no yes)
qed

lemma station_line:
  assumes "station_fits st"
  shows "msn_station_p N (enc_station st) = Some ('''', st)"
proof -
  note len = length_show_nat [of _ 5, simplified] length_show_nat [of _ 2, simplified]
  have fits: "trimmed (ms_name st)" "trimmed (ms_tiploc st)" "trimmed (ms_subsidiary_crs st)" "trimmed (ms_crs st)"
    "length (ms_name st) \<le> 30" "length (ms_tiploc st) \<le> 7" "length (ms_subsidiary_crs st) \<le> 3" "length (ms_crs st) \<le> 3"
    "length (show_nat (unat (ms_easting st))) \<le> 5" "length (show_nat (unat (ms_northing st))) \<le> 5"
    "length (show_nat (unat (ms_change_time st))) \<le> 2"
    using assms by (simp_all add: station_fits_def len)
  have u8: "parse_u8 (show_nat (unat (ms_change_time st))) = Some (unat (ms_change_time st))"
    unfolding parse_u8_def by (rule parse_show_nat) (use assms in \<open>simp add: station_fits_def\<close>)
  define est where "est = (if ms_estimated st then ''E'' else '' '')"
  have est: "length est = 1" by (simp add: est_def)
  have a: "msn_station_p N (''A'' @ replicate 4 CHR '' '' @ pad_right 30 (ms_name st) @ enc_cate (ms_cate_type st) @
      pad_right 7 (ms_tiploc st) @ pad_right 3 (ms_subsidiary_crs st) @ replicate 3 CHR '' '' @ pad_right 3 (ms_crs st) @
      pad_left 5 (show_nat (unat (ms_easting st))) @ est @
      pad_left 5 (show_nat (unat (ms_northing st))) @ pad_left 2 (show_nat (unat (ms_change_time st))) @ '''') =
    map_option (\<lambda>st. ('''', st)) (msn_station_value (pad_right 30 (ms_name st)) (ms_cate_type st)
      (pad_right 7 (ms_tiploc st)) (pad_right 3 (ms_subsidiary_crs st)) (pad_right 3 (ms_crs st))
      (pad_left 5 (show_nat (unat (ms_easting st)))) est
      (pad_left 5 (show_nat (unat (ms_northing st)))) (pad_left 2 (show_nat (unat (ms_change_time st)))))"
    unfolding msn_station_p_def
    by (subst seq_tag_yes seq_spaces_yes seq_take_yes [OF length_pads(1) [OF fits(5)]])+
       (simp only: cate_type_yes Option.bind.bind_lunit prod.case, simp only: seq_take_yes seq_spaces_yes length_pads fits est)
  have "msn_station_value (pad_right 30 (ms_name st)) (ms_cate_type st)
      (pad_right 7 (ms_tiploc st)) (pad_right 3 (ms_subsidiary_crs st)) (pad_right 3 (ms_crs st))
      (pad_left 5 (show_nat (unat (ms_easting st)))) est
      (pad_left 5 (show_nat (unat (ms_northing st)))) (pad_left 2 (show_nat (unat (ms_change_time st)))) = Some st"
    by (simp add: msn_station_value_def fits trimmed_show_nat u8 est_def)
  with a show ?thesis by (simp add: enc_station_def est_def eval_nat_numeral)
qed

end


text \<open>
  C40. Round trip: a station written in the columns of the file is read back, and the line is not taken for a
  header.
\<close>

theorem msn_station_roundtrip:
  assumes "nom_laws N" "station_fits st"
  shows "msn_record_p N T (enc_station st) = ('''', MsnStation st)"
proof -
  obtain c cs where c: "ms_name st = c # cs" "c \<noteq> CHR '' ''"
    using assms(2) by (cases "ms_name st") (auto simp: station_fits_def trimmed_def is_space_def)
  have "enc_station st = ''A'' @ replicate 4 CHR '' '' @ c # drop 1 (drop 5 (enc_station st))"
    by (simp add: enc_station_def pad_right_def c(1) eval_nat_numeral)
  then obtain s where s: "enc_station st = ''A'' @ replicate 4 CHR '' '' @ c # s" by blast
  have "msn_header_p N T (enc_station st) = None"
    unfolding msn_header_p_def s nom_laws.seq_tag_yes [OF assms(1)] seq_spaces_def
    using nom_laws.count_too_few [OF assms(1) _ c(2), of 4 29] by simp
  then show ?thesis by (simp add: msn_record_p_def nom_laws.station_line [OF assms])
qed

definition abbey_wood :: msn_station where
  "abbey_wood = \<lparr>ms_name = ''ABBEY WOOD'', ms_cate_type = Cate_Not, ms_tiploc = ''ABWD'', ms_subsidiary_crs = ''ABW'',
     ms_crs = ''ABW'', ms_easting = 15473, ms_estimated = True, ms_northing = 61790, ms_change_time = 4\<rparr>"

lemma msn_station_roundtrip_witness:
  "msn_record_p nom_model \<lparr>mc_date = \<lambda>_. None, mc_time = \<lambda>_. None\<rparr> (enc_station abbey_wood) = ('''', MsnStation abbey_wood)"
  by (rule msn_station_roundtrip [OF nom.nom_laws_axioms])
     (simp add: station_fits_def abbey_wood_def trimmed_def is_space_def)


end
