(* ===== verification/Nennen.thy ===== *)
theory Nennen
  imports Msn Ntrod_Schedule
begin

text \<open>
  \<open>tspl-nennen\<close>: it loads the Master Station Names file and CORPUS into a database and derives the table of
  station names from them. Statements are list operations with the constraints of the schema. \<open>titlecase\<close> is a
  parameter; the \<open>unwrap\<close> in \<open>main\<close> is the error \<open>NnPanic\<close>.
\<close>

section \<open>Tables\<close>

record station_name =
  sn_id :: int
  sn_name :: string
  sn_tiploc :: "string option"
  sn_crs :: "string option"

record nennen_db =
  nn_msn :: "msn_station list"
  nn_corpus :: "corpus_entry list"
  nn_names :: "station_name list"

datatype nennen_error = NnCheck | NnIo | NnPanic

text \<open>\<open>WrappedMsnStation::from_row\<close> does not read the category.\<close>

definition msn_from_row :: "msn_station \<Rightarrow> msn_station" where
  "msn_from_row s = s\<lparr>ms_cate_type := Cate_Not\<rparr>"

text \<open>
  \<open>ON CONFLICT DO NOTHING\<close>: the tables of entries have no constraint. \<open>station_names\<close> has two \<open>UNIQUE\<close>
  columns, in which \<open>NULL\<close>s are distinct, and a \<open>CHECK\<close>, which the clause does not cover.
\<close>

definition insert_msn :: "msn_station \<Rightarrow> nennen_db \<Rightarrow> nennen_db" where
  "insert_msn s db = db\<lparr>nn_msn := nn_msn db @ [s]\<rparr>"

definition insert_nennen_corpus :: "corpus_entry \<Rightarrow> nennen_db \<Rightarrow> nennen_db" where
  "insert_nennen_corpus e db = db\<lparr>nn_corpus := nn_corpus db @ [e]\<rparr>"

definition name_conflict :: "station_name \<Rightarrow> station_name list \<Rightarrow> bool" where
  "name_conflict s ns \<longleftrightarrow>
     sn_tiploc s \<noteq> None \<and> sn_tiploc s \<in> sn_tiploc ` set ns \<or> sn_crs s \<noteq> None \<and> sn_crs s \<in> sn_crs ` set ns"

definition insert_name :: "station_name \<Rightarrow> nennen_db \<Rightarrow> nennen_error + nennen_db" where
  "insert_name s db =
     (if (sn_tiploc s = None) = (sn_crs s = None) then Inl NnCheck
      else if name_conflict s (nn_names db) then Inr db
      else Inr (db\<lparr>nn_names := nn_names db @ [s\<lparr>sn_id := next_rowid (map sn_id (nn_names db))\<rparr>]\<rparr>))"

section \<open>Loading\<close>

text \<open>\<open>load_msn\<close>; a line is \<open>Inl\<close> when it cannot be read, and then the transaction rolls back.\<close>

definition load_msn_line ::
    "nom \<Rightarrow> msn_chrono \<Rightarrow> unit + string \<Rightarrow> nennen_db \<Rightarrow> nennen_error + nennen_db" where
  "load_msn_line N T line db =
     (case line of
        Inl _ \<Rightarrow> Inl NnIo
      | Inr l \<Rightarrow>
          (case snd (msn_record_p N T l) of
             MsnStation s \<Rightarrow> Inr (insert_msn s db)
           | _ \<Rightarrow> Inr db))"

definition load_msn ::
    "nom \<Rightarrow> msn_chrono \<Rightarrow> (unit + string) list \<Rightarrow> nennen_db \<Rightarrow> (nennen_error + unit) \<times> nennen_db" where
  "load_msn N T lines db =
     (case res_fold (load_msn_line N T) lines db of Inl e \<Rightarrow> (Inl e, db) | Inr db1 \<Rightarrow> (Inr (), db1))"

definition nennen_corpus_import :: "corpus_data \<Rightarrow> nennen_db \<Rightarrow> nennen_db" where
  "nennen_corpus_import data db =
     fold (\<lambda>ent db. if contains_data ent then insert_nennen_corpus ent db else db) (tiploc_data data) db"

section \<open>Generating the names\<close>

definition by_tiploc :: "string \<Rightarrow> string \<Rightarrow> station_name" where
  "by_tiploc name tpl = \<lparr>sn_id = -1, sn_name = name, sn_tiploc = Some tpl, sn_crs = None\<rparr>"

definition by_crs :: "string \<Rightarrow> string \<Rightarrow> station_name" where
  "by_crs name crs = \<lparr>sn_id = -1, sn_name = name, sn_tiploc = None, sn_crs = Some crs\<rparr>"

definition msn_names :: "(string \<Rightarrow> string) \<Rightarrow> msn_station \<Rightarrow> nennen_db \<Rightarrow> nennen_error + nennen_db" where
  "msn_names titlecase msn db =
     res_bind (insert_name (by_crs (titlecase (ms_name msn)) (ms_crs msn)) db) (\<lambda>db1.
     res_bind (if ms_subsidiary_crs msn \<noteq> ms_crs msn
               then insert_name (by_crs (titlecase (ms_name msn)) (ms_subsidiary_crs msn)) db1 else Inr db1)
       (insert_name (by_tiploc (titlecase (ms_name msn)) (ms_tiploc msn))))"

text \<open>The \<open>WHERE\<close> clause: \<open>AND\<close> binds tighter than \<open>or\<close>.\<close>

definition corpus_selected :: "corpus_entry \<Rightarrow> bool" where
  "corpus_selected e \<longleftrightarrow> ce_nlcdesc e \<noteq> None \<and> ce_tiploc e \<noteq> None \<or> ce_crs e \<noteq> None"

definition corpus_names :: "(string \<Rightarrow> string) \<Rightarrow> corpus_entry \<Rightarrow> nennen_db \<Rightarrow> nennen_error + nennen_db" where
  "corpus_names titlecase corp db =
     res_bind (ok_or NnPanic (ce_nlcdesc corp)) (\<lambda>nlcdesc.
     res_bind (case ce_tiploc corp of
                 Some tpl \<Rightarrow> insert_name (by_tiploc (titlecase nlcdesc) tpl) db
               | None \<Rightarrow> Inr db) (\<lambda>db1.
     case ce_crs corp of
       Some crs \<Rightarrow> insert_name (by_crs (titlecase nlcdesc) crs) db1
     | None \<Rightarrow> Inr db1))"

definition generate_names :: "(string \<Rightarrow> string) \<Rightarrow> nennen_db \<Rightarrow> nennen_error + nennen_db" where
  "generate_names titlecase db =
     res_bind (res_fold (msn_names titlecase) (map msn_from_row (nn_msn db)) db) (\<lambda>db1.
     res_fold (corpus_names titlecase) (filter corpus_selected (nn_corpus db1)) db1)"

section \<open>The name of a place\<close>

text \<open>\<open>tiploc_nice_name\<close> of \<open>tspl-web\<close>, the query the table is made for.\<close>

definition tiploc_nice_name :: "station_name list \<Rightarrow> string \<Rightarrow> string" where
  "tiploc_nice_name names tpl =
     (case nth0 (map sn_name (filter (\<lambda>n. sn_tiploc n = Some tpl) names)) of Some n \<Rightarrow> n | None \<Rightarrow> tpl)"

text \<open>What it ought to be: the first station of the file with this TIPLOC, else the first CORPUS entry.\<close>

definition proper_name :: "(string \<Rightarrow> string) \<Rightarrow> nennen_db \<Rightarrow> string \<Rightarrow> string" where
  "proper_name titlecase db tpl =
     (case nth0 (map ms_name (filter (\<lambda>s. ms_tiploc s = tpl) (nn_msn db)) @
          List.map_filter ce_nlcdesc (filter (\<lambda>e. ce_tiploc e = Some tpl) (nn_corpus db))) of
        Some n \<Rightarrow> titlecase n
      | None \<Rightarrow> tpl)"

text \<open>A statement leaves the table, except that it may add a row for a key that had none.\<close>

definition names_for :: "string \<Rightarrow> nennen_db \<Rightarrow> string list" where
  "names_for tpl db = map sn_name (filter (\<lambda>n. sn_tiploc n = Some tpl) (nn_names db))"

definition add_first :: "string list \<Rightarrow> string list \<Rightarrow> string list" where
  "add_first old new = (if old = [] then take 1 new else old)"

lemma add_first_simps [simp]:
  "add_first xs [] = xs" "add_first (add_first xs ys) zs = add_first xs (ys @ zs)"
  by (auto simp: add_first_def Suc_le_eq)

lemma insert_by_tiploc:
  "\<exists>db1. insert_name (by_tiploc n t) db = Inr db1 \<and> nn_msn db1 = nn_msn db \<and> nn_corpus db1 = nn_corpus db \<and>
     (\<forall>tpl. names_for tpl db1 = add_first (names_for tpl db) (if t = tpl then [n] else []))"
proof -
  have "names_for t db = [] \<longleftrightarrow> Some t \<notin> sn_tiploc ` set (nn_names db)"
    by (auto simp: names_for_def filter_empty_conv image_iff)
  then show ?thesis
    by (cases "names_for t db = []")
      (auto simp: insert_name_def by_tiploc_def name_conflict_def names_for_def add_first_def filter_empty_conv
        image_iff)
qed

lemma insert_by_crs:
  "\<exists>db1. insert_name (by_crs n c) db = Inr db1 \<and> nn_msn db1 = nn_msn db \<and> nn_corpus db1 = nn_corpus db \<and>
     (\<forall>tpl. names_for tpl db1 = names_for tpl db)"
  by (auto simp: insert_name_def by_crs_def name_conflict_def names_for_def)

lemma msn_names_step:
  "\<exists>db1. msn_names tc msn db = Inr db1 \<and> nn_msn db1 = nn_msn db \<and> nn_corpus db1 = nn_corpus db \<and>
     (\<forall>tpl. names_for tpl db1 = add_first (names_for tpl db) (if ms_tiploc msn = tpl then [tc (ms_name msn)] else []))"
proof -
  obtain db1 where db1: "insert_name (by_crs (tc (ms_name msn)) (ms_crs msn)) db = Inr db1" "nn_msn db1 = nn_msn db"
    "nn_corpus db1 = nn_corpus db" "\<forall>tpl. names_for tpl db1 = names_for tpl db"
    using insert_by_crs by blast
  obtain db2 where db2: "(if ms_subsidiary_crs msn \<noteq> ms_crs msn
      then insert_name (by_crs (tc (ms_name msn)) (ms_subsidiary_crs msn)) db1 else Inr db1) = Inr db2"
    "nn_msn db2 = nn_msn db" "nn_corpus db2 = nn_corpus db" "\<forall>tpl. names_for tpl db2 = names_for tpl db"
    using insert_by_crs [of "tc (ms_name msn)" "ms_subsidiary_crs msn" db1] db1 by (cases "ms_subsidiary_crs msn = ms_crs msn") auto
  show ?thesis
    using insert_by_tiploc [of "tc (ms_name msn)" "ms_tiploc msn" db2] by (simp add: msn_names_def db1(1) db2)
qed

lemma msn_fold:
  "\<exists>db1. res_fold (msn_names tc) ss db = Inr db1 \<and> nn_msn db1 = nn_msn db \<and> nn_corpus db1 = nn_corpus db \<and>
     (\<forall>tpl. names_for tpl db1 =
        add_first (names_for tpl db) (map (\<lambda>s. tc (ms_name s)) (filter (\<lambda>s. ms_tiploc s = tpl) ss)))"
proof (induction ss arbitrary: db)
  case (Cons s ss)
  obtain db1 where db1: "msn_names tc s db = Inr db1" "nn_msn db1 = nn_msn db" "nn_corpus db1 = nn_corpus db"
    "\<forall>tpl. names_for tpl db1 = add_first (names_for tpl db) (if ms_tiploc s = tpl then [tc (ms_name s)] else [])"
    using msn_names_step by blast
  with Cons.IH [of db1] show ?case by auto
qed simp

lemma corpus_names_step:
  assumes "ce_nlcdesc e = Some d"
  shows "\<exists>db1. corpus_names tc e db = Inr db1 \<and> nn_msn db1 = nn_msn db \<and> nn_corpus db1 = nn_corpus db \<and>
     (\<forall>tpl. names_for tpl db1 = add_first (names_for tpl db) (if ce_tiploc e = Some tpl then [tc d] else []))"
proof -
  obtain db1 where db1: "(case ce_tiploc e of Some tpl \<Rightarrow> insert_name (by_tiploc (tc d) tpl) db | None \<Rightarrow> Inr db) = Inr db1"
    "nn_msn db1 = nn_msn db" "nn_corpus db1 = nn_corpus db"
    "\<forall>tpl. names_for tpl db1 = add_first (names_for tpl db) (if ce_tiploc e = Some tpl then [tc d] else [])"
    using insert_by_tiploc [of "tc d" _ db] by (cases "ce_tiploc e") fastforce+
  have "\<exists>db2. (case ce_crs e of Some crs \<Rightarrow> insert_name (by_crs (tc d) crs) db1 | None \<Rightarrow> Inr db1) = Inr db2 \<and>
      nn_msn db2 = nn_msn db1 \<and> nn_corpus db2 = nn_corpus db1 \<and> (\<forall>tpl. names_for tpl db2 = names_for tpl db1)"
    using insert_by_crs [of "tc d" _ db1] by (cases "ce_crs e") auto
  with db1 assms show ?thesis by (simp add: corpus_names_def)
qed

lemma corpus_fold:
  assumes "\<forall>e\<in>set es. ce_nlcdesc e \<noteq> None"
  shows "\<exists>db1. res_fold (corpus_names tc) es db = Inr db1 \<and>
     (\<forall>tpl. names_for tpl db1 = add_first (names_for tpl db)
        (map tc (List.map_filter ce_nlcdesc (filter (\<lambda>e. ce_tiploc e = Some tpl) es))))"
  using assms
proof (induction es arbitrary: db)
  case Nil
  then show ?case by (simp add: map_filter_def)
next
  case (Cons e es)
  from Cons.prems obtain d where d: "ce_nlcdesc e = Some d" by auto
  obtain db1 where db1: "corpus_names tc e db = Inr db1"
    "\<forall>tpl. names_for tpl db1 = add_first (names_for tpl db) (if ce_tiploc e = Some tpl then [tc d] else [])"
    using corpus_names_step [OF d] by blast
  with Cons.IH [of db1] Cons.prems d show ?case by (auto simp: List.map_filter_simps)
qed

lemma corpus_panics:
  "e \<in> set es \<Longrightarrow> ce_nlcdesc e = None \<Longrightarrow> res_fold (corpus_names tc) es db = Inl NnPanic"
proof (induction es arbitrary: db)
  case (Cons x es)
  show ?case
  proof (cases "ce_nlcdesc x")
    case None
    then show ?thesis by (simp add: corpus_names_def)
  next
    case (Some d)
    with Cons corpus_names_step [OF Some] show ?thesis by (metis option.distinct(1) res_fold.simps(2) set_ConsD sum.simps(6))
  qed
qed simp

section \<open>Properties\<close>

lemma msn_from_row_simps [simp]:
  "ms_name (msn_from_row s) = ms_name s" "ms_tiploc (msn_from_row s) = ms_tiploc s"
  by (simp_all add: msn_from_row_def)

lemma msn_part:
  obtains db1 where "res_fold (msn_names tc) (map msn_from_row (nn_msn db)) db = Inr db1" "nn_corpus db1 = nn_corpus db"
    "\<And>tpl. names_for tpl db1 =
       add_first (names_for tpl db) (map (\<lambda>s. tc (ms_name s)) (filter (\<lambda>s. ms_tiploc s = tpl) (nn_msn db)))"
  using msn_fold [of tc "map msn_from_row (nn_msn db)" db] by (auto simp: filter_map o_def)

text \<open>
  The generation of station names fails exactly when some CORPUS entry has a CRS code and no description, and then
  it panics: the selection's conditions let such an entry through to the \<open>unwrap\<close>.
\<close>

theorem nennen_panics_iff:
  "(case generate_names tc db of
      Inl e \<Rightarrow> e = NnPanic \<and> (\<exists>e \<in> set (nn_corpus db). ce_crs e \<noteq> None \<and> ce_nlcdesc e = None)
    | Inr _ \<Rightarrow> \<forall>e \<in> set (nn_corpus db). ce_crs e \<noteq> None \<longrightarrow> ce_nlcdesc e \<noteq> None)"
proof -
  obtain db1 where db1: "res_fold (msn_names tc) (map msn_from_row (nn_msn db)) db = Inr db1" "nn_corpus db1 = nn_corpus db"
    using msn_part by blast
  let ?es = "filter corpus_selected (nn_corpus db)"
  have gen: "generate_names tc db = res_fold (corpus_names tc) ?es db1"
    by (simp add: generate_names_def db1)
  have sel: "(\<exists>e \<in> set (nn_corpus db). ce_crs e \<noteq> None \<and> ce_nlcdesc e = None) \<longleftrightarrow> (\<exists>e \<in> set ?es. ce_nlcdesc e = None)"
    by (auto simp: corpus_selected_def)
  show ?thesis
  proof (cases "\<exists>e \<in> set ?es. ce_nlcdesc e = None")
    case True
    then have "generate_names tc db = Inl NnPanic" using corpus_panics [of _ ?es tc db1] by (auto simp: gen)
    with True sel show ?thesis by simp
  next
    case False
    then have "\<forall>e\<in>set ?es. ce_nlcdesc e \<noteq> None" by metis
    from corpus_fold [OF this, of tc db1] obtain db2 where "generate_names tc db = Inr db2" by (auto simp: gen)
    moreover have "\<forall>e\<in>set (nn_corpus db). ce_crs e \<noteq> None \<longrightarrow> ce_nlcdesc e \<noteq> None"
      using False by (simp only: sel [symmetric]) auto
    ultimately show ?thesis by simp
  qed
qed

lemma selected_names:
  "List.map_filter ce_nlcdesc (filter (\<lambda>e. corpus_selected e \<and> ce_tiploc e = Some tpl) es) =
   List.map_filter ce_nlcdesc (filter (\<lambda>e. ce_tiploc e = Some tpl) es)"
  by (induction es) (auto simp: corpus_selected_def List.map_filter_simps split: option.splits)

lemma first_added:
  "(case nth0 (add_first (take 1 (map f xs)) (map f ys)) of Some n \<Rightarrow> n | None \<Rightarrow> d) =
   (case nth0 (xs @ ys) of Some n \<Rightarrow> f n | None \<Rightarrow> d)"
  by (cases xs; cases ys) (simp_all add: add_first_def)

lemma nice_name_names_for:
  "tiploc_nice_name (nn_names db) tpl = (case nth0 (names_for tpl db) of Some n \<Rightarrow> n | None \<Rightarrow> tpl)"
  by (simp only: tiploc_nice_name_def names_for_def)

text \<open>
  C28. When the names are generated into an empty table, a TIPLOC is then displayed as the title-cased name of the first
  station of the Master Station Names file that has it, else as the description of the first CORPUS entry that has it,
  else as itself: no constraint of the table loses a name or lets a later one replace it.
\<close>

theorem nennen_names_proper:
  assumes "generate_names titlecase db = Inr db1" and "nn_names db = []"
  shows "tiploc_nice_name (nn_names db1) tpl = proper_name titlecase db tpl"
proof -
  obtain db2 where part: "res_fold (msn_names titlecase) (map msn_from_row (nn_msn db)) db = Inr db2"
      "nn_corpus db2 = nn_corpus db"
    and names: "\<And>tpl. names_for tpl db2 = add_first (names_for tpl db)
      (map (\<lambda>s. titlecase (ms_name s)) (filter (\<lambda>s. ms_tiploc s = tpl) (nn_msn db)))"
    using msn_part [of titlecase db] by blast
  have "names_for tpl db2 = take 1 (map titlecase (map ms_name (filter (\<lambda>s. ms_tiploc s = tpl) (nn_msn db))))"
    by (simp add: names names_for_def [of _ db] assms(2) add_first_def o_def)
  note db2 = part this
  have run: "res_fold (corpus_names titlecase) (filter corpus_selected (nn_corpus db)) db2 = Inr db1"
    using assms(1) by (simp add: generate_names_def db2)
  then have "\<forall>e \<in> set (filter corpus_selected (nn_corpus db)). ce_nlcdesc e \<noteq> None"
    using corpus_panics [of _ "filter corpus_selected (nn_corpus db)" titlecase db2] by fastforce
  with corpus_fold [of "filter corpus_selected (nn_corpus db)" titlecase db2] run
  have "names_for tpl db1 = add_first (names_for tpl db2)
      (map titlecase (List.map_filter ce_nlcdesc (filter (\<lambda>e. ce_tiploc e = Some tpl) (nn_corpus db))))"
    by (simp add: selected_names)
  then show ?thesis by (simp only: nice_name_names_for db2 proper_name_def first_added)
qed

text \<open>The file knows Oxford by its TIPLOC, CORPUS knows Oxford as well and a junction that has no station.\<close>

definition sample_names_db :: nennen_db where
  "sample_names_db = \<lparr>
     nn_msn = [\<lparr>ms_name = ''OXFORD'', ms_cate_type = Cate_Medium, ms_tiploc = ''OXFD'', ms_subsidiary_crs = ''OXF'',
       ms_crs = ''OXF'', ms_easting = 0, ms_estimated = False, ms_northing = 0, ms_change_time = 5\<rparr>],
     nn_corpus = [
       \<lparr>ce_stanox = None, ce_uic = None, ce_crs = Some ''OXF'', ce_tiploc = Some ''OXFD'', ce_nlc = None,
        ce_nlcdesc = Some ''OXFORD GWR'', ce_nlcdesc16 = None\<rparr>,
       \<lparr>ce_stanox = None, ce_uic = None, ce_crs = None, ce_tiploc = Some ''DIDCTEJ'', ce_nlc = None,
        ce_nlcdesc = Some ''DIDCOT EAST JN'', ce_nlcdesc16 = None\<rparr>],
     nn_names = []\<rparr>"

lemma sample_names_generated: "\<exists>db1. generate_names id sample_names_db = Inr db1"
  by (simp add: generate_names_def sample_names_db_def msn_names_def corpus_names_def insert_name_def by_crs_def by_tiploc_def
      name_conflict_def corpus_selected_def msn_from_row_def)

text \<open>A CORPUS entry for a code without a place: nothing is generated.\<close>

lemma nennen_panics_iff_witness:
  "generate_names id (sample_names_db\<lparr>nn_corpus :=
     [\<lparr>ce_stanox = None, ce_uic = None, ce_crs = Some ''XXX'', ce_tiploc = None, ce_nlc = None,
       ce_nlcdesc = None, ce_nlcdesc16 = None\<rparr>]\<rparr>) = Inl NnPanic"
  using nennen_panics_iff [where tc = id and db = "sample_names_db\<lparr>nn_corpus :=
     [\<lparr>ce_stanox = None, ce_uic = None, ce_crs = Some ''XXX'', ce_tiploc = None, ce_nlc = None,
       ce_nlcdesc = None, ce_nlcdesc16 = None\<rparr>]\<rparr>"]
  by (simp split: sum.splits)

lemma nennen_names_proper_witness:
  "\<exists>db1. generate_names id sample_names_db = Inr db1 \<and> tiploc_nice_name (nn_names db1) ''OXFD'' = ''OXFORD'' \<and>
     tiploc_nice_name (nn_names db1) ''DIDCTEJ'' = ''DIDCOT EAST JN'' \<and> tiploc_nice_name (nn_names db1) ''CREWE'' = ''CREWE''"
proof -
  obtain db1 where db1: "generate_names id sample_names_db = Inr db1"
    using sample_names_generated by blast
  have "nn_names sample_names_db = []" by (simp add: sample_names_db_def)
  note names = nennen_names_proper [OF db1 this]
  show ?thesis
    by (rule exI [of _ db1], simp add: db1 names, simp add: proper_name_def sample_names_db_def List.map_filter_simps)
qed

end
