(* ===== verification/Web.thy ===== *)
theory Web
  imports Verknupfen Nennen
begin

text \<open>
  \<open>tspl-web\<close>: the pages. A movement search asks \<open>tspl-verknupfen\<close> for the movements, then
  \<open>tspl-zugfuhrer\<close> and \<open>tspl-fahrplan\<close> for the details of each train and schedule in the answer, of which it
  keeps the first and the last place, and names places from the database of \<open>tspl-nennen\<close>.

  The three services, the template engine, the dates and times of \<open>chrono\<close> in text, the full-text index and the
  static assets are records of functions.
\<close>

section \<open>Errors\<close>

datatype web_error =
  WNotFound
| WQueryParameterMissing
| WInvalidInput string
| WDetailsFetchFailed
| WRemoteInvariantsViolated
| WRpc rpc_error
| WSql string
| WPool string
| WHbs string
| WReqwest string

fun web_status_code :: "web_error \<Rightarrow> nat" where
  "web_status_code WNotFound = 404"
| "web_status_code WQueryParameterMissing = 400"
| "web_status_code (WInvalidInput _) = 400"
| "web_status_code (WRpc r) = rpc_status_code r"
| "web_status_code (WPool _) = 503"
| "web_status_code _ = 500"

interpretation web_status: error_status web_status_code
proof
  show "\<not> is_success (web_status_code e)" for e
    using rpc_status.no_success by (cases e) (simp_all add: is_success_def)
qed

section \<open>Views\<close>

record movement_orig_dest =
  mo_orig :: string
  mo_dest :: string

text \<open>\<open>_time\<close> and \<open>_action\<close> are \<open>md_order_time\<close> and \<open>md_order_action\<close>.\<close>

record movement_desc =
  md_parent_sched :: "uuid option"
  md_parent_train :: "uuid option"
  md_tiploc :: string
  md_action :: string
  md_time :: string
  md_time_scheduled :: "string option"
  md_actual :: bool
  md_platform :: "string option"
  md_pfm_changed :: bool
  md_pfm_suppr :: bool
  md_action_past_tense :: string
  md_delayed :: bool
  md_canx :: bool
  md_orig_dest :: movement_orig_dest
  md_order_time :: naive_time
  md_order_action :: u8

record movement_search_view =
  ms_error :: "string option"
  ms_station :: "string option"
  ms_date :: string
  ms_time :: string

datatype web_view =
  IndexView movement_search_view
| MovementsView "movement_desc list" movement_search_view
| NotFoundView string
| UserErrorView string string
| NoView

record template_context =
  tc_template :: string
  tc_title :: string
  tc_body :: web_view

section \<open>Utilities\<close>

text \<open>\<open>strftime\<close> formats and parsers, and the \<open>Display\<close> of dates and times, of \<open>chrono\<close>.\<close>

record text_chrono =
  tx_date :: "string \<Rightarrow> naive_date \<Rightarrow> string"
  tx_time :: "string \<Rightarrow> naive_time \<Rightarrow> string"
  tx_parse_date :: "string \<Rightarrow> string \<Rightarrow> string + naive_date"
  tx_parse_time :: "string \<Rightarrow> string \<Rightarrow> string + naive_time"
  tx_show_date :: "naive_date \<Rightarrow> string"
  tx_show_time :: "naive_time \<Rightarrow> string"

definition action_to_icon :: "u8 \<Rightarrow> string" where
  "action_to_icon act =
     (if act = 0 then ''arrow-alt-circle-right'' else if act = 1 then ''arrow-alt-circle-left''
      else if act = 2 then ''arrow-alt-circle-up'' else ''?'')"

definition action_past_tense :: "u8 \<Rightarrow> string" where
  "action_past_tense act =
     (if act = 0 then ''Arrived'' else if act = 1 then ''Departed'' else if act = 2 then ''Passed through'' else ''???'')"

text \<open>The half is the character U+00BD.\<close>

definition format_time_with_half :: "text_chrono \<Rightarrow> naive_time \<Rightarrow> string" where
  "format_time_with_half X time =
     (let second = nt_secs time mod 60
      in if second = 0 then tx_time X ''%H:%M'' time
         else if second = 30 then tx_time X (''%H:%M'' @ [CHR 0xC2, CHR 0xBD]) time
         else tx_time X ''%H:%M:%S'' time)"

section \<open>Movement searches\<close>

text \<open>\<open>we_pool\<close> is a connection of the pool, or that there is none.\<close>

record web_env =
  we_pool :: "string + nennen_db"
  we_frpc :: "uuid \<Rightarrow> rpc_error + schedule_details"
  we_zrpc :: "uuid \<Rightarrow> rpc_error + train_details"
  we_vrpc :: "string \<Rightarrow> naive_datetime \<Rightarrow> u32 \<Rightarrow> rpc_error + ver_mqr"

definition opt_nowhere :: "string option \<Rightarrow> string" where
  "opt_nowhere x = (case x of Some t \<Rightarrow> t | None \<Rightarrow> ''nowhere'')"

definition orig_dest_of :: "string list \<Rightarrow> movement_orig_dest" where
  "orig_dest_of tpls =
     \<lparr>mo_orig = opt_nowhere (nth0 tpls), mo_dest = opt_nowhere (if tpls = [] then None else Some (last tpls))\<rparr>"

text \<open>A failed fetch is a warning; the train is left out.\<close>

definition train_origdests :: "web_env \<Rightarrow> (int \<times> train) list \<Rightarrow> (int \<times> movement_orig_dest) list" where
  "train_origdests E trains =
     List.map_filter
       (\<lambda>(i, x). case we_zrpc E (tr_tspl_id x) of
          Inr tdets \<Rightarrow> Some (i, orig_dest_of (map tm_tiploc (td_mvts tdets)))
        | Inl _ \<Rightarrow> None) trains"

definition sched_origdests :: "web_env \<Rightarrow> (int \<times> schedule) list \<Rightarrow> (int \<times> movement_orig_dest) list" where
  "sched_origdests E schedules =
     List.map_filter
       (\<lambda>(i, x). case we_frpc E (sch_tspl_id x) of
          Inr sdets \<Rightarrow> Some (i, orig_dest_of (map smv_tiploc (sd_mvts sdets)))
        | Inl _ \<Rightarrow> None) schedules"

definition nice_orig_dest :: "station_name list \<Rightarrow> movement_orig_dest \<Rightarrow> movement_orig_dest" where
  "nice_orig_dest names od =
     od\<lparr>mo_orig := tiploc_nice_name names (mo_orig od), mo_dest := tiploc_nice_name names (mo_dest od)\<rparr>"

definition nice_names :: "station_name list \<Rightarrow> (int \<times> movement_orig_dest) list \<Rightarrow> (int \<times> movement_orig_dest) list" where
  "nice_names names = map (\<lambda>(i, od). (i, nice_orig_dest names od))"

text \<open>The first \<open>match\<close> of the loop body.\<close>

definition source_details ::
    "(int \<times> schedule) list \<Rightarrow> (int \<times> train) list \<Rightarrow> (int \<times> movement_orig_dest) list \<Rightarrow>
      (int \<times> movement_orig_dest) list \<Rightarrow> dedup_src \<Rightarrow>
      web_error + uuid option \<times> uuid option \<times> movement_orig_dest \<times> bool" where
  "source_details schedules trains sods tods src =
     (case src of
        DSchedule s \<Rightarrow>
          res_bind (ok_or WRemoteInvariantsViolated (map_of schedules s)) (\<lambda>sched.
          res_map (\<lambda>odest. (Some (sch_tspl_id sched), None, odest, False))
            (ok_or WDetailsFetchFailed (map_of sods s)))
      | DTrain t \<Rightarrow>
          res_bind (ok_or WRemoteInvariantsViolated (map_of trains t)) (\<lambda>train.
          res_map (\<lambda>odest. (None, Some (tr_tspl_id train), odest, tr_cancelled train))
            (ok_or WDetailsFetchFailed (map_of tods t))))"

definition movement_desc_of ::
    "text_chrono \<Rightarrow> dedup_mvt \<Rightarrow> uuid option \<times> uuid option \<times> movement_orig_dest \<times> bool \<Rightarrow> movement_desc" where
  "movement_desc_of X mvt details =
     (case details of (ps, pt, odest, canx) \<Rightarrow>
        \<lparr>md_parent_sched = ps, md_parent_train = pt, md_tiploc = dm_tiploc mvt,
         md_action = action_to_icon (dm_action mvt),
         md_time = format_time_with_half X (tws_time (dm_time mvt)),
         md_time_scheduled = map_option (\<lambda>x. format_time_with_half X (tws_time x)) (dm_time_scheduled mvt),
         md_actual = dm_actual mvt, md_platform = dm_pfm_actual mvt,
         md_pfm_changed = (dm_pfm_scheduled mvt \<noteq> None \<and> dm_pfm_actual mvt \<noteq> dm_pfm_scheduled mvt),
         md_pfm_suppr = dm_pfm_suppr mvt, md_action_past_tense = action_past_tense (dm_action mvt),
         md_delayed = (case dm_time_scheduled mvt of
                         Some ts \<Rightarrow> tws_time ts \<noteq> tws_time (dm_time mvt)
                       | None \<Rightarrow> False),
         md_canx = canx, md_orig_dest = odest,
         md_order_time = tws_time (dm_time mvt), md_order_action = dm_action mvt\<rparr>)"

definition desc_key :: "movement_desc \<Rightarrow> naive_time \<times> u8" where
  "desc_key d = (md_order_time d, md_order_action d)"

definition get_movements_through_tiploc ::
    "text_chrono \<Rightarrow> web_env \<Rightarrow> string \<Rightarrow> naive_datetime \<Rightarrow> u32 \<Rightarrow> web_error + movement_desc list" where
  "get_movements_through_tiploc X E tpl ts within_dur =
     res_bind (map_err WPool (we_pool E)) (\<lambda>db.
     res_bind (map_err WRpc (we_vrpc E tpl (whole_secs ts) within_dur)) (\<lambda>mqr.
       let tods = nice_names (nn_names db) (train_origdests E (vq_trains mqr));
           sods = nice_names (nn_names db) (sched_origdests E (vq_schedules mqr))
       in res_map (sort_key desc_key)
            (res_mapM (\<lambda>mvt. res_map (movement_desc_of X mvt)
               (source_details (vq_schedules mqr) (vq_trains mqr) sods tods (dm_src mvt))) (vq_mvts mqr))))"

section \<open>Station suggestions\<close>

text \<open>\<open>match_rank\<close> is the full-text query: the rows of the index that match, best first.\<close>

definition suggestions_for ::
    "(station_name list \<Rightarrow> string \<Rightarrow> station_name list) \<Rightarrow> web_env \<Rightarrow> string \<Rightarrow>
      web_error + (string \<times> string \<times> string) list" where
  "suggestions_for match_rank E query =
     res_map
       (\<lambda>db. List.map_filter
          (\<lambda>x. case sn_tiploc x of Some tpl \<Rightarrow> Some (sn_name x, tpl, ''TIPLOC'') | None \<Rightarrow> None)
          (take 6 (match_rank (nn_names db) query)))
       (map_err WPool (we_pool E))"

section \<open>Requests\<close>

datatype web_content =
  Html string
| SuggestionsJson "(string \<times> string \<times> string) list"
| Redirect303 string
| Asset string
| PlainText string

record web_response =
  wr_status :: nat
  wr_content :: web_content

datatype web_route =
  RRoot
| RSuggestions "string option"
| RPostMovements "string + (string \<times> string) list"
| RMovements string naive_date naive_time
| ROther

text \<open>\<open>wq_asset\<close> is what \<open>match_assets\<close> finds for the URL.\<close>

record web_req =
  wq_url :: string
  wq_route :: web_route
  wq_asset :: web_response

record web_app =
  wa_hbs :: "string \<Rightarrow> template_context \<Rightarrow> string + string"
  wa_env :: web_env
  wa_text :: text_chrono
  wa_match :: "station_name list \<Rightarrow> string \<Rightarrow> station_name list"

definition html :: "string \<Rightarrow> web_response" where
  "html d = \<lparr>wr_status = 200, wr_content = Html d\<rparr>"

definition render :: "web_app \<Rightarrow> template_context \<Rightarrow> web_error + web_response" where
  "render A ctx = (case wa_hbs A (tc_template ctx) ctx of Inr d \<Rightarrow> Inr (html d) | Inl e \<Rightarrow> Inl (WHbs e))"

text \<open>The loop over the form's fields; the state is \<open>(tiploc, date, time)\<close>.\<close>

type_synonym form = "string option \<times> naive_date option \<times> naive_time option"

fun form_field :: "text_chrono \<Rightarrow> string \<times> string \<Rightarrow> form \<Rightarrow> web_error + form" where
  "form_field X (k, v) (tiploc, date, time) =
     (if k = ''ts-tiploc'' then
        if length (str_trim v) = 0 then Inl (WInvalidInput ''Location cannot be blank.'')
        else Inr (Some v, date, time)
      else if k = ''ts-date'' then
        (case tx_parse_date X v ''%Y-%m-%d'' of
           Inl e \<Rightarrow> Inl (WInvalidInput (''Error parsing date: '' @ e))
         | Inr d \<Rightarrow> Inr (tiploc, Some d, time))
      else if k = ''ts-time'' then
        (case tx_parse_time X v ''%H:%M'' of
           Inl e \<Rightarrow> Inl (WInvalidInput (''Error parsing time: '' @ e))
         | Inr t \<Rightarrow> Inr (tiploc, date, Some t))
      else Inr (tiploc, date, time))"

definition post_movements :: "text_chrono \<Rightarrow> string + (string \<times> string) list \<Rightarrow> web_error + web_response" where
  "post_movements X input =
     res_bind (map_err WInvalidInput input) (\<lambda>fields.
     res_bind (res_fold (form_field X) fields (None, None, None)) (\<lambda>(tiploc, date, time).
     res_bind (ok_or (WInvalidInput ''A location is required.'') tiploc) (\<lambda>tiploc.
     res_bind (ok_or (WInvalidInput ''A date is required.'') date) (\<lambda>date.
     res_map (\<lambda>time.
       \<lparr>wr_status = 303,
        wr_content = Redirect303 (''/movements/'' @ tiploc @ ''/'' @ tx_show_date X date @ ''/'' @ tx_show_time X time)\<rparr>)
       (ok_or (WInvalidInput ''A time is required.'') time)))))"

definition search_view :: "text_chrono \<Rightarrow> string option \<Rightarrow> naive_datetime \<Rightarrow> movement_search_view" where
  "search_view X station ts =
     \<lparr>ms_error = None, ms_station = station, ms_date = tx_date X ''%Y-%m-%d'' (dt_date ts),
      ms_time = tx_time X ''%H:%M'' (dt_time ts)\<rparr>"

fun web_on_request :: "web_app \<Rightarrow> naive_datetime \<Rightarrow> web_req \<Rightarrow> web_error + web_response" where
  "web_on_request A now req =
     (case wq_route req of
        RRoot \<Rightarrow>
          render A \<lparr>tc_template = ''index'', tc_title = ''Welcome to trainsplorer'',
                    tc_body = IndexView (search_view (wa_text A) None now)\<rparr>
      | RSuggestions query \<Rightarrow>
          res_bind (ok_or WQueryParameterMissing query) (\<lambda>query.
          res_map (\<lambda>ret. \<lparr>wr_status = 200, wr_content = SuggestionsJson ret\<rparr>)
            (suggestions_for (wa_match A) (wa_env A) query))
      | RPostMovements input \<Rightarrow> post_movements (wa_text A) input
      | RMovements tpl date time \<Rightarrow>
          (let ts = NaiveDateTime date time
           in res_bind (get_movements_through_tiploc (wa_text A) (wa_env A) tpl ts 3600) (\<lambda>descs.
              render A \<lparr>tc_template = ''movements'', tc_title = ''Movement search'',
                        tc_body = MovementsView descs (search_view (wa_text A) (Some tpl) ts)\<rparr>))
      | ROther \<Rightarrow> if is_success (wr_status (wq_asset req)) then Inr (wq_asset req) else Inl WNotFound)"

text \<open>\<open>WebError::as_rendered\<close>\<close>

definition as_rendered :: "web_app \<Rightarrow> web_req \<Rightarrow> web_error \<Rightarrow> web_error + web_response" where
  "as_rendered A req e =
     res_map (\<lambda>resp. resp\<lparr>wr_status := web_status_code e\<rparr>)
       (render A
          (case e of
             WNotFound \<Rightarrow>
               \<lparr>tc_template = ''not_found'', tc_title = ''Not found'', tc_body = NotFoundView (wq_url req)\<rparr>
           | WQueryParameterMissing \<Rightarrow>
               \<lparr>tc_template = ''user_error'', tc_title = ''Bad request (400)'',
                tc_body = UserErrorView ''Bad request (400)'' ''Query parameter missing.''\<rparr>
           | WInvalidInput reason \<Rightarrow>
               \<lparr>tc_template = ''user_error'', tc_title = ''Invalid input (400)'',
                tc_body = UserErrorView ''Invalid input (400)'' reason\<rparr>
           | _ \<Rightarrow> \<lparr>tc_template = ''ise'', tc_title = '''', tc_body = NoView\<rparr>))"

definition handle_request :: "web_app \<Rightarrow> naive_datetime \<Rightarrow> web_req \<Rightarrow> web_response" where
  "handle_request A now req =
     (case web_on_request A now req of
        Inr r \<Rightarrow> r
      | Inl e \<Rightarrow>
          (case as_rendered A req e of
             Inr r \<Rightarrow> r
           | Inl _ \<Rightarrow> \<lparr>wr_status = 500, wr_content = PlainText (''Something'' @ [CHR 0x27] @ ''s catastrophically broken!'')\<rparr>))"

section \<open>Fetching the details\<close>

lemma map_of_map_filter:
  assumes "distinct (map fst xs)"
  shows "map_of (List.map_filter (\<lambda>(i, x). case f x of Inr y \<Rightarrow> Some (i, g y) | Inl _ \<Rightarrow> None) xs) i =
    Option.bind (map_of xs i) (\<lambda>x. case f x of Inr y \<Rightarrow> Some (g y) | Inl _ \<Rightarrow> None)"
  using assms
proof (induction xs)
  case Nil
  then show ?case by (simp add: List.map_filter_simps)
next
  case (Cons p xs)
  obtain j x where p: "p = (j, x)" by (cases p)
  show ?case
  proof (cases "j = i")
    case True
    with Cons.prems p have "map_of xs i = None" by (simp add: map_of_eq_None_iff)
    with Cons p True show ?thesis by (simp add: List.map_filter_simps split: sum.split)
  next
    case False
    with Cons p show ?thesis by (simp add: List.map_filter_simps split: sum.split)
  qed
qed

lemma map_of_nice_names [simp]: "map_of (nice_names names xs) i = map_option (nice_orig_dest names) (map_of xs i)"
  by (induction xs) (auto simp: nice_names_def)

text \<open>What the page shows as the origin and destination of a source: places of the details, by their names.\<close>

definition source_orig_dest :: "web_env \<Rightarrow> station_name list \<Rightarrow> ver_mqr \<Rightarrow> dedup_src \<Rightarrow> movement_orig_dest option" where
  "source_orig_dest E names q src = map_option (nice_orig_dest names)
     (case src of
        DTrain t \<Rightarrow> Option.bind (map_of (vq_trains q) t) (\<lambda>x.
          case we_zrpc E (tr_tspl_id x) of Inr d \<Rightarrow> Some (orig_dest_of (map tm_tiploc (td_mvts d))) | Inl _ \<Rightarrow> None)
      | DSchedule i \<Rightarrow> Option.bind (map_of (vq_schedules q) i) (\<lambda>x.
          case we_frpc E (sch_tspl_id x) of Inr d \<Rightarrow> Some (orig_dest_of (map smv_tiploc (sd_mvts d))) | Inl _ \<Rightarrow> None))"

definition source_known :: "ver_mqr \<Rightarrow> dedup_src \<Rightarrow> bool" where
  "source_known q src = (case src of DTrain t \<Rightarrow> map_of (vq_trains q) t \<noteq> None | DSchedule i \<Rightarrow> map_of (vq_schedules q) i \<noteq> None)"

definition mqr_wf :: "ver_mqr \<Rightarrow> bool" where
  "mqr_wf q \<longleftrightarrow> distinct (map fst (vq_trains q)) \<and> distinct (map fst (vq_schedules q)) \<and>
     (\<forall>d\<in>set (vq_mvts q). source_known q (dm_src d))"

text \<open>The line of the page for a movement.\<close>

definition shown_as :: "text_chrono \<Rightarrow> ver_mqr \<Rightarrow> movement_orig_dest \<Rightarrow> dedup_mvt \<Rightarrow> movement_desc" where
  "shown_as X q od m = movement_desc_of X m
     (case dm_src m of
        DTrain t \<Rightarrow> (None, map_option tr_tspl_id (map_of (vq_trains q) t), od,
          \<exists>x. map_of (vq_trains q) t = Some x \<and> tr_cancelled x)
      | DSchedule i \<Rightarrow> (map_option sch_tspl_id (map_of (vq_schedules q) i), None, od, False))"

lemma source_details_answer:
  assumes "mqr_wf q" "m \<in> set (vq_mvts q)"
  shows "res_map (movement_desc_of X m) (source_details (vq_schedules q) (vq_trains q)
      (nice_names names (sched_origdests E (vq_schedules q))) (nice_names names (train_origdests E (vq_trains q))) (dm_src m)) =
    (case source_orig_dest E names q (dm_src m) of
       None \<Rightarrow> Inl WDetailsFetchFailed
     | Some od \<Rightarrow> Inr (shown_as X q od m))"
proof -
  have "source_known q (dm_src m)" "distinct (map fst (vq_trains q))" "distinct (map fst (vq_schedules q))"
    using assms by (auto simp: mqr_wf_def)
  then show ?thesis
    by (auto simp: source_details_def source_orig_dest_def source_known_def shown_as_def train_origdests_def
      sched_origdests_def map_of_map_filter split: dedup_src.splits sum.splits)
qed

lemma res_mapM_option:
  "res_mapM (\<lambda>x. case g x of None \<Rightarrow> Inl e | Some y \<Rightarrow> Inr (h y x)) xs =
     (if \<exists>x\<in>set xs. g x = None then Inl e else Inr (map (\<lambda>x. h (the (g x)) x) xs))"
  by (induction xs) (auto split: option.splits)

lemma res_mapM_cong: "(\<And>x. x \<in> set xs \<Longrightarrow> f x = g x) \<Longrightarrow> res_mapM f xs = res_mapM g xs"
  by (induction xs) (auto split: sum.splits)

lemma search_answer:
  assumes "we_pool E = Inr db" "we_vrpc E tpl (whole_secs ts) dur = Inr q" "mqr_wf q"
  shows "get_movements_through_tiploc X E tpl ts dur =
    (if \<exists>m\<in>set (vq_mvts q). source_orig_dest E (nn_names db) q (dm_src m) = None then Inl WDetailsFetchFailed
     else Inr (sort_key desc_key
       (map (\<lambda>m. shown_as X q (the (source_orig_dest E (nn_names db) q (dm_src m))) m) (vq_mvts q))))"
proof -
  have "res_mapM (\<lambda>m. res_map (movement_desc_of X m) (source_details (vq_schedules q) (vq_trains q)
      (nice_names (nn_names db) (sched_origdests E (vq_schedules q)))
      (nice_names (nn_names db) (train_origdests E (vq_trains q))) (dm_src m))) (vq_mvts q) =
    res_mapM (\<lambda>m. case source_orig_dest E (nn_names db) q (dm_src m) of
       None \<Rightarrow> Inl WDetailsFetchFailed | Some od \<Rightarrow> Inr (shown_as X q od m)) (vq_mvts q)"
    by (rule res_mapM_cong) (rule source_details_answer [OF assms(3)])
  then show ?thesis
    by (simp add: get_movements_through_tiploc_def assms(1,2) Let_def res_mapM_option)
qed

section \<open>The contract of the services behind a page\<close>

text \<open>
  What an answer of \<open>answer\<close> promises a client that then asks for details: sources are known, and the
  details of every train and schedule named can be fetched.
\<close>

locale details_servers =
  fixes ok :: "'s \<Rightarrow> bool"
    and answer :: "'s \<Rightarrow> string \<Rightarrow> naive_datetime \<Rightarrow> u32 \<Rightarrow> rpc_error + ver_mqr"
    and train_details_of :: "'s \<Rightarrow> uuid \<Rightarrow> rpc_error + train_details"
    and sched_details_of :: "'s \<Rightarrow> uuid \<Rightarrow> rpc_error + schedule_details"
  assumes answer_wf: "ok s \<Longrightarrow> answer s tpl ts dur = Inr q \<Longrightarrow> mqr_wf q"
    and train_fetched: "ok s \<Longrightarrow> answer s tpl ts dur = Inr q \<Longrightarrow> map_of (vq_trains q) i = Some t \<Longrightarrow>
      \<exists>d. train_details_of s (tr_tspl_id t) = Inr d"
    and sched_fetched: "ok s \<Longrightarrow> answer s tpl ts dur = Inr q \<Longrightarrow> map_of (vq_schedules q) i = Some x \<Longrightarrow>
      \<exists>d. sched_details_of s (sch_tspl_id x) = Inr d"
begin

lemma details_found:
  assumes "ok s" "we_zrpc E = train_details_of s" "we_frpc E = sched_details_of s"
    and "answer s tpl ts dur = Inr q" "m \<in> set (vq_mvts q)"
  shows "\<exists>od. source_orig_dest E names q (dm_src m) = Some od"
proof -
  have "source_known q (dm_src m)" using answer_wf [OF assms(1,4)] assms(5) by (simp add: mqr_wf_def)
  then show ?thesis
    using train_fetched [OF assms(1,4)] sched_fetched [OF assms(1,4)]
    by (fastforce simp: source_known_def source_orig_dest_def assms(2,3) split: dedup_src.splits)
qed

lemma search_served:
  assumes "ok s" "we_zrpc E = train_details_of s" "we_frpc E = sched_details_of s" "we_vrpc E = answer s"
    and "we_pool E = Inr db"
  shows "get_movements_through_tiploc X E tpl ts dur =
    (case answer s tpl (whole_secs ts) dur of
       Inl r \<Rightarrow> Inl (WRpc r)
     | Inr q \<Rightarrow> Inr (sort_key desc_key
         (map (\<lambda>m. shown_as X q (the (source_orig_dest E (nn_names db) q (dm_src m))) m) (vq_mvts q))))"
proof (cases "answer s tpl (whole_secs ts) dur")
  case (Inl r)
  then show ?thesis by (simp add: get_movements_through_tiploc_def assms(4,5))
next
  case (Inr q)
  have "\<not> (\<exists>m\<in>set (vq_mvts q). source_orig_dest E (nn_names db) q (dm_src m) = None)"
    using details_found [OF assms(1-3) Inr, of _ "nn_names db"] by force
  then show ?thesis
    using search_answer [OF assms(5) _ answer_wf [OF assms(1) Inr], of tpl ts dur X] by (simp add: assms(4) Inr)
qed

end

section \<open>All the services together\<close>

text \<open>The services in states \<open>(fdb, s)\<close>, over connections that work.\<close>

definition front_answer ::
    "chrono \<Rightarrow> fahrplan_db \<times> zug_state \<Rightarrow> string \<Rightarrow> naive_datetime \<Rightarrow> u32 \<Rightarrow> rpc_error + ver_mqr" where
  "front_answer C st tpl ts dur = rpc_call (\<lambda>_. '''') ''verknupfen'' ver_status_code (\<lambda>_. '''')
     (ver_get_mvts_passing_through (services C (fst st) (snd st)) tpl ts dur)"

definition front_train :: "fahrplan_db \<times> zug_state \<Rightarrow> uuid \<Rightarrow> rpc_error + train_details" where
  "front_train st uu = rpc_call (\<lambda>_. '''') ''zugfuhrer'' zug_status_code (\<lambda>_. '''')
     (get_train_details (zs_db (snd st)) uu)"

definition front_sched :: "fahrplan_db \<times> zug_state \<Rightarrow> uuid \<Rightarrow> rpc_error + schedule_details" where
  "front_sched st uu = rpc_call (\<lambda>_. '''') ''fahrplan'' fahrplan_status_code (\<lambda>_. '''')
     (request_schedule_details (fst st) uu)"

definition front_env :: "chrono \<Rightarrow> fahrplan_db \<times> zug_state \<Rightarrow> nennen_db \<Rightarrow> web_env" where
  "front_env C st db =
     \<lparr>we_pool = Inr db, we_frpc = front_sched st, we_zrpc = front_train st, we_vrpc = front_answer C st\<rparr>"

lemma train_details_found: "t \<in> set (zdb_trains db) \<Longrightarrow> \<exists>d. get_train_details db (tr_tspl_id t) = Inr d"
  by (cases "find_train db (tr_tspl_id t)")
     (auto simp: get_train_details_def find_train_def filter_empty_conv)

lemma sched_details_found: "x \<in> set (fdb_schedules db) \<Longrightarrow> \<exists>d. request_schedule_details db (sch_tspl_id x) = Inr d"
  by (cases "nth0 (filter (\<lambda>s. sch_tspl_id s = sch_tspl_id x) (fdb_schedules db))")
     (auto simp: request_schedule_details_def filter_empty_conv)

lemma distinct_zq_trains: "distinct (map fst (zq_trains (zug_get_mvts_passing_through C db tpl ts dur)))"
proof -
  have "distinct (map fst (fold (\<lambda>(m, t, u). AList.update (tr_id t) t) rows acc))" if "distinct (map fst acc)"
    for rows :: "(train_mvt \<times> train \<times> train_mvt option) list" and acc
    using that by (induction rows arbitrary: acc) (auto simp: distinct_update)
  then show ?thesis by (simp add: zug_get_mvts_passing_through_def split_beta Let_def)
qed

lemma distinct_id_schedules: "distinct (map fst (uid_scheds_to_id_scheds inp))"
proof -
  have "distinct (map fst (fold (\<lambda>(_, s) acc. AList.update (sch_id s) s acc) xs acc))" if "distinct (map fst acc)"
    for xs :: "(string \<times> schedule) list" and acc
    using that by (induction xs arbitrary: acc) (auto simp: distinct_update)
  then show ?thesis by (simp add: uid_scheds_to_id_scheds_def)
qed

lemma shown_schedules:
  assumes "fdb_wf fdb" "get_mvts_passing_through C fdb tpl ts dur = Inr fq"
  shows "distinct (map fst (fq_schedules fq))"
    and "map_of (fq_schedules fq) i = Some x \<Longrightarrow> x \<in> set (fdb_schedules fdb)"
proof -
  obtain days where days: "from_iso_weekday (iso_weekday C (dt_date ts)) = Some days"
    using assms(2) by (auto simp: get_mvts_passing_through_def split_beta split: option.splits)
  show "distinct (map fst (fq_schedules fq))"
    using assms(2) by (auto simp: get_mvts_passing_through_def split_beta days Let_def distinct_id_schedules)
  show "x \<in> set (fdb_schedules fdb)" if "map_of (fq_schedules fq) i = Some x"
    using passing_through_answer(2) [OF assms surjective_pairing days] that
    by (auto simp: shown_def least_stp_def overrides_def)
qed

lemma retain_mem: "map_of (retain P al) i = Some v \<Longrightarrow> (i, v) \<in> set al"
  by (drule map_of_SomeD) simp

lemma dedup_sources:
  assumes "zug_reach s" "fdb_wf fdb" "ver_get_mvts_passing_through (services C fdb s) tpl ts dur = Inr q"
  shows "mqr_wf q" and "map_of (vq_trains q) i = Some t \<Longrightarrow> t \<in> set (zdb_trains (zs_db s))"
    and "map_of (vq_schedules q) i = Some x \<Longrightarrow> x \<in> set (fdb_schedules fdb)"
proof -
  note inv = zug_reach_inv [OF assms(1)]
  define zq where "zq = zug_get_mvts_passing_through C (zs_db s) tpl (whole_secs ts) (uint dur)"
  obtain fq ds where fq: "get_mvts_passing_through C fdb tpl (whole_secs ts) (uint dur) = Inr fq"
    and q: "vq_trains q = zq_trains zq"
      "vq_schedules q = retain (\<lambda>_ x. sched_key x \<notin> set (obsolete_keys (zq_trains zq))) (fq_schedules fq)"
      "vq_mvts q = ds @ List.map_filter (\<lambda>(sid, m). case map_of (vq_schedules q) sid of
        Some _ \<Rightarrow> Some (dedup_schedule sid m) | None \<Rightarrow> None) (fq_mvts fq)"
    and merged: "\<And>d. d \<in> set ds \<Longrightarrow> \<exists>i l t. (i, l) \<in> set (zq_mvts zq) \<and>
      map_of (zq_trains zq) (tm_parent_train (hd l)) = Some t \<and> merged_mvt t (hd l) (tl l) d"
    by (rule ver_Inr [OF assms(1,3) zq_def]) iprover
  obtain st en where win: "calculate_non_midnight_aware_times C (whole_secs ts) (uint dur) = (st, en)" by fastforce
  note trains = passing_trains_exact [OF inv win, of tpl, folded zq_def]
  note scheds = shown_schedules [OF assms(2) fq]
  show "t \<in> set (zdb_trains (zs_db s))" if "map_of (vq_trains q) i = Some t"
    using that unfolding q(1) trains by blast
  show "x \<in> set (fdb_schedules fdb)" if "map_of (vq_schedules q) i = Some x"
    using map_of_is_SomeI [OF scheds(1) retain_mem [OF that [unfolded q(2)]]] by (rule scheds(2))
  have "source_known q (dm_src d)" if d: "d \<in> set ds" for d
  proof -
    obtain l t where "map_of (zq_trains zq) (tm_parent_train (hd l)) = Some t" "merged_mvt t (hd l) (tl l) d"
      using merged [OF d] by blast
    moreover from this(1) have "tr_id t = tm_parent_train (hd l)" unfolding q(1) trains by blast
    ultimately show ?thesis by (simp add: source_known_def merged_mvt_def q(1))
  qed
  moreover have "source_known q (dm_src d)" if "d \<in> set (vq_mvts q)" "d \<notin> set ds" for d
    using that by (auto simp: q(3) map_filter_def dedup_schedule_def source_known_def split: option.splits if_splits)
  ultimately show "mqr_wf q"
    unfolding mqr_wf_def using distinct_zq_trains scheds(1) by (auto simp: q(1,2) zq_def intro: distinct_retain)
qed

interpretation front: details_servers "\<lambda>st. fdb_wf (fst st) \<and> zug_reach (snd st)" "front_answer C" front_train front_sched for C
proof
  fix st :: "fahrplan_db \<times> zug_state" and tpl ts dur q
  assume ok: "fdb_wf (fst st) \<and> zug_reach (snd st)" and "front_answer C st tpl ts dur = Inr q"
  then have "ver_get_mvts_passing_through (services C (fst st) (snd st)) tpl ts dur = Inr q"
    by (simp add: front_answer_def ver_status.call_Inr_iff)
  note src = dedup_sources [OF conjunct2 [OF ok] conjunct1 [OF ok] this]
  show "mqr_wf q" by (rule src(1))
  show "\<exists>d. front_train st (tr_tspl_id t) = Inr d" if "map_of (vq_trains q) i = Some t" for i t
    using train_details_found [OF src(2) [OF that]] by (auto simp: front_train_def zug_status.call_Inr)
  show "\<exists>d. front_sched st (sch_tspl_id x) = Inr d" if "map_of (vq_schedules q) i = Some x" for i x
    using sched_details_found [OF src(3) [OF that]] by (auto simp: front_sched_def fahrplan_status.call_Inr)
qed

section \<open>Properties\<close>

lemma whole_secs_idem [simp]: "whole_secs (whole_secs ts) = whole_secs ts"
  by (cases ts rule: whole_secs.cases) simp

lemma dedup_whole_secs:
  "ver_get_mvts_passing_through V tpl (whole_secs ts) dur = ver_get_mvts_passing_through V tpl ts dur"
  by (simp add: ver_get_mvts_passing_through_def)

text \<open>
  C5. In front of the other services a movement search fails only when the query of \<open>tspl-fahrplan\<close> does, with
  an RPC error. Otherwise the page lists every deduplicated movement exactly once, ordered by time and then
  action, each under the id of its train or schedule, cancelled as its train is, with the names of the first and
  the last place in the details that could be fetched for it.
\<close>

theorem web_movements_served:
  assumes "zug_reach s" "fdb_wf fdb"
  shows "case get_movements_through_tiploc X (front_env C (fdb, s) db) tpl ts dur of
      Inl e \<Rightarrow> (\<exists>r. e = WRpc r) \<and> (\<exists>x. get_mvts_passing_through C fdb tpl (whole_secs ts) (uint dur) = Inl x)
    | Inr ds \<Rightarrow> \<exists>q. ver_get_mvts_passing_through (services C fdb s) tpl ts dur = Inr q \<and> sorted (map desc_key ds) \<and>
        (\<forall>m\<in>set (vq_mvts q). source_orig_dest (front_env C (fdb, s) db) (nn_names db) q (dm_src m) \<noteq> None) \<and>
        mset ds = image_mset
          (\<lambda>m. shown_as X q (the (source_orig_dest (front_env C (fdb, s) db) (nn_names db) q (dm_src m))) m)
          (mset (vq_mvts q))"
proof -
  let ?E = "front_env C (fdb, s) db"
  have ok: "fdb_wf (fst (fdb, s)) \<and> zug_reach (snd (fdb, s))" using assms by simp
  have E: "we_zrpc ?E = front_train (fdb, s)" "we_frpc ?E = front_sched (fdb, s)" "we_vrpc ?E = front_answer C (fdb, s)"
    "we_pool ?E = Inr db"
    by (simp_all add: front_env_def)
  have ans: "front_answer C (fdb, s) tpl (whole_secs ts) dur = rpc_call (\<lambda>_. '''') ''verknupfen'' ver_status_code (\<lambda>_. '''')
      (ver_get_mvts_passing_through (services C fdb s) tpl ts dur)"
    by (simp add: front_answer_def dedup_whole_secs)
  show ?thesis
  proof (cases "ver_get_mvts_passing_through (services C fdb s) tpl ts dur")
    case (Inl e)
    then have "\<exists>x. get_mvts_passing_through C fdb tpl (whole_secs ts) (uint dur) = Inl x"
      using ver_unfold [OF assms(1) _ refl] by (cases "get_mvts_passing_through C fdb tpl (whole_secs ts) (uint dur)") force+
    with Inl show ?thesis
      by (simp add: front.search_served [OF ok E] ans ver_status.call_Inl)
  next
    case (Inr q)
    have a: "front_answer C (fdb, s) tpl (whole_secs ts) dur = Inr q" by (simp add: ans Inr)
    have "\<forall>m\<in>set (vq_mvts q). source_orig_dest ?E (nn_names db) q (dm_src m) \<noteq> None"
      using front.details_found [OF ok E(1,2) a, of _ "nn_names db"] by force
    with a Inr show ?thesis by (simp add: front.search_served [OF ok E] mset_map [symmetric] del: mset_map)
  qed
qed

text \<open>
  With whatever services behind it: a failed fetch of the details of one train or schedule, which
  is logged as a warning and passed over, fails the whole page if any movement shown belongs to it, and nothing
  else makes a page fail this way.
\<close>

theorem details_fetch_fails_page:
  assumes "we_pool E = Inr db" "we_vrpc E tpl (whole_secs ts) dur = Inr q" "mqr_wf q"
  shows "get_movements_through_tiploc X E tpl ts dur = Inl WDetailsFetchFailed \<longleftrightarrow>
    (\<exists>m\<in>set (vq_mvts q). case dm_src m of
       DTrain t \<Rightarrow> \<exists>x e. map_of (vq_trains q) t = Some x \<and> we_zrpc E (tr_tspl_id x) = Inl e
     | DSchedule i \<Rightarrow> \<exists>x e. map_of (vq_schedules q) i = Some x \<and> we_frpc E (sch_tspl_id x) = Inl e)"
proof -
  have "source_orig_dest E names q (dm_src m) = None \<longleftrightarrow> (case dm_src m of
       DTrain t \<Rightarrow> \<exists>x e. map_of (vq_trains q) t = Some x \<and> we_zrpc E (tr_tspl_id x) = Inl e
     | DSchedule i \<Rightarrow> \<exists>x e. map_of (vq_schedules q) i = Some x \<and> we_frpc E (sch_tspl_id x) = Inl e)"
    if "m \<in> set (vq_mvts q)" for m names
    using assms(3) that
    by (fastforce simp: mqr_wf_def source_known_def source_orig_dest_def split: dedup_src.splits sum.splits)
  then show ?thesis by (simp add: search_answer [OF assms])
qed

text \<open>The fields of the form with a name, in order.\<close>

definition form_values :: "string \<Rightarrow> (string \<times> string) list \<Rightarrow> string list" where
  "form_values k fs = map snd (filter (\<lambda>f. fst f = k) fs)"

definition field_valid :: "text_chrono \<Rightarrow> string \<times> string \<Rightarrow> bool" where
  "field_valid X f \<longleftrightarrow>
     (fst f = ''ts-tiploc'' \<longrightarrow> str_trim (snd f) \<noteq> []) \<and>
     (fst f = ''ts-date'' \<longrightarrow> (\<exists>d. tx_parse_date X (snd f) ''%Y-%m-%d'' = Inr d)) \<and>
     (fst f = ''ts-time'' \<longrightarrow> (\<exists>t. tx_parse_time X (snd f) ''%H:%M'' = Inr t))"

definition last_or :: "'a option \<Rightarrow> 'a list \<Rightarrow> 'a option" where
  "last_or d xs = (if xs = [] then d else Some (last xs))"

lemma last_or_Cons: "last_or d (x # xs) = last_or (Some x) xs"
  by (simp add: last_or_def)

lemma form_fold:
  "res_fold (form_field X) fs (tpl, date, time) = Inr r \<longleftrightarrow> (\<forall>f\<in>set fs. field_valid X f) \<and>
     r = (last_or tpl (form_values ''ts-tiploc'' fs),
          last_or date (map (\<lambda>v. projr (tx_parse_date X v ''%Y-%m-%d'')) (form_values ''ts-date'' fs)),
          last_or time (map (\<lambda>v. projr (tx_parse_time X v ''%H:%M'')) (form_values ''ts-time'' fs)))"
proof (induction fs arbitrary: tpl date time)
  case Nil
  then show ?case by (auto simp: form_values_def last_or_def)
next
  case (Cons f fs)
  obtain k v where f: "f = (k, v)" by (cases f)
  show ?case
    by (auto simp: f Cons.IH field_valid_def form_values_def last_or_Cons split: sum.splits)
qed

lemma form_fold_Inl: "res_fold (form_field X) fs st = Inl e \<Longrightarrow> \<exists>reason. e = WInvalidInput reason"
proof (induction fs arbitrary: st)
  case (Cons f fs)
  obtain k v tpl date time where "f = (k, v)" "st = (tpl, date, time)" by (cases f, cases st) auto
  with Cons show ?case by (auto split: if_splits sum.splits)
qed simp

lemma last_or_None [simp]: "last_or None xs = (if xs = [] then None else Some (last xs))"
  by (simp add: last_or_def)

definition form_valid :: "text_chrono \<Rightarrow> (string \<times> string) list \<Rightarrow> bool" where
  "form_valid X fs \<longleftrightarrow> (\<forall>f\<in>set fs. field_valid X f) \<and>
     form_values ''ts-tiploc'' fs \<noteq> [] \<and> form_values ''ts-date'' fs \<noteq> [] \<and> form_values ''ts-time'' fs \<noteq> []"

lemma post_movements_accepts:
  "post_movements X (Inr fs) = Inr r \<longleftrightarrow> form_valid X fs \<and>
     r = \<lparr>wr_status = 303, wr_content = Redirect303
       (''/movements/'' @ last (form_values ''ts-tiploc'' fs) @ ''/'' @
        tx_show_date X (projr (tx_parse_date X (last (form_values ''ts-date'' fs)) ''%Y-%m-%d'')) @ ''/'' @
        tx_show_time X (projr (tx_parse_time X (last (form_values ''ts-time'' fs)) ''%H:%M'')))\<rparr>"
  by (auto simp: post_movements_def form_valid_def res_bind_Inr res_map_Inr form_fold last_map)

lemma post_movements_rejects:
  "post_movements X input = Inl e \<Longrightarrow> \<exists>reason. e = WInvalidInput reason"
  using form_fold_Inl [of X _ "(None, None, None)"]
  by (cases input) (auto simp: post_movements_def res_bind_def res_map_def ok_or_def split: sum.splits option.splits)

text \<open>
  A search form is answered with a redirect exactly if it has a location, a date and a time and every field so
  named can be used: no location is blank, every date and time can be read. It then redirects to the movements of
  the last of each; all else is answered as invalid input.
\<close>

theorem post_movements_spec:
  "case post_movements X input of
     Inl e \<Rightarrow> (\<exists>reason. e = WInvalidInput reason) \<and> (\<forall>fs. input = Inr fs \<longrightarrow> \<not> form_valid X fs)
   | Inr r \<Rightarrow> \<exists>fs. input = Inr fs \<and> form_valid X fs \<and>
       r = \<lparr>wr_status = 303, wr_content = Redirect303
         (''/movements/'' @ last (form_values ''ts-tiploc'' fs) @ ''/'' @
          tx_show_date X (projr (tx_parse_date X (last (form_values ''ts-date'' fs)) ''%Y-%m-%d'')) @ ''/'' @
          tx_show_time X (projr (tx_parse_time X (last (form_values ''ts-time'' fs)) ''%H:%M'')))\<rparr>"
proof (cases "post_movements X input")
  case (Inl e)
  have "\<not> form_valid X fs" if input: "input = Inr fs" for fs
  proof
    assume "form_valid X fs"
    then have "\<exists>r. post_movements X (Inr fs) = Inr r" by (simp add: post_movements_accepts)
    with Inl input show False by auto
  qed
  with Inl post_movements_rejects [OF Inl] show ?thesis by auto
next
  case (Inr r)
  then obtain fs where "input = Inr fs" by (cases input) (auto simp: post_movements_def)
  moreover from Inr this have "post_movements X (Inr fs) = Inr r" by simp
  note this [unfolded post_movements_accepts]
  ultimately show ?thesis unfolding Inr sum.case by (intro exI [of _ fs] conjI) auto
qed

text \<open>
  An error never reaches the user as a success: the response has the error's own status code, or 500 when even
  the page for the error cannot be rendered, in which case it is plain text.
\<close>

theorem web_error_response:
  assumes "web_on_request A now req = Inl e"
  shows "\<not> is_success (wr_status (handle_request A now req))"
    and "wr_status (handle_request A now req) =
      (if \<exists>r. as_rendered A req e = Inr r then web_status_code e else 500)"
proof -
  have "wr_status r = web_status_code e" if "as_rendered A req e = Inr r" for r
    using that by (auto simp: as_rendered_def res_map_Inr)
  with assms show st: "wr_status (handle_request A now req) =
      (if \<exists>r. as_rendered A req e = Inr r then web_status_code e else 500)"
    by (simp add: handle_request_def split: sum.split)
  show "\<not> is_success (wr_status (handle_request A now req))"
    unfolding st using web_status.no_success [of e] by (simp add: is_success_def)
qed

section \<open>Concrete pages\<close>

definition sample_text :: text_chrono where
  "sample_text =
     \<lparr>tx_date = \<lambda>_ _. ''2020-01-20'', tx_time = \<lambda>_ _. ''10:00'',
      tx_parse_date = \<lambda>v _. if v = ''2020-01-20'' then Inr (NaiveDate 737430) else Inl ''input contains invalid characters'',
      tx_parse_time = \<lambda>v _. if v = ''10:00'' then Inr (NaiveTime 36000 0) else Inl ''input contains invalid characters'',
      tx_show_date = \<lambda>_. ''2020-01-20'', tx_show_time = \<lambda>_. ''10:00:00''\<rparr>"

lemma post_movements_spec_witness:
  "post_movements sample_text (Inr [(''ts-date'', ''2020-01-20''), (''ts-tiploc'', ''EUSTON''), (''ts-time'', ''10:00'')]) =
     Inr \<lparr>wr_status = 303, wr_content = Redirect303 ''/movements/EUSTON/2020-01-20/10:00:00''\<rparr>"
proof -
  let ?fs = "[(''ts-date'', ''2020-01-20''), (''ts-tiploc'', ''EUSTON''), (''ts-time'', ''10:00'')]"
  have valid: "form_valid sample_text ?fs"
    by (simp add: form_valid_def sample_text_def form_values_def field_valid_def str_trim_def is_space_def)
  then obtain r where r: "post_movements sample_text (Inr ?fs) = Inr r"
    using post_movements_spec [where X = sample_text and input = "Inr ?fs"] by (cases "post_movements sample_text (Inr ?fs)") auto
  with post_movements_spec [where X = sample_text and input = "Inr ?fs"] show ?thesis
    by (simp add: form_values_def) (simp add: sample_text_def)
qed

lemma image_listed: "mset ds = image_mset f (mset ms) \<Longrightarrow> m \<in> set ms \<Longrightarrow> f m \<in> set ds"
  by (drule arg_cong [where f = set_mset]) simp

lemma web_movements_served_witness:
  "\<exists>ds d. get_movements_through_tiploc sample_text
      (front_env chrono_civil (sample_db [''O'', ''P''], sample_state) sample_names_db) ''EUSTON'' sample_now 3600 = Inr ds \<and>
     d \<in> set ds \<and> md_tiploc d = ''EUSTON'' \<and> md_parent_train d = Some (Uuid 1)"
proof -
  let ?E = "front_env chrono_civil (sample_db [''O'', ''P''], sample_state) sample_names_db"
  obtain q d0 where q: "ver_get_mvts_passing_through (services chrono_civil (sample_db [''O'', ''P'']) sample_state) ''EUSTON'' sample_now 3600 = Inr q"
    and d0: "d0 \<in> set (vq_mvts q)" "dm_src d0 = DTrain 1" "dm_tiploc d0 = ''EUSTON''" "map_of (vq_trains q) 1 = Some sample_train"
    by (rule sample_dedup)
  note served = web_movements_served [OF sample_reach sample_wf, where X = sample_text and C = chrono_civil and
      db = sample_names_db and tpl = "''EUSTON''" and ts = sample_now and dur = 3600]
  have no: "get_mvts_passing_through chrono_civil (sample_db [''O'', ''P'']) ''EUSTON'' (whole_secs sample_now) (uint (3600 :: u32)) \<noteq> Inl x" for x
    using sample_fahrplan [of "sample_db [''O'', ''P'']" "''EUSTON''"] by auto
  obtain ds where ds: "get_movements_through_tiploc sample_text ?E ''EUSTON'' sample_now 3600 = Inr ds"
    using served no by (cases "get_movements_through_tiploc sample_text ?E ''EUSTON'' sample_now 3600") auto
  let ?d = "shown_as sample_text q (the (source_orig_dest ?E (nn_names sample_names_db) q (dm_src d0))) d0"
  have "mset ds = image_mset
      (\<lambda>m. shown_as sample_text q (the (source_orig_dest ?E (nn_names sample_names_db) q (dm_src m))) m) (mset (vq_mvts q))"
    using served by (simp add: ds q)
  from image_listed [OF this d0(1)] have "?d \<in> set ds" .
  moreover have "md_tiploc ?d = ''EUSTON''" "md_parent_train ?d = Some (Uuid 1)"
    using d0 by (simp_all add: shown_as_def movement_desc_of_def sample_train_def)
  ultimately show ?thesis using ds by blast
qed

text \<open>When \<open>tspl-zugfuhrer\<close> cannot be reached for the details, there is no page.\<close>

lemma details_fetch_fails_page_witness:
  "\<exists>q. get_movements_through_tiploc sample_text
      \<lparr>we_pool = Inr sample_names_db, we_frpc = \<lambda>_. Inl RemoteNotFound, we_zrpc = \<lambda>_. Inl RemoteServiceUnavailable,
       we_vrpc = \<lambda>_ _ _. Inr q\<rparr> ''EUSTON'' sample_now 3600 = Inl WDetailsFetchFailed"
proof -
  obtain q d where q: "ver_get_mvts_passing_through (services chrono_civil (sample_db [''O'', ''P'']) sample_state) ''EUSTON'' sample_now 3600 = Inr q"
    and d: "d \<in> set (vq_mvts q)" "dm_src d = DTrain 1" "map_of (vq_trains q) 1 = Some sample_train"
    by (rule sample_dedup)
  note wf = dedup_sources(1) [OF sample_reach sample_wf q]
  let ?E = "\<lparr>we_pool = Inr sample_names_db, we_frpc = \<lambda>_. Inl RemoteNotFound,
    we_zrpc = \<lambda>_. Inl RemoteServiceUnavailable, we_vrpc = \<lambda>_ _ _. Inr q\<rparr> :: web_env"
  have E: "we_pool ?E = Inr sample_names_db" "we_vrpc ?E ''EUSTON'' (whole_secs sample_now) 3600 = Inr q" by simp_all
  have "get_movements_through_tiploc sample_text ?E ''EUSTON'' sample_now 3600 = Inl WDetailsFetchFailed"
    unfolding details_fetch_fails_page [OF E wf] by (rule bexI [OF _ d(1)]) (simp add: d(2,3))
  then show ?thesis by blast
qed

lemma web_error_response_witness:
  "wr_status (handle_request
     \<lparr>wa_hbs = \<lambda>_ _. Inl ''no template'', wa_env = front_env chrono_civil (sample_db [], zug_init) sample_names_db,
      wa_text = sample_text, wa_match = \<lambda>ns _. ns\<rparr> sample_now
     \<lparr>wq_url = ''/station_suggestions'', wq_route = RSuggestions None, wq_asset = html ''''\<rparr>) = 500"
proof -
  let ?A = "\<lparr>wa_hbs = \<lambda>_ _. Inl ''no template'', wa_env = front_env chrono_civil (sample_db [], zug_init) sample_names_db,
    wa_text = sample_text, wa_match = \<lambda>ns _. ns\<rparr>"
  let ?req = "\<lparr>wq_url = ''/station_suggestions'', wq_route = RSuggestions None, wq_asset = html ''''\<rparr>"
  have "web_on_request ?A sample_now ?req = Inl WQueryParameterMissing" by simp
  from web_error_response(2) [OF this] show ?thesis by (simp add: as_rendered_def render_def)
qed

section \<open>The destination of a delayed train\<close>

text \<open>
  The details of a train hold the updates of its movements too, ordered by time: when the departure from Euston
  is late enough, its update comes after the arrival at the end of the journey, and Euston is shown as the destination.
\<close>

definition late_update :: train_mvt where
  "late_update =
     \<lparr>tm_id = 4, tm_parent_train = 1, tm_updates = Some 1, tm_tiploc = ''EUSTON'', tm_action = ACTION_DEPARTURE,
      tm_actual = False, tm_time = NaiveTime 37300 0, tm_public_time = None, tm_day_offset = 0,
      tm_source = SOURCE_DARWIN_LIVE, tm_platform = None, tm_pfm_suppr = False, tm_unknown_delay = False\<rparr>"

definition late_darwin :: darwin_mvt_update where
  "late_darwin = calling_darwin\<lparr>du_tiploc := ''EUSTON'', du_planned_time := NaiveTime 36000 0\<rparr>"

definition late_state :: zug_state where
  "late_state = calling_state [late_update] [\<lparr>bp_ts = sample_now, bp_update = BcMovement late_update\<rparr>]"

lemma late_reach: "zug_reach late_state"
proof -
  have "snd (zug_on_request '''' chrono_civil sample_api (Uuid 1) sample_now
      (ZDarwinUpdate (Uuid 1) late_darwin) (calling_state [] [])) = late_state"
    by (simp add: process_darwin_mvt_update_def darwin_matches_def late_darwin_def calling_darwin_def calling_state_def
        late_state_def calling_mvt_def late_update_def ACTION_ARRIVAL_def ACTION_DEPARTURE_def sample_state_defs)
  with calling_activated show ?thesis by (metis zug_reach.step zug_step.request)
qed

lemma delayed_destination:
  assumes "map_of (vq_trains q) 1 = Some sample_train"
  shows "zug_reach late_state \<and>
    source_orig_dest (front_env chrono_civil (fdb, late_state) db) [] q (DTrain 1) =
      Some \<lparr>mo_orig = ''EUSTON'', mo_dest = ''EUSTON''\<rparr> \<and>
    source_orig_dest (front_env chrono_civil (fdb, calling_state [] []) db) [] q (DTrain 1) =
      Some \<lparr>mo_orig = ''EUSTON'', mo_dest = ''WATFDJ''\<rparr>"
proof -
  have t: "tr_tspl_id sample_train = Uuid 1" "tr_id sample_train = 1" by (simp_all add: sample_train_def)
  have late: "map tm_tiploc (sort_key tmvt_key (filter (\<lambda>m. tm_parent_train m = 1) (zdb_mvts (zs_db late_state)))) =
      [''EUSTON'', ''WATFDJ'', ''WATFDJ'', ''EUSTON'']"
    by (simp add: late_state_def calling_state_def calling_mvt_def sample_mvt_def from_itps_def late_update_def
        tmvt_key_def chrono_orders ACTION_ARRIVAL_def ACTION_DEPARTURE_def)
  have "map tm_tiploc (sort_key tmvt_key (filter (\<lambda>m. tm_parent_train m = 1) (zdb_mvts (zs_db (calling_state [] []))))) =
      [''EUSTON'', ''WATFDJ'', ''WATFDJ'']"
    by (simp add: calling_state_def calling_mvt_def sample_mvt_def from_itps_def
        tmvt_key_def chrono_orders ACTION_ARRIVAL_def ACTION_DEPARTURE_def)
  moreover have "find_train (zs_db late_state) (Uuid 1) = Inr sample_train"
    "find_train (zs_db (calling_state [] [])) (Uuid 1) = Inr sample_train"
    by (simp_all add: find_train_def late_state_def calling_state_def t)
  ultimately show ?thesis
    using late_reach late
    by (simp add: source_orig_dest_def assms front_env_def front_train_def t get_train_details_def zug_status.call_Inr
        orig_dest_of_def opt_nowhere_def nice_orig_dest_def tiploc_nice_name_def)
qed

end
