(* ===== verification/Ntrod_Vstp.thy ===== *)
theory Ntrod_Vstp
  imports Ntrod_Schedule
begin

text \<open>
  \<open>ntrod-types/src/vstp.rs\<close>: the messages of the feed of schedules that are planned at very short notice, field by field.
\<close>

record vstp_location_tiploc =
  vlt_tiploc_id :: string

record vstp_location =
  vl_tiploc :: vstp_location_tiploc

record vstp_pass =
  vp_scheduled_pass_time :: naive_time
  vp_platform :: "string option"
  vp_line :: "string option"
  vp_path :: "string option"
  vp_activity :: "string option"
  vp_engineering_allowance :: "string option"
  vp_pathing_allowance :: "string option"
  vp_performance_allowance :: "string option"
  vp_location :: vstp_location

record vstp_intermediate =
  vi_scheduled_departure_time :: naive_time
  vi_public_departure_time :: "naive_time option"
  vi_scheduled_arrival_time :: naive_time
  vi_public_arrival_time :: "naive_time option"
  vi_platform :: "string option"
  vi_line :: "string option"
  vi_path :: "string option"
  vi_activity :: "string option"
  vi_engineering_allowance :: "string option"
  vi_pathing_allowance :: "string option"
  vi_performance_allowance :: "string option"
  vi_location :: vstp_location

record vstp_originating =
  vo_scheduled_departure_time :: naive_time
  vo_public_departure_time :: "naive_time option"
  vo_platform :: "string option"
  vo_line :: "string option"
  vo_path :: "string option"
  vo_activity :: "string option"
  vo_engineering_allowance :: "string option"
  vo_pathing_allowance :: "string option"
  vo_performance_allowance :: "string option"
  vo_location :: vstp_location

record vstp_terminating =
  vt_scheduled_arrival_time :: naive_time
  vt_public_arrival_time :: "naive_time option"
  vt_platform :: "string option"
  vt_line :: "string option"
  vt_path :: "string option"
  vt_activity :: "string option"
  vt_engineering_allowance :: "string option"
  vt_pathing_allowance :: "string option"
  vt_performance_allowance :: "string option"
  vt_location :: vstp_location

datatype vstp_location_record =
  VstpPass vstp_pass
| VstpIntermediate vstp_intermediate
| VstpOriginating vstp_originating
| VstpTerminating vstp_terminating

record vstp_schedule_segment =
  vs_train_category :: train_category
  vs_signalling_id :: "string option"
  vs_headcode :: "string option"
  vs_business_sector :: "string option"
  vs_power_type :: power_type
  vs_timing_load :: "string option"
  vs_speed :: "string option"
  vs_operating_characteristics :: "string option"
  vs_train_class :: "string option"
  vs_sleepers :: "string option"
  vs_reservations :: "string option"
  vs_catering_code :: "string option"
  vs_service_branding :: "string option"
  vs_schedule_location :: "vstp_location_record list"

datatype vstp_schedule_record =
  VstpCreate
    (vc_train_uid: string)
    (vc_transaction_type: create_type)
    (vc_schedule_start_date: naive_date)
    (vc_schedule_end_date: naive_date)
    (vc_schedule_days_runs: ntrod_days)
    (vc_bank_holiday_running: "string option")
    (vc_train_status: train_status)
    (vc_stp_indicator: stp_indicator)
    (vc_applicable_timetable: yes_or_no)
    (vc_schedule_segment: "vstp_schedule_segment list")
| VstpDelete
    (vd_train_uid: string)
    (vd_transaction_type: delete_type)
    (vd_schedule_start_date: naive_date)
    (vd_schedule_end_date: naive_date)
    (vd_schedule_days_runs: ntrod_days)
    (vd_bank_holiday_running: "string option")
    (vd_train_status: train_status)
    (vd_stp_indicator: stp_indicator)

record vstp_message =
  vm_timestamp :: string
  vm_owner :: string
  vm_classification :: string
  vm_origin_msg_id :: string
  vm_schedule :: vstp_schedule_record

datatype vstp_record = VstpV1 vstp_message

end
