(* ===== verification/Osms_Graph.thy ===== *)
theory Osms_Graph
  imports Chrono
begin

text \<open>
  \<open>osms-db\<close>: the railway as a graph, from OpenStreetMap. \<open>osm/types.rs\<close> are its tables, \<open>osm/org.rs\<close> numbers the
  connected parts of the graph, \<open>errors.rs\<close> are the errors of the crate. Navigation is in theory \<open>Osms_Navigate\<close>.

  The database is PostgreSQL with PostGIS. Geometries are of a type \<open>'g\<close> with the operations the code calls in the
  record \<open>geo_ops\<close>; distances are of a type \<open>'d\<close>, whose order has no infinite descent, as that of the finitely many values
  of \<open>f32\<close>. A \<open>SERIAL\<close> column counts up. A \<open>HashSet\<close> is the list of its elements in the order of insertion; no property
  depends on that order.
\<close>

section \<open>\<open>errors.rs\<close>\<close>

text \<open>\<open>OPg\<close> carries the constraint that failed; \<open>OPanic\<close> stands for an \<open>unwrap\<close> or \<open>assert!\<close> that fails.\<close>

datatype osms_error =
  OIo
| OPg string
| OSerde
| ODatabaseInconsistency string
| ODoubleTrainActivation int naive_date
| OStationNotFound int
| OCrossingNotFound int
| OIntersectingStation "int list"
| OInvalidScheduleFile
| OScheduleFileExists
| ODatabaseTooNew
| OMigrationOutOfOrder int
| OMigrationNotApplied int
| ONavProblem string
| OScheduleFileImportInvalid string
| OIncorrectGraphPart int int
| ONoAuthoritativeSchedules
| OExtraterrestrialActivity
| OMessage string
| OPanic

section \<open>\<open>osm/types.rs\<close>\<close>

record ('g, 'd) geo_ops =
  ge_add :: "'d \<Rightarrow> 'd \<Rightarrow> 'd"
  ge_zero :: 'd
  ge_intersects :: "'g \<Rightarrow> 'g \<Rightarrow> bool"
  ge_end_point :: "'g \<Rightarrow> 'g"
  ge_reverse :: "'g \<Rightarrow> 'g"
  ge_make_line :: "'g list \<Rightarrow> 'g"
  ge_centroid :: "'g \<Rightarrow> 'g option"
  ge_line :: "'g \<Rightarrow> 'g \<Rightarrow> 'g"
  ge_length :: "'g \<Rightarrow> 'd"

record 'g osm_node =
  nd_id :: int
  nd_location :: 'g
  nd_graph_part :: int
  nd_parent_crossing :: "int option"
  nd_orig_osm_id :: "int option"
  nd_osm_was_crossing :: bool

record 'g railway_location =
  rl_id :: int
  rl_name :: string
  rl_point :: int
  rl_area :: 'g
  rl_stanox :: "string option"
  rl_tiploc :: "string list"
  rl_crs :: "string list"
  rl_defect :: "int option"

record ('g, 'd) osm_link =
  ol_p1 :: int
  ol_p2 :: int
  ol_way :: 'g
  ol_distance :: 'd

record 'g station_path =
  spt_id :: int
  spt_s1 :: int
  spt_s2 :: int
  spt_way :: 'g
  spt_nodes :: "int list"

record 'g crossing =
  cr_id :: int
  cr_name :: "string option"
  cr_area :: 'g

text \<open>The tables, and the next values of the sequences behind their \<open>SERIAL\<close> columns.\<close>

record ('g, 'd) osm_db =
  og_nodes :: "'g osm_node list"
  og_links :: "('g, 'd) osm_link list"
  og_locations :: "'g railway_location list"
  og_paths :: "'g station_path list"
  og_crossings :: "'g crossing list"
  og_node_seq :: int
  og_location_seq :: int
  og_path_seq :: int
  og_crossing_seq :: int

definition insert_osm_node :: "'g osm_node \<Rightarrow> ('g, 'd) osm_db \<Rightarrow> osms_error + int \<times> ('g, 'd) osm_db" where
  "insert_osm_node n db =
     (if nd_parent_crossing n \<notin> insert None (Some ` cr_id ` set (og_crossings db))
      then Inl (OPg ''nodes_parent_crossing_fkey'')
      else Inr (og_node_seq db,
        db\<lparr>og_nodes := og_nodes db @ [n\<lparr>nd_id := og_node_seq db\<rparr>], og_node_seq := og_node_seq db + 1\<rparr>))"

text \<open>\<open>Node::insert\<close>: a node that is on no crossing and in no part yet.\<close>

definition node_insert :: "'g \<Rightarrow> ('g, 'd) osm_db \<Rightarrow> osms_error + int \<times> ('g, 'd) osm_db" where
  "node_insert location =
     insert_osm_node \<lparr>nd_id = -1, nd_location = location, nd_graph_part = 0, nd_parent_crossing = None,
       nd_orig_osm_id = None, nd_osm_was_crossing = False\<rparr>"

definition insert_location ::
    "'g railway_location \<Rightarrow> ('g, 'd) osm_db \<Rightarrow> osms_error + int \<times> ('g, 'd) osm_db" where
  "insert_location l db =
     (if rl_point l \<notin> nd_id ` set (og_nodes db) then Inl (OPg ''railway_locations_point_fkey'')
      else if rl_stanox l \<noteq> None \<and> rl_stanox l \<in> rl_stanox ` set (og_locations db)
      then Inl (OPg ''railway_locations_stanox_key'')
      else Inr (og_location_seq db,
        db\<lparr>og_locations := og_locations db @ [l\<lparr>rl_id := og_location_seq db\<rparr>],
           og_location_seq := og_location_seq db + 1\<rparr>))"

text \<open>\<open>Link::insert\<close>: \<open>ON CONFLICT DO NOTHING\<close> keeps the link that is there.\<close>

definition link_insert :: "('g, 'd) osm_link \<Rightarrow> ('g, 'd) osm_db \<Rightarrow> osms_error + ('g, 'd) osm_db" where
  "link_insert l db =
     (if \<exists>k\<in>set (og_links db). ol_p1 k = ol_p1 l \<and> ol_p2 k = ol_p2 l then Inr db
      else if ol_p1 l \<notin> nd_id ` set (og_nodes db) then Inl (OPg ''links_p1_fkey'')
      else if ol_p2 l \<notin> nd_id ` set (og_nodes db) then Inl (OPg ''links_p2_fkey'')
      else Inr (db\<lparr>og_links := og_links db @ [l]\<rparr>))"

text \<open>\<open>ON CONFLICT(s1, s2) DO UPDATE\<close> changes the path that is there and returns its id.\<close>

definition insert_station_path ::
    "'g station_path \<Rightarrow> ('g, 'd) osm_db \<Rightarrow> osms_error + int \<times> ('g, 'd) osm_db" where
  "insert_station_path p db =
     (case List.find (\<lambda>q. spt_s1 q = spt_s1 p \<and> spt_s2 q = spt_s2 p) (og_paths db) of
        Some q \<Rightarrow>
          Inr (spt_id q, db\<lparr>og_paths := map (\<lambda>q. if spt_s1 q = spt_s1 p \<and> spt_s2 q = spt_s2 p
                                        then q\<lparr>spt_way := spt_way p, spt_nodes := spt_nodes p\<rparr> else q) (og_paths db)\<rparr>)
      | None \<Rightarrow>
          if spt_s1 p \<notin> rl_id ` set (og_locations db) then Inl (OPg ''station_paths_s1_fkey'')
          else if spt_s2 p \<notin> rl_id ` set (og_locations db) then Inl (OPg ''station_paths_s2_fkey'')
          else Inr (og_path_seq db,
            db\<lparr>og_paths := og_paths db @ [p\<lparr>spt_id := og_path_seq db\<rparr>], og_path_seq := og_path_seq db + 1\<rparr>))"

definition crossing_insert ::
    "string option \<Rightarrow> 'g \<Rightarrow> ('g, 'd) osm_db \<Rightarrow> osms_error + int \<times> ('g, 'd) osm_db" where
  "crossing_insert name area db =
     Inr (og_crossing_seq db,
       db\<lparr>og_crossings := og_crossings db @ [\<lparr>cr_id = og_crossing_seq db, cr_name = name, cr_area = area\<rparr>],
          og_crossing_seq := og_crossing_seq db + 1\<rparr>)"

section \<open>\<open>osm/org.rs\<close>: the parts of the graph\<close>

text \<open>\<open>SELECT * FROM links WHERE p1 = $1 OR p2 = $1\<close>\<close>

definition links_at :: "int \<Rightarrow> ('g, 'd) osm_link list \<Rightarrow> ('g, 'd) osm_link list" where
  "links_at n links = filter (\<lambda>l. ol_p1 l = n \<or> ol_p2 l = n) links"

definition other_end :: "('g, 'd) osm_link \<Rightarrow> int \<Rightarrow> int" where
  "other_end l n = (if ol_p1 l = n then ol_p2 l else ol_p1 l)"

text \<open>One link, one root, one round of the search; the state is \<open>part_of_this\<close> and the new \<open>current_roots\<close>.\<close>

definition visit_link :: "int \<Rightarrow> ('g, 'd) osm_link \<Rightarrow> int list \<times> int list \<Rightarrow> int list \<times> int list" where
  "visit_link root l st =
     (case st of (part, roots) \<Rightarrow>
        let e = other_end l root in
        if e \<noteq> root \<and> e \<notin> set part then (part @ [e], roots @ [e]) else (part, roots))"

definition visit_root :: "('g, 'd) osm_link list \<Rightarrow> int \<Rightarrow> int list \<times> int list \<Rightarrow> int list \<times> int list" where
  "visit_root links root = fold (visit_link root) (links_at root links)"

definition visit_roots :: "('g, 'd) osm_link list \<Rightarrow> int list \<Rightarrow> int list \<Rightarrow> int list \<times> int list" where
  "visit_roots links roots part = fold (visit_root links) roots (part, [])"

subsection \<open>Neighbours\<close>

definition adjacent :: "('g, 'd) osm_link list \<Rightarrow> (int \<times> int) set" where
  "adjacent links = {(a, b). \<exists>l\<in>set links. {ol_p1 l, ol_p2 l} = {a, b}}"

abbreviation connected :: "('g, 'd) osm_link list \<Rightarrow> (int \<times> int) set" where
  "connected links \<equiv> (adjacent links)\<^sup>*"

lemma adjacent_sym: "sym (adjacent links)"
  by (auto simp: adjacent_def sym_def insert_commute)

lemma connected_sym: "(a, b) \<in> connected links \<Longrightarrow> (b, a) \<in> connected links"
  using sym_rtrancl [OF adjacent_sym] by (auto simp: sym_def)

lemma connected_left: "(a, b) \<in> connected links \<Longrightarrow> (a, c) \<in> connected links \<longleftrightarrow> (b, c) \<in> connected links"
  by (meson connected_sym rtrancl_trans)

lemma connected_right: "(a, b) \<in> connected links \<Longrightarrow> (c, a) \<in> connected links \<longleftrightarrow> (c, b) \<in> connected links"
  by (meson connected_sym rtrancl_trans)

lemma connected_both: "(c, a) \<in> connected links \<Longrightarrow> (c, b) \<in> connected links \<Longrightarrow> (a, b) \<in> connected links"
  by (meson connected_sym rtrancl_trans)

lemma adjacent_links_at: "(n, b) \<in> adjacent links \<longleftrightarrow> (\<exists>l\<in>set (links_at n links). other_end l n = b)"
  by (auto simp: adjacent_def links_at_def other_end_def doubleton_eq_iff)

definition endpoints :: "('g, 'd) osm_link list \<Rightarrow> int set" where
  "endpoints links = ol_p1 ` set links \<union> ol_p2 ` set links"

lemma finite_endpoints [simp]: "finite (endpoints links)"
  by (simp add: endpoints_def)

lemma adjacent_endpoints: "(a, b) \<in> adjacent links \<Longrightarrow> b \<in> endpoints links"
  by (auto simp: adjacent_def endpoints_def doubleton_eq_iff)

lemma visit_links_spec:
  "fold (visit_link root) ls (part, new) = (part', new') \<Longrightarrow>
   set part' = set part \<union> ((\<lambda>l. other_end l root) ` set ls - {root}) \<and>
   set new' = set new \<union> ((\<lambda>l. other_end l root) ` set ls - {root} - set part)"
proof (induction ls arbitrary: part new)
  case (Cons l ls)
  obtain part1 new1 where step: "visit_link root l (part, new) = (part1, new1)"
    by (cases "visit_link root l (part, new)")
  have "set part1 = set part \<union> ({other_end l root} - {root})"
      "set new1 = set new \<union> ({other_end l root} - {root} - set part)"
    using step by (auto simp: visit_link_def Let_def split: if_splits)
  moreover have "fold (visit_link root) ls (part1, new1) = (part', new')" using Cons.prems step by simp
  ultimately show ?case using Cons.IH [of part1 new1] by auto
qed simp

lemma fold_visit_roots:
  "fold (visit_root links) roots (part, new) = (part', new') \<Longrightarrow>
   set part' = set part \<union> (adjacent links - Id) `` set roots \<and>
   set new' = set new \<union> ((adjacent links - Id) `` set roots - set part)"
proof (induction roots arbitrary: part new)
  case (Cons r rs)
  obtain part1 new1 where step: "visit_root links r (part, new) = (part1, new1)"
    by (cases "visit_root links r (part, new)")
  have "(adjacent links - Id) `` {r} = (\<lambda>l. other_end l r) ` set (links_at r links) - {r}"
    by (auto simp: adjacent_links_at)
  then have "set part1 = set part \<union> (adjacent links - Id) `` {r}"
      "set new1 = set new \<union> ((adjacent links - Id) `` {r} - set part)"
    using visit_links_spec [of r "links_at r links" part new part1 new1] step by (simp_all add: visit_root_def)
  moreover have "fold (visit_root links) rs (part1, new1) = (part', new')" using Cons.prems step by simp
  moreover have "(adjacent links - Id) `` set (r # rs) = (adjacent links - Id) `` {r} \<union> (adjacent links - Id) `` set rs"
    by auto
  ultimately show ?case using Cons.IH [of part1 new1] by auto
qed simp

lemmas visit_roots_spec = fold_visit_roots [where new = "[]", folded visit_roots_def, simplified]

subsection \<open>A part\<close>

text \<open>The inner \<open>loop\<close>: rounds of the search until one finds nothing new.\<close>

function grow :: "('g, 'd) osm_link list \<Rightarrow> int list \<Rightarrow> int list \<Rightarrow> int list" where
  "grow links part roots =
     (if roots = [] then part
      else (case visit_roots links roots part of (part1, roots1) \<Rightarrow> grow links part1 roots1))"
  by pat_completeness auto

termination
proof (relation "measures [\<lambda>(links, part, roots). card (endpoints links - set part), \<lambda>(links, part, roots). length roots]",
    goal_cases)
  case (2 links part roots part1 roots1)
  then have sets: "set part1 = set part \<union> (adjacent links - Id) `` set roots"
      "set roots1 = (adjacent links - Id) `` set roots - set part"
    using visit_roots_spec [of links roots part part1 roots1] by auto
  have fewer: "card (endpoints links - set part1) < card (endpoints links - set part)" if "r \<in> set roots1" for r
  proof (intro psubset_card_mono psubsetI)
    have "r \<in> endpoints links - set part" using that sets adjacent_endpoints by blast
    moreover have "r \<notin> endpoints links - set part1" using that sets by blast
    ultimately show "endpoints links - set part1 \<noteq> endpoints links - set part" by blast
  qed (use sets in auto)
  show ?case
  proof (cases roots1)
    case Nil
    with sets have "set part1 = set part" by auto
    with Nil 2(1) show ?thesis by simp
  next
    case (Cons r rs)
    with fewer [of r] show ?thesis by simp
  qed
qed simp

declare grow.simps [simp del]

lemma grow_spec:
  assumes "set roots \<subseteq> set part" "\<And>x. x \<in> set part - set roots \<Longrightarrow> adjacent links `` {x} \<subseteq> set part"
    and "set part \<subseteq> connected links `` {n}" "n \<in> set part"
  shows "set (grow links part roots) = connected links `` {n}"
  using assms
proof (induction links part roots rule: grow.induct)
  case (1 links part roots)
  note closed = "1.prems"(2)
  show ?case
  proof (cases "roots = []")
    case True
    have "connected links `` {n} \<subseteq> set part"
    proof
      fix x
      assume "x \<in> connected links `` {n}"
      then have "(n, x) \<in> connected links" by simp
      then show "x \<in> set part"
      proof (induction rule: rtrancl_induct)
        case base
        show ?case by (rule "1.prems"(4))
      next
        case (step y z)
        then show ?case using closed [of y] True by auto
      qed
    qed
    with "1.prems"(3) True show ?thesis by (simp add: grow.simps)
  next
    case False
    obtain part1 roots1 where step: "visit_roots links roots part = (part1, roots1)"
      by (cases "visit_roots links roots part")
    have sets: "set part1 = set part \<union> adjacent links `` set roots" "set roots1 = adjacent links `` set roots - set part"
      using visit_roots_spec [OF step] "1.prems"(1) by blast+
    have "set (grow links part1 roots1) = connected links `` {n}"
    proof (rule "1.IH" [OF False step [symmetric]])
      show "adjacent links `` {x} \<subseteq> set part1" if "x \<in> set part1 - set roots1" for x
        using closed [of x] that sets by blast
      show "set part1 \<subseteq> connected links `` {n}"
      proof -
        have "adjacent links `` set roots \<subseteq> connected links `` {n}"
          using "1.prems"(1,3) by (auto intro: rtrancl_into_rtrancl)
        with "1.prems"(3) sets(1) show ?thesis by simp
      qed
    qed (use sets "1.prems"(4) in auto)
    with False step show ?thesis by (simp add: grow.simps [of links part roots])
  qed
qed

corollary grow_part: "set (grow links [n] [n]) = connected links `` {n}"
  by (rule grow_spec) auto

subsection \<open>All parts\<close>

text \<open>\<open>UPDATE nodes SET graph_part = $1 WHERE id = ANY($2)\<close>\<close>

definition set_graph_part :: "int \<Rightarrow> int list \<Rightarrow> ('g, 'd) osm_db \<Rightarrow> ('g, 'd) osm_db" where
  "set_graph_part c ids db =
     db\<lparr>og_nodes := map (\<lambda>n. if nd_id n \<in> set ids then n\<lparr>nd_graph_part := c\<rparr> else n) (og_nodes db)\<rparr>"

text \<open>The outer loop, from \<open>cur_graph_part\<close> on: \<open>LIMIT 1\<close> takes one node that is in no part.\<close>

partial_function (option) separate_loop :: "int \<Rightarrow> ('g, 'd) osm_db \<Rightarrow> ('g, 'd) osm_db option" where
  "separate_loop cur_graph_part db =
     (case filter (\<lambda>n. nd_graph_part n = 0) (og_nodes db) of
        [] \<Rightarrow> Some db
      | node # _ \<Rightarrow>
          separate_loop (cur_graph_part + 1)
            (set_graph_part cur_graph_part (grow (og_links db) [nd_id node] [nd_id node]) db))"

definition separate_nodes :: "('g, 'd) osm_db \<Rightarrow> ('g, 'd) osm_db option" where
  "separate_nodes db = separate_loop 1 db"

definition unlabelled :: "('g, 'd) osm_db \<Rightarrow> 'g osm_node list" where
  "unlabelled db = filter (\<lambda>n. nd_graph_part n = 0) (og_nodes db)"

text \<open>The nodes but for their part.\<close>

definition bare_nodes :: "('g, 'd) osm_db \<Rightarrow> 'g osm_node list" where
  "bare_nodes db = map (\<lambda>n. n\<lparr>nd_graph_part := 0\<rparr>) (og_nodes db)"

text \<open>Two labelled nodes have the same label exactly if they are connected, and labels are spread over whole parts.\<close>

definition labels_ok :: "int \<Rightarrow> ('g, 'd) osm_db \<Rightarrow> bool" where
  "labels_ok cur db \<longleftrightarrow>
     (\<forall>n\<in>set (og_nodes db). 0 \<le> nd_graph_part n \<and> nd_graph_part n < cur) \<and>
     (\<forall>n\<in>set (og_nodes db). \<forall>m\<in>set (og_nodes db).
        ((nd_id n, nd_id m) \<in> connected (og_links db) \<longrightarrow> nd_graph_part n = nd_graph_part m) \<and>
        (nd_graph_part n = nd_graph_part m \<and> nd_graph_part n \<noteq> 0 \<longrightarrow> (nd_id n, nd_id m) \<in> connected (og_links db)))"

lemma relabel_pair:
  fixes x y cur :: int
  assumes "c \<Longrightarrow> a \<longleftrightarrow> b" "a \<Longrightarrow> b \<Longrightarrow> c" "c \<longrightarrow> x = y" "x = y \<and> x \<noteq> 0 \<longrightarrow> c" "x < cur" "y < cur"
  shows "(c \<longrightarrow> (if a then cur else x) = (if b then cur else y)) \<and>
    ((if a then cur else x) = (if b then cur else y) \<and> (if a then cur else x) \<noteq> 0 \<longrightarrow> c)"
proof -
  consider (both) a b c | (one) "a \<noteq> b" "\<not> c" | (none) "\<not> a" "\<not> b"
    using assms(1,2) by blast
  then show ?thesis
  proof cases
    case one
    with assms(5,6) show ?thesis by (cases a) simp_all
  next
    case none
    show ?thesis unfolding if_not_P [OF none(1)] if_not_P [OF none(2)] using assms(3,4) by blast
  qed simp
qed

lemma labels_ok_step:
  assumes "labels_ok cur db" "node \<in> set (unlabelled db)" "0 < cur" "set ids = connected (og_links db) `` {nd_id node}"
  shows "labels_ok (cur + 1) (set_graph_part cur ids db)"
    and "length (unlabelled (set_graph_part cur ids db)) < length (unlabelled db)"
proof -
  have same: "nd_id n \<in> set ids \<longleftrightarrow> nd_id m \<in> set ids" if "(nd_id n, nd_id m) \<in> connected (og_links db)" for n m
    unfolding assms(4) Image_singleton_iff by (rule connected_right [OF that])
  have both: "(nd_id n, nd_id m) \<in> connected (og_links db)" if "nd_id n \<in> set ids" "nd_id m \<in> set ids" for n m
    using that unfolding assms(4) Image_singleton_iff by (rule connected_both)
  let ?f = "\<lambda>n. if nd_id n \<in> set ids then n\<lparr>nd_graph_part := cur\<rparr> else n"
  have bound: "0 \<le> nd_graph_part n \<and> nd_graph_part n < cur" if "n \<in> set (og_nodes db)" for n
    using assms(1) that unfolding labels_ok_def by blast
  have old: "((nd_id n, nd_id m) \<in> connected (og_links db) \<longrightarrow> nd_graph_part n = nd_graph_part m) \<and>
      (nd_graph_part n = nd_graph_part m \<and> nd_graph_part n \<noteq> 0 \<longrightarrow> (nd_id n, nd_id m) \<in> connected (og_links db))"
    if "n \<in> set (og_nodes db)" "m \<in> set (og_nodes db)" for n m
    using assms(1) that unfolding labels_ok_def by blast
  have new: "((nd_id n, nd_id m) \<in> connected (og_links db) \<longrightarrow> nd_graph_part (?f n) = nd_graph_part (?f m)) \<and>
      (nd_graph_part (?f n) = nd_graph_part (?f m) \<and> nd_graph_part (?f n) \<noteq> 0 \<longrightarrow>
         (nd_id n, nd_id m) \<in> connected (og_links db))"
    if "n \<in> set (og_nodes db)" "m \<in> set (og_nodes db)" for n m
  proof -
    have part: "nd_graph_part (?f k) = (if nd_id k \<in> set ids then cur else nd_graph_part k)" for k by simp
    show ?thesis
      unfolding part using old [OF that] bound [OF that(1)] bound [OF that(2)]
      by (intro relabel_pair [OF same both]) blast+
  qed
  have ids: "nd_id (?f n) = nd_id n" for n by simp
  have tables: "og_nodes (set_graph_part cur ids db) = map ?f (og_nodes db)"
      "og_links (set_graph_part cur ids db) = og_links db"
    by (simp_all add: set_graph_part_def)
  have "0 \<le> nd_graph_part (?f n) \<and> nd_graph_part (?f n) < cur + 1" if "n \<in> set (og_nodes db)" for n
    using bound [OF that] assms(3) by simp
  then show "labels_ok (cur + 1) (set_graph_part cur ids db)"
    unfolding labels_ok_def tables set_map ball_simps ids using new by blast
  have "filter (\<lambda>n. nd_graph_part n = 0) (map ?f ns) = filter (\<lambda>n. nd_id n \<notin> set ids) (filter (\<lambda>n. nd_graph_part n = 0) ns)" for ns
    using assms(3) by (induction ns) auto
  then have "unlabelled (set_graph_part cur ids db) = filter (\<lambda>n. nd_id n \<notin> set ids) (unlabelled db)"
    by (simp add: unlabelled_def tables)
  moreover have "nd_id node \<in> set ids" using assms(4) by simp
  ultimately show "length (unlabelled (set_graph_part cur ids db)) < length (unlabelled db)"
    using assms(2) by (auto intro: length_filter_less)
qed

lemma set_graph_part_simps [simp]:
  "og_links (set_graph_part c ids db) = og_links db" "bare_nodes (set_graph_part c ids db) = bare_nodes db"
  "og_locations (set_graph_part c ids db) = og_locations db" "og_paths (set_graph_part c ids db) = og_paths db"
  by (auto simp: set_graph_part_def bare_nodes_def)

lemma separate_loop_spec:
  assumes "0 < cur" "labels_ok cur db"
  shows "\<exists>db' cur'. separate_loop cur db = Some db' \<and> labels_ok cur' db' \<and> unlabelled db' = [] \<and>
    (\<exists>nodes. db' = db\<lparr>og_nodes := nodes\<rparr>) \<and> bare_nodes db' = bare_nodes db"
  using assms
proof (induction "length (unlabelled db)" arbitrary: cur db rule: less_induct)
  case less
  show ?case
  proof (cases "unlabelled db")
    case Nil
    then have "separate_loop cur db = Some db"
      by (subst separate_loop.simps) (simp add: unlabelled_def)
    moreover have "db = db\<lparr>og_nodes := og_nodes db\<rparr>" by simp
    ultimately show ?thesis using less.prems(2) Nil by blast
  next
    case (Cons node ns)
    let ?db = "set_graph_part cur (grow (og_links db) [nd_id node] [nd_id node]) db"
    have loop: "separate_loop cur db = separate_loop (cur + 1) ?db"
      using Cons by (subst separate_loop.simps) (simp add: unlabelled_def)
    have "node \<in> set (unlabelled db)" using Cons by simp
    note step = labels_ok_step [OF less.prems(2) this less.prems(1) grow_part]
    obtain db' cur' nodes where "separate_loop (cur + 1) ?db = Some db'" "labels_ok cur' db'" "unlabelled db' = []"
        "db' = ?db\<lparr>og_nodes := nodes\<rparr>" "bare_nodes db' = bare_nodes ?db"
      using less.hyps [OF step(2) _ step(1)] less.prems(1) by auto
    moreover from this have "db' = db\<lparr>og_nodes := nodes\<rparr>" by (simp add: set_graph_part_def)
    then have "\<exists>nodes. db' = db\<lparr>og_nodes := nodes\<rparr>" by blast
    ultimately show ?thesis unfolding loop by simp blast
  qed
qed

text \<open>
  C7. \<open>separate_nodes\<close> returns on every freshly imported graph, and afterwards two nodes have the same \<open>graph_part\<close>
  exactly if the links connect them; nothing else of the database has changed.
\<close>

theorem separate_nodes_components:
  assumes "\<forall>n\<in>set (og_nodes db). nd_graph_part n = 0"
  shows "\<exists>nodes. separate_nodes db = Some (db\<lparr>og_nodes := nodes\<rparr>) \<and>
    map (\<lambda>n. n\<lparr>nd_graph_part := 0\<rparr>) nodes = og_nodes db \<and>
    (\<forall>n\<in>set nodes. 0 < nd_graph_part n \<and>
      (\<forall>m\<in>set nodes. nd_graph_part n = nd_graph_part m \<longleftrightarrow> (nd_id n, nd_id m) \<in> connected (og_links db)))"

proof -
  have "labels_ok 1 db" using assms by (simp add: labels_ok_def)
  then obtain db' cur' nodes where res: "separate_nodes db = Some db'" "labels_ok cur' db'" "unlabelled db' = []"
      "db' = db\<lparr>og_nodes := nodes\<rparr>" "bare_nodes db' = bare_nodes db"
    using separate_loop_spec [of 1 db] by (auto simp: separate_nodes_def)
  have "bare_nodes db = map (\<lambda>n. n) (og_nodes db)"
    unfolding bare_nodes_def using assms by (intro map_cong) auto
  moreover have "bare_nodes db' = map (\<lambda>n. n\<lparr>nd_graph_part := 0\<rparr>) nodes" by (simp add: res(4) bare_nodes_def)
  ultimately have bare: "map (\<lambda>n. n\<lparr>nd_graph_part := 0\<rparr>) nodes = og_nodes db" using res(5) by simp
  have tables: "og_nodes db' = nodes" "og_links db' = og_links db" by (simp_all add: res(4))
  have positive: "0 < nd_graph_part n" if "n \<in> set nodes" for n
  proof -
    have "nd_graph_part n \<noteq> 0" using that res(3) by (auto simp: unlabelled_def tables filter_empty_conv)
    moreover have "0 \<le> nd_graph_part n" using res(2) that unfolding labels_ok_def tables by blast
    ultimately show ?thesis by simp
  qed
  have "nd_graph_part n = nd_graph_part m \<longleftrightarrow> (nd_id n, nd_id m) \<in> connected (og_links db)"
    if "n \<in> set nodes" "m \<in> set nodes" for n m
    using res(2) that positive [OF that(1)] unfolding labels_ok_def tables by (metis order_less_irrefl)
  with positive bare res(1,4) show ?thesis by blast
qed

definition sample_node :: "int \<Rightarrow> string osm_node" where
  "sample_node i = \<lparr>nd_id = i, nd_location = ''P'', nd_graph_part = 0, nd_parent_crossing = None,
     nd_orig_osm_id = None, nd_osm_was_crossing = False\<rparr>"

definition sample_link :: "int \<Rightarrow> int \<Rightarrow> nat \<Rightarrow> (string, nat) osm_link" where
  "sample_link a b d = \<lparr>ol_p1 = a, ol_p2 = b, ol_way = ''L'', ol_distance = d\<rparr>"

definition sample_graph :: "(string, nat) osm_db" where
  "sample_graph = \<lparr>og_nodes = map sample_node [1, 2, 3], og_links = [sample_link 3 1 10], og_locations = [],
     og_paths = [], og_crossings = [], og_node_seq = 4, og_location_seq = 1, og_path_seq = 1, og_crossing_seq = 1\<rparr>"

lemmas graph_eval = grow.simps visit_roots_def visit_root_def visit_link_def links_at_def other_end_def
  set_graph_part_def sample_node_def sample_link_def

lemma sample_separated:
  "map_option (\<lambda>db. map nd_graph_part (og_nodes db)) (separate_nodes sample_graph) = Some [1, 2, 1]"
  unfolding separate_nodes_def sample_graph_def
  by (subst separate_loop.simps, simp add: graph_eval)+

lemma separate_nodes_components_witness:
  "\<exists>nodes. separate_nodes sample_graph = Some (sample_graph\<lparr>og_nodes := nodes\<rparr>) \<and>
    map nd_graph_part nodes = [1, 2, 1] \<and> (1, 3) \<in> connected (og_links sample_graph) \<and>
    (1, 2) \<notin> connected (og_links sample_graph)"
proof -
  have "\<forall>n\<in>set (og_nodes sample_graph). nd_graph_part n = 0" by (simp add: sample_graph_def sample_node_def)
  from separate_nodes_components [OF this] obtain nodes where
    nodes: "separate_nodes sample_graph = Some (sample_graph\<lparr>og_nodes := nodes\<rparr>)"
      "map (\<lambda>n. n\<lparr>nd_graph_part := 0\<rparr>) nodes = og_nodes sample_graph"
    and parts: "\<And>n m. n \<in> set nodes \<Longrightarrow> m \<in> set nodes \<Longrightarrow>
      nd_graph_part n = nd_graph_part m \<longleftrightarrow> (nd_id n, nd_id m) \<in> connected (og_links sample_graph)"
    by blast
  have labels: "map nd_graph_part nodes = [1, 2, 1]" using sample_separated nodes(1) by simp
  have "map nd_id (map (\<lambda>n. n\<lparr>nd_graph_part := 0\<rparr>) nodes) = [1, 2, 3]"
    unfolding nodes(2) by (simp add: sample_graph_def sample_node_def)
  then have "map nd_id nodes = [1, 2, 3]" by (simp add: o_def)
  with labels obtain a b c where "nodes = [a, b, c]" "nd_id a = 1" "nd_id b = 2" "nd_id c = 3"
      "nd_graph_part a = 1" "nd_graph_part b = 2" "nd_graph_part c = 1"
    by (auto simp: map_eq_Cons_conv)
  with parts [of a c] parts [of a b] nodes(1) labels show ?thesis by auto
qed

text \<open>
  Run again after a station has been added (its node is in no part), the numbers start over: the part of the new
  node gets the number of another part.
\<close>

lemma separate_again_merges:
  "map_option (\<lambda>db. map nd_graph_part (og_nodes db))
     (separate_nodes (sample_graph\<lparr>og_nodes := [sample_node 1\<lparr>nd_graph_part := 1\<rparr>, sample_node 2,
       sample_node 3\<lparr>nd_graph_part := 1\<rparr>]\<rparr>)) = Some [1, 1, 1]"
  unfolding separate_nodes_def sample_graph_def
  by (subst separate_loop.simps, simp add: graph_eval)+

end
