(* ===== verification/Osms_Ntrod.thy ===== *)
theory Osms_Ntrod
  imports Ntrod_Schedule Osms_Graph
begin

text \<open>
  The timetable of \<open>osms-db\<close>: \<open>ntrod/types.rs\<close>. Rows of schedules, of the movements of schedules, of trains and of the
  movements of trains, with the insertions that merge (\<open>ON CONFLICT ... DO UPDATE\<close>) and the constraints the migrations
  declare. An insertion that merges says so by the setting \<open>upsert.action\<close> of the transaction: here it is the flag
  that is returned with the id.

  A new row gets the next number of its sequence; the numbers that a sequence skips are not modelled.
\<close>

section \<open>Rows\<close>

record osms_schedule =
  os_id :: int
  os_uid :: string
  os_start_date :: naive_date
  os_end_date :: naive_date
  os_days :: ntrod_days
  os_stp_indicator :: stp_indicator
  os_signalling_id :: "string option"
  os_geo_generation :: int
  os_source :: int
  os_file_metaseq :: "int option"
  os_darwin_id :: "string option"

definition sched_source_itps :: int where "sched_source_itps = 0"
definition sched_source_vstp :: int where "sched_source_vstp = 1"
definition sched_source_darwin :: int where "sched_source_darwin = 2"

record osms_mvt =
  om_id :: int
  om_parent_sched :: int
  om_tiploc :: string
  om_action :: int
  om_time :: naive_time
  om_starts_path :: "int option"
  om_ends_path :: "int option"
  om_idx :: "int option"
  om_platform :: "string option"
  om_public_time :: "naive_time option"

definition action_arrival :: int where "action_arrival = 0"
definition action_departure :: int where "action_departure = 1"
definition action_pass :: int where "action_pass = 2"

text \<open>\<open>PartialEq\<close> of \<open>ScheduleMvt\<close>; \<open>Hash\<close> is derived and hashes every field.\<close>

definition osms_mvt_eq :: "osms_mvt \<Rightarrow> osms_mvt \<Rightarrow> bool" where
  "osms_mvt_eq a b \<longleftrightarrow> om_tiploc a = om_tiploc b \<and> om_action a = om_action b \<and> om_time a = om_time b"

record osms_train =
  ot_id :: int
  ot_parent_sched :: int
  ot_trust_id :: "string option"
  ot_date :: naive_date
  ot_signalling_id :: "string option"
  ot_cancelled :: bool
  ot_terminated :: bool
  ot_nre_id :: "string option"
  ot_parent_nre_sched :: "int option"

record osms_train_mvt =
  otm_id :: int
  otm_parent_train :: int
  otm_parent_mvt :: int
  otm_time :: naive_time
  otm_source :: int
  otm_estimated :: bool
  otm_platform :: "string option"
  otm_pfm_suppr :: bool

record mvt_source =
  ms_id :: int
  ms_source_type :: int
  ms_source_text :: string

definition mvt_source_trust :: int where "mvt_source_trust = 0"
definition mvt_source_darwin :: int where "mvt_source_darwin = 1"
definition mvt_source_trust_naive :: int where "mvt_source_trust_naive = 2"

record ntrod_db =
  on_schedules :: "osms_schedule list"
  on_mvts :: "osms_mvt list"
  on_trains :: "osms_train list"
  on_tmvts :: "osms_train_mvt list"
  on_sources :: "mvt_source list"
  on_corpus :: "corpus_entry list"
  on_schedule_seq :: int
  on_mvt_seq :: int
  on_train_seq :: int
  on_tmvt_seq :: int

text \<open>\<open>mvt.time + (actual - planned)\<close> and \<open>time + Duration::minutes(n)\<close> on times of day, which wrap round at midnight.\<close>

record time_ops =
  to_shift :: "naive_time \<Rightarrow> naive_time \<Rightarrow> naive_time \<Rightarrow> naive_time"
  to_minutes :: "naive_time \<Rightarrow> int \<Rightarrow> naive_time"

definition time_civil :: time_ops where
  "time_civil =
     \<lparr>to_shift = (\<lambda>t actual planned. NaiveTime (nat ((int (nt_secs t) + int (nt_secs actual) - int (nt_secs planned)) mod 86400)) (nt_frac t)),
      to_minutes = (\<lambda>t n. NaiveTime (nat ((int (nt_secs t) + 60 * n) mod 86400)) (nt_frac t))\<rparr>"

section \<open>Schedules\<close>

definition osms_sched_key :: "osms_schedule \<Rightarrow> string \<times> naive_date \<times> stp_indicator \<times> int" where
  "osms_sched_key s = (os_uid s, os_start_date s, os_stp_indicator s, os_source s)"

text \<open>The assignments after \<open>DO UPDATE SET\<close>.\<close>

definition merge_schedule :: "osms_schedule \<Rightarrow> osms_schedule \<Rightarrow> osms_schedule" where
  "merge_schedule s r = r\<lparr>os_end_date := os_end_date s, os_days := os_days s, os_signalling_id := os_signalling_id s,
     os_source := os_source s, os_file_metaseq := os_file_metaseq s, os_darwin_id := os_darwin_id s\<rparr>"

definition osms_schedule_insert :: "osms_schedule \<Rightarrow> ntrod_db \<Rightarrow> osms_error + (int \<times> bool) \<times> ntrod_db" where
  "osms_schedule_insert s db =
     (if os_darwin_id s \<noteq> None \<and>
         (\<exists>r\<in>set (on_schedules db). os_darwin_id r = os_darwin_id s \<and> osms_sched_key r \<noteq> osms_sched_key s)
      then Inl (OPg ''schedules_darwin_id_key'')
      else case List.find (\<lambda>r. osms_sched_key r = osms_sched_key s) (on_schedules db) of
        Some r \<Rightarrow>
          Inr ((os_id r, True), db\<lparr>on_schedules := map (\<lambda>r. if osms_sched_key r = osms_sched_key s
            then merge_schedule s r else r) (on_schedules db)\<rparr>)
      | None \<Rightarrow>
          Inr ((on_schedule_seq db, False), db\<lparr>on_schedules := on_schedules db @ [s\<lparr>os_id := on_schedule_seq db\<rparr>],
            on_schedule_seq := on_schedule_seq db + 1\<rparr>))"

text \<open>\<open>is_authoritative\<close>; \<open>highest\<close> holds an id, an indicator and a source.\<close>

definition osms_auth_step ::
    "chrono \<Rightarrow> naive_date \<Rightarrow> osms_schedule \<Rightarrow> int \<times> stp_indicator \<times> int \<Rightarrow> osms_error + int \<times> stp_indicator \<times> int" where
  "osms_auth_step C on_date sched highest =
     (case value_for_iso_weekday (os_days sched) (iso_weekday C on_date) of
        None \<Rightarrow> Inl OPanic
      | Some False \<Rightarrow> Inr highest
      | Some True \<Rightarrow>
          if fst (snd highest) < os_stp_indicator sched then Inr (os_id sched, os_stp_indicator sched, os_source sched)
          else if os_stp_indicator sched = fst (snd highest) \<and> os_stp_indicator sched \<noteq> StpCancellation
          then Inl (ODatabaseInconsistency ''STP indicators equal'')
          else Inr highest)"

definition osms_is_authoritative :: "chrono \<Rightarrow> osms_schedule \<Rightarrow> naive_date \<Rightarrow> ntrod_db \<Rightarrow> osms_error + bool" where
  "osms_is_authoritative C s on_date db =
     (case value_for_iso_weekday (os_days s) (iso_weekday C on_date) of
        None \<Rightarrow> Inl OPanic
      | Some False \<Rightarrow> Inr False
      | Some True \<Rightarrow>
          if os_end_date s < on_date \<or> on_date < os_start_date s then Inr False
          else res_map (\<lambda>highest. fst highest = os_id s)
            (res_fold (osms_auth_step C on_date)
              (filter (\<lambda>r. os_uid r = os_uid s \<and> os_start_date r \<le> on_date \<and> on_date \<le> os_end_date r \<and> os_source r = os_source s)
                (on_schedules db))
              (0, StpNone, 0)))"

section \<open>Movements of schedules\<close>

text \<open>The paths are not inserted.\<close>

definition osms_mvt_insert :: "osms_mvt \<Rightarrow> ntrod_db \<Rightarrow> osms_error + int \<times> ntrod_db" where
  "osms_mvt_insert m db =
     (if om_parent_sched m \<notin> os_id ` set (on_schedules db) then Inl (OPg ''schedule_movements_parent_sched_fkey'')
      else if om_idx m \<noteq> None \<and> (\<exists>r\<in>set (on_mvts db). om_parent_sched r = om_parent_sched m \<and> om_idx r = om_idx m)
      then Inl (OPg ''schedule_movements_unique_idx'')
      else Inr (on_mvt_seq db,
        db\<lparr>on_mvts := on_mvts db @ [m\<lparr>om_id := on_mvt_seq db, om_starts_path := None, om_ends_path := None\<rparr>],
           on_mvt_seq := on_mvt_seq db + 1\<rparr>))"

text \<open>\<open>ORDER BY (idx, time, action) ASC\<close>: a row without \<open>idx\<close> comes last.\<close>

definition mvt_order :: "osms_mvt \<Rightarrow> (bool \<times> int) \<times> naive_time \<times> int" where
  "mvt_order m = ((case om_idx m of None \<Rightarrow> (True, 0) | Some i \<Rightarrow> (False, i)), om_time m, om_action m)"

section \<open>Trains\<close>

text \<open>
  The train of a schedule and day that is there is merged with the new one if that brings a TRUST id or a Darwin id
  which is missing; otherwise no row is returned.
\<close>

definition merge_train :: "osms_train \<Rightarrow> osms_train \<Rightarrow> osms_train" where
  "merge_train t r = r\<lparr>ot_trust_id := opt_or (ot_trust_id r) (ot_trust_id t),
     ot_signalling_id := opt_or (ot_signalling_id r) (ot_signalling_id t),
     ot_nre_id := opt_or (ot_nre_id r) (ot_nre_id t),
     ot_parent_nre_sched := opt_or (ot_parent_nre_sched r) (ot_parent_nre_sched t)\<rparr>"

definition osms_train_insert :: "osms_train \<Rightarrow> ntrod_db \<Rightarrow> osms_error + (osms_train \<times> bool) \<times> ntrod_db" where
  "osms_train_insert t db =
     (case List.find (\<lambda>r. ot_parent_sched r = ot_parent_sched t \<and> ot_date r = ot_date t) (on_trains db) of
        Some r \<Rightarrow>
          if ot_trust_id r = None \<and> ot_trust_id t \<noteq> None \<or> ot_nre_id r = None \<and> ot_nre_id t \<noteq> None then
            let merged = merge_train t r
            in if ot_trust_id merged \<noteq> None \<and> (\<exists>q\<in>set (on_trains db). ot_id q \<noteq> ot_id r \<and>
                    ot_trust_id q = ot_trust_id merged \<and> ot_date q = ot_date r)
               then Inl (OPg ''trains_trust_id_date_key'')
               else if ot_parent_nre_sched merged \<notin> insert None (Some ` os_id ` set (on_schedules db))
               then Inl (OPg ''trains_parent_nre_sched_fkey'')
               else Inr ((merged, True),
                 db\<lparr>on_trains := map (\<lambda>q. if ot_id q = ot_id r then merged else q) (on_trains db)\<rparr>)
          else Inl (ODoubleTrainActivation (ot_parent_sched t) (ot_date t))
      | None \<Rightarrow>
          if ot_parent_sched t \<notin> os_id ` set (on_schedules db) then Inl (OPg ''trains_parent_sched_fkey'')
          else if ot_parent_nre_sched t \<notin> insert None (Some ` os_id ` set (on_schedules db))
          then Inl (OPg ''trains_parent_nre_sched_fkey'')
          else if ot_trust_id t \<noteq> None \<and>
            (\<exists>q\<in>set (on_trains db). ot_trust_id q = ot_trust_id t \<and> ot_date q = ot_date t)
          then Inl (OPg ''trains_trust_id_date_key'')
          else (let new = t\<lparr>ot_id := on_train_seq db\<rparr> in
            Inr ((new, False), db\<lparr>on_trains := on_trains db @ [new], on_train_seq := on_train_seq db + 1\<rparr>)))"

section \<open>Movements of trains\<close>

definition osms_tmvt_key :: "osms_train_mvt \<Rightarrow> int \<times> int \<times> int" where
  "osms_tmvt_key m = (otm_parent_train m, otm_parent_mvt m, otm_source m)"

definition merge_tmvt :: "osms_train_mvt \<Rightarrow> osms_train_mvt \<Rightarrow> osms_train_mvt" where
  "merge_tmvt m r = r\<lparr>otm_time := otm_time m, otm_estimated := otm_estimated m, otm_platform := otm_platform m,
     otm_pfm_suppr := otm_pfm_suppr m\<rparr>"

definition osms_tmvt_insert :: "osms_train_mvt \<Rightarrow> ntrod_db \<Rightarrow> osms_error + int \<times> ntrod_db" where
  "osms_tmvt_insert m db =
     (case List.find (\<lambda>r. osms_tmvt_key r = osms_tmvt_key m) (on_tmvts db) of
        Some r \<Rightarrow>
          Inr (otm_id r, db\<lparr>on_tmvts := map (\<lambda>r. if osms_tmvt_key r = osms_tmvt_key m
            then merge_tmvt m r
            else r) (on_tmvts db)\<rparr>)
      | None \<Rightarrow>
          if otm_parent_train m \<notin> ot_id ` set (on_trains db) then Inl (OPg ''train_movements_parent_train_fkey'')
          else if otm_parent_mvt m \<notin> om_id ` set (on_mvts db) then Inl (OPg ''train_movements_parent_mvt_fkey'')
          else if otm_source m \<notin> ms_id ` set (on_sources db) then Inl (OPg ''train_movements_source_fkey'')
          else Inr (on_tmvt_seq db, db\<lparr>on_tmvts := on_tmvts db @ [m\<lparr>otm_id := on_tmvt_seq db\<rparr>],
            on_tmvt_seq := on_tmvt_seq db + 1\<rparr>))"

text \<open>\<open>MvtSource::insert_self\<close> names a table that no migration makes; the table is \<open>movement_sources\<close>.\<close>

definition mvt_source_insert :: "mvt_source \<Rightarrow> ntrod_db \<Rightarrow> osms_error + int \<times> ntrod_db" where
  "mvt_source_insert s db = Inl (OPg ''mvt_sources'')"

text \<open>\<open>INSERT INTO corpus_entries ... ON CONFLICT DO NOTHING\<close>; the table has no constraint.\<close>

definition osms_corpus_insert :: "corpus_entry \<Rightarrow> ntrod_db \<Rightarrow> osms_error + ntrod_db" where
  "osms_corpus_insert e db = Inr (db\<lparr>on_corpus := on_corpus db @ [e]\<rparr>)"

section \<open>Deleting and updating\<close>

definition delete_tmvts :: "(osms_train_mvt \<Rightarrow> bool) \<Rightarrow> ntrod_db \<Rightarrow> ntrod_db" where
  "delete_tmvts P db = db\<lparr>on_tmvts := filter (\<lambda>m. \<not> P m) (on_tmvts db)\<rparr>"

text \<open>\<open>ON DELETE CASCADE\<close>: the movements of trains go with the movement of the schedule, and so on.\<close>

definition delete_osms_mvts :: "(osms_mvt \<Rightarrow> bool) \<Rightarrow> ntrod_db \<Rightarrow> ntrod_db" where
  "delete_osms_mvts P db =
     (let gone = om_id ` set (filter P (on_mvts db))
      in delete_tmvts (\<lambda>t. otm_parent_mvt t \<in> gone) (db\<lparr>on_mvts := filter (\<lambda>m. \<not> P m) (on_mvts db)\<rparr>))"

definition delete_osms_trains :: "(osms_train \<Rightarrow> bool) \<Rightarrow> ntrod_db \<Rightarrow> ntrod_db" where
  "delete_osms_trains P db =
     (let gone = ot_id ` set (filter P (on_trains db))
      in delete_tmvts (\<lambda>t. otm_parent_train t \<in> gone) (db\<lparr>on_trains := filter (\<lambda>m. \<not> P m) (on_trains db)\<rparr>))"

text \<open>A schedule that is the Darwin schedule of a train that stays cannot be deleted.\<close>

definition delete_osms_schedules :: "(osms_schedule \<Rightarrow> bool) \<Rightarrow> ntrod_db \<Rightarrow> osms_error + ntrod_db" where
  "delete_osms_schedules P db =
     (let gone = os_id ` set (filter P (on_schedules db));
          db1 = delete_osms_trains (\<lambda>t. ot_parent_sched t \<in> gone) (delete_osms_mvts (\<lambda>m. om_parent_sched m \<in> gone)
                  (db\<lparr>on_schedules := filter (\<lambda>s. \<not> P s) (on_schedules db)\<rparr>))
      in if \<exists>t\<in>set (on_trains db1). ot_parent_nre_sched t \<in> Some ` gone then Inl (OPg ''trains_parent_nre_sched_fkey'')
         else Inr db1)"

definition update_osms_train :: "int \<Rightarrow> (osms_train \<Rightarrow> osms_train) \<Rightarrow> ntrod_db \<Rightarrow> ntrod_db" where
  "update_osms_train i f db = db\<lparr>on_trains := map (\<lambda>t. if ot_id t = i then f t else t) (on_trains db)\<rparr>"

text \<open>The first row \<open>get_stanox_for_tiploc\<close> finds.\<close>

definition get_stanox_for_tiploc :: "string \<Rightarrow> ntrod_db \<Rightarrow> string option" where
  "get_stanox_for_tiploc tiploc db =
     Option.bind (nth0 (filter (\<lambda>e. ce_tiploc e = Some tiploc \<and> ce_stanox e \<noteq> None) (on_corpus db))) ce_stanox"

section \<open>The constraints hold\<close>

text \<open>The keys of a \<open>SERIAL\<close> column.\<close>

definition serial_ok :: "('r \<Rightarrow> int) \<Rightarrow> int \<Rightarrow> 'r list \<Rightarrow> bool" where
  "serial_ok k n rows \<longleftrightarrow> distinct (map k rows) \<and> (\<forall>r\<in>set rows. k r < n)"

lemma serial_filter [intro]: "serial_ok k n rows \<Longrightarrow> serial_ok k n (filter P rows)"
  by (auto simp: serial_ok_def distinct_map_filter)

lemma serial_snoc [intro]: "serial_ok k n rows \<Longrightarrow> k r = n \<Longrightarrow> serial_ok k (n + 1) (rows @ [r])"
  by (fastforce simp: serial_ok_def)

lemma serial_map [simp]: "(\<And>r. k (f r) = k r) \<Longrightarrow> serial_ok k n (map f rows) = serial_ok k n rows"
  by (simp add: serial_ok_def comp_def)

lemma serial_map_on: "\<forall>r\<in>set rows. k (f r) = k r \<Longrightarrow> serial_ok k n rows \<Longrightarrow> serial_ok k n (map f rows)"
  by (simp add: serial_ok_def comp_def cong: map_cong)

definition mvt_place :: "osms_mvt \<Rightarrow> (int \<times> int) option" where
  "mvt_place m = map_option (Pair (om_parent_sched m)) (om_idx m)"

definition trust_place :: "osms_train \<Rightarrow> (string \<times> naive_date) option" where
  "trust_place t = map_option (\<lambda>i. (i, ot_date t)) (ot_trust_id t)"

definition schedules_ok :: "ntrod_db \<Rightarrow> bool" where
  "schedules_ok db \<longleftrightarrow> serial_ok os_id (on_schedule_seq db) (on_schedules db) \<and>
     distinct (map osms_sched_key (on_schedules db)) \<and> uniq_on os_darwin_id (on_schedules db)"

definition mvts_ok :: "ntrod_db \<Rightarrow> bool" where
  "mvts_ok db \<longleftrightarrow> serial_ok om_id (on_mvt_seq db) (on_mvts db) \<and> uniq_on mvt_place (on_mvts db) \<and>
     (\<forall>m\<in>set (on_mvts db). om_parent_sched m \<in> os_id ` set (on_schedules db))"

definition osms_trains_ok :: "ntrod_db \<Rightarrow> bool" where
  "osms_trains_ok db \<longleftrightarrow> serial_ok ot_id (on_train_seq db) (on_trains db) \<and>
     distinct (map (\<lambda>t. (ot_parent_sched t, ot_date t)) (on_trains db)) \<and> uniq_on trust_place (on_trains db) \<and>
     (\<forall>t\<in>set (on_trains db). ot_parent_sched t \<in> os_id ` set (on_schedules db) \<and>
        ot_parent_nre_sched t \<in> insert None (Some ` os_id ` set (on_schedules db)))"

definition tmvts_ok :: "ntrod_db \<Rightarrow> bool" where
  "tmvts_ok db \<longleftrightarrow> serial_ok otm_id (on_tmvt_seq db) (on_tmvts db) \<and> distinct (map osms_tmvt_key (on_tmvts db)) \<and>
     (\<forall>m\<in>set (on_tmvts db). otm_parent_train m \<in> ot_id ` set (on_trains db) \<and>
        otm_parent_mvt m \<in> om_id ` set (on_mvts db) \<and> otm_source m \<in> ms_id ` set (on_sources db))"

definition ntrod_inv :: "ntrod_db \<Rightarrow> bool" where
  "ntrod_inv db \<longleftrightarrow> schedules_ok db \<and> mvts_ok db \<and> osms_trains_ok db \<and> tmvts_ok db"

lemmas ntrod_ok_defs = schedules_ok_def mvts_ok_def osms_trains_ok_def tmvts_ok_def

lemma find_key: "List.find P xs = Some r \<Longrightarrow> r \<in> set xs \<and> P r"
  by (auto simp: find_Some_iff)

lemma ids_of_snoc [simp]: "f ` set (xs @ [x]) = insert (f x) (f ` set xs)" by simp

lemma uniq_on_snocI:
  "uniq_on k xs \<Longrightarrow> (\<And>y r. k x = Some y \<Longrightarrow> r \<in> set xs \<Longrightarrow> k r \<noteq> Some y) \<Longrightarrow> uniq_on k (xs @ [x])"
  by (auto simp: uniq_on_snoc split: option.splits)

text \<open>A merge changes one row, which gets the value \<open>v\<close> that no other row has.\<close>

lemma uniq_on_upsert:
  assumes "uniq_on k xs" "distinct (map key xs)" "\<And>r. k (g r) = v"
    and "\<And>r. r \<in> set xs \<Longrightarrow> key r \<noteq> c \<Longrightarrow> v \<noteq> None \<Longrightarrow> k r \<noteq> v"
  shows "uniq_on k (map (\<lambda>r. if key r = c then g r else r) xs)"
  using assms(1,2,4)
proof (induction xs)
  case (Cons x xs)
  let ?f = "\<lambda>r. if key r = c then g r else r"
  have ih: "uniq_on k (map ?f xs)" using Cons by (simp split: option.splits)
  have "k (?f r) \<noteq> Some y" if y: "k (?f x) = Some y" and r: "r \<in> set xs" for y r
  proof (cases "key x = c \<or> key r = c")
    case False
    with Cons.prems(1) y r show ?thesis by (auto split: option.splits)
  next
    case True
    have "key r \<noteq> key x" using Cons.prems(2) r by (metis distinct.simps(2) image_eqI list.map(2) list.set_map)
    with True y r Cons.prems(3) assms(3) show ?thesis
      by (metis list.set_intros(1) list.set_intros(2) option.distinct(1))
  qed
  then have "\<forall>y. k (?f x) = Some y \<longrightarrow> (\<forall>z\<in>set (map ?f xs). k z \<noteq> Some y)"
    by (simp only: list.set_map) blast
  with ih show ?case by (simp only: list.map uniq_on.simps split: option.split) blast
qed simp

lemma image_map_same: "(\<And>r. k (f r) = k r) \<Longrightarrow> k ` set (map f xs) = k ` set xs"
  by (simp only: list.set_map image_image)

lemma schedule_insert_cases:
  assumes "osms_schedule_insert s db = Inr ((i, upd), db')"
  obtains r where "upd" "r \<in> set (on_schedules db)" "osms_sched_key r = osms_sched_key s" "i = os_id r"
      "db' = db\<lparr>on_schedules := map (\<lambda>r. if osms_sched_key r = osms_sched_key s then merge_schedule s r else r) (on_schedules db)\<rparr>"
  | "\<not> upd" "\<forall>r\<in>set (on_schedules db). osms_sched_key r \<noteq> osms_sched_key s" "i = on_schedule_seq db"
      "db' = db\<lparr>on_schedules := on_schedules db @ [s\<lparr>os_id := on_schedule_seq db\<rparr>], on_schedule_seq := on_schedule_seq db + 1\<rparr>"
  using assms that
  by (auto simp: osms_schedule_insert_def find_None_iff split: if_splits option.splits dest!: find_key)

lemma schedule_insert_inv:
  assumes "ntrod_inv db" "osms_schedule_insert s db = Inr ((i, upd), db')"
  shows "ntrod_inv db'" and "i \<in> os_id ` set (on_schedules db')"
proof -
  have clash: "os_darwin_id r \<noteq> os_darwin_id s"
    if "r \<in> set (on_schedules db)" "osms_sched_key r \<noteq> osms_sched_key s" "os_darwin_id s \<noteq> None" for r
    using assms(2) that by (auto simp: osms_schedule_insert_def split: if_splits)
  have ok: "distinct (map osms_sched_key (on_schedules db))" "uniq_on os_darwin_id (on_schedules db)"
    using assms(1) by (simp_all add: ntrod_inv_def schedules_ok_def)
  have key: "osms_sched_key (s\<lparr>os_id := n\<rparr>) = osms_sched_key s" for n by (simp add: osms_sched_key_def)
  from assms(2) have "ntrod_inv db' \<and> i \<in> os_id ` set (on_schedules db')"
  proof (cases rule: schedule_insert_cases)
    case (1 r)
    let ?f = "\<lambda>r. if osms_sched_key r = osms_sched_key s then merge_schedule s r else r"
    have same: "os_id (?f r) = os_id r" "osms_sched_key (?f r) = osms_sched_key r" for r
      by (auto simp: osms_sched_key_def merge_schedule_def)
    have "uniq_on os_darwin_id (map ?f (on_schedules db))"
      by (rule uniq_on_upsert [OF ok(2) ok(1), where v = "os_darwin_id s"])
        (use clash in \<open>simp_all add: merge_schedule_def\<close>)
    moreover have "os_id ` set (map ?f (on_schedules db)) = os_id ` set (on_schedules db)"
      by (rule image_map_same) (rule same)
    ultimately show ?thesis
      using assms(1) 1(2) unfolding 1(5) ntrod_inv_def ntrod_ok_defs
      by (simp add: 1(4) same comp_def)
  next
    case 2
    have "uniq_on os_darwin_id (on_schedules db @ [s\<lparr>os_id := on_schedule_seq db\<rparr>])"
      using clash 2(2) by (intro uniq_on_snocI [OF ok(2)]) fastforce
    then show ?thesis
      using assms(1) 2(2) unfolding 2(4) ntrod_inv_def ntrod_ok_defs by (auto simp: 2(3) key)
  qed
  then show "ntrod_inv db'" "i \<in> os_id ` set (on_schedules db')" by simp_all
qed

lemma mvt_insert_inv:
  assumes "ntrod_inv db" "osms_mvt_insert m db = Inr (i, db')"
  shows "ntrod_inv db'"
    and "db' = db\<lparr>on_mvts := on_mvts db @ [m\<lparr>om_id := i, om_starts_path := None, om_ends_path := None\<rparr>],
      on_mvt_seq := on_mvt_seq db + 1\<rparr>" and "i = on_mvt_seq db"
proof -
  show db': "db' = db\<lparr>on_mvts := on_mvts db @ [m\<lparr>om_id := i, om_starts_path := None, om_ends_path := None\<rparr>],
      on_mvt_seq := on_mvt_seq db + 1\<rparr>" and i: "i = on_mvt_seq db"
    using assms(2) by (auto simp: osms_mvt_insert_def split: if_splits)
  have new: "om_parent_sched m \<in> os_id ` set (on_schedules db)"
      "\<forall>r\<in>set (on_mvts db). om_idx m \<noteq> None \<longrightarrow> om_parent_sched r = om_parent_sched m \<longrightarrow> om_idx r \<noteq> om_idx m"
    using assms(2) by (auto simp: osms_mvt_insert_def split: if_splits)
  have "uniq_on mvt_place (on_mvts db @ [m\<lparr>om_id := i, om_starts_path := None, om_ends_path := None\<rparr>])"
    using assms(1) new(2)
    by (intro uniq_on_snocI) (auto simp: ntrod_inv_def mvts_ok_def mvt_place_def)
  then show "ntrod_inv db'"
    using assms(1) new(1) unfolding db' ntrod_inv_def ntrod_ok_defs by (auto simp: i)
qed

lemma merge_train_fields [simp]:
  "ot_id (merge_train t r) = ot_id r" "ot_parent_sched (merge_train t r) = ot_parent_sched r"
  "ot_date (merge_train t r) = ot_date r" "ot_trust_id (merge_train t r) = opt_or (ot_trust_id r) (ot_trust_id t)"
  "ot_nre_id (merge_train t r) = opt_or (ot_nre_id r) (ot_nre_id t)"
  by (simp_all add: merge_train_def)

lemma train_insert_cases:
  assumes "osms_train_insert t db = Inr ((t', upd), db')"
  obtains r where "upd" "r \<in> set (on_trains db)" "ot_parent_sched r = ot_parent_sched t" "ot_date r = ot_date t"
      "t' = merge_train t r"
      "\<forall>q\<in>set (on_trains db). ot_id q \<noteq> ot_id r \<longrightarrow> trust_place t' \<noteq> None \<longrightarrow> trust_place q \<noteq> trust_place t'"
      "ot_parent_nre_sched t' \<in> insert None (Some ` os_id ` set (on_schedules db))"
      "db' = db\<lparr>on_trains := map (\<lambda>q. if ot_id q = ot_id r then t' else q) (on_trains db)\<rparr>"
      "ot_trust_id r = None \<and> ot_trust_id t \<noteq> None \<or> ot_nre_id r = None \<and> ot_nre_id t \<noteq> None"
  | "\<not> upd" "\<forall>r\<in>set (on_trains db). (ot_parent_sched r, ot_date r) \<noteq> (ot_parent_sched t, ot_date t)"
      "ot_parent_sched t \<in> os_id ` set (on_schedules db)"
      "ot_parent_nre_sched t \<in> insert None (Some ` os_id ` set (on_schedules db))"
      "\<forall>q\<in>set (on_trains db). trust_place t \<noteq> None \<longrightarrow> trust_place q \<noteq> trust_place t"
      "t' = t\<lparr>ot_id := on_train_seq db\<rparr>"
      "db' = db\<lparr>on_trains := on_trains db @ [t'], on_train_seq := on_train_seq db + 1\<rparr>"
proof (cases "List.find (\<lambda>r. ot_parent_sched r = ot_parent_sched t \<and> ot_date r = ot_date t) (on_trains db)")
  case None
  with assms show ?thesis
    by (intro that(2)) (auto simp: osms_train_insert_def Let_def find_None_iff trust_place_def split: if_splits)
next
  case (Some r)
  with assms find_key [OF Some] show ?thesis
    by (intro that(1) [of r]) (auto simp: osms_train_insert_def Let_def trust_place_def split: if_splits)
qed

lemma train_insert_inv:
  assumes "ntrod_inv db" "osms_train_insert t db = Inr ((t', upd), db')"
  shows "ntrod_inv db' \<and> t' \<in> set (on_trains db') \<and> ot_parent_sched t' = ot_parent_sched t \<and> ot_date t' = ot_date t"
proof -
  have ok: "serial_ok ot_id (on_train_seq db) (on_trains db)" "uniq_on trust_place (on_trains db)"
      "distinct (map (\<lambda>t. (ot_parent_sched t, ot_date t)) (on_trains db))"
      "\<forall>t\<in>set (on_trains db). ot_parent_sched t \<in> os_id ` set (on_schedules db) \<and>
        ot_parent_nre_sched t \<in> insert None (Some ` os_id ` set (on_schedules db))"
    using assms(1) by (simp_all add: ntrod_inv_def osms_trains_ok_def)
  from assms(2) show ?thesis
  proof (cases rule: train_insert_cases)
    case (1 r)
    let ?f = "\<lambda>q. if ot_id q = ot_id r then t' else q"
    have ids: "ot_id t' = ot_id r" "(ot_parent_sched t', ot_date t') = (ot_parent_sched r, ot_date r)" by (simp_all add: 1(5) merge_train_def)
    have r: "q = r" if "q \<in> set (on_trains db)" "ot_id q = ot_id r" for q
      using ok(1) that 1(2) distinct_mapD [of ot_id] by (auto simp: serial_ok_def)
    have same: "ot_id (?f q) = ot_id q" for q by (simp add: ids)
    have keys: "map (\<lambda>t. (ot_parent_sched t, ot_date t)) (map ?f (on_trains db)) =
        map (\<lambda>t. (ot_parent_sched t, ot_date t)) (on_trains db)"
      using r ids by auto
    have "uniq_on trust_place (map ?f (on_trains db))"
      using ok(1) 1(6) by (intro uniq_on_upsert [OF ok(2), where v = "trust_place t'"]) (auto simp: serial_ok_def)
    moreover have "distinct (map (\<lambda>t. (ot_parent_sched t, ot_date t)) (map ?f (on_trains db)))"
      unfolding keys by (rule ok(3))
    moreover have "serial_ok ot_id (on_train_seq db) (map ?f (on_trains db))" using ok(1) ids by (subst serial_map) auto
    moreover have "ot_parent_sched t' \<in> os_id ` set (on_schedules db)" using ok(4) 1(2) ids by auto
    ultimately have "osms_trains_ok db'"
      using ok(4) 1(7) unfolding 1(8) osms_trains_ok_def by auto
    moreover have "ot_id ` set (map ?f (on_trains db)) = ot_id ` set (on_trains db)" by (rule image_map_same) (rule same)
    ultimately show ?thesis
      using assms(1) 1(2,3,4) ids unfolding ntrod_inv_def 1(8) schedules_ok_def mvts_ok_def tmvts_ok_def by auto
  next
    case 2
    have "trust_place t' = trust_place t" by (simp add: 2(6) trust_place_def)
    then have "uniq_on trust_place (on_trains db @ [t'])"
      using 2(5) by (intro uniq_on_snocI [OF ok(2)]) (metis option.distinct(1))
    then show ?thesis
      using assms(1) 2(2,3,4) unfolding 2(7) ntrod_inv_def ntrod_ok_defs by (auto simp: 2(6))
  qed
qed

lemma tmvt_insert_cases:
  assumes "osms_tmvt_insert m db = Inr (i, db')"
  obtains r where "r \<in> set (on_tmvts db)" "osms_tmvt_key r = osms_tmvt_key m" "i = otm_id r"
      "db' = db\<lparr>on_tmvts := map (\<lambda>r. if osms_tmvt_key r = osms_tmvt_key m
            then merge_tmvt m r else r) (on_tmvts db)\<rparr>"
  | "\<forall>r\<in>set (on_tmvts db). osms_tmvt_key r \<noteq> osms_tmvt_key m" "otm_parent_train m \<in> ot_id ` set (on_trains db)"
      "otm_parent_mvt m \<in> om_id ` set (on_mvts db)" "otm_source m \<in> ms_id ` set (on_sources db)"
      "i = on_tmvt_seq db" "db' = db\<lparr>on_tmvts := on_tmvts db @ [m\<lparr>otm_id := i\<rparr>], on_tmvt_seq := on_tmvt_seq db + 1\<rparr>"
proof (cases "List.find (\<lambda>r. osms_tmvt_key r = osms_tmvt_key m) (on_tmvts db)")
  case None
  with assms show ?thesis
    by (intro that(2)) (auto simp: osms_tmvt_insert_def find_None_iff split: if_splits)
next
  case (Some r)
  with assms find_key [OF Some] show ?thesis by (intro that(1) [of r]) (auto simp: osms_tmvt_insert_def)
qed

lemma merge_tmvt_fields [simp]:
  "otm_id (merge_tmvt m r) = otm_id r" "osms_tmvt_key (merge_tmvt m r) = osms_tmvt_key r"
  "otm_parent_train (merge_tmvt m r) = otm_parent_train r" "otm_parent_mvt (merge_tmvt m r) = otm_parent_mvt r"
  "otm_source (merge_tmvt m r) = otm_source r"
  by (simp_all add: merge_tmvt_def osms_tmvt_key_def)

lemma merge_tmvt_same_key: "osms_tmvt_key r = osms_tmvt_key m \<Longrightarrow> merge_tmvt m r = m\<lparr>otm_id := otm_id r\<rparr>"
  by (simp add: merge_tmvt_def osms_tmvt_key_def)

lemma tmvt_insert_inv:
  assumes "ntrod_inv db" "osms_tmvt_insert m db = Inr (i, db')"
  shows "ntrod_inv db'"
  using assms(2)
proof (cases rule: tmvt_insert_cases)
  case (1 r)
  let ?f = "\<lambda>r. if osms_tmvt_key r = osms_tmvt_key m then merge_tmvt m r else r"
  have "distinct (map osms_tmvt_key (map ?f (on_tmvts db)))" "serial_ok otm_id (on_tmvt_seq db) (map ?f (on_tmvts db))"
    using assms(1) by (simp_all add: ntrod_inv_def tmvts_ok_def comp_def if_distrib cong: if_cong)
  then show ?thesis
    using assms(1) unfolding 1(4) ntrod_inv_def schedules_ok_def mvts_ok_def osms_trains_ok_def tmvts_ok_def by auto
next
  case 2
  have "osms_tmvt_key (m\<lparr>otm_id := i\<rparr>) = osms_tmvt_key m" by (simp add: osms_tmvt_key_def)
  with assms(1) 2 show ?thesis unfolding 2(6) ntrod_inv_def ntrod_ok_defs by (auto simp: 2(5))
qed

text \<open>What an insertion leaves in the table: the new data under its key, and every other row as it was.\<close>

lemma tmvt_insert_spec:
  assumes "ntrod_inv db" "osms_tmvt_insert m db = Inr (i, db')"
  shows "set (on_tmvts db') = {r \<in> set (on_tmvts db). osms_tmvt_key r \<noteq> osms_tmvt_key m} \<union> {m\<lparr>otm_id := i\<rparr>}"
    and "db' = db\<lparr>on_tmvts := on_tmvts db', on_tmvt_seq := on_tmvt_seq db'\<rparr>"
proof -
  have keys: "x = y" if "x \<in> set (on_tmvts db)" "y \<in> set (on_tmvts db)" "osms_tmvt_key x = osms_tmvt_key y" for x y
    using assms(1) distinct_mapD [OF _ that] by (auto simp: ntrod_inv_def tmvts_ok_def)
  show "set (on_tmvts db') = {r \<in> set (on_tmvts db). osms_tmvt_key r \<noteq> osms_tmvt_key m} \<union> {m\<lparr>otm_id := i\<rparr>}"
    using assms(2)
  proof (cases rule: tmvt_insert_cases)
    case (1 r)
    have "merge_tmvt m q = m\<lparr>otm_id := i\<rparr>" if "q \<in> set (on_tmvts db)" "osms_tmvt_key q = osms_tmvt_key m" for q
      using keys [OF that(1) 1(1)] that(2) 1(2,3) merge_tmvt_same_key by metis
    then show ?thesis using 1(1,2) unfolding 1(4) by (auto simp: image_iff)
  qed auto
  show "db' = db\<lparr>on_tmvts := on_tmvts db', on_tmvt_seq := on_tmvt_seq db'\<rparr>"
    using assms(2) by (cases rule: tmvt_insert_cases) simp_all
qed

lemma delete_tmvts_inv: "ntrod_inv db \<Longrightarrow> ntrod_inv (delete_tmvts P db)"
  by (auto simp: ntrod_inv_def ntrod_ok_defs delete_tmvts_def distinct_map_filter)

lemma image_kept: "x \<in> f ` set xs \<Longrightarrow> x \<notin> f ` set (filter P xs) \<Longrightarrow> x \<in> f ` set (filter (\<lambda>r. \<not> P r) xs)"
  by auto

lemma delete_osms_mvts_tables:
  "on_schedules (delete_osms_mvts P db) = on_schedules db" "on_trains (delete_osms_mvts P db) = on_trains db"
  "on_mvts (delete_osms_mvts P db) = filter (\<lambda>m. \<not> P m) (on_mvts db)"
  "on_tmvts (delete_osms_mvts P db) = filter (\<lambda>t. otm_parent_mvt t \<notin> om_id ` set (filter P (on_mvts db))) (on_tmvts db)"
  "on_sources (delete_osms_mvts P db) = on_sources db" "on_corpus (delete_osms_mvts P db) = on_corpus db"
  "on_schedule_seq (delete_osms_mvts P db) = on_schedule_seq db" "on_mvt_seq (delete_osms_mvts P db) = on_mvt_seq db"
  "on_train_seq (delete_osms_mvts P db) = on_train_seq db" "on_tmvt_seq (delete_osms_mvts P db) = on_tmvt_seq db"
  by (simp_all add: delete_osms_mvts_def delete_tmvts_def Let_def)

lemma delete_osms_trains_tables:
  "on_schedules (delete_osms_trains P db) = on_schedules db" "on_mvts (delete_osms_trains P db) = on_mvts db"
  "on_trains (delete_osms_trains P db) = filter (\<lambda>m. \<not> P m) (on_trains db)"
  "on_tmvts (delete_osms_trains P db) = filter (\<lambda>t. otm_parent_train t \<notin> ot_id ` set (filter P (on_trains db))) (on_tmvts db)"
  "on_sources (delete_osms_trains P db) = on_sources db" "on_corpus (delete_osms_trains P db) = on_corpus db"
  "on_schedule_seq (delete_osms_trains P db) = on_schedule_seq db" "on_mvt_seq (delete_osms_trains P db) = on_mvt_seq db"
  "on_train_seq (delete_osms_trains P db) = on_train_seq db" "on_tmvt_seq (delete_osms_trains P db) = on_tmvt_seq db"
  by (simp_all add: delete_osms_trains_def delete_tmvts_def Let_def)

lemma cascade_fk:
  "\<forall>t\<in>set ts. k t \<in> f ` set xs \<Longrightarrow>
     \<forall>t\<in>set (filter (\<lambda>t. k t \<notin> f ` set (filter P xs)) ts). k t \<in> f ` set (filter (\<lambda>r. \<not> P r) xs)"
  by auto

lemma tmvts_ok_delete_mvts:
  assumes "tmvts_ok db"
  shows "tmvts_ok (delete_osms_mvts P db)"
proof -
  have "\<forall>t\<in>set (on_tmvts db). otm_parent_mvt t \<in> om_id ` set (on_mvts db)" using assms by (simp add: tmvts_ok_def)
  from cascade_fk [OF this] assms show ?thesis
    unfolding tmvts_ok_def delete_osms_mvts_tables by (simp add: serial_filter distinct_map_filter)
qed

lemma tmvts_ok_delete_trains:
  assumes "tmvts_ok db"
  shows "tmvts_ok (delete_osms_trains P db)"
proof -
  have "\<forall>t\<in>set (on_tmvts db). otm_parent_train t \<in> ot_id ` set (on_trains db)" using assms by (simp add: tmvts_ok_def)
  from cascade_fk [OF this] assms show ?thesis
    unfolding tmvts_ok_def delete_osms_trains_tables by (simp add: serial_filter distinct_map_filter)
qed

lemma delete_osms_mvts_inv: "ntrod_inv db \<Longrightarrow> ntrod_inv (delete_osms_mvts P db)"
  using tmvts_ok_delete_mvts
  by (auto simp: ntrod_inv_def schedules_ok_def mvts_ok_def osms_trains_ok_def delete_osms_mvts_tables uniq_on_filter)

lemma delete_osms_schedules_inv:
  assumes "ntrod_inv db" "delete_osms_schedules P db = Inr db'"
  shows "ntrod_inv db'"
proof -
  let ?gone = "os_id ` set (filter P (on_schedules db))"
  let ?db = "db\<lparr>on_schedules := filter (\<lambda>s. \<not> P s) (on_schedules db)\<rparr>"
  have db': "db' = delete_osms_trains (\<lambda>t. ot_parent_sched t \<in> ?gone) (delete_osms_mvts (\<lambda>m. om_parent_sched m \<in> ?gone) ?db)"
    and free: "\<forall>t\<in>set (on_trains db'). ot_parent_nre_sched t \<notin> Some ` ?gone"
    using assms(2) by (auto simp: delete_osms_schedules_def Let_def split: if_splits)
  have kept: "x \<in> os_id ` set (on_schedules ?db)" if "x \<in> os_id ` set (on_schedules db)" "x \<notin> ?gone" for x
    using image_kept [OF that] by simp
  have "tmvts_ok ?db" using assms(1) by (simp add: ntrod_inv_def tmvts_ok_def)
  then have "tmvts_ok db'" unfolding db' by (intro tmvts_ok_delete_trains tmvts_ok_delete_mvts)
  moreover have "schedules_ok db'"
    using assms(1) by (auto simp: db' ntrod_inv_def schedules_ok_def delete_osms_mvts_tables delete_osms_trains_tables
        distinct_map_filter uniq_on_filter)
  moreover have "mvts_ok db'"
  proof -
    have "\<forall>m\<in>set (on_mvts db). om_parent_sched m \<in> os_id ` set (on_schedules db)"
      using assms(1) by (simp add: ntrod_inv_def mvts_ok_def)
    from cascade_fk [OF this] show ?thesis
      using assms(1) unfolding ntrod_inv_def mvts_ok_def db' delete_osms_mvts_tables delete_osms_trains_tables
      by (simp add: serial_filter uniq_on_filter)
  qed
  moreover have "osms_trains_ok db'"
  proof -
    have fk: "\<forall>t\<in>set (on_trains db). ot_parent_sched t \<in> os_id ` set (on_schedules db)"
        "\<forall>t\<in>set (on_trains db). ot_parent_nre_sched t \<in> insert None (Some ` os_id ` set (on_schedules db))"
      using assms(1) by (simp_all add: ntrod_inv_def osms_trains_ok_def)
    have trains: "on_trains db' = filter (\<lambda>t. ot_parent_sched t \<notin> ?gone) (on_trains db)"
        "on_schedules db' = on_schedules ?db"
      by (simp_all add: db' delete_osms_mvts_tables delete_osms_trains_tables)
    have "ot_parent_nre_sched t \<in> insert None (Some ` os_id ` set (on_schedules ?db))" if "t \<in> set (on_trains db')" for t
    proof (cases "ot_parent_nre_sched t")
      case (Some k)
      then have "k \<in> os_id ` set (on_schedules db)" "k \<notin> ?gone" using fk(2) [THEN bspec, of t] free that by (auto simp: trains)
      then show ?thesis using kept Some by blast
    qed simp
    with cascade_fk [OF fk(1)] assms(1) show ?thesis
      unfolding ntrod_inv_def osms_trains_ok_def trains
      by (simp add: serial_filter uniq_on_filter distinct_map_filter db' delete_osms_mvts_tables delete_osms_trains_tables)
  qed
  ultimately show ?thesis by (simp add: ntrod_inv_def)
qed

text \<open>An update that leaves the keys of the trains alone.\<close>

lemma update_osms_train_inv:
  assumes "ntrod_inv db"
    and "\<And>t. ot_id (f t) = ot_id t \<and> ot_parent_sched (f t) = ot_parent_sched t \<and> ot_date (f t) = ot_date t \<and>
      ot_trust_id (f t) = ot_trust_id t"
    and "\<And>t. ot_parent_nre_sched (f t) \<in> insert (ot_parent_nre_sched t) (Some ` os_id ` set (on_schedules db))"
  shows "ntrod_inv (update_osms_train i f db)"
proof -
  define g where "g = (\<lambda>t. if ot_id t = i then f t else t)"
  have same: "ot_id (g t) = ot_id t" "ot_parent_sched (g t) = ot_parent_sched t" "ot_date (g t) = ot_date t"
      "trust_place (g t) = trust_place t" for t using assms(2) by (auto simp: g_def trust_place_def)
  have "uniq_on trust_place (map g (on_trains db)) = uniq_on trust_place (on_trains db)"
    by (rule uniq_on_map_same) (rule same)
  moreover have nre: "ot_parent_nre_sched (g t) \<in> insert None (Some ` os_id ` set (on_schedules db))" if "t \<in> set (on_trains db)" for t
  proof -
    have "ot_parent_nre_sched t \<in> insert None (Some ` os_id ` set (on_schedules db))"
      using assms(1) that by (simp add: ntrod_inv_def osms_trains_ok_def)
    then show ?thesis using assms(3) [of t] unfolding g_def by (cases "ot_id t = i") (simp_all, metis)
  qed
  ultimately have "osms_trains_ok (db\<lparr>on_trains := map g (on_trains db)\<rparr>)"
    using assms(1) same unfolding ntrod_inv_def osms_trains_ok_def by (simp add: comp_def)
  moreover have "ot_id ` set (map g (on_trains db)) = ot_id ` set (on_trains db)" by (rule image_map_same) (rule same)
  ultimately show ?thesis
    using assms(1) unfolding ntrod_inv_def schedules_ok_def mvts_ok_def tmvts_ok_def update_osms_train_def g_def [symmetric]
    by simp
qed

section \<open>Which schedule counts\<close>

text \<open>The schedules that compete with \<open>s\<close> on a day: of the same train and source, and running that day.\<close>

definition sched_runs :: "chrono \<Rightarrow> naive_date \<Rightarrow> osms_schedule \<Rightarrow> bool" where
  "sched_runs C d r \<longleftrightarrow> value_for_iso_weekday (os_days r) (iso_weekday C d) = Some True"

definition rivals :: "chrono \<Rightarrow> naive_date \<Rightarrow> osms_schedule \<Rightarrow> ntrod_db \<Rightarrow> osms_schedule list" where
  "rivals C d s db =
     filter (\<lambda>r. os_uid r = os_uid s \<and> os_source r = os_source s \<and> os_start_date r \<le> d \<and> d \<le> os_end_date r \<and> sched_runs C d r)
       (on_schedules db)"

lemma auth_fold_runs:
  assumes "iso_weekday C d \<in> {1..7}"
  shows "res_fold (osms_auth_step C d) rs h = res_fold (osms_auth_step C d) (filter (sched_runs C d) rs) h"
proof (induction rs arbitrary: h)
  case (Cons r rs)
  have "value_for_iso_weekday (os_days r) (iso_weekday C d) \<noteq> None"
    using assms by (auto simp: value_for_iso_weekday_def)
  then have "osms_auth_step C d r h = Inr h" if "\<not> sched_runs C d r"
    using that by (auto simp: osms_auth_step_def sched_runs_def split: option.splits)
  with Cons.IH show ?case by (simp split: sum.splits)
qed simp

lemma auth_fold_highest:
  assumes "\<forall>r\<in>set rs. sched_runs C d r" "distinct (fst (snd h) # map os_stp_indicator rs)"
  shows "\<exists>h'. res_fold (osms_auth_step C d) rs h = Inr h' \<and> fst (snd h) \<le> fst (snd h') \<and>
    (\<forall>r\<in>set rs. os_stp_indicator r \<le> fst (snd h')) \<and>
    (h' = h \<or> (\<exists>r\<in>set rs. h' = (os_id r, os_stp_indicator r, os_source r)))"
  using assms
proof (induction rs arbitrary: h)
  case (Cons r rs)
  define h1 where "h1 = (if fst (snd h) < os_stp_indicator r then (os_id r, os_stp_indicator r, os_source r) else h)"
  have "osms_auth_step C d r h = Inr h1"
    using Cons.prems by (auto simp: osms_auth_step_def sched_runs_def h1_def)
  moreover obtain h' where "res_fold (osms_auth_step C d) rs h1 = Inr h'" "fst (snd h1) \<le> fst (snd h')"
      "\<forall>r\<in>set rs. os_stp_indicator r \<le> fst (snd h')"
      "h' = h1 \<or> (\<exists>r\<in>set rs. h' = (os_id r, os_stp_indicator r, os_source r))"
  proof -
    have "distinct (fst (snd h1) # map os_stp_indicator rs)" using Cons.prems(2) by (auto simp: h1_def)
    then show ?thesis using Cons.IH [of h1] Cons.prems(1) that by (metis list.set_intros(2))
  qed
  moreover have "fst (snd h) \<le> fst (snd h1)" "os_stp_indicator r \<le> fst (snd h1)" by (auto simp: h1_def)
  moreover have "h1 = h \<or> h1 = (os_id r, os_stp_indicator r, os_source r)" by (simp add: h1_def)
  ultimately show ?case by (intro exI [of _ h']) (auto intro: order_trans)
qed simp

text \<open>
  C24. Of the schedules of a train that run on a day, all with different indicators, \<open>is_authoritative\<close> accepts exactly the
  one whose indicator is the greatest: a cancellation before a new schedule before an overlay before a permanent schedule.
\<close>

theorem osms_authoritative_spec:
  assumes "ntrod_inv db" "s \<in> set (rivals C d s db)" "iso_weekday C d \<in> {1..7}"
    and "distinct (map os_stp_indicator (rivals C d s db))" "StpNone \<notin> os_stp_indicator ` set (rivals C d s db)"
  shows "osms_is_authoritative C s d db = Inr (\<forall>r\<in>set (rivals C d s db). os_stp_indicator r \<le> os_stp_indicator s)"
proof -
  let ?in = "\<lambda>r. os_uid r = os_uid s \<and> os_start_date r \<le> d \<and> d \<le> os_end_date r \<and> os_source r = os_source s"
  have rivals: "filter (sched_runs C d) (filter ?in (on_schedules db)) = rivals C d s db"
    by (auto simp: rivals_def intro: filter_cong)
  have fold: "res_fold (osms_auth_step C d) (filter ?in (on_schedules db)) h = res_fold (osms_auth_step C d) (rivals C d s db) h" for h
    using auth_fold_runs [OF assms(3), of "filter ?in (on_schedules db)" h] by (simp only: rivals)
  obtain h where h: "res_fold (osms_auth_step C d) (filter ?in (on_schedules db)) (0, StpNone, 0) = Inr h"
      "\<forall>r\<in>set (rivals C d s db). os_stp_indicator r \<le> fst (snd h)"
      "h = (0, StpNone, 0) \<or> (\<exists>r\<in>set (rivals C d s db). h = (os_id r, os_stp_indicator r, os_source r))"
  proof -
    have "\<forall>r\<in>set (rivals C d s db). sched_runs C d r" by (simp add: rivals_def)
    moreover have "distinct (fst (snd (0::int, StpNone, 0::int)) # map os_stp_indicator (rivals C d s db))"
      using assms(4,5) by simp
    ultimately show ?thesis
      using auth_fold_highest [of "rivals C d s db" C d "(0, StpNone, 0)"] that unfolding fold by blast
  qed
  have least: "StpNone < os_stp_indicator s"
    using assms(2,5) by (cases "os_stp_indicator s") (auto simp: less_stp_indicator_def image_iff)
  then have "h \<noteq> (0, StpNone, 0)" using h(2) assms(2) by (metis fst_conv leD snd_conv)
  with h(3) obtain r where r: "r \<in> set (rivals C d s db)" "h = (os_id r, os_stp_indicator r, os_source r)" by blast
  have ids: "os_id r = os_id s \<longleftrightarrow> r = s"
    using assms(1,2) r(1) distinct_mapD [of os_id "on_schedules db" r s]
    by (auto simp: ntrod_inv_def schedules_ok_def serial_ok_def rivals_def)
  have "r = s \<longleftrightarrow> os_stp_indicator r = os_stp_indicator s"
    using distinct_mapD [OF assms(4) r(1) assms(2)] by blast
  also have "\<dots> \<longleftrightarrow> (\<forall>q\<in>set (rivals C d s db). os_stp_indicator q \<le> os_stp_indicator s)"
    using h(2) r assms(2) by (metis antisym fst_conv snd_conv)
  finally have "(fst h = os_id s) = (\<forall>q\<in>set (rivals C d s db). os_stp_indicator q \<le> os_stp_indicator s)"
    using ids r(2) by simp
  then show ?thesis
    using assms(2) h(1) by (auto simp: osms_is_authoritative_def rivals_def sched_runs_def not_less not_le split: option.splits)
qed

definition sample_rival :: "int \<Rightarrow> stp_indicator \<Rightarrow> osms_schedule" where
  "sample_rival i stp = \<lparr>os_id = i, os_uid = ''C1'', os_start_date = NaiveDate 1, os_end_date = NaiveDate 90, os_days = days_all,
     os_stp_indicator = stp, os_signalling_id = None, os_geo_generation = 0, os_source = 0, os_file_metaseq = None,
     os_darwin_id = None\<rparr>"

definition sample_rivals :: ntrod_db where
  "sample_rivals = \<lparr>on_schedules = [sample_rival 1 StpPermanent, sample_rival 2 StpOverlay], on_mvts = [], on_trains = [],
     on_tmvts = [], on_sources = [], on_corpus = [], on_schedule_seq = 3, on_mvt_seq = 1, on_train_seq = 1, on_tmvt_seq = 1\<rparr>"

lemma sample_rivals_inv: "ntrod_inv sample_rivals"
  by (simp add: sample_rivals_def sample_rival_def ntrod_inv_def ntrod_ok_defs serial_ok_def osms_sched_key_def)

lemma osms_authoritative_spec_witness:
  "osms_is_authoritative chrono_civil (sample_rival 1 StpPermanent) (NaiveDate 7) sample_rivals = Inr False"
proof -
  have "rivals chrono_civil (NaiveDate 7) (sample_rival 1 StpPermanent) sample_rivals =
      [sample_rival 1 StpPermanent, sample_rival 2 StpOverlay]"
    by (simp add: rivals_def sample_rivals_def sample_rival_def sched_runs_def chrono_civil_def value_for_iso_weekday_def
        days_all_def chrono_orders)
  with osms_authoritative_spec [OF sample_rivals_inv, of "sample_rival 1 StpPermanent" chrono_civil "NaiveDate 7"]
  show ?thesis by (simp add: sample_rival_def chrono_civil_def less_eq_stp_indicator_def)
qed

end
