(* ===== verification/Osms_Live.thy ===== *)
theory Osms_Live
  imports Ntrod_Vstp Ntrod_Movements Osms_Ntrod
begin

text \<open>
  \<open>osms-nrod\<close>: what the messages of Network Rail do to the database of \<open>osms-db\<close>. \<open>errors.rs\<close>, \<open>live.rs\<close> and the
  handlers \<open>on_vstp\<close> and \<open>on_movement\<close> of \<open>main.rs\<close>; the handlers of Darwin are in theory \<open>Osms_Darwin\<close>.

  The state of a worker is the database and the names of the counters it has increased, in order; latencies are left
  out. Reading JSON is a parameter: a handler gets the message, or nothing if it could not be read. A panic is the
  error \<open>OPanic\<close>.
\<close>

section \<open>\<open>errors.rs\<close>\<close>

datatype osms_nrod_error =
  NeIo
| NePg string
| NeSerde
| NeDb osms_error
| NeNoScheduleSegment
| NeUnknownMvtBody string
| NeUnimplementedMessageType string
| NeDarwinTimingsMissing
| NeDuplicateVstpSchedule string naive_date stp_indicator int
| NeNoSchedules string naive_date stp_indicator int string naive_date
| NeTwoAuthoritativeSchedules int int
| NeTwoAuthoritativeSchedulesDarwin int int
| NeNoAuthoritativeSchedules string naive_date stp_indicator int
| NeNoAuthoritativeSchedulesDarwin string string naive_date
| NeNoTrainFound string naive_date
| NeNoMovementsFound int "int list" "string list" "naive_time option"
| NeNoMovementsFoundDarwin int "int list" "string list" "naive_time option"
| NeMultipleFailures "osms_nrod_error list"

fun stats_name :: "osms_nrod_error \<Rightarrow> string" where
  "stats_name NeIo = ''io''"
| "stats_name (NePg _) = ''pg''"
| "stats_name NeSerde = ''serde''"
| "stats_name (NeDb _) = ''db''"
| "stats_name NeNoScheduleSegment = ''no_schedule_segment''"
| "stats_name (NeDuplicateVstpSchedule _ _ _ _) = ''duplicate_vstp_schedule''"
| "stats_name (NeUnknownMvtBody _) = ''unknown_mvt_body''"
| "stats_name (NeUnimplementedMessageType _) = ''unimplemented_message_type''"
| "stats_name NeDarwinTimingsMissing = ''darwin_timings_missing''"
| "stats_name (NeNoSchedules _ _ _ _ _ _) = ''no_schedules''"
| "stats_name (NeTwoAuthoritativeSchedules _ _) = ''two_authoritative_schedules''"
| "stats_name (NeTwoAuthoritativeSchedulesDarwin _ _) = ''two_authoritative_schedules_darwin''"
| "stats_name (NeNoAuthoritativeSchedules _ _ _ _) = ''no_authoritative_schedules''"
| "stats_name (NeNoAuthoritativeSchedulesDarwin _ _ _) = ''no_authoritative_schedules_darwin''"
| "stats_name (NeNoTrainFound _ _) = ''no_train_found''"
| "stats_name (NeNoMovementsFound _ _ _ _) = ''no_movements_found''"
| "stats_name (NeNoMovementsFoundDarwin _ _ _ _) = ''no_movements_found_darwin''"
| "stats_name (NeMultipleFailures _) = ''multiple_failures''"

text \<open>\<open>From<PgError>\<close> and \<open>From<OsmsError>\<close>: a statement that is executed directly gives the error itself.\<close>

fun of_pg :: "osms_error \<Rightarrow> osms_nrod_error" where
  "of_pg (OPg c) = NePg c"
| "of_pg e = NeDb e"

section \<open>A worker\<close>

record osms_worker =
  wk_db :: ntrod_db
  wk_stats :: "string list"

type_synonym 'a osms_m = "osms_worker \<Rightarrow> (osms_nrod_error + 'a) \<times> osms_worker"

definition oret :: "'a \<Rightarrow> 'a osms_m" where
  "oret a w = (Inr a, w)"

definition ofail :: "osms_nrod_error \<Rightarrow> 'a osms_m" where
  "ofail e w = (Inl e, w)"

definition obind :: "'a osms_m \<Rightarrow> ('a \<Rightarrow> 'b osms_m) \<Rightarrow> 'b osms_m" where
  "obind m f w = (case m w of (Inl e, w1) \<Rightarrow> (Inl e, w1) | (Inr a, w1) \<Rightarrow> f a w1)"

definition osms_incr :: "string \<Rightarrow> unit osms_m" where
  "osms_incr dest w = (Inr (), w\<lparr>wk_stats := wk_stats w @ [dest]\<rparr>)"

text \<open>A query, a statement that cannot fail, and an insertion.\<close>

definition oquery :: "(ntrod_db \<Rightarrow> osms_nrod_error + 'a) \<Rightarrow> 'a osms_m" where
  "oquery q w = (q (wk_db w), w)"

definition oexec :: "(ntrod_db \<Rightarrow> ntrod_db) \<Rightarrow> unit osms_m" where
  "oexec f w = (Inr (), w\<lparr>wk_db := f (wk_db w)\<rparr>)"

definition oinsert :: "(ntrod_db \<Rightarrow> osms_error + 'a \<times> ntrod_db) \<Rightarrow> 'a osms_m" where
  "oinsert f w = (case f (wk_db w) of Inl e \<Rightarrow> (Inl (NeDb e), w) | Inr (a, db) \<Rightarrow> (Inr a, w\<lparr>wk_db := db\<rparr>))"

text \<open>A transaction that is not committed because of an error leaves the database alone.\<close>

definition otrans :: "'a osms_m \<Rightarrow> 'a osms_m" where
  "otrans m w = (case m w of (Inl e, w1) \<Rightarrow> (Inl e, w1\<lparr>wk_db := wk_db w\<rparr>) | (Inr a, w1) \<Rightarrow> (Inr a, w1))"

fun ofor :: "('a \<Rightarrow> unit osms_m) \<Rightarrow> 'a list \<Rightarrow> unit osms_m" where
  "ofor f [] = oret ()"
| "ofor f (x # xs) = obind (f x) (\<lambda>_. ofor f xs)"

fun send_to_stats :: "string \<Rightarrow> osms_nrod_error \<Rightarrow> string list" where
  "send_to_stats prefix (NeMultipleFailures fails) = concat (map (send_to_stats prefix) fails)"
| "send_to_stats prefix e = [prefix @ ''.'' @ stats_name e]"

section \<open>Schedules at short notice\<close>

fun vstp_mvts :: "vstp_location_record \<Rightarrow> (string \<times> naive_time \<times> int \<times> string option \<times> naive_time option) list" where
  "vstp_mvts (VstpOriginating l) =
     [(vlt_tiploc_id (vl_tiploc (vo_location l)), vo_scheduled_departure_time l, action_departure, vo_platform l,
       vo_public_departure_time l)]"
| "vstp_mvts (VstpIntermediate l) =
     [(vlt_tiploc_id (vl_tiploc (vi_location l)), vi_scheduled_arrival_time l, action_arrival, vi_platform l,
       vi_public_arrival_time l),
      (vlt_tiploc_id (vl_tiploc (vi_location l)), vi_scheduled_departure_time l, action_departure, vi_platform l,
       vi_public_departure_time l)]"
| "vstp_mvts (VstpPass l) =
     [(vlt_tiploc_id (vl_tiploc (vp_location l)), vp_scheduled_pass_time l, action_pass, None, None)]"
| "vstp_mvts (VstpTerminating l) =
     [(vlt_tiploc_id (vl_tiploc (vt_location l)), vt_scheduled_arrival_time l, action_arrival, vt_platform l,
       vt_public_arrival_time l)]"

definition vstp_mvt_insert ::
    "int \<Rightarrow> nat \<times> string \<times> naive_time \<times> int \<times> string option \<times> naive_time option \<Rightarrow> ntrod_db \<Rightarrow> osms_error + ntrod_db" where
  "vstp_mvt_insert sid mvt db =
     (case mvt of (i, tiploc, time, action, platform, public_time) \<Rightarrow>
        res_map snd (osms_mvt_insert \<lparr>om_id = -1, om_parent_sched = sid, om_tiploc = tiploc, om_action = action, om_time = time,
          om_starts_path = None, om_ends_path = None, om_idx = Some (int i), om_platform = platform,
          om_public_time = public_time\<rparr> db))"

fun process_vstp :: "vstp_record \<Rightarrow> ntrod_db \<Rightarrow> osms_nrod_error + ntrod_db" where
  "process_vstp (VstpV1 msg) db =
     (case vm_schedule msg of
        VstpDelete train_uid _ schedule_start_date _ _ _ _ stp_indicator \<Rightarrow>
          map_err of_pg (delete_osms_schedules (\<lambda>s. os_uid s = train_uid \<and> os_start_date s = schedule_start_date \<and>
            os_stp_indicator s = stp_indicator \<and> os_source s = sched_source_vstp) db)
      | VstpCreate train_uid _ schedule_start_date schedule_end_date schedule_days_runs _ _ stp_indicator _ segments \<Rightarrow>
          res_bind (ok_or NeNoScheduleSegment (nth0 segments)) (\<lambda>segment.
          res_bind (map_err NeDb (osms_schedule_insert
            \<lparr>os_id = -1, os_uid = train_uid, os_start_date = schedule_start_date, os_end_date = schedule_end_date,
             os_days = schedule_days_runs, os_stp_indicator = stp_indicator, os_signalling_id = vs_signalling_id segment,
             os_geo_generation = 0, os_source = sched_source_vstp, os_file_metaseq = None, os_darwin_id = None\<rparr> db))
            (\<lambda>((sid, updated), db1).
          if updated then Inl (NeDuplicateVstpSchedule train_uid schedule_start_date stp_indicator sched_source_vstp)
          else map_err NeDb (res_fold (vstp_mvt_insert sid)
            (List.enumerate 0 (concat (map vstp_mvts (vs_schedule_location segment)))) db1))))"

section \<open>Activations and cancellations\<close>

fun osms_auth_loop ::
    "(int \<Rightarrow> int \<Rightarrow> osms_nrod_error) \<Rightarrow> chrono \<Rightarrow> naive_date \<Rightarrow> ntrod_db \<Rightarrow> osms_schedule list \<Rightarrow> osms_schedule option \<Rightarrow>
      osms_nrod_error + osms_schedule option" where
  "osms_auth_loop two C date db [] auth = Inr auth"
| "osms_auth_loop two C date db (sched # scheds) auth =
     (case osms_is_authoritative C sched date db of
        Inl e \<Rightarrow> Inl (NeDb e)
      | Inr False \<Rightarrow> osms_auth_loop two C date db scheds auth
      | Inr True \<Rightarrow>
          (case auth of
             Some a \<Rightarrow> Inl (two (os_id sched) (os_id a))
           | None \<Rightarrow> osms_auth_loop two C date db scheds (Some sched)))"

fun osms_source :: "schedule_source \<Rightarrow> int" where
  "osms_source Source_CifItps = sched_source_itps"
| "osms_source Source_VstpTops = sched_source_vstp"

definition osms_activation :: "chrono \<Rightarrow> activation \<Rightarrow> unit osms_m" where
  "osms_activation C a =
     (let src = osms_source (act_schedule_source a);
          date = dt_date (act_origin_dep_timestamp a)
      in obind (oquery (\<lambda>db.
           let scheds = filter (\<lambda>s. os_uid s = act_train_uid a \<and> os_stp_indicator s = act_schedule_type a \<and>
                 os_start_date s = act_schedule_start_date a \<and> os_source s = src) (on_schedules db)
           in if scheds = [] then Inl (NeNoSchedules (act_train_uid a) (act_schedule_start_date a) (act_schedule_type a) src
                (act_train_id a) date)
              else res_bind (osms_auth_loop NeTwoAuthoritativeSchedules C date db scheds None)
                (ok_or (NeNoAuthoritativeSchedules (act_train_uid a) (act_schedule_start_date a) (act_schedule_type a) src))))
         (\<lambda>auth_schedule.
         obind (oinsert (osms_train_insert
           \<lparr>ot_id = -1, ot_parent_sched = os_id auth_schedule, ot_trust_id = Some (act_train_id a), ot_date = date,
            ot_signalling_id = Some (act_schedule_wtt_id a), ot_cancelled = False, ot_terminated = False,
            ot_nre_id = None, ot_parent_nre_sched = None\<rparr>))
           (\<lambda>(train, was_update).
         if was_update then osms_incr ''nrod.activation.link_with_darwin''
         else osms_incr ''nrod.activation.trust_only'')))"

definition find_trust_train :: "chrono \<Rightarrow> string \<Rightarrow> naive_date \<Rightarrow> ntrod_db \<Rightarrow> osms_train option" where
  "find_trust_train C i date db =
     nth0 (filter (\<lambda>t. ot_trust_id t = Some i \<and> (ot_date t = date \<or> ot_date t = date_pred C date)) (on_trains db))"

definition delete_estimates :: "int \<Rightarrow> ntrod_db \<Rightarrow> ntrod_db" where
  "delete_estimates train = delete_tmvts (\<lambda>m. otm_parent_train m = train \<and> otm_estimated m)"

definition osms_cancellation :: "chrono \<Rightarrow> cancellation \<Rightarrow> unit osms_m" where
  "osms_cancellation C c =
     (let date = dt_date (canx_canx_timestamp c)
      in obind (oquery (\<lambda>db. ok_or (NeNoTrainFound (canx_train_id c) date) (find_trust_train C (canx_train_id c) date db)))
           (\<lambda>train.
         obind (oexec (update_osms_train (ot_id train) (\<lambda>t. t\<lparr>ot_cancelled := True\<rparr>))) (\<lambda>_.
         oexec (delete_estimates (ot_id train)))))"

section \<open>Movements\<close>

fun osms_action :: "event_type \<Rightarrow> int" where
  "osms_action Event_Arrival = 0"
| "osms_action Event_Destination = 0"
| "osms_action Event_Departure = 1"

definition tiplocs_at :: "string \<Rightarrow> ntrod_db \<Rightarrow> string list" where
  "tiplocs_at stanox db =
     map (\<lambda>e. the (ce_tiploc e)) (filter (\<lambda>e. ce_stanox e = Some stanox \<and> ce_tiploc e \<noteq> None) (on_corpus db))"

definition matching_mvts :: "int \<Rightarrow> string list \<Rightarrow> int list \<Rightarrow> naive_time option \<Rightarrow> ntrod_db \<Rightarrow> osms_mvt list" where
  "matching_mvts sched tiplocs actions time db =
     sort_key mvt_order (filter (\<lambda>m. om_parent_sched m = sched \<and> om_tiploc m \<in> set tiplocs \<and> om_action m \<in> set actions \<and>
       (case time of None \<Rightarrow> True | Some t \<Rightarrow> om_time m = t)) (on_mvts db))"

definition remaining_mvts :: "int \<Rightarrow> naive_time \<Rightarrow> ntrod_db \<Rightarrow> osms_mvt list" where
  "remaining_mvts sched time db =
     sort_key mvt_order (filter (\<lambda>m. om_parent_sched m = sched \<and> time < om_time m) (on_mvts db))"

definition naive_estimate :: "time_ops \<Rightarrow> int \<Rightarrow> naive_time \<Rightarrow> osms_mvt \<Rightarrow> osms_mvt \<Rightarrow> osms_train_mvt" where
  "naive_estimate T train actual mvt m =
     \<lparr>otm_id = -1, otm_parent_train = train, otm_parent_mvt = om_id m, otm_time = to_shift T (om_time m) actual (om_time mvt),
      otm_source = mvt_source_trust_naive, otm_estimated = True, otm_platform = None, otm_pfm_suppr = False\<rparr>"

definition estimate_mvt :: "time_ops \<Rightarrow> int \<Rightarrow> naive_time \<Rightarrow> osms_mvt \<Rightarrow> osms_mvt \<Rightarrow> unit osms_m" where
  "estimate_mvt T train actual mvt m =
     obind (oinsert (osms_tmvt_insert (naive_estimate T train actual mvt m))) (\<lambda>_. osms_incr ''nrod.mvt.estimated'')"

definition trust_report :: "int \<Rightarrow> int \<Rightarrow> movement \<Rightarrow> osms_train_mvt" where
  "trust_report train mvt m =
     \<lparr>otm_id = -1, otm_parent_train = train, otm_parent_mvt = mvt, otm_time = dt_time (mvt_actual_timestamp m),
      otm_source = mvt_source_trust, otm_estimated = False, otm_platform = mvt_platform m, otm_pfm_suppr = False\<rparr>"

text \<open>From the movement of the schedule on.\<close>

definition register_mvt :: "time_ops \<Rightarrow> movement \<Rightarrow> osms_train \<Rightarrow> osms_mvt \<Rightarrow> unit osms_m" where
  "register_mvt T m train mvt =
     obind (oinsert (osms_tmvt_insert (trust_report (ot_id train) (om_id mvt) m))) (\<lambda>_.
     obind (osms_incr ''nrod.mvt.actual'') (\<lambda>_.
     obind (oexec (delete_tmvts (\<lambda>t. otm_parent_mvt t = om_id mvt \<and> otm_source t = 2 \<and> otm_estimated t))) (\<lambda>_.
     obind (oquery (\<lambda>db. Inr (remaining_mvts (ot_parent_sched train) (om_time mvt) db)))
       (ofor (estimate_mvt T (ot_id train) (dt_time (mvt_actual_timestamp m)) mvt)))))"

definition end_train :: "movement \<Rightarrow> osms_train \<Rightarrow> unit osms_m" where
  "end_train m train =
     (if mvt_train_terminated m
      then obind (osms_incr ''nrod.mvt.terminated'') (\<lambda>_.
           obind (oexec (update_osms_train (ot_id train) (\<lambda>t. t\<lparr>ot_terminated := True\<rparr>))) (\<lambda>_.
           oexec (delete_estimates (ot_id train))))
      else oret ())"

definition osms_movement :: "time_ops \<Rightarrow> chrono \<Rightarrow> movement \<Rightarrow> unit osms_m" where
  "osms_movement T C m =
     (if mvt_offroute_ind m then osms_incr ''nrod.mvt.offroute''
      else
        let date = dt_date (mvt_actual_timestamp m);
            planned = map_option dt_time (mvt_planned_timestamp m);
            actions = [2, osms_action (mvt_event_type m)]
        in obind (oquery (\<lambda>db. ok_or (NeNoTrainFound (mvt_train_id m) date) (find_trust_train C (mvt_train_id m) date db)))
             (\<lambda>train.
           obind (end_train m train) (\<lambda>_.
           obind (oquery (\<lambda>db. Inr (tiplocs_at (mvt_loc_stanox m) db))) (\<lambda>tiplocs.
           if tiplocs = [] then osms_incr ''nrod.mvt.unmatched_stanox''
           else
             obind (oquery (\<lambda>db. ok_or (NeNoMovementsFound (ot_parent_sched train) actions tiplocs planned)
                 (nth0 (matching_mvts (ot_parent_sched train) tiplocs actions planned db))))
               (register_mvt T m train)))))"

section \<open>Messages\<close>

definition process_ntrod_event :: "time_ops \<Rightarrow> chrono \<Rightarrow> mvt_record \<Rightarrow> unit osms_m" where
  "process_ntrod_event T C r =
     otrans (case rec_body r of
       BodyActivation a \<Rightarrow> osms_activation C a
     | BodyCancellation c \<Rightarrow> osms_cancellation C c
     | BodyMovement m \<Rightarrow> osms_movement T C m
     | BodyUnknown v \<Rightarrow> ofail (NeUnknownMvtBody v)
     | _ \<Rightarrow> ofail (NeUnimplementedMessageType (mh_msg_type (rec_header r))))"

fun osms_dest :: "mvt_body \<Rightarrow> string" where
  "osms_dest (BodyActivation _) = ''messages_activation''"
| "osms_dest (BodyCancellation _) = ''messages_cancellation''"
| "osms_dest (BodyMovement _) = ''messages_movement''"
| "osms_dest (BodyReinstatement _) = ''messages_reinstatement''"
| "osms_dest (BodyChangeOfOrigin _) = ''messages_change_of_origin''"
| "osms_dest (BodyChangeOfIdentity _) = ''messages_change_of_identity''"
| "osms_dest (BodyChangeOfLocation _) = ''messages_change_of_location''"
| "osms_dest (BodyUnknown _) = ''messages_unknown''"

definition count_stats :: "string list \<Rightarrow> osms_worker \<Rightarrow> osms_worker" where
  "count_stats names w = w\<lparr>wk_stats := wk_stats w @ names\<rparr>"

definition on_ntrod_record :: "time_ops \<Rightarrow> chrono \<Rightarrow> mvt_record \<Rightarrow> osms_worker \<Rightarrow> osms_worker" where
  "on_ntrod_record T C r w =
     (let dest = osms_dest (rec_body r)
      in case process_ntrod_event T C r (count_stats [''messages.recv'', dest @ ''.recv''] w) of
           (Inl e, w1) \<Rightarrow> count_stats ([''messages.fail'', dest @ ''.fail''] @ send_to_stats ''nrod.fails'' e) w1
         | (Inr _, w1) \<Rightarrow> count_stats [''messages.processed'', dest @ ''.processed''] w1)"

definition osms_on_movement :: "time_ops \<Rightarrow> chrono \<Rightarrow> mvt_record list option \<Rightarrow> osms_worker \<Rightarrow> osms_worker" where
  "osms_on_movement T C batch w =
     (case batch of
        None \<Rightarrow> count_stats [''message_batch.recv'', ''message_batch.parse_errors''] w
      | Some rs \<Rightarrow> fold (on_ntrod_record T C) rs (count_stats [''message_batch.recv'', ''message_batch.parsed''] w))"

definition osms_on_vstp :: "vstp_record option \<Rightarrow> osms_worker \<Rightarrow> osms_worker" where
  "osms_on_vstp msg w =
     (case msg of
        None \<Rightarrow> count_stats [''vstp.recv'', ''vstp.parse_errors''] w
      | Some r \<Rightarrow>
          (case process_vstp r (wk_db w) of
             Inl e \<Rightarrow> count_stats ([''vstp.recv'', ''vstp.parsed'', ''vstp.fail''] @ send_to_stats ''vstp.fails'' e) w
           | Inr db \<Rightarrow> count_stats [''vstp.recv'', ''vstp.parsed'', ''vstp.processed''] (w\<lparr>wk_db := db\<rparr>)))"

section \<open>The constraints hold in every state\<close>

definition okeeps :: "'a osms_m \<Rightarrow> bool" where
  "okeeps m \<longleftrightarrow> (\<forall>w. ntrod_inv (wk_db w) \<longrightarrow> ntrod_inv (wk_db (snd (m w))))"

named_theorems okeeps_intros

lemma okeepsD: "okeeps m \<Longrightarrow> ntrod_inv (wk_db w) \<Longrightarrow> m w = (r, w1) \<Longrightarrow> ntrod_inv (wk_db w1)"
  unfolding okeeps_def by (metis snd_conv)

lemma okeeps_pure [okeeps_intros]: "okeeps (oret a)" "okeeps (ofail e)" "okeeps (osms_incr d)" "okeeps (oquery q)"
  by (simp_all add: okeeps_def oret_def ofail_def osms_incr_def oquery_def)

lemma okeeps_bind [okeeps_intros]: "okeeps m \<Longrightarrow> (\<And>a. okeeps (f a)) \<Longrightarrow> okeeps (obind m f)"
  by (fastforce simp: okeeps_def obind_def split: prod.splits sum.splits)

lemma okeeps_if [okeeps_intros]: "(b \<Longrightarrow> okeeps m) \<Longrightarrow> (\<not> b \<Longrightarrow> okeeps n) \<Longrightarrow> okeeps (if b then m else n)"
  by simp

lemma okeeps_trans [okeeps_intros]: "okeeps m \<Longrightarrow> okeeps (otrans m)"
  by (fastforce simp: okeeps_def otrans_def split: prod.splits sum.splits)

lemma okeeps_for [okeeps_intros]: "(\<And>x. okeeps (f x)) \<Longrightarrow> okeeps (ofor f xs)"
  by (induction xs) (simp_all add: okeeps_intros)

lemma okeeps_exec: "(\<And>db. ntrod_inv db \<Longrightarrow> ntrod_inv (f db)) \<Longrightarrow> okeeps (oexec f)"
  by (simp add: okeeps_def oexec_def)

lemma okeeps_insert: "(\<And>db a db'. ntrod_inv db \<Longrightarrow> f db = Inr (a, db') \<Longrightarrow> ntrod_inv db') \<Longrightarrow> okeeps (oinsert f)"
  by (fastforce simp: okeeps_def oinsert_def split: sum.splits)

lemma okeeps_inserts [okeeps_intros]:
  "okeeps (oinsert (osms_tmvt_insert m))" "okeeps (oinsert (osms_train_insert t))"
  "okeeps (oinsert (osms_schedule_insert s))" "okeeps (oinsert (osms_mvt_insert k))"
  by (rule okeeps_insert, erule tmvt_insert_inv, assumption)
    (rule okeeps_insert, auto dest: train_insert_inv schedule_insert_inv(1) mvt_insert_inv(1))+

lemma okeeps_deletes [okeeps_intros]:
  "okeeps (oexec (delete_tmvts P))" "okeeps (oexec (delete_estimates i))" "okeeps (oexec (delete_osms_mvts Q))"
  by (rule okeeps_exec, simp add: delete_tmvts_inv delete_estimates_def delete_osms_mvts_inv)+

lemma okeeps_flags [okeeps_intros]:
  "okeeps (oexec (update_osms_train i (\<lambda>t. t\<lparr>ot_cancelled := True\<rparr>)))"
  "okeeps (oexec (update_osms_train i (\<lambda>t. t\<lparr>ot_terminated := True\<rparr>)))"
  "okeeps (oexec (update_osms_train i (\<lambda>t. t\<lparr>ot_nre_id := n\<rparr>)))"
  by (rule okeeps_exec, rule update_osms_train_inv, simp_all)+

lemma okeeps_activation [okeeps_intros]: "okeeps (osms_activation C a)"
  by (auto simp: osms_activation_def Let_def intro!: okeeps_intros split: prod.splits)

lemma okeeps_cancellation [okeeps_intros]: "okeeps (osms_cancellation C c)"
  by (simp add: osms_cancellation_def Let_def okeeps_intros)

lemma okeeps_register [okeeps_intros]: "okeeps (register_mvt T m train mvt)"
  by (simp add: register_mvt_def estimate_mvt_def okeeps_intros)

lemma okeeps_movement [okeeps_intros]: "okeeps (osms_movement T C m)"
  by (simp add: osms_movement_def end_train_def Let_def okeeps_intros)

lemma okeeps_event: "okeeps (process_ntrod_event T C r)"
  by (auto simp: process_ntrod_event_def intro!: okeeps_intros split: mvt_body.splits)

lemma count_stats_db [simp]: "wk_db (count_stats names w) = wk_db w"
  by (simp add: count_stats_def)

lemma on_ntrod_record_inv:
  assumes "ntrod_inv (wk_db w)"
  shows "ntrod_inv (wk_db (on_ntrod_record T C r w))"
proof -
  let ?w = "count_stats [''messages.recv'', osms_dest (rec_body r) @ ''.recv''] w"
  have "ntrod_inv (wk_db (snd (process_ntrod_event T C r ?w)))"
    using okeeps_event assms by (simp add: okeeps_def)
  then show ?thesis by (auto simp: on_ntrod_record_def Let_def split: prod.splits sum.splits)
qed

lemma osms_on_movement_inv:
  assumes "ntrod_inv (wk_db w)"
  shows "ntrod_inv (wk_db (osms_on_movement T C batch w))"
proof (cases batch)
  case (Some rs)
  have "ntrod_inv (wk_db (fold (on_ntrod_record T C) rs v))" if "ntrod_inv (wk_db v)" for v
    using that by (induction rs arbitrary: v) (simp_all add: on_ntrod_record_inv)
  with Some assms show ?thesis by (simp add: osms_on_movement_def)
qed (simp add: osms_on_movement_def assms)

lemma vstp_mvts_inv:
  assumes "ntrod_inv db" "res_fold (vstp_mvt_insert sid) mvts db = Inr db'"
  shows "ntrod_inv db'"
  using assms(2) assms(1)
  by (intro res_fold_invariant [where P = ntrod_inv, OF _ assms(1) assms(2)])
    (auto simp: vstp_mvt_insert_def res_map_Inr dest: mvt_insert_inv(1) split: prod.splits)

lemma process_vstp_inv:
  assumes "ntrod_inv db" "process_vstp r db = Inr db'"
  shows "ntrod_inv db'"
  using assms
  by (cases r) (auto simp: res_bind_Inr split: vstp_schedule_record.splits if_splits
      dest: delete_osms_schedules_inv vstp_mvts_inv [OF schedule_insert_inv(1)])

lemma osms_on_vstp_inv: "ntrod_inv (wk_db w) \<Longrightarrow> ntrod_inv (wk_db (osms_on_vstp msg w))"
  by (auto simp: osms_on_vstp_def split: option.splits sum.splits dest: process_vstp_inv)

section \<open>What a movement leaves behind\<close>

definition tmvt_content :: "osms_train_mvt \<Rightarrow> osms_train_mvt" where
  "tmvt_content r = r\<lparr>otm_id := 0\<rparr>"

lemma tmvt_content_id [simp]: "tmvt_content (r\<lparr>otm_id := i\<rparr>) = tmvt_content r"
  by (simp add: tmvt_content_def)

lemma obind_Inr: "obind m f w = (Inr b, w2) \<longleftrightarrow> (\<exists>a w1. m w = (Inr a, w1) \<and> f a w1 = (Inr b, w2))"
  by (auto simp: obind_def split: prod.splits sum.splits)

lemma omonad_Inr:
  "oret a w = (Inr b, w1) \<longleftrightarrow> b = a \<and> w1 = w"
  "ofail e w = (Inr b, w1) \<longleftrightarrow> False"
  "osms_incr d w = (Inr u, w1) \<longleftrightarrow> w1 = count_stats [d] w"
  "oquery q w = (Inr b, w1) \<longleftrightarrow> q (wk_db w) = Inr b \<and> w1 = w"
  "oexec f w = (Inr u, w1) \<longleftrightarrow> w1 = w\<lparr>wk_db := f (wk_db w)\<rparr>"
  "oinsert g w = (Inr b, w1) \<longleftrightarrow> (\<exists>db. g (wk_db w) = Inr (b, db) \<and> w1 = w\<lparr>wk_db := db\<rparr>)"
  "otrans m w = (Inr b, w1) \<longleftrightarrow> m w = (Inr b, w1)"
  by (auto simp: oret_def ofail_def osms_incr_def count_stats_def oquery_def oexec_def oinsert_def otrans_def
      split: sum.splits prod.splits)

lemmas orun = obind_Inr omonad_Inr

abbreviation estimate_keys :: "int \<Rightarrow> osms_mvt list \<Rightarrow> (int \<times> int \<times> int) set" where
  "estimate_keys train ms \<equiv> (\<lambda>k. (train, om_id k, mvt_source_trust_naive)) ` set ms"

lemma estimates_spec:
  assumes "ntrod_inv (wk_db w)" "distinct (map om_id ms)" "ofor (estimate_mvt T train actual mvt) ms w = (Inr (), w')"
  shows "tmvt_content ` set (on_tmvts (wk_db w')) =
      tmvt_content ` {r \<in> set (on_tmvts (wk_db w)). osms_tmvt_key r \<notin> estimate_keys train ms} \<union>
      (\<lambda>k. tmvt_content (naive_estimate T train actual mvt k)) ` set ms"
  using assms
proof (induction ms arbitrary: w)
  case Nil
  then show ?case by (simp add: orun)
next
  case (Cons k ms)
  let ?e = "naive_estimate T train actual mvt k"
  obtain i db1 where ins: "osms_tmvt_insert ?e (wk_db w) = Inr (i, db1)"
    and rest: "ofor (estimate_mvt T train actual mvt) ms (count_stats [''nrod.mvt.estimated''] (w\<lparr>wk_db := db1\<rparr>)) = (Inr (), w')"
    using Cons.prems(3) by (auto simp: estimate_mvt_def [of _ _ _ _ k] orun)
  have key: "osms_tmvt_key ?e = (train, om_id k, mvt_source_trust_naive)" "osms_tmvt_key (?e\<lparr>otm_id := i\<rparr>) = osms_tmvt_key ?e"
    by (simp_all add: osms_tmvt_key_def naive_estimate_def)
  have other: "osms_tmvt_key ?e \<notin> estimate_keys train ms" using Cons.prems(2) by (auto simp: key image_iff)
  have inv1: "ntrod_inv db1" by (rule tmvt_insert_inv [OF Cons.prems(1) ins])
  have "tmvt_content ` set (on_tmvts (wk_db w')) =
      tmvt_content ` {r \<in> set (on_tmvts db1). osms_tmvt_key r \<notin> estimate_keys train ms} \<union>
      (\<lambda>k. tmvt_content (naive_estimate T train actual mvt k)) ` set ms"
    using Cons.IH [OF _ _ rest] Cons.prems(2) inv1 by simp
  also have "{r \<in> set (on_tmvts db1). osms_tmvt_key r \<notin> estimate_keys train ms} =
      insert (?e\<lparr>otm_id := i\<rparr>) {r \<in> set (on_tmvts (wk_db w)). osms_tmvt_key r \<notin> estimate_keys train (k # ms)}"
    unfolding tmvt_insert_spec(1) [OF Cons.prems(1) ins] using other by (auto simp: key image_iff)
  finally show ?case by (simp add: insert_commute)
qed

text \<open>The reports a movement replaces.\<close>

definition superseded :: "movement \<Rightarrow> osms_train \<Rightarrow> osms_mvt \<Rightarrow> osms_mvt set \<Rightarrow> osms_train_mvt \<Rightarrow> bool" where
  "superseded m train mvt later r \<longleftrightarrow>
     mvt_train_terminated m \<and> otm_parent_train r = ot_id train \<and> otm_estimated r \<or>
     osms_tmvt_key r = (ot_id train, om_id mvt, mvt_source_trust) \<or>
     otm_parent_mvt r = om_id mvt \<and> otm_source r = mvt_source_trust_naive \<and> otm_estimated r \<or>
     osms_tmvt_key r \<in> (\<lambda>k. (ot_id train, om_id k, mvt_source_trust_naive)) ` later"

lemma register_spec:
  assumes inv: "ntrod_inv (wk_db w)" and reg: "register_mvt T m train mvt w = (Inr (), w')"
  shows "tmvt_content ` set (on_tmvts (wk_db w')) =
    tmvt_content ` ({r \<in> set (on_tmvts (wk_db w)). osms_tmvt_key r \<noteq> (ot_id train, om_id mvt, mvt_source_trust) \<and>
        \<not> (otm_parent_mvt r = om_id mvt \<and> otm_source r = mvt_source_trust_naive \<and> otm_estimated r) \<and>
        osms_tmvt_key r \<notin> estimate_keys (ot_id train) (remaining_mvts (ot_parent_sched train) (om_time mvt) (wk_db w))}) \<union>
    {tmvt_content (trust_report (ot_id train) (om_id mvt) m)} \<union>
    (\<lambda>k. tmvt_content (naive_estimate T (ot_id train) (dt_time (mvt_actual_timestamp m)) mvt k)) `
      set (remaining_mvts (ot_parent_sched train) (om_time mvt) (wk_db w))"
proof -
  let ?r = "trust_report (ot_id train) (om_id mvt) m"
  obtain i db1 where ins: "osms_tmvt_insert ?r (wk_db w) = Inr (i, db1)" using reg by (auto simp: register_mvt_def orun)
  let ?P = "\<lambda>t. otm_parent_mvt t = om_id mvt \<and> otm_source t = 2 \<and> otm_estimated t"
  let ?db2 = "delete_tmvts ?P db1"
  let ?ms = "remaining_mvts (ot_parent_sched train) (om_time mvt) ?db2"
  let ?actual = "dt_time (mvt_actual_timestamp m)"
  have rest: "ofor (estimate_mvt T (ot_id train) ?actual mvt) ?ms
      (count_stats [''nrod.mvt.actual''] (w\<lparr>wk_db := db1\<rparr>)\<lparr>wk_db := ?db2\<rparr>) = (Inr (), w')"
    using reg ins by (simp add: register_mvt_def orun)
  note spec = tmvt_insert_spec [OF inv ins]
  have inv2: "ntrod_inv ?db2" by (rule delete_tmvts_inv) (rule tmvt_insert_inv [OF inv ins])
  have "on_mvts db1 = on_mvts (wk_db w)" by (subst spec(2)) simp
  then have ms: "?ms = remaining_mvts (ot_parent_sched train) (om_time mvt) (wk_db w)"
    by (simp add: remaining_mvts_def delete_tmvts_def)
  have "distinct (map om_id (filter P (on_mvts (wk_db w))))" for P
    using inv by (simp add: ntrod_inv_def mvts_ok_def serial_ok_def distinct_map_filter)
  from this [of "\<lambda>k. om_parent_sched k = ot_parent_sched train \<and> om_time mvt < om_time k"]
  have "distinct (map om_id ?ms)" unfolding ms unfolding remaining_mvts_def by (simp add: distinct_map)
  from estimates_spec [OF _ this rest] inv2
  have "tmvt_content ` set (on_tmvts (wk_db w')) =
      tmvt_content ` {r \<in> set (on_tmvts ?db2). osms_tmvt_key r \<notin> estimate_keys (ot_id train) ?ms} \<union>
      (\<lambda>k. tmvt_content (naive_estimate T (ot_id train) ?actual mvt k)) ` set ?ms" by simp
  moreover have "osms_tmvt_key (?r\<lparr>otm_id := i\<rparr>) = (ot_id train, om_id mvt, mvt_source_trust)"
      "otm_source (?r\<lparr>otm_id := i\<rparr>) = mvt_source_trust"
    by (simp_all add: osms_tmvt_key_def trust_report_def)
  then have "{r \<in> set (on_tmvts ?db2). osms_tmvt_key r \<notin> estimate_keys (ot_id train) ?ms} =
      insert (?r\<lparr>otm_id := i\<rparr>) {r \<in> set (on_tmvts (wk_db w)). osms_tmvt_key r \<noteq> (ot_id train, om_id mvt, mvt_source_trust) \<and>
        \<not> (otm_parent_mvt r = om_id mvt \<and> otm_source r = mvt_source_trust_naive \<and> otm_estimated r) \<and>
        osms_tmvt_key r \<notin> estimate_keys (ot_id train) ?ms}"
    by (auto simp: delete_tmvts_def spec(1) osms_tmvt_key_def mvt_source_trust_def mvt_source_trust_naive_def trust_report_def)
  ultimately show ?thesis unfolding ms by simp
qed

lemma end_train_tables:
  assumes "end_train m train w = (Inr (), w1)"
  shows "on_mvts (wk_db w1) = on_mvts (wk_db w)" "on_corpus (wk_db w1) = on_corpus (wk_db w)"
    and "on_tmvts (wk_db w1) =
      filter (\<lambda>r. \<not> (mvt_train_terminated m \<and> otm_parent_train r = ot_id train \<and> otm_estimated r)) (on_tmvts (wk_db w))"
  using assms
  by (auto simp: end_train_def orun update_osms_train_def delete_estimates_def delete_tmvts_def split: if_splits)

text \<open>
  C10. A movement message that is matched replaces the reports of the train it belongs to, and nothing else but this: the
  report of TRUST is stored with the time of the message, every movement of the schedule with a later time of day gets
  an estimate that is shifted by the delay, the estimates of a terminated train are deleted first, and the estimates
  for this movement are deleted - of every train that runs to this schedule, on whatever day.
\<close>

theorem osms_movement_spec:
  assumes "ntrod_inv (wk_db w)" "osms_movement T C m w = (Inr (), w')" "\<not> mvt_offroute_ind m"
    and "tiplocs_at (mvt_loc_stanox m) (wk_db w) \<noteq> []"
  shows "\<exists>train mvt. find_trust_train C (mvt_train_id m) (dt_date (mvt_actual_timestamp m)) (wk_db w) = Some train \<and>
    nth0 (matching_mvts (ot_parent_sched train) (tiplocs_at (mvt_loc_stanox m) (wk_db w)) [2, osms_action (mvt_event_type m)]
      (map_option dt_time (mvt_planned_timestamp m)) (wk_db w)) = Some mvt \<and>
    (let later = {k \<in> set (on_mvts (wk_db w)). om_parent_sched k = ot_parent_sched train \<and> om_time mvt < om_time k} in
     tmvt_content ` set (on_tmvts (wk_db w')) =
       tmvt_content ` {r \<in> set (on_tmvts (wk_db w)). \<not> superseded m train mvt later r} \<union>
       {tmvt_content (trust_report (ot_id train) (om_id mvt) m)} \<union>
       (\<lambda>k. tmvt_content (naive_estimate T (ot_id train) (dt_time (mvt_actual_timestamp m)) mvt k)) ` later)"
proof -
  obtain train w1 mvt where train: "find_trust_train C (mvt_train_id m) (dt_date (mvt_actual_timestamp m)) (wk_db w) = Some train"
    and ended: "end_train m train w = (Inr (), w1)" and stanox: "tiplocs_at (mvt_loc_stanox m) (wk_db w1) \<noteq> [] \<Longrightarrow>
      nth0 (matching_mvts (ot_parent_sched train) (tiplocs_at (mvt_loc_stanox m) (wk_db w1))
        [2, osms_action (mvt_event_type m)] (map_option dt_time (mvt_planned_timestamp m)) (wk_db w1)) = Some mvt \<and>
      register_mvt T m train mvt w1 = (Inr (), w')"
    using assms(2,3) by (auto simp: osms_movement_def Let_def orun split: if_splits)
  note tables = end_train_tables [OF ended]
  have "tiplocs_at (mvt_loc_stanox m) (wk_db w1) = tiplocs_at (mvt_loc_stanox m) (wk_db w)"
      "matching_mvts s ts as t (wk_db w1) = matching_mvts s ts as t (wk_db w)" for s ts as t
    by (simp_all add: tiplocs_at_def matching_mvts_def tables)
  with stanox assms(4) have mvt: "nth0 (matching_mvts (ot_parent_sched train) (tiplocs_at (mvt_loc_stanox m) (wk_db w))
        [2, osms_action (mvt_event_type m)] (map_option dt_time (mvt_planned_timestamp m)) (wk_db w)) = Some mvt"
    and reg: "register_mvt T m train mvt w1 = (Inr (), w')" by simp_all
  have inv1: "ntrod_inv (wk_db w1)"
    using okeepsD [where m = "end_train m train", OF _ assms(1) ended] by (simp add: end_train_def okeeps_intros)
  have later: "set (remaining_mvts (ot_parent_sched train) (om_time mvt) (wk_db w1)) =
      {k \<in> set (on_mvts (wk_db w)). om_parent_sched k = ot_parent_sched train \<and> om_time mvt < om_time k}"
    by (simp add: remaining_mvts_def tables)
  have kept: "{r \<in> set (on_tmvts (wk_db w1)). osms_tmvt_key r \<noteq> (ot_id train, om_id mvt, mvt_source_trust) \<and>
        \<not> (otm_parent_mvt r = om_id mvt \<and> otm_source r = mvt_source_trust_naive \<and> otm_estimated r) \<and>
        osms_tmvt_key r \<notin> estimate_keys (ot_id train) (remaining_mvts (ot_parent_sched train) (om_time mvt) (wk_db w1))} =
      {r \<in> set (on_tmvts (wk_db w)). \<not> superseded m train mvt
        {k \<in> set (on_mvts (wk_db w)). om_parent_sched k = ot_parent_sched train \<and> om_time mvt < om_time k} r}"
    unfolding later tables superseded_def by auto
  from register_spec [OF inv1 reg, unfolded kept, unfolded later] show ?thesis
    unfolding Let_def by (intro exI [of _ train] exI [of _ mvt] conjI train mvt)
qed

section \<open>A train over midnight\<close>

definition sample_night :: ntrod_db where
  "sample_night =
     \<lparr>on_schedules = [\<lparr>os_id = 1, os_uid = ''C1'', os_start_date = NaiveDate 1, os_end_date = NaiveDate 90, os_days = days_all,
        os_stp_indicator = StpPermanent, os_signalling_id = None, os_geo_generation = 0, os_source = 0,
        os_file_metaseq = None, os_darwin_id = None\<rparr>],
      on_mvts = [\<lparr>om_id = 1, om_parent_sched = 1, om_tiploc = ''EUSTON'', om_action = 1, om_time = from_hms 23 50 0,
          om_starts_path = None, om_ends_path = None, om_idx = Some 0, om_platform = None, om_public_time = None\<rparr>,
        \<lparr>om_id = 2, om_parent_sched = 1, om_tiploc = ''HARROW'', om_action = 0, om_time = from_hms 0 10 0,
          om_starts_path = None, om_ends_path = None, om_idx = Some 1, om_platform = None, om_public_time = None\<rparr>],
      on_trains = [\<lparr>ot_id = 1, ot_parent_sched = 1, ot_trust_id = Some ''T1'', ot_date = NaiveDate 7, ot_signalling_id = None,
        ot_cancelled = False, ot_terminated = False, ot_nre_id = None, ot_parent_nre_sched = None\<rparr>],
      on_tmvts = [\<lparr>otm_id = 1, otm_parent_train = 1, otm_parent_mvt = 1, otm_time = from_hms 23 50 0, otm_source = 0,
        otm_estimated = False, otm_platform = None, otm_pfm_suppr = False\<rparr>],
      on_sources = [\<lparr>ms_id = 0, ms_source_type = 0, ms_source_text = ''TRUST''\<rparr>, \<lparr>ms_id = 1, ms_source_type = 1, ms_source_text = ''Darwin''\<rparr>,
        \<lparr>ms_id = 2, ms_source_type = 0, ms_source_text = ''Estimates''\<rparr>],
      on_corpus = [\<lparr>ce_stanox = Some ''72'', ce_uic = None, ce_crs = None, ce_tiploc = Some ''HARROW'', ce_nlc = None,
        ce_nlcdesc = None, ce_nlcdesc16 = None\<rparr>],
      on_schedule_seq = 2, on_mvt_seq = 3, on_train_seq = 2, on_tmvt_seq = 2\<rparr>"

lemma sample_night_inv: "ntrod_inv sample_night"
  by (simp add: sample_night_def ntrod_inv_def ntrod_ok_defs serial_ok_def mvt_place_def trust_place_def)

definition sample_last :: movement where
  "sample_last =
     \<lparr>mvt_event_type = Event_Arrival, mvt_gbtt_timestamp = None, mvt_original_loc_stanox = None,
      mvt_planned_timestamp = Some (NaiveDateTime (NaiveDate 8) (from_hms 0 10 0)), mvt_timetable_variation = 2,
      mvt_original_loc_timestamp = None, mvt_current_train_id = None, mvt_delay_monitoring_point = True,
      mvt_next_report_run_time = None, mvt_reporting_stanox = None,
      mvt_actual_timestamp = NaiveDateTime (NaiveDate 8) (from_hms 0 12 0), mvt_correction_ind = False,
      mvt_event_source = AutoMan_Automatic, mvt_train_file_address = None, mvt_platform = Some ''3'',
      mvt_division_code = '''', mvt_train_terminated = True, mvt_train_id = ''T1'', mvt_offroute_ind = False,
      mvt_variation_status = Variation_Late, mvt_train_service_code = '''', mvt_toc_id = '''', mvt_loc_stanox = ''72'',
      mvt_auto_expected = None, mvt_direction_ind = Direction_None, mvt_route = None, mvt_planned_event_type = Event_Arrival,
      mvt_next_report_stanox = None, mvt_line_ind = None\<rparr>"

definition sample_after :: ntrod_db where
  "sample_after = sample_night\<lparr>
     on_trains := map (\<lambda>t. t\<lparr>ot_terminated := True\<rparr>) (on_trains sample_night),
     on_tmvts := on_tmvts sample_night @
       [\<lparr>otm_id = 2, otm_parent_train = 1, otm_parent_mvt = 2, otm_time = from_hms 0 12 0, otm_source = 0,
         otm_estimated = False, otm_platform = Some ''3'', otm_pfm_suppr = False\<rparr>,
        \<lparr>otm_id = 3, otm_parent_train = 1, otm_parent_mvt = 1, otm_time = from_hms 23 52 0, otm_source = 2,
         otm_estimated = True, otm_platform = None, otm_pfm_suppr = False\<rparr>],
     on_tmvt_seq := 4\<rparr>"

text \<open>
  The train ends at ten past midnight. The movements that come later by the time of day are those of the evening before:
  the train that has ended is estimated to leave Euston at 23:52.
\<close>

lemma estimate_of_the_past:
  "osms_movement time_civil chrono_civil sample_last \<lparr>wk_db = sample_night, wk_stats = []\<rparr> =
     (Inr (), \<lparr>wk_db = sample_after, wk_stats = [''nrod.mvt.terminated'', ''nrod.mvt.actual'', ''nrod.mvt.estimated'']\<rparr>)"
  by (simp add: osms_movement_def sample_last_def sample_night_def sample_after_def obind_def oquery_def oexec_def oinsert_def
      oret_def osms_incr_def end_train_def find_trust_train_def chrono_civil_def tiplocs_at_def matching_mvts_def
      update_osms_train_def delete_estimates_def delete_tmvts_def register_mvt_def trust_report_def osms_tmvt_insert_def
      osms_tmvt_key_def remaining_mvts_def estimate_mvt_def naive_estimate_def time_civil_def from_hms_def chrono_orders
      mvt_source_trust_def mvt_source_trust_naive_def Let_def count_stats_def)

lemma osms_movement_spec_witness:
  "\<exists>train mvt. find_trust_train chrono_civil ''T1'' (NaiveDate 8) sample_night = Some train \<and>
    tmvt_content ` set (on_tmvts sample_after) =
       tmvt_content ` {r \<in> set (on_tmvts sample_night). \<not> superseded sample_last train mvt
         {k \<in> set (on_mvts sample_night). om_parent_sched k = ot_parent_sched train \<and> om_time mvt < om_time k} r} \<union>
       {tmvt_content (trust_report (ot_id train) (om_id mvt) sample_last)} \<union>
       (\<lambda>k. tmvt_content (naive_estimate time_civil (ot_id train) (from_hms 0 12 0) mvt k)) `
         {k \<in> set (on_mvts sample_night). om_parent_sched k = ot_parent_sched train \<and> om_time mvt < om_time k}"
proof -
  have "mvt_train_id sample_last = ''T1''" "dt_date (mvt_actual_timestamp sample_last) = NaiveDate 8"
      "dt_time (mvt_actual_timestamp sample_last) = from_hms 0 12 0" "\<not> mvt_offroute_ind sample_last"
      "tiplocs_at (mvt_loc_stanox sample_last) sample_night \<noteq> []"
    by (simp_all add: sample_last_def tiplocs_at_def sample_night_def)
  with osms_movement_spec [OF _ estimate_of_the_past] show ?thesis
    unfolding Let_def by (simp add: sample_night_inv) blast
qed

section \<open>A schedule that is taken back\<close>

lemma vstp_mvts_tables:
  assumes "res_fold (vstp_mvt_insert sid) ms db = Inr db'"
  shows "\<exists>new. db' = db\<lparr>on_mvts := on_mvts db @ new, on_mvt_seq := on_mvt_seq db'\<rparr> \<and>
    on_mvt_seq db \<le> on_mvt_seq db' \<and> (\<forall>m\<in>set new. om_parent_sched m = sid \<and> on_mvt_seq db \<le> om_id m)"
  using assms
proof (induction ms arbitrary: db)
  case Nil
  then show ?case by (intro exI [of _ "[]"]) simp
next
  case (Cons x ms)
  obtain db1 where step: "vstp_mvt_insert sid x db = Inr db1" "res_fold (vstp_mvt_insert sid) ms db1 = Inr db'"
    using Cons.prems by (auto split: sum.splits)
  obtain k where k: "db1 = db\<lparr>on_mvts := on_mvts db @ [k], on_mvt_seq := on_mvt_seq db + 1\<rparr>"
      "om_parent_sched k = sid" "om_id k = on_mvt_seq db"
    using step(1) by (auto simp: vstp_mvt_insert_def res_map_Inr osms_mvt_insert_def split: prod.splits if_splits)
  obtain new where new: "db' = db1\<lparr>on_mvts := on_mvts db1 @ new, on_mvt_seq := on_mvt_seq db'\<rparr>"
      "on_mvt_seq db1 \<le> on_mvt_seq db'" "\<forall>m\<in>set new. om_parent_sched m = sid \<and> on_mvt_seq db1 \<le> om_id m"
    using Cons.IH [OF step(2)] by blast
  have "db' = db\<lparr>on_mvts := on_mvts db @ (k # new), on_mvt_seq := on_mvt_seq db'\<rparr>" by (subst new(1)) (simp add: k(1))
  moreover have "\<forall>m\<in>set (k # new). om_parent_sched m = sid \<and> on_mvt_seq db \<le> om_id m" using new(3) k by fastforce
  moreover have "on_mvt_seq db \<le> on_mvt_seq db'" using new(2) k(1) by simp
  ultimately show ?case by blast
qed

lemma filter_all: "(\<And>x. x \<in> set xs \<Longrightarrow> P x) \<Longrightarrow> filter P xs = xs"
  by simp

lemma delete_new_schedule:
  assumes inv: "ntrod_inv db" and new: "\<forall>m\<in>set new. om_parent_sched m = sid \<and> on_mvt_seq db \<le> om_id m"
    and sid: "sid = on_schedule_seq db" "os_id s = sid" "P s" "\<forall>r\<in>set (on_schedules db). \<not> P r"
  shows "delete_osms_schedules P (db\<lparr>on_schedules := on_schedules db @ [s], on_schedule_seq := n, on_mvts := on_mvts db @ new,
      on_mvt_seq := k\<rparr>) = Inr (db\<lparr>on_schedule_seq := n, on_mvt_seq := k\<rparr>)"
proof -
  have ids: "r \<in> set (on_schedules db) \<Longrightarrow> os_id r \<noteq> sid" for r
    using inv by (auto simp: ntrod_inv_def schedules_ok_def serial_ok_def sid(1))
  have mvts: "m \<in> set (on_mvts db) \<Longrightarrow> om_parent_sched m \<noteq> sid \<and> om_id m < on_mvt_seq db" for m
    using inv ids by (fastforce simp: ntrod_inv_def mvts_ok_def serial_ok_def)
  have trains: "t \<in> set (on_trains db) \<Longrightarrow> ot_parent_sched t \<noteq> sid \<and> ot_parent_nre_sched t \<noteq> Some sid" for t
    using inv ids unfolding ntrod_inv_def osms_trains_ok_def by (metis (no_types, lifting) imageE insertE option.distinct(1) option.inject)
  have tmvts: "otm_parent_mvt t \<noteq> om_id m" if "t \<in> set (on_tmvts db)" "m \<in> set new" for t m
  proof -
    have "otm_parent_mvt t \<in> om_id ` set (on_mvts db)" using inv that(1) by (simp add: ntrod_inv_def tmvts_ok_def)
    then obtain r where "r \<in> set (on_mvts db)" "otm_parent_mvt t = om_id r" by auto
    with mvts new that(2) show ?thesis by fastforce
  qed
  have schedules: "filter P (on_schedules db @ [s]) = [s]" "filter (\<lambda>r. \<not> P r) (on_schedules db @ [s]) = on_schedules db"
    using sid by (auto simp: filter_empty_conv)
  have mvts': "filter (\<lambda>m. om_parent_sched m = sid) (on_mvts db @ new) = new"
      "filter (\<lambda>m. om_parent_sched m \<noteq> sid) (on_mvts db @ new) = on_mvts db"
    using mvts new by (auto simp: filter_empty_conv)
  have trains': "filter (\<lambda>t. ot_parent_sched t = sid) (on_trains db) = []"
      "filter (\<lambda>t. ot_parent_sched t \<noteq> sid) (on_trains db) = on_trains db"
    using trains by (auto simp: filter_empty_conv)
  have tmvts': "filter (\<lambda>t. otm_parent_mvt t \<notin> om_id ` set new) (on_tmvts db) = on_tmvts db"
    using tmvts by (intro filter_all) auto
  show ?thesis
    using trains
    by (auto simp: delete_osms_schedules_def delete_osms_mvts_def delete_osms_trains_def delete_tmvts_def Let_def
        schedules mvts' trains' tmvts' sid(2) simp del: filter_append set_filter)
qed

text \<open>
  C23. A schedule that is created at short notice and then deleted leaves no trace: the deletion finds it, takes its
  movements with it, and the tables are what they were; only the sequences have moved on.
\<close>

theorem vstp_create_delete:
  assumes "ntrod_inv db" "process_vstp (VstpV1 m1) db = Inr db1"
    and "vm_schedule m1 = VstpCreate uid tt start end_date days bh status stp tb segments"
    and "vm_schedule m2 = VstpDelete uid tt' start end_date' days' bh' status' stp"
  shows "process_vstp (VstpV1 m2) db1 = Inr (db\<lparr>on_schedule_seq := on_schedule_seq db1, on_mvt_seq := on_mvt_seq db1\<rparr>)"
proof -
  let ?P = "\<lambda>s. os_uid s = uid \<and> os_start_date s = start \<and> os_stp_indicator s = stp \<and> os_source s = sched_source_vstp"
  obtain seg :: vstp_schedule_segment and sid dbs where ins: "osms_schedule_insert
            \<lparr>os_id = -1, os_uid = uid, os_start_date = start, os_end_date = end_date,
             os_days = days, os_stp_indicator = stp, os_signalling_id = vs_signalling_id seg,
             os_geo_generation = 0, os_source = sched_source_vstp, os_file_metaseq = None, os_darwin_id = None\<rparr> db = Inr ((sid, False), dbs)"
    and mvts: "res_fold (vstp_mvt_insert sid) (List.enumerate 0 (concat (map vstp_mvts (vs_schedule_location seg)))) dbs = Inr db1"
    using assms(2,3) by (auto simp: res_bind_Inr split: if_splits)
  from ins obtain s where s: "dbs = db\<lparr>on_schedules := on_schedules db @ [s], on_schedule_seq := on_schedule_seq db + 1\<rparr>"
      "sid = on_schedule_seq db" "os_id s = sid" "?P s" "\<forall>r\<in>set (on_schedules db). \<not> ?P r"
    by (cases rule: schedule_insert_cases) (auto simp: osms_sched_key_def)
  obtain new where new: "db1 = dbs\<lparr>on_mvts := on_mvts dbs @ new, on_mvt_seq := on_mvt_seq db1\<rparr>"
      "\<forall>m\<in>set new. om_parent_sched m = sid \<and> on_mvt_seq dbs \<le> om_id m"
    using vstp_mvts_tables [OF mvts] by blast
  have db1: "db\<lparr>on_schedules := on_schedules db @ [s], on_schedule_seq := on_schedule_seq db + 1, on_mvts := on_mvts db @ new,
      on_mvt_seq := on_mvt_seq db1\<rparr> = db1" by (subst (2) new(1)) (simp add: s(1))
  have seq: "on_schedule_seq db1 = on_schedule_seq db + 1" by (subst new(1)) (simp add: s(1))
  have "\<forall>m\<in>set new. om_parent_sched m = sid \<and> on_mvt_seq db \<le> om_id m" using new(2) by (simp add: s(1))
  from delete_new_schedule [where P = ?P and n = "on_schedule_seq db + 1" and k = "on_mvt_seq db1", OF assms(1) this s(2,3,4,5)]
  have "delete_osms_schedules ?P db1 = Inr (db\<lparr>on_schedule_seq := on_schedule_seq db1, on_mvt_seq := on_mvt_seq db1\<rparr>)"
    by (simp only: db1 seq)
  with assms(4) show ?thesis by (simp add: map_err_def)
qed

definition sample_vstp :: "vstp_schedule_record \<Rightarrow> vstp_record" where
  "sample_vstp r = VstpV1 \<lparr>vm_timestamp = ''0'', vm_owner = ''NR'', vm_classification = ''industry'', vm_origin_msg_id = ''1'',
     vm_schedule = r\<rparr>"

definition vstp_sample_segment :: vstp_schedule_segment where
  "vstp_sample_segment =
     \<lparr>vs_train_category = Cat_None, vs_signalling_id = Some ''1A01'', vs_headcode = None, vs_business_sector = None,
      vs_power_type = Power_None, vs_timing_load = None, vs_speed = None, vs_operating_characteristics = None,
      vs_train_class = None, vs_sleepers = None, vs_reservations = None, vs_catering_code = None,
      vs_service_branding = None,
      vs_schedule_location =
        [VstpOriginating \<lparr>vo_scheduled_departure_time = from_hms 9 0 0, vo_public_departure_time = None,
           vo_platform = Some ''1'', vo_line = None, vo_path = None, vo_activity = None, vo_engineering_allowance = None,
           vo_pathing_allowance = None, vo_performance_allowance = None,
           vo_location = \<lparr>vl_tiploc = \<lparr>vlt_tiploc_id = ''EUSTON''\<rparr>\<rparr>\<rparr>]\<rparr>"

definition vstp_sample_create :: vstp_schedule_record where
  "vstp_sample_create = VstpCreate ''V9'' CreateType_Create (NaiveDate 7) (NaiveDate 7) days_all None TrainStatus_None StpNewSchedule
     YesOrNo_Y [vstp_sample_segment]"

definition sample_delete :: vstp_schedule_record where
  "sample_delete = VstpDelete ''V9'' DeleteType_Delete (NaiveDate 7) (NaiveDate 7) days_all None TrainStatus_None StpNewSchedule"

lemma sample_created:
  "\<exists>db1. process_vstp (sample_vstp vstp_sample_create) sample_night = Inr db1 \<and> on_schedule_seq db1 = 3 \<and> on_mvt_seq db1 = 4"
  by (simp add: sample_vstp_def vstp_sample_create_def vstp_sample_segment_def sample_night_def osms_schedule_insert_def osms_sched_key_def
      sched_source_vstp_def vstp_mvt_insert_def osms_mvt_insert_def enumerate_eq_zip)

lemma vstp_create_delete_witness:
  "\<exists>db1. process_vstp (sample_vstp vstp_sample_create) sample_night = Inr db1 \<and>
     process_vstp (sample_vstp sample_delete) db1 = Inr (sample_night\<lparr>on_schedule_seq := 3, on_mvt_seq := 4\<rparr>)"
proof -
  obtain db1 where db1: "process_vstp (sample_vstp vstp_sample_create) sample_night = Inr db1"
      "on_schedule_seq db1 = 3" "on_mvt_seq db1 = 4"
    using sample_created by blast
  note run = vstp_create_delete [OF sample_night_inv db1(1) [unfolded sample_vstp_def]]
  have "process_vstp (sample_vstp sample_delete) db1 = Inr (sample_night\<lparr>on_schedule_seq := 3, on_mvt_seq := 4\<rparr>)"
    unfolding sample_vstp_def db1(2,3) [symmetric]
    by (rule run) (simp_all add: vstp_sample_create_def sample_delete_def)
  with db1(1) show ?thesis by blast
qed

end
