(* ===== verification/Osms_Darwin.thy ===== *)
theory Osms_Darwin
  imports Osms_Live Darwin_Types
begin

text \<open>
  \<open>osms-nrod/src/darwin.rs\<close> and the handler \<open>on_darwin\<close> of \<open>main.rs\<close>: what the messages of Darwin do to the database of
  \<open>osms-db\<close>. A train is looked up in rounds, and a round may ask for another one, so that the functions from there on are
  partial: \<open>None\<close> stands for a call that does not return.

  A \<open>HashSet\<close> compares two movements by the hash of all their fields first and by \<open>PartialEq\<close> after that; the hash is
  the parameter \<open>H\<close>. A set is iterated in the order of insertion; no property depends on that order.
\<close>

section \<open>The train of a message\<close>

definition linkable_trains :: "string \<Rightarrow> naive_date \<Rightarrow> ntrod_db \<Rightarrow> osms_train list" where
  "linkable_trains uid start_date db =
     filter (\<lambda>t. (\<exists>s\<in>set (on_schedules db). os_uid s = uid \<and> os_start_date s \<le> start_date \<and> start_date \<le> os_end_date s \<and>
         os_id s = ot_parent_sched t) \<and> ot_date t = start_date \<and> ot_nre_id t = None) (on_trains db)"

definition darwin_auth_schedule :: "chrono \<Rightarrow> string \<Rightarrow> string \<Rightarrow> naive_date \<Rightarrow> ntrod_db \<Rightarrow> osms_nrod_error + osms_schedule" where
  "darwin_auth_schedule C rid uid start_date db =
     res_bind (osms_auth_loop NeTwoAuthoritativeSchedulesDarwin C start_date db
         (filter (\<lambda>s. os_uid s = uid \<and> os_start_date s \<le> start_date \<and> start_date \<le> os_end_date s \<and> os_source s = sched_source_itps)
           (on_schedules db)) None)
       (ok_or (NeNoAuthoritativeSchedulesDarwin rid uid start_date))"

text \<open>The insertion; \<open>None\<close> asks for another round.\<close>

definition darwin_train_insert :: "osms_train \<Rightarrow> osms_train option osms_m" where
  "darwin_train_insert t w =
     (case osms_train_insert t (wk_db w) of
        Inl (ODoubleTrainActivation ps date) \<Rightarrow> (Inr None, count_stats [''darwin.link.double_activation''] w)
      | Inl e \<Rightarrow> (Inl (NeDb e), w)
      | Inr ((train, was_update), db) \<Rightarrow>
          (Inr (Some train),
           count_stats [if was_update then ''darwin.link.linked_existing'' else ''darwin.link.darwin_activation'']
             (w\<lparr>wk_db := db\<rparr>)))"

definition darwin_link_round :: "chrono \<Rightarrow> string \<Rightarrow> string \<Rightarrow> naive_date \<Rightarrow> osms_train option osms_m" where
  "darwin_link_round C rid uid start_date =
     otrans
      (obind (oquery (\<lambda>db. Inr (nth0 (filter (\<lambda>t. ot_nre_id t = Some rid) (on_trains db))))) (\<lambda>prelinked.
       case prelinked of
         Some t \<Rightarrow> obind (osms_incr ''darwin.link.train_prelinked'') (\<lambda>_. oret (Some t))
       | None \<Rightarrow>
           obind (oquery (\<lambda>db. Inr (linkable_trains uid start_date db))) (\<lambda>trains.
           case trains of
             [train] \<Rightarrow>
               obind (osms_incr ''darwin.link.train_matched'') (\<lambda>_.
               obind (oexec (update_osms_train (ot_id train) (\<lambda>t. t\<lparr>ot_nre_id := Some rid\<rparr>))) (\<lambda>_. oret (Some train)))
           | _ \<Rightarrow>
               obind (oquery (darwin_auth_schedule C rid uid start_date)) (\<lambda>auth_schedule.
               darwin_train_insert
                 \<lparr>ot_id = -1, ot_parent_sched = os_id auth_schedule, ot_trust_id = None, ot_date = start_date,
                  ot_signalling_id = None, ot_cancelled = False, ot_terminated = False, ot_nre_id = Some rid,
                  ot_parent_nre_sched = None\<rparr>))))"

partial_function (option) get_train_for_rid_uid_ssd ::
    "chrono \<Rightarrow> string \<Rightarrow> string \<Rightarrow> naive_date \<Rightarrow> osms_worker \<Rightarrow> ((osms_nrod_error + osms_train) \<times> osms_worker) option" where
  "get_train_for_rid_uid_ssd C rid uid start_date w =
     (case darwin_link_round C rid uid start_date w of
        (Inl e, w1) \<Rightarrow> Some (Inl e, w1)
      | (Inr (Some train), w1) \<Rightarrow> Some (Inr train, w1)
      | (Inr None, w1) \<Rightarrow> get_train_for_rid_uid_ssd C rid uid start_date w1)"

section \<open>Schedules\<close>

text \<open>The primary and the secondary movement of a location: its action, its time and its public time, with the delay added.\<close>

definition delayed_mvt ::
    "time_ops \<Rightarrow> int \<Rightarrow> string \<Rightarrow> int \<Rightarrow> naive_time \<Rightarrow> naive_time option \<Rightarrow> osms_mvt" where
  "delayed_mvt T rdelay tiploc action time public_time =
     \<lparr>om_id = -1, om_parent_sched = -1, om_tiploc = tiploc, om_action = action, om_time = to_minutes T time rdelay,
      om_starts_path = None, om_ends_path = None, om_idx = None, om_platform = None,
      om_public_time = map_option (\<lambda>x. to_minutes T x rdelay) public_time\<rparr>"

definition darwin_loc_pair ::
    "time_ops \<Rightarrow> int \<Rightarrow> string \<Rightarrow> int \<Rightarrow> naive_time \<times> naive_time option \<Rightarrow> int \<Rightarrow> naive_time option \<times> naive_time option \<Rightarrow> osms_mvt list" where
  "darwin_loc_pair T rdelay tiploc primary_action primary_time secondary_action secondary_time =
     delayed_mvt T rdelay tiploc primary_action (fst primary_time) (snd primary_time) #
     (case fst secondary_time of
        None \<Rightarrow> []
      | Some time \<Rightarrow> [delayed_mvt T rdelay tiploc secondary_action time (snd secondary_time)])"

fun darwin_loc_mvts :: "time_ops \<Rightarrow> darwin_location \<Rightarrow> osms_mvt list" where
  "darwin_loc_mvts T (DLocOr l) =
     darwin_loc_pair T 0 (sla_tpl (or_sla l)) 1 (or_wtd l, cpa_ptd (or_cpa l)) 0 (or_wta l, cpa_pta (or_cpa l))"
| "darwin_loc_mvts T (DLocOpOr l) =
     darwin_loc_pair T 0 (sla_tpl (opor_sla l)) 1 (opor_wtd l, None) 0 (opor_wta l, None)"
| "darwin_loc_mvts T (DLocIp l) =
     darwin_loc_pair T (ip_rdelay_mins l) (sla_tpl (ip_sla l)) 1 (ip_wtd l, cpa_ptd (ip_cpa l)) 0 (Some (ip_wta l), cpa_pta (ip_cpa l))"
| "darwin_loc_mvts T (DLocOpIp l) =
     darwin_loc_pair T (opip_rdelay_mins l) (sla_tpl (opip_sla l)) 1 (opip_wtd l, None) 0 (Some (opip_wta l), None)"
| "darwin_loc_mvts T (DLocPp l) =
     darwin_loc_pair T (pp_rdelay_mins l) (sla_tpl (pp_sla l)) 2 (pp_wtp l, None) 0 (None, None)"
| "darwin_loc_mvts T (DLocDt l) =
     darwin_loc_pair T (dt_rdelay_mins l) (sla_tpl (dt_sla l)) 0 (dt_wta l, cpa_pta (dt_cpa l)) 1 (dt_wtd l, cpa_ptd (dt_cpa l))"
| "darwin_loc_mvts T (DLocOpDt l) =
     darwin_loc_pair T (opdt_rdelay_mins l) (sla_tpl (opdt_sla l)) 0 (opdt_wta l, None) 1 (opdt_wtd l, None)"

definition darwin_mvts :: "time_ops \<Rightarrow> darwin_schedule \<Rightarrow> osms_mvt list" where
  "darwin_mvts T sched =
     sort_key (\<lambda>m. case om_idx m of None \<Rightarrow> -1 | Some i \<Rightarrow> i)
       (map (\<lambda>(i, m). m\<lparr>om_idx := Some (int i)\<rparr>) (List.enumerate 0 (concat (map (darwin_loc_mvts T) (ds_locations sched)))))"

text \<open>\<open>HashSet\<close>: what \<open>collect\<close> keeps, and \<open>difference\<close>.\<close>

definition hash_same :: "(osms_mvt \<Rightarrow> nat) \<Rightarrow> osms_mvt \<Rightarrow> osms_mvt \<Rightarrow> bool" where
  "hash_same H a b \<longleftrightarrow> H a = H b \<and> osms_mvt_eq a b"

definition hash_collect :: "(osms_mvt \<Rightarrow> nat) \<Rightarrow> osms_mvt list \<Rightarrow> osms_mvt list" where
  "hash_collect H ms = fold (\<lambda>m s. if \<exists>k\<in>set s. hash_same H k m then s else s @ [m]) ms []"

definition hash_difference :: "(osms_mvt \<Rightarrow> nat) \<Rightarrow> osms_mvt list \<Rightarrow> osms_mvt list \<Rightarrow> osms_mvt list" where
  "hash_difference H a b = filter (\<lambda>m. \<not> (\<exists>k\<in>set b. hash_same H m k)) a"

definition insert_mvt_of :: "int \<Rightarrow> osms_mvt \<Rightarrow> unit osms_m" where
  "insert_mvt_of sid m = obind (oinsert (osms_mvt_insert (m\<lparr>om_parent_sched := sid\<rparr>))) (\<lambda>_. oret ())"

definition replace_mvts :: "(osms_mvt \<Rightarrow> nat) \<Rightarrow> int \<Rightarrow> osms_mvt list \<Rightarrow> unit osms_m" where
  "replace_mvts H sid mvts =
     obind (oquery (\<lambda>db. Inr (sort_key om_id (filter (\<lambda>m. om_parent_sched m = sid) (on_mvts db))))) (\<lambda>rows.
     let orig_mvts = hash_collect H rows;
         new_mvts = hash_collect H mvts;
         to_delete = map om_id (hash_difference H orig_mvts new_mvts)
     in obind (oexec (delete_osms_mvts (\<lambda>m. om_id m \<in> set to_delete))) (\<lambda>_.
        obind (ofor (insert_mvt_of sid) (hash_difference H new_mvts orig_mvts)) (\<lambda>_.
        osms_incr ''darwin.sched.updated'')))"

definition darwin_schedule_row :: "darwin_schedule \<Rightarrow> osms_schedule" where
  "darwin_schedule_row sched =
     \<lparr>os_id = -1, os_uid = ds_uid sched, os_start_date = ds_ssd sched, os_end_date = ds_ssd sched, os_days = days_all,
      os_stp_indicator = StpNewSchedule, os_signalling_id = Some (ds_train_id sched), os_geo_generation = 0,
      os_source = sched_source_darwin, os_file_metaseq = None, os_darwin_id = Some (ds_rid sched)\<rparr>"

definition store_schedule :: "time_ops \<Rightarrow> (osms_mvt \<Rightarrow> nat) \<Rightarrow> darwin_schedule \<Rightarrow> osms_train \<Rightarrow> unit osms_m" where
  "store_schedule T H sched train =
     (let mvts = darwin_mvts T sched
      in obind (oquery (\<lambda>db. Inr (sort_key mvt_order (filter (\<lambda>m. om_parent_sched m = ot_parent_sched train) (on_mvts db)))))
         (\<lambda>orig_mvts.
         if list_all2 osms_mvt_eq mvts orig_mvts then osms_incr ''darwin.sched.identical''
         else
           obind (oinsert (osms_schedule_insert (darwin_schedule_row sched))) (\<lambda>(sid, updated).
           obind (if updated then replace_mvts H sid mvts
                  else obind (ofor (insert_mvt_of sid) mvts) (\<lambda>_. osms_incr ''darwin.sched.inserted'')) (\<lambda>_.
           oexec (update_osms_train (ot_id train) (\<lambda>t. t\<lparr>ot_parent_nre_sched := Some sid\<rparr>))))))"

definition osms_process_schedule ::
    "time_ops \<Rightarrow> chrono \<Rightarrow> (osms_mvt \<Rightarrow> nat) \<Rightarrow> darwin_schedule \<Rightarrow> osms_worker \<Rightarrow> ((osms_nrod_error + unit) \<times> osms_worker) option" where
  "osms_process_schedule T C H sched w =
     map_option (\<lambda>(r, w1). case r of Inl e \<Rightarrow> (Inl e, w1) | Inr train \<Rightarrow> otrans (store_schedule T H sched train) w1)
       (get_train_for_rid_uid_ssd C (ds_rid sched) (ds_uid sched) (ds_ssd sched) w)"

section \<open>Train status\<close>

type_synonym ts_mvt_update = "string \<times> int \<times> naive_time \<times> ts_time_data \<times> platform_data option"

definition ts_part ::
    "string \<Rightarrow> platform_data option \<Rightarrow> int \<Rightarrow> ts_time_data option \<Rightarrow> naive_time option \<Rightarrow> osms_nrod_error + ts_mvt_update list" where
  "ts_part tiploc plat action data timing =
     (case data of
        None \<Rightarrow> Inr []
      | Some d \<Rightarrow> res_map (\<lambda>st. [(tiploc, action, st, d, plat)]) (ok_or NeDarwinTimingsMissing timing))"

definition ts_location_updates :: "ts_location \<Rightarrow> osms_nrod_error + ts_mvt_update list" where
  "ts_location_updates loc =
     (let ct = tl_timings loc; part = ts_part (tl_tiploc loc) (tl_plat loc)
      in res_bind (part action_arrival (tl_arr loc) (opt_or (ct_wta ct) (ct_pta ct))) (\<lambda>arr.
         res_bind (part action_departure (tl_dep loc) (opt_or (ct_wtd ct) (ct_ptd ct))) (\<lambda>dep.
         res_map (\<lambda>pass. arr @ dep @ pass) (part action_pass (tl_pass loc) (ct_wtp ct)))))"

definition find_mvt_at :: "int \<Rightarrow> string \<Rightarrow> int \<Rightarrow> naive_time \<Rightarrow> ntrod_db \<Rightarrow> osms_mvt option" where
  "find_mvt_at sched tiploc action time db =
     nth0 (filter (\<lambda>m. om_parent_sched m = sched \<and> om_tiploc m = tiploc \<and> om_action m = action \<and> om_time m = time) (on_mvts db))"

text \<open>The movement an update is for; the errors are collected by the caller.\<close>

definition ts_find :: "osms_train \<Rightarrow> string \<Rightarrow> int \<Rightarrow> naive_time \<Rightarrow> osms_mvt osms_m" where
  "ts_find train tiploc action time =
     obind (oquery (\<lambda>db. Inr (find_mvt_at (ot_parent_sched train) tiploc action time db))) (\<lambda>found.
     case found of
       Some m \<Rightarrow> oret m
     | None \<Rightarrow>
         (case ot_parent_nre_sched train of
            None \<Rightarrow> ofail (NeNoMovementsFound (ot_parent_sched train) [action] [tiploc] (Some time))
          | Some darwin_sched \<Rightarrow>
              obind (oquery (\<lambda>db. ok_or (NeNoMovementsFoundDarwin (ot_parent_sched train) [action] [tiploc] (Some time))
                  (find_mvt_at darwin_sched tiploc action time db))) (\<lambda>m.
              obind (osms_incr ''darwin.ts.darwin_sched_mvt'') (\<lambda>_. oret m))))"

definition ts_report :: "osms_train \<Rightarrow> osms_mvt \<Rightarrow> ts_time_data \<Rightarrow> naive_time \<Rightarrow> platform_data option \<Rightarrow> osms_train_mvt" where
  "ts_report train mvt tstd time plat =
     \<lparr>otm_id = -1, otm_parent_train = ot_id train, otm_parent_mvt = om_id mvt, otm_time = time, otm_source = mvt_source_darwin,
      otm_estimated = (tt_at tstd = None), otm_platform = map_option pd_platform plat,
      otm_pfm_suppr = (case plat of None \<Rightarrow> False | Some p \<Rightarrow> pd_platsup p)\<rparr>"

definition apply_ts_mvt :: "osms_train \<Rightarrow> ts_mvt_update \<Rightarrow> unit osms_m" where
  "apply_ts_mvt train u =
     (case u of (tiploc, action, time, tstd, plat) \<Rightarrow>
        otrans (obind (ts_find train tiploc action time) (\<lambda>mvt.
          case opt_or (tt_at tstd) (opt_or (tt_wet tstd) (tt_et tstd)) of
            None \<Rightarrow> osms_incr ''darwin.ts.no_useful_time''
          | Some t \<Rightarrow>
              obind (if tt_at_removed tstd
                     then obind (osms_incr ''darwin.ts.at_removed'') (\<lambda>_.
                       oexec (delete_tmvts (\<lambda>r. otm_parent_mvt r = om_id mvt \<and> otm_source r = mvt_source_darwin)))
                     else oret ()) (\<lambda>_.
              obind (osms_incr (if tt_at tstd \<noteq> None then ''darwin.ts.actual'' else ''darwin.ts.estimated'')) (\<lambda>_.
              obind (oinsert (osms_tmvt_insert (ts_report train mvt tstd t plat))) (\<lambda>_. oret ()))))))"

fun apply_ts_mvts :: "osms_train \<Rightarrow> ts_mvt_update list \<Rightarrow> osms_worker \<Rightarrow> osms_nrod_error list \<times> osms_worker" where
  "apply_ts_mvts train [] w = ([], w)"
| "apply_ts_mvts train (u # us) w =
     (case apply_ts_mvt train u w of
        (r, w1) \<Rightarrow>
          (case apply_ts_mvts train us w1 of
             (errs, w2) \<Rightarrow> ((case r of Inl e \<Rightarrow> [e] | Inr _ \<Rightarrow> []) @ errs, w2)))"

text \<open>The updates that could be made are kept whatever the others came to.\<close>

definition store_ts :: "train_status_msg \<Rightarrow> osms_train \<Rightarrow> unit osms_m" where
  "store_ts ts train w =
     (case res_mapM ts_location_updates (ts_locations ts) of
        Inl e \<Rightarrow> (Inl e, w)
      | Inr updates \<Rightarrow>
          (case apply_ts_mvts train (concat updates) w of
             (errs, w1) \<Rightarrow> (if errs = [] then Inr () else Inl (NeMultipleFailures errs), w1)))"

definition osms_process_ts ::
    "chrono \<Rightarrow> train_status_msg \<Rightarrow> osms_worker \<Rightarrow> ((osms_nrod_error + unit) \<times> osms_worker) option" where
  "osms_process_ts C ts w =
     map_option (\<lambda>(r, w1). case r of Inl e \<Rightarrow> (Inl e, w1) | Inr train \<Rightarrow> store_ts ts train w1)
       (get_train_for_rid_uid_ssd C (ts_rid ts) (ts_uid ts) (ts_start_date ts) w)"

section \<open>Messages\<close>

text \<open>One element of a message, with the counters around it.\<close>

definition darwin_item ::
    "string \<Rightarrow> string \<Rightarrow> string \<Rightarrow> string \<Rightarrow> (osms_worker \<Rightarrow> ((osms_nrod_error + unit) \<times> osms_worker) option) \<Rightarrow> osms_worker \<Rightarrow>
      osms_worker option" where
  "darwin_item recv processed fails fail f w =
     map_option (\<lambda>(r, w1). case r of
         Inr _ \<Rightarrow> count_stats [processed] w1
       | Inl e \<Rightarrow> count_stats (send_to_stats fails e @ [fail]) w1)
       (f (count_stats [recv] w))"

fun option_fold :: "('a \<Rightarrow> 's \<Rightarrow> 's option) \<Rightarrow> 'a list \<Rightarrow> 's \<Rightarrow> 's option" where
  "option_fold f [] s = Some s"
| "option_fold f (x # xs) s = (case f x s of None \<Rightarrow> None | Some s1 \<Rightarrow> option_fold f xs s1)"

definition process_darwin_pport ::
    "time_ops \<Rightarrow> chrono \<Rightarrow> (osms_mvt \<Rightarrow> nat) \<Rightarrow> pport \<Rightarrow> osms_worker \<Rightarrow> ((osms_nrod_error + unit) \<times> osms_worker) option" where
  "process_darwin_pport T C H pp w =
     (case pp_inner pp of
        PportUnimplemented \<Rightarrow>
          Some (Inl (NeUnimplementedMessageType ''darwin_unknown''), count_stats [''darwin.unknown_message''] w)
      | DataResponse dr \<Rightarrow>
          Option.bind (option_fold (\<lambda>ts. darwin_item ''darwin.ts_recv'' ''darwin.ts_processed'' ''darwin.ts_fails'' ''darwin.ts_fail''
              (osms_process_ts C ts)) (rsp_train_status dr) w) (\<lambda>w1.
          map_option (Pair (Inr ())) (option_fold (\<lambda>sched. darwin_item ''darwin.sched.recv'' ''darwin.sched.processed''
              ''darwin.sched.fails'' ''darwin.sched.fail'' (osms_process_schedule T C H sched)) (rsp_schedule dr) w1)))"

datatype darwin_frame = FrameBroken | DocumentBroken | Document pport

definition osms_on_darwin ::
    "time_ops \<Rightarrow> chrono \<Rightarrow> (osms_mvt \<Rightarrow> nat) \<Rightarrow> darwin_frame \<Rightarrow> osms_worker \<Rightarrow> osms_worker option" where
  "osms_on_darwin T C H data w =
     (let w0 = count_stats [''darwin.recv''] w in
      case data of
        FrameBroken \<Rightarrow> Some (count_stats [''darwin.deflate_errors''] w0)
      | DocumentBroken \<Rightarrow> Some (count_stats [''darwin.parse_errors''] w0)
      | Document pp \<Rightarrow>
          map_option (\<lambda>(r, w1). case r of
              Inr _ \<Rightarrow> count_stats [''darwin.processed''] w1
            | Inl e \<Rightarrow> count_stats (send_to_stats ''darwin.fails'' e @ [''darwin.fail'']) w1)
            (process_darwin_pport T C H pp (count_stats [''darwin.parsed''] w0)))"

section \<open>A link that is never made\<close>

text \<open>
  The Darwin id is unknown, no single train without one fits, and the train that runs to the schedule of the day has
  another Darwin id already.
\<close>

definition link_blocked :: "chrono \<Rightarrow> string \<Rightarrow> string \<Rightarrow> naive_date \<Rightarrow> ntrod_db \<Rightarrow> bool" where
  "link_blocked C rid uid start_date db \<longleftrightarrow>
     (\<forall>t\<in>set (on_trains db). ot_nre_id t \<noteq> Some rid) \<and> length (linkable_trains uid start_date db) \<noteq> 1 \<and>
     (\<exists>s. darwin_auth_schedule C rid uid start_date db = Inr s \<and>
        (\<exists>t. List.find (\<lambda>t. ot_parent_sched t = os_id s \<and> ot_date t = start_date) (on_trains db) = Some t \<and> ot_nre_id t \<noteq> None))"

lemma osms_train_insert_double:
  "osms_train_insert t db = Inl (ODoubleTrainActivation ps d) \<longleftrightarrow>
     ps = ot_parent_sched t \<and> d = ot_date t \<and>
     (\<exists>r. List.find (\<lambda>r. ot_parent_sched r = ot_parent_sched t \<and> ot_date r = ot_date t) (on_trains db) = Some r \<and>
       \<not> (ot_trust_id r = None \<and> ot_trust_id t \<noteq> None \<or> ot_nre_id r = None \<and> ot_nre_id t \<noteq> None))"
proof (cases "List.find (\<lambda>r. ot_parent_sched r = ot_parent_sched t \<and> ot_date r = ot_date t) (on_trains db)")
  case (Some r)
  then show ?thesis
    by (cases "ot_trust_id r = None \<and> ot_trust_id t \<noteq> None \<or> ot_nre_id r = None \<and> ot_nre_id t \<noteq> None")
      (auto simp only: osms_train_insert_def Let_def option.case if_True if_False sum.inject osms_error.inject
        osms_error.distinct sum.distinct option.inject split: if_split)
next
  case None
  then show ?thesis by (simp add: osms_train_insert_def Let_def)
qed

lemma darwin_train_insert_retry:
  "darwin_train_insert t w = (Inr None, w1) \<longleftrightarrow>
     (\<exists>ps d. osms_train_insert t (wk_db w) = Inl (ODoubleTrainActivation ps d)) \<and>
     w1 = count_stats [''darwin.link.double_activation''] w"
  by (auto simp: darwin_train_insert_def split: sum.splits osms_error.splits)

text \<open>A round asks for another one exactly if the link is blocked, and then it has changed nothing.\<close>

lemma link_round_retry:
  "fst (darwin_link_round C rid uid d w) = Inr None \<longleftrightarrow> link_blocked C rid uid d (wk_db w)"
proof (cases "nth0 (filter (\<lambda>t. ot_nre_id t = Some rid) (on_trains (wk_db w)))")
  case (Some t)
  then have "\<not> link_blocked C rid uid d (wk_db w)"
    using nth0_filter_Some [OF Some] by (auto simp: link_blocked_def)
  with Some show ?thesis
    by (simp add: darwin_link_round_def otrans_def obind_def oquery_def osms_incr_def oret_def)
next
  case none: None
  then have fresh: "\<forall>t\<in>set (on_trains (wk_db w)). ot_nre_id t \<noteq> Some rid" by (auto simp: filter_empty_conv)
  show ?thesis
  proof (cases "length (linkable_trains uid d (wk_db w)) = 1")
    case True
    then obtain t where "linkable_trains uid d (wk_db w) = [t]" by (auto simp: length_Suc_conv)
    with True none show ?thesis
      by (simp add: darwin_link_round_def otrans_def obind_def oquery_def osms_incr_def oret_def oexec_def link_blocked_def)
  next
    case False
    let ?t = "\<lambda>s. \<lparr>ot_id = -1, ot_parent_sched = os_id s, ot_trust_id = None, ot_date = d,
                  ot_signalling_id = None, ot_cancelled = False, ot_terminated = False, ot_nre_id = Some rid,
                  ot_parent_nre_sched = None\<rparr>"
    have round: "darwin_link_round C rid uid d w =
        otrans (obind (oquery (darwin_auth_schedule C rid uid d)) (\<lambda>s. darwin_train_insert (?t s))) w"
      using none False
      by (auto simp: darwin_link_round_def otrans_def obind_def oquery_def split: list.splits)
    show ?thesis
    proof (cases "darwin_auth_schedule C rid uid d (wk_db w)")
      case (Inl e)
      then show ?thesis by (simp add: round otrans_def obind_def oquery_def link_blocked_def)
    next
      case (Inr s)
      have "fst (darwin_link_round C rid uid d w) = Inr None \<longleftrightarrow> (\<exists>w1. darwin_train_insert (?t s) w = (Inr None, w1))"
        by (auto simp: round otrans_def obind_def oquery_def Inr split: prod.splits sum.splits)
      then show ?thesis
        using fresh False Inr by (auto simp: darwin_train_insert_retry osms_train_insert_double link_blocked_def)
    qed
  qed
qed

lemma link_round_retry_db:
  assumes "darwin_link_round C rid uid d w = (Inr None, w1)"
  shows "wk_db w1 = wk_db w"
  using assms
  by (auto simp: darwin_link_round_def orun darwin_train_insert_retry split: option.splits list.splits)

lemma blocked_never_returns:
  assumes "link_blocked C rid uid d (wk_db w)"
  shows "get_train_for_rid_uid_ssd C rid uid d w = None"
proof -
  have "\<not> link_blocked C rid uid d (wk_db w)" if "get_train_for_rid_uid_ssd C rid uid d w = Some y" for y
  proof (rule get_train_for_rid_uid_ssd.raw_induct [where P = "\<lambda>C rid uid d w y. \<not> link_blocked C rid uid d (wk_db w)", OF _ that])
    fix get :: "chrono \<Rightarrow> string \<Rightarrow> string \<Rightarrow> naive_date \<Rightarrow> osms_worker \<Rightarrow> ((osms_nrod_error + osms_train) \<times> osms_worker) option"
      and C rid uid d w y
    assume ih: "\<And>C rid uid d w y. get C rid uid d w = Some y \<Longrightarrow> \<not> link_blocked C rid uid d (wk_db w)"
      and step: "(case darwin_link_round C rid uid d w of
        (Inl e, w1) \<Rightarrow> Some (Inl e, w1)
      | (Inr (Some train), w1) \<Rightarrow> Some (Inr train, w1)
      | (Inr None, w1) \<Rightarrow> get C rid uid d w1) = Some y"
    show "\<not> link_blocked C rid uid d (wk_db w)"
    proof (cases "fst (darwin_link_round C rid uid d w) = Inr None")
      case True
      then obtain w1 where round: "darwin_link_round C rid uid d w = (Inr None, w1)" by (metis prod.collapse)
      then have "get C rid uid d w1 = Some y" using step by simp
      from ih [OF this] link_round_retry_db [OF round] show ?thesis by simp
    qed (simp add: link_round_retry)
  qed
  with assms show ?thesis by (cases "get_train_for_rid_uid_ssd C rid uid d w") auto
qed

text \<open>
  C11. The search for the train of a Darwin message ends exactly if the link is not blocked: Darwin gives a new id to a train that
  already has one, and the worker tries the same insertion for ever, since nothing changes between two rounds.
\<close>

theorem darwin_link_returns_iff:
  "(get_train_for_rid_uid_ssd C rid uid d w = None) = link_blocked C rid uid d (wk_db w)"
proof
  assume "link_blocked C rid uid d (wk_db w)"
  then show "get_train_for_rid_uid_ssd C rid uid d w = None" by (rule blocked_never_returns)
next
  assume diverges: "get_train_for_rid_uid_ssd C rid uid d w = None"
  show "link_blocked C rid uid d (wk_db w)"
  proof (rule ccontr)
    assume "\<not> link_blocked C rid uid d (wk_db w)"
    then have "fst (darwin_link_round C rid uid d w) \<noteq> Inr None" by (simp add: link_round_retry)
    with diverges show False
      by (subst (asm) get_train_for_rid_uid_ssd.simps) (auto split: prod.splits sum.splits option.splits)
  qed
qed

section \<open>The constraints hold in every state\<close>

lemma okeeps_option [okeeps_intros]:
  "okeeps m \<Longrightarrow> (\<And>x. okeeps (f x)) \<Longrightarrow> okeeps (case v of None \<Rightarrow> m | Some x \<Rightarrow> f x)"
  by (cases v) simp_all

lemma okeeps_train_insert [okeeps_intros]: "okeeps (darwin_train_insert t)"
  by (auto simp: okeeps_def darwin_train_insert_def split: sum.splits osms_error.splits dest: train_insert_inv)

lemma okeeps_link_round [okeeps_intros]: "okeeps (darwin_link_round C rid uid d)"
  by (auto simp: darwin_link_round_def intro!: okeeps_intros split: list.splits)

lemma get_train_inv:
  assumes "get_train_for_rid_uid_ssd C rid uid d w = Some (r, w1)" "ntrod_inv (wk_db w)"
  shows "ntrod_inv (wk_db w1)"
proof -
  have "ntrod_inv (wk_db w) \<longrightarrow> ntrod_inv (wk_db (snd (r, w1)))"
  proof (rule get_train_for_rid_uid_ssd.raw_induct
      [where P = "\<lambda>C rid uid d w y. ntrod_inv (wk_db w) \<longrightarrow> ntrod_inv (wk_db (snd y))", OF _ assms(1)])
    fix get :: "chrono \<Rightarrow> string \<Rightarrow> string \<Rightarrow> naive_date \<Rightarrow> osms_worker \<Rightarrow> ((osms_nrod_error + osms_train) \<times> osms_worker) option"
      and C rid uid d w y
    assume ih: "\<And>C rid uid d w y. get C rid uid d w = Some y \<Longrightarrow> ntrod_inv (wk_db w) \<longrightarrow> ntrod_inv (wk_db (snd y))"
      and step: "(case darwin_link_round C rid uid d w of
        (Inl e, w1) \<Rightarrow> Some (Inl e, w1)
      | (Inr (Some train), w1) \<Rightarrow> Some (Inr train, w1)
      | (Inr None, w1) \<Rightarrow> get C rid uid d w1) = Some y"
    show "ntrod_inv (wk_db w) \<longrightarrow> ntrod_inv (wk_db (snd y))"
    proof
      assume inv: "ntrod_inv (wk_db w)"
      obtain q w2 where round: "darwin_link_round C rid uid d w = (q, w2)" by fastforce
      have "ntrod_inv (wk_db w2)" by (rule okeepsD [OF okeeps_link_round inv round])
      with step ih [of C rid uid d w2 y] show "ntrod_inv (wk_db (snd y))"
        by (auto simp: round split: sum.splits option.splits)
    qed
  qed
  with assms(2) show ?thesis by simp
qed

text \<open>What leaves the schedules alone.\<close>

definition same_schedules :: "'a osms_m \<Rightarrow> bool" where
  "same_schedules m \<longleftrightarrow> (\<forall>w. on_schedules (wk_db (snd (m w))) = on_schedules (wk_db w))"

lemma same_schedules_pure: "same_schedules (oret a)" "same_schedules (osms_incr d)" "same_schedules (oquery q)"
  by (simp_all add: same_schedules_def oret_def osms_incr_def oquery_def)

lemma same_schedules_bind:
  assumes "same_schedules m" "\<And>a. same_schedules (f a)"
  shows "same_schedules (obind m f)"
  unfolding same_schedules_def
proof
  fix w
  obtain r w1 where m: "m w = (r, w1)" by fastforce
  then have "on_schedules (wk_db w1) = on_schedules (wk_db w)" using assms(1) by (metis same_schedules_def snd_conv)
  then show "on_schedules (wk_db (snd (obind m f w))) = on_schedules (wk_db w)"
    using assms(2) by (cases r) (simp_all add: obind_def m same_schedules_def)
qed

lemma same_schedules_for: "(\<And>x. same_schedules (f x)) \<Longrightarrow> same_schedules (ofor f xs)"
  by (induction xs) (simp_all add: same_schedules_pure same_schedules_bind)

lemma same_schedules_insert: "same_schedules (insert_mvt_of sid m)"
  unfolding insert_mvt_of_def
  by (rule same_schedules_bind [OF _ same_schedules_pure(1)])
    (auto simp: same_schedules_def oinsert_def osms_mvt_insert_def split: sum.splits)

lemma same_schedules_delete: "same_schedules (oexec (delete_osms_mvts P))"
  by (simp add: same_schedules_def oexec_def delete_osms_mvts_tables)

lemmas same_schedules_intros =
  same_schedules_pure same_schedules_bind same_schedules_for same_schedules_insert same_schedules_delete

lemma same_schedules_replace: "same_schedules (replace_mvts H sid mvts)"
  by (auto simp: replace_mvts_def Let_def intro!: same_schedules_intros)

lemma okeeps_insert_mvt_of [okeeps_intros]: "okeeps (insert_mvt_of sid m)"
  by (auto simp: insert_mvt_of_def intro!: okeeps_intros)

lemma okeeps_replace [okeeps_intros]: "okeeps (replace_mvts H sid mvts)"
  by (auto simp: replace_mvts_def Let_def intro!: okeeps_intros)

lemma okeeps_bind_db:
  assumes "okeeps m" "\<And>a w w1. ntrod_inv (wk_db w) \<Longrightarrow> m w = (Inr a, w1) \<Longrightarrow> ntrod_inv (wk_db w1) \<Longrightarrow> ntrod_inv (wk_db (snd (f a w1)))"
  shows "okeeps (obind m f)"
  using assms by (fastforce simp: okeeps_def obind_def split: prod.splits sum.splits)

lemma okeeps_store_schedule [okeeps_intros]: "okeeps (store_schedule T H sched train)"
proof -
  have stored: "okeeps (obind (oinsert (osms_schedule_insert s)) (\<lambda>(sid, updated).
           obind (if updated then replace_mvts H sid mvts
                  else obind (ofor (insert_mvt_of sid) mvts) (\<lambda>_. osms_incr ''darwin.sched.inserted'')) (\<lambda>_.
           oexec (update_osms_train (ot_id train) (\<lambda>t. t\<lparr>ot_parent_nre_sched := Some sid\<rparr>)))))" for s mvts
  proof (rule okeeps_bind_db [OF okeeps_inserts(3)], clarify)
    fix sid updated w w1
    assume ins: "oinsert (osms_schedule_insert s) w = (Inr (sid, updated), w1)" and inv: "ntrod_inv (wk_db w)" "ntrod_inv (wk_db w1)"
    let ?m = "if updated then replace_mvts H sid mvts
                  else obind (ofor (insert_mvt_of sid) mvts) (\<lambda>_. osms_incr ''darwin.sched.inserted'')"
    have sid: "sid \<in> os_id ` set (on_schedules (wk_db w1))"
      using ins inv(1) schedule_insert_inv(2) by (fastforce simp: omonad_Inr)
    have m: "okeeps ?m" by (auto intro!: okeeps_intros)
    have same: "same_schedules ?m" using same_schedules_replace by (auto intro!: same_schedules_intros)
    have "ntrod_inv (wk_db (snd (?m w1)))" "sid \<in> os_id ` set (on_schedules (wk_db (snd (?m w1))))"
      using m same inv(2) sid by (simp_all only: okeeps_def same_schedules_def)
    then have "ntrod_inv (update_osms_train (ot_id train) (\<lambda>t. t\<lparr>ot_parent_nre_sched := Some sid\<rparr>) (wk_db (snd (?m w1))))"
      by (intro update_osms_train_inv) auto
    with \<open>ntrod_inv (wk_db (snd (?m w1)))\<close>
    show "ntrod_inv (wk_db (snd (obind ?m (\<lambda>_. oexec (update_osms_train (ot_id train) (\<lambda>t. t\<lparr>ot_parent_nre_sched := Some sid\<rparr>))) w1)))"
      by (auto simp only: obind_def oexec_def snd_conv split: prod.splits sum.splits) simp_all
  qed
  show ?thesis
    unfolding store_schedule_def Let_def
    by (rule okeeps_bind [OF okeeps_pure(4)], rule okeeps_if, rule okeeps_pure, rule stored)
qed

lemma process_schedule_inv:
  assumes "osms_process_schedule T C H sched w = Some (r, w1)" "ntrod_inv (wk_db w)"
  shows "ntrod_inv (wk_db w1)"
proof -
  obtain q w2 where train: "get_train_for_rid_uid_ssd C (ds_rid sched) (ds_uid sched) (ds_ssd sched) w = Some (q, w2)"
    and w1: "(case q of Inl e \<Rightarrow> (Inl e, w2) | Inr train \<Rightarrow> otrans (store_schedule T H sched train) w2) = (r, w1)"
    using assms(1) by (auto simp: osms_process_schedule_def)
  have inv: "ntrod_inv (wk_db w2)" by (rule get_train_inv [OF train assms(2)])
  show ?thesis
  proof (cases q)
    case (Inr t)
    then have "otrans (store_schedule T H sched t) w2 = (r, w1)" using w1 by simp
    with inv show ?thesis by (rule okeepsD [OF okeeps_trans [OF okeeps_store_schedule]])
  qed (use w1 inv in auto)
qed

lemma okeeps_ts_mvt: "okeeps (apply_ts_mvt train u)"
  by (cases u) (auto simp: apply_ts_mvt_def ts_find_def intro!: okeeps_intros)

lemma apply_ts_mvts_inv: "apply_ts_mvts train us w = (errs, w1) \<Longrightarrow> ntrod_inv (wk_db w) \<Longrightarrow> ntrod_inv (wk_db w1)"
proof (induction us arbitrary: w errs)
  case (Cons u us)
  obtain r w2 where u: "apply_ts_mvt train u w = (r, w2)" by fastforce
  have "ntrod_inv (wk_db w2)" by (rule okeepsD [OF okeeps_ts_mvt Cons.prems(2) u])
  with Cons u show ?case by (auto split: prod.splits)
qed simp

lemma process_ts_inv:
  assumes "osms_process_ts C ts w = Some (r, w1)" "ntrod_inv (wk_db w)"
  shows "ntrod_inv (wk_db w1)"
proof -
  obtain q w2 where train: "get_train_for_rid_uid_ssd C (ts_rid ts) (ts_uid ts) (ts_start_date ts) w = Some (q, w2)"
    and w1: "(case q of Inl e \<Rightarrow> (Inl e, w2) | Inr train \<Rightarrow> store_ts ts train w2) = (r, w1)"
    using assms(1) by (auto simp: osms_process_ts_def)
  have inv: "ntrod_inv (wk_db w2)" by (rule get_train_inv [OF train assms(2)])
  with w1 show ?thesis
    by (auto simp: store_ts_def split: sum.splits prod.splits dest: apply_ts_mvts_inv)
qed

lemma darwin_item_inv:
  assumes "darwin_item recv processed fails fail f w = Some w1" "ntrod_inv (wk_db w)"
    and "\<And>w r w1. f w = Some (r, w1) \<Longrightarrow> ntrod_inv (wk_db w) \<Longrightarrow> ntrod_inv (wk_db w1)"
  shows "ntrod_inv (wk_db w1)"
proof -
  obtain r w2 where f: "f (count_stats [recv] w) = Some (r, w2)" and w1: "wk_db w1 = wk_db w2"
  proof -
    obtain y where "f (count_stats [recv] w) = Some y"
        "w1 = (case y of (Inr _, w2) \<Rightarrow> count_stats [processed] w2 | (Inl e, w2) \<Rightarrow> count_stats (send_to_stats fails e @ [fail]) w2)"
      using assms(1) by (auto simp: darwin_item_def)
    then show ?thesis using that [of "fst y" "snd y"] by (cases y; cases "fst y") auto
  qed
  from assms(3) [OF f] assms(2) w1 show ?thesis by simp
qed

lemma option_fold_inv:
  assumes "option_fold f xs s = Some s1" "P s" "\<And>x s s1. f x s = Some s1 \<Longrightarrow> P s \<Longrightarrow> P s1"
  shows "P s1"
  using assms(1,2) by (induction xs arbitrary: s) (auto split: option.splits dest: assms(3))

lemma process_darwin_pport_inv:
  assumes "process_darwin_pport T C H pp w = Some (r, w1)" "ntrod_inv (wk_db w)"
  shows "ntrod_inv (wk_db w1)"
proof (cases "pp_inner pp")
  case (DataResponse dr)
  let ?ts = "\<lambda>ts. darwin_item ''darwin.ts_recv'' ''darwin.ts_processed'' ''darwin.ts_fails'' ''darwin.ts_fail'' (osms_process_ts C ts)"
  let ?sched = "\<lambda>sched. darwin_item ''darwin.sched.recv'' ''darwin.sched.processed'' ''darwin.sched.fails'' ''darwin.sched.fail''
      (osms_process_schedule T C H sched)"
  obtain w2 where w2: "option_fold ?ts (rsp_train_status dr) w = Some w2" and w1: "option_fold ?sched (rsp_schedule dr) w2 = Some w1"
    using assms(1) DataResponse by (auto simp: process_darwin_pport_def split: bind_splits)
  have "ntrod_inv (wk_db w2)"
    by (rule option_fold_inv [where P = "\<lambda>w. ntrod_inv (wk_db w)", OF w2 assms(2)])
      (erule darwin_item_inv, assumption, rule process_ts_inv)
  show ?thesis
    by (rule option_fold_inv [where P = "\<lambda>w. ntrod_inv (wk_db w)", OF w1 \<open>ntrod_inv (wk_db w2)\<close>])
      (erule darwin_item_inv, assumption, rule process_schedule_inv)
qed (use assms in \<open>auto simp: process_darwin_pport_def\<close>)

lemma osms_on_darwin_inv:
  assumes "osms_on_darwin T C H data w = Some w1" "ntrod_inv (wk_db w)"
  shows "ntrod_inv (wk_db w1)"
proof (cases data)
  case (Document pp)
  obtain r w2 where run: "process_darwin_pport T C H pp (count_stats [''darwin.parsed''] (count_stats [''darwin.recv''] w)) = Some (r, w2)"
    and w1: "wk_db w1 = wk_db w2"
  proof -
    obtain y where "process_darwin_pport T C H pp (count_stats [''darwin.parsed''] (count_stats [''darwin.recv''] w)) = Some y"
        "w1 = (case y of (Inr _, w2) \<Rightarrow> count_stats [''darwin.processed''] w2
          | (Inl e, w2) \<Rightarrow> count_stats (send_to_stats ''darwin.fails'' e @ [''darwin.fail'']) w2)"
      using assms(1) Document by (auto simp: osms_on_darwin_def Let_def)
    then show ?thesis using that [of "fst y" "snd y"] by (cases y; cases "fst y") auto
  qed
  from process_darwin_pport_inv [OF run] assms(2) w1 show ?thesis by simp
qed (use assms in \<open>auto simp: osms_on_darwin_def Let_def\<close>)


section \<open>A schedule that is sent again\<close>

lemma hash_collect_all:
  assumes "inj_on H (set ms)"
  shows "set (hash_collect H ms) = set ms"
proof -
  have "set (fold (\<lambda>m s. if \<exists>k\<in>set s. hash_same H k m then s else s @ [m]) ks s) = set s \<union> set ks"
    if "inj_on H (set s \<union> set ks)" for ks s
    using that
  proof (induction ks arbitrary: s)
    case (Cons m ks)
    have "m \<in> set s" if "\<exists>k\<in>set s. hash_same H k m"
      using that Cons.prems by (auto simp: hash_same_def inj_on_def)
    with Cons show ?case by (auto simp: insert_absorb)
  qed simp
  from this [of "[]" ms] assms show ?thesis by (simp add: hash_collect_def)
qed

lemma hash_collect_subset: "set (hash_collect H ms) \<subseteq> set ms"
proof -
  let ?f = "\<lambda>m s. if \<exists>k\<in>set s. hash_same H k m then s else s @ [m]"
  have "set (fold ?f ks s) \<subseteq> set s \<union> set ks" for ks s
  proof (induction ks arbitrary: s)
    case (Cons k ks)
    from Cons.IH [of "?f k s"] show ?case by (auto split: if_splits)
  qed simp
  from this [of ms "[]"] show ?thesis by (simp add: hash_collect_def)
qed

lemma insert_mvts_tables:
  assumes "ofor (insert_mvt_of sid) ms w = (Inr (), w')"
  shows "on_tmvts (wk_db w') = on_tmvts (wk_db w) \<and>
    (\<exists>new. on_mvts (wk_db w') = on_mvts (wk_db w) @ new \<and> (\<forall>k\<in>set new. on_mvt_seq (wk_db w) \<le> om_id k))"
  using assms
proof (induction ms arbitrary: w)
  case Nil
  then show ?case by (simp add: orun)
next
  case (Cons m ms)
  obtain w1 where one: "insert_mvt_of sid m w = (Inr (), w1)" and rest: "ofor (insert_mvt_of sid) ms w1 = (Inr (), w')"
    using Cons.prems by (auto simp: obind_Inr)
  obtain k where "on_mvts (wk_db w1) = on_mvts (wk_db w) @ [k]" "om_id k = on_mvt_seq (wk_db w)"
      "on_tmvts (wk_db w1) = on_tmvts (wk_db w)" "on_mvt_seq (wk_db w1) = on_mvt_seq (wk_db w) + 1"
    using one by (auto simp: insert_mvt_of_def orun osms_mvt_insert_def split: if_splits)
  with Cons.IH [OF rest] show ?case by fastforce
qed

lemma replace_mvts_forgets:
  assumes inv: "ntrod_inv (wk_db w)" and run: "replace_mvts H sid mvts w = (Inr (), w')"
    and inj: "inj_on H (set (on_mvts (wk_db w)))" "\<forall>a\<in>set (on_mvts (wk_db w)). \<forall>b\<in>set mvts. H a \<noteq> H b"
    and m: "m \<in> set (on_mvts (wk_db w))" "om_parent_sched m = sid"
  shows "m \<notin> set (on_mvts (wk_db w')) \<and> (\<forall>t\<in>set (on_tmvts (wk_db w')). otm_parent_mvt t \<noteq> om_id m)"
proof -
  let ?rows = "sort_key om_id (filter (\<lambda>m. om_parent_sched m = sid) (on_mvts (wk_db w)))"
  let ?gone = "map om_id (hash_difference H (hash_collect H ?rows) (hash_collect H mvts))"
  let ?new = "hash_difference H (hash_collect H mvts) (hash_collect H ?rows)"
  let ?db = "delete_osms_mvts (\<lambda>m. om_id m \<in> set ?gone) (wk_db w)"
  obtain w1 where inserted: "ofor (insert_mvt_of sid) ?new (w\<lparr>wk_db := ?db\<rparr>) = (Inr (), w1)"
    and w': "wk_db w' = wk_db w1"
    using run by (auto simp: replace_mvts_def Let_def orun)
  have "set (hash_collect H ?rows) = set ?rows"
    using inj(1) by (intro hash_collect_all) (auto simp: inj_on_def)
  moreover have "set (hash_collect H mvts) \<subseteq> set mvts" by (rule hash_collect_subset)
  ultimately have "m \<in> set (hash_difference H (hash_collect H ?rows) (hash_collect H mvts))"
    using m inj(2) by (auto simp: hash_difference_def hash_same_def)
  then have gone: "om_id m \<in> set ?gone" unfolding list.set_map by (rule imageI)
  have seq: "om_id m < on_mvt_seq (wk_db w)" using inv m(1) by (simp add: ntrod_inv_def mvts_ok_def serial_ok_def)
  obtain new where new: "on_mvts (wk_db w1) = on_mvts ?db @ new" "\<forall>k\<in>set new. on_mvt_seq (wk_db w) \<le> om_id k"
      "on_tmvts (wk_db w1) = on_tmvts ?db"
    using insert_mvts_tables [OF inserted] by (auto simp: delete_osms_mvts_tables)
  have "m \<notin> set (on_mvts (wk_db w1))" using new(2) gone seq unfolding new(1) delete_osms_mvts_tables by fastforce
  moreover have "\<forall>t\<in>set (on_tmvts (wk_db w1)). otm_parent_mvt t \<noteq> om_id m"
    using gone m(1) unfolding new(3) delete_osms_mvts_tables by auto
  ultimately show ?thesis by (simp add: w')
qed


definition osms_sample_linked :: ntrod_db where
  "osms_sample_linked = sample_night\<lparr>
     on_schedules := on_schedules sample_night @ [\<lparr>os_id = 2, os_uid = ''C1'', os_start_date = NaiveDate 7,
       os_end_date = NaiveDate 7, os_days = days_all, os_stp_indicator = StpNewSchedule, os_signalling_id = Some ''1A01'',
       os_geo_generation = 0, os_source = 2, os_file_metaseq = None, os_darwin_id = Some ''R1''\<rparr>],
     on_mvts := on_mvts sample_night @ [\<lparr>om_id = 3, om_parent_sched = 2, om_tiploc = ''EUSTON'', om_action = 1,
       om_time = from_hms 9 0 0, om_starts_path = None, om_ends_path = None, om_idx = Some 0, om_platform = None,
       om_public_time = None\<rparr>],
     on_trains := map (\<lambda>t. t\<lparr>ot_nre_id := Some ''R1'', ot_parent_nre_sched := Some 2\<rparr>) (on_trains sample_night),
     on_tmvts := on_tmvts sample_night @ [\<lparr>otm_id = 2, otm_parent_train = 1, otm_parent_mvt = 3, otm_time = from_hms 9 1 0,
       otm_source = 1, otm_estimated = False, otm_platform = None, otm_pfm_suppr = False\<rparr>],
     on_schedule_seq := 3, on_mvt_seq := 4, on_tmvt_seq := 3\<rparr>"

lemma sample_linked_inv: "ntrod_inv osms_sample_linked"
  by (simp add: osms_sample_linked_def sample_night_def ntrod_inv_def ntrod_ok_defs serial_ok_def mvt_place_def trust_place_def
      osms_sched_key_def osms_tmvt_key_def)

text \<open>Darwin replaces the id \<open>R1\<close> of a train by \<open>R2\<close>.\<close>

lemma new_rid_never_returns: "get_train_for_rid_uid_ssd chrono_civil ''R2'' ''C1'' (NaiveDate 7) \<lparr>wk_db = osms_sample_linked, wk_stats = []\<rparr> = None"
proof -
  have "link_blocked chrono_civil ''R2'' ''C1'' (NaiveDate 7) osms_sample_linked"
    by (simp add: link_blocked_def osms_sample_linked_def sample_night_def linkable_trains_def darwin_auth_schedule_def
        osms_is_authoritative_def osms_auth_step_def value_for_iso_weekday_def days_all_def chrono_civil_def chrono_orders
        sched_source_itps_def less_stp_indicator_def)
  then show ?thesis by (intro blocked_never_returns) simp
qed

definition sample_resent :: darwin_schedule where
  "sample_resent = \<lparr>ds_rid = ''R1'', ds_uid = ''C1'', ds_train_id = ''1A01'', ds_ssd = NaiveDate 7, ds_toc = ''LM'', ds_status = ''P'',
     ds_train_cat = ''OO'', ds_is_passenger_svc = True, ds_is_active = True, ds_deleted = False, ds_is_charter = False,
     ds_cancel_reason = None,
     ds_locations = [DLocOpOr \<lparr>opor_sla = \<lparr>sla_tpl = ''EUSTON'', sla_act = ''TB'', sla_plan_act = None, sla_can = False\<rparr>,
       opor_wta = None, opor_wtd = from_hms 9 0 0\<rparr>]\<rparr>"

definition sample_hash :: "osms_mvt \<Rightarrow> nat" where
  "sample_hash m = nat (om_id m + 1)"

lemma sample_resent_mvts:
  "darwin_mvts time_civil sample_resent = [\<lparr>om_id = -1, om_parent_sched = -1, om_tiploc = ''EUSTON'', om_action = 1,
     om_time = from_hms 9 0 0, om_starts_path = None, om_ends_path = None, om_idx = Some 0, om_platform = None,
     om_public_time = None\<rparr>]"
  by (simp add: darwin_mvts_def sample_resent_def darwin_loc_pair_def delayed_mvt_def time_civil_def from_hms_def enumerate_eq_zip)

definition sample_forgotten :: ntrod_db where
  "sample_forgotten = osms_sample_linked\<lparr>
     on_mvts := on_mvts sample_night @ [\<lparr>om_id = 4, om_parent_sched = 2, om_tiploc = ''EUSTON'', om_action = 1,
       om_time = from_hms 9 0 0, om_starts_path = None, om_ends_path = None, om_idx = Some 0, om_platform = None,
       om_public_time = None\<rparr>],
     on_tmvts := on_tmvts sample_night, on_mvt_seq := 5\<rparr>"

lemmas sample_linked_tables = osms_sample_linked_def sample_night_def sample_forgotten_def

lemma sample_resent_insert:
  "osms_schedule_insert (darwin_schedule_row sample_resent) osms_sample_linked = Inr ((2, True), osms_sample_linked)"
  by (simp add: osms_schedule_insert_def darwin_schedule_row_def sample_resent_def osms_sched_key_def sched_source_darwin_def
      merge_schedule_def sample_linked_tables)

lemma sample_replaced:
  "replace_mvts sample_hash 2 (darwin_mvts time_civil sample_resent) \<lparr>wk_db = osms_sample_linked, wk_stats = []\<rparr> =
     (Inr (), \<lparr>wk_db = sample_forgotten, wk_stats = [''darwin.sched.updated'']\<rparr>)"
  unfolding sample_resent_mvts
  by (simp add: replace_mvts_def obind_def oquery_def oinsert_def oexec_def osms_incr_def oret_def hash_collect_def
      hash_difference_def hash_same_def sample_hash_def insert_mvt_of_def osms_mvt_insert_def delete_osms_mvts_def
      delete_tmvts_def Let_def sample_linked_tables count_stats_def del: set_filter)

lemma sample_resent_stored:
  "store_schedule time_civil sample_hash sample_resent (hd (on_trains osms_sample_linked)) \<lparr>wk_db = osms_sample_linked, wk_stats = []\<rparr> =
     (Inr (), \<lparr>wk_db = sample_forgotten, wk_stats = [''darwin.sched.updated'']\<rparr>)"
proof -
  have "ot_id (hd (on_trains osms_sample_linked)) = 1" "ot_parent_sched (hd (on_trains osms_sample_linked)) = 1"
      "\<not> list_all2 osms_mvt_eq (darwin_mvts time_civil sample_resent)
        (sort_key mvt_order (filter (\<lambda>m. om_parent_sched m = 1) (on_mvts osms_sample_linked)))"
      "update_osms_train 1 (\<lambda>t. t\<lparr>ot_parent_nre_sched := Some 2\<rparr>) sample_forgotten = sample_forgotten"
    by (simp_all add: sample_resent_mvts sample_linked_tables update_osms_train_def)
  then show ?thesis
    by (simp add: store_schedule_def Let_def obind_def oquery_def oinsert_def oexec_def sample_resent_insert sample_replaced)
qed



end
