(* ===== verification/Osms_Query.thy ===== *)
theory Osms_Query
  imports Osms_Live
begin

text \<open>
  \<open>mvt_query\<close> of \<open>osms-db/src/ntrod/mod.rs\<close>: the movements of schedules, with what is known of the trains that run to
  them. The maps of the result are association lists.
\<close>

section \<open>Results\<close>

record osms_time =
  ow_source :: int
  ow_mvt_id :: int
  ow_time :: naive_time

record osms_dedup =
  od_parent_sched :: int
  od_parent_train :: "int option"
  od_tiploc :: string
  od_action :: int
  od_time_scheduled :: osms_time
  od_time_expected :: "osms_time option"
  od_time_actual :: "osms_time option"
  od_canx :: bool
  od_starts_path :: "int option"
  od_ends_path :: "int option"
  od_idx :: "int option"
  od_pfm_scheduled :: "string option"
  od_pfm_current :: "string option"
  od_pfm_suppr :: bool

record osms_mqr =
  oq_mvts :: "osms_dedup list"
  oq_scheds :: "(int \<times> osms_schedule) list"
  oq_trains :: "(int \<times> osms_train) list"
  oq_scheds_to_trains :: "(int \<times> int) list"

section \<open>Part I: schedules\<close>

definition query_sched ::
    "chrono \<Rightarrow> naive_date option \<Rightarrow> ntrod_db \<Rightarrow> osms_mvt \<Rightarrow> (int \<times> osms_schedule) list \<Rightarrow> osms_error + (int \<times> osms_schedule) list" where
  "query_sched C auth_date db mvt scheds =
     (if map_of scheds (om_parent_sched mvt) \<noteq> None then Inr scheds
      else case nth0 (filter (\<lambda>s. os_id s = om_parent_sched mvt) (on_schedules db)) of
        None \<Rightarrow> Inl OPanic
      | Some sched \<Rightarrow>
          (case auth_date of
             None \<Rightarrow> Inr (AList.update (os_id sched) sched scheds)
           | Some date \<Rightarrow>
               if date < os_start_date sched \<or> os_end_date sched < date then Inr scheds
               else res_map (\<lambda>auth. if auth then AList.update (os_id sched) sched scheds else scheds)
                 (osms_is_authoritative C sched date db)))"

section \<open>Part II: trains\<close>

definition query_train ::
    "osms_train \<Rightarrow> (int \<times> osms_train) list \<times> (int \<times> int) list \<Rightarrow> (int \<times> osms_train) list \<times> (int \<times> int) list" where
  "query_train train maps =
     (case maps of (trains, scheds_to_trains) \<Rightarrow>
        let s2t = AList.update (ot_parent_sched train) (ot_id train) scheds_to_trains
        in (AList.update (ot_id train) train trains,
            case ot_parent_nre_sched train of None \<Rightarrow> s2t | Some ns \<Rightarrow> AList.update ns (ot_id train) s2t))"

definition query_trains ::
    "naive_date option \<Rightarrow> (int \<times> osms_schedule) list \<Rightarrow> ntrod_db \<Rightarrow> (int \<times> osms_train) list \<times> (int \<times> int) list" where
  "query_trains auth_date scheds db =
     (case auth_date of
        None \<Rightarrow> ([], [])
      | Some date \<Rightarrow>
          fold query_train
            (filter (\<lambda>t. ot_parent_sched t \<in> fst ` set scheds \<and> ot_date t = date \<or>
               ot_parent_nre_sched t \<in> Some ` fst ` set scheds) (on_trains db)) ([], []))"

section \<open>Part III: movements\<close>

text \<open>The variables the loop over the reports of a movement fills in.\<close>

record query_vars =
  qv_expected :: "osms_time option"
  qv_actual :: "osms_time option"
  qv_pfm_current :: "string option"
  qv_pfm_suppr :: bool

definition osms_time_of :: "osms_train_mvt \<Rightarrow> osms_time" where
  "osms_time_of r = \<lparr>ow_source = otm_source r, ow_mvt_id = otm_id r, ow_time = otm_time r\<rparr>"

definition note_platform :: "osms_train_mvt \<Rightarrow> query_vars \<Rightarrow> query_vars" where
  "note_platform r v = v\<lparr>qv_pfm_suppr := qv_pfm_suppr v \<or> otm_pfm_suppr r,
     qv_pfm_current := (case otm_platform r of None \<Rightarrow> qv_pfm_current v | Some p \<Rightarrow> Some p)\<rparr>"

definition query_report :: "osms_train_mvt \<Rightarrow> query_vars \<Rightarrow> query_vars" where
  "query_report r v =
     (if otm_estimated r then
        (case qv_expected v of
           Some exi \<Rightarrow> if ow_source exi = mvt_source_darwin then v else note_platform r (v\<lparr>qv_expected := Some (osms_time_of r)\<rparr>)
         | None \<Rightarrow> note_platform r (v\<lparr>qv_expected := Some (osms_time_of r)\<rparr>))
      else
        (case qv_actual v of
           Some exi \<Rightarrow> if ow_source exi = mvt_source_trust then v else note_platform r (v\<lparr>qv_actual := Some (osms_time_of r)\<rparr>)
         | None \<Rightarrow> note_platform r (v\<lparr>qv_actual := Some (osms_time_of r)\<rparr>)))"

definition no_reports :: query_vars where
  "no_reports = \<lparr>qv_expected = None, qv_actual = None, qv_pfm_current = None, qv_pfm_suppr = False\<rparr>"

definition reports_of :: "int \<Rightarrow> int \<Rightarrow> ntrod_db \<Rightarrow> osms_train_mvt list" where
  "reports_of train mvt db = filter (\<lambda>r. otm_parent_train r = train \<and> otm_parent_mvt r = mvt) (on_tmvts db)"

definition query_result :: "osms_mvt \<Rightarrow> osms_schedule \<Rightarrow> int option \<Rightarrow> bool \<Rightarrow> query_vars \<Rightarrow> osms_dedup" where
  "query_result mvt sched train canx v =
     \<lparr>od_parent_sched = os_id sched, od_parent_train = train, od_tiploc = om_tiploc mvt, od_action = om_action mvt,
      od_time_scheduled = \<lparr>ow_source = os_source sched, ow_mvt_id = om_id mvt, ow_time = om_time mvt\<rparr>,
      od_time_expected = qv_expected v, od_time_actual = qv_actual v, od_canx = canx,
      od_starts_path = om_starts_path mvt, od_ends_path = om_ends_path mvt, od_idx = om_idx mvt,
      od_pfm_scheduled = om_platform mvt, od_pfm_current = qv_pfm_current v, od_pfm_suppr = qv_pfm_suppr v\<rparr>"

definition query_mvt ::
    "(int \<times> osms_schedule) list \<Rightarrow> (int \<times> osms_train) list \<Rightarrow> (int \<times> int) list \<Rightarrow> ntrod_db \<Rightarrow> osms_mvt \<Rightarrow>
      osms_error + osms_dedup option" where
  "query_mvt scheds trains s2t db mvt =
     (case map_of scheds (om_parent_sched mvt) of
        None \<Rightarrow> Inr None
      | Some sched \<Rightarrow>
          (case map_of s2t (om_parent_sched mvt) of
             Some i \<Rightarrow>
               (case map_of trains i of
                  None \<Rightarrow> Inl OPanic
                | Some train \<Rightarrow>
                    let rows = reports_of i (om_id mvt) db in
                    if os_darwin_id sched \<noteq> None \<and> rows = [] then Inr None
                    else Inr (Some (query_result mvt sched (Some i) (ot_cancelled train) (fold query_report rows no_reports))))
           | None \<Rightarrow>
               if os_darwin_id sched \<noteq> None then Inr None
               else Inr (Some (query_result mvt sched None False no_reports))))"

definition mvt_query :: "chrono \<Rightarrow> osms_mvt list \<Rightarrow> naive_date option \<Rightarrow> ntrod_db \<Rightarrow> osms_error + osms_mqr" where
  "mvt_query C mvts auth_date db =
     res_bind (res_fold (query_sched C auth_date db) mvts []) (\<lambda>scheds.
     let (trains, s2t) = query_trains auth_date scheds db
     in res_map (\<lambda>ret. \<lparr>oq_mvts = List.map_filter id ret, oq_scheds = scheds, oq_trains = trains, oq_scheds_to_trains = s2t\<rparr>)
          (res_mapM (query_mvt scheds trains s2t db) mvts))"

section \<open>Which report counts\<close>

text \<open>
  The reference: the first report of the preferred source, or the last one if that has not reported.
\<close>

definition preferred :: "int \<Rightarrow> osms_train_mvt list \<Rightarrow> osms_train_mvt option" where
  "preferred source rows =
     (case filter (\<lambda>r. otm_source r = source) rows of r # _ \<Rightarrow> Some r
      | [] \<Rightarrow> if rows = [] then None else Some (last rows))"

lemma preferred_snoc:
  "preferred s (rows @ [r]) =
     (case preferred s rows of Some q \<Rightarrow> if otm_source q = s then Some q else Some r | None \<Rightarrow> Some r)"
proof (cases "filter (\<lambda>r. otm_source r = s) rows")
  case Nil
  then have "otm_source (last rows) \<noteq> s" if "rows \<noteq> []" using that by (auto simp: filter_empty_conv)
  with Nil show ?thesis by (auto simp: preferred_def)
next
  case (Cons q qs)
  then have "otm_source q = s" by (auto simp: filter_eq_Cons_iff)
  with Cons show ?thesis by (simp add: preferred_def)
qed

lemma query_reports_spec:
  "qv_actual (fold query_report rows no_reports) =
     map_option osms_time_of (preferred mvt_source_trust (filter (\<lambda>r. \<not> otm_estimated r) rows))"
  "qv_expected (fold query_report rows no_reports) =
     map_option osms_time_of (preferred mvt_source_darwin (filter otm_estimated rows))"
proof (induction rows rule: rev_induct)
  case (snoc r rows)
  {
    case 1
    from snoc.IH(1) show ?case
      by (auto simp: query_report_def note_platform_def preferred_snoc osms_time_of_def split: option.splits)
  next
    case 2
    from snoc.IH(2) show ?case
      by (auto simp: query_report_def note_platform_def preferred_snoc osms_time_of_def split: option.splits)
  }
qed (simp_all add: no_reports_def preferred_def)

lemma res_mapM_source: "res_mapM f xs = Inr ys \<Longrightarrow> y \<in> set ys \<Longrightarrow> \<exists>x\<in>set xs. f x = Inr y"
  by (induction xs arbitrary: ys) (auto split: sum.splits)

lemma query_scheds_spec:
  assumes "res_fold (query_sched C date db) mvts [] = Inr scheds" "map_of scheds k = Some s"
  shows "s \<in> set (on_schedules db) \<and> os_id s = k \<and> (\<forall>d. date = Some d \<longrightarrow> osms_is_authoritative C s d db = Inr True)"
proof -
  let ?P = "\<lambda>scheds. \<forall>k s. map_of scheds k = Some s \<longrightarrow>
      s \<in> set (on_schedules db) \<and> os_id s = k \<and> (\<forall>d. date = Some d \<longrightarrow> osms_is_authoritative C s d db = Inr True)"
  have "?P scheds"
  proof (rule res_fold_invariant [where P = ?P, OF _ _ assms(1)])
    fix m xs ys assume xs: "?P xs" and step: "query_sched C date db m xs = Inr ys"
    show "?P ys"
    proof (cases "ys = xs")
      case False
      then obtain s where s: "nth0 (filter (\<lambda>s. os_id s = om_parent_sched m) (on_schedules db)) = Some s"
          "ys = AList.update (os_id s) s xs" "\<forall>d. date = Some d \<longrightarrow> osms_is_authoritative C s d db = Inr True"
        using step by (auto simp: query_sched_def res_map_Inr split: if_splits option.splits)
      have "s \<in> set (on_schedules db)" using nth0_filter_Some [OF s(1)] by simp
      with xs s(3) show ?thesis unfolding s(2) by (auto split: if_splits)
    qed (use xs in blast)
  qed simp
  with assms(2) show ?thesis by blast
qed

lemma query_trains_spec:
  assumes "query_trains date scheds db = (trains, s2t)"
  shows "map_of trains i = Some t \<Longrightarrow> t \<in> set (on_trains db) \<and> ot_id t = i"
    and "map_of s2t k = Some i \<Longrightarrow>
      \<exists>t\<in>set (on_trains db). ot_id t = i \<and> (ot_parent_sched t = k \<or> ot_parent_nre_sched t = Some k)"
proof -
  let ?P = "\<lambda>(trains, s2t). (\<forall>i t. map_of trains i = Some t \<longrightarrow> t \<in> set (on_trains db) \<and> ot_id t = i) \<and>
      (\<forall>k i. map_of s2t k = Some i \<longrightarrow>
        (\<exists>t\<in>set (on_trains db). ot_id t = i \<and> (ot_parent_sched t = k \<or> ot_parent_nre_sched t = Some k)))"
  have step: "?P (query_train t maps)" if "?P maps" "t \<in> set (on_trains db)" for t maps
    using that by (cases maps) (auto simp: query_train_def Let_def split: option.splits if_splits)
  have "?P (fold query_train ts maps)" if "?P maps" "set ts \<subseteq> set (on_trains db)" for ts maps
    using that
  proof (induction ts arbitrary: maps)
    case (Cons t ts)
    have "?P (query_train t maps)" using step [OF Cons.prems(1)] Cons.prems(2) by simp
    from Cons.IH [OF this] Cons.prems(2) show ?case by simp
  qed simp
  from this [of "([], [])"] have "?P (query_trains date scheds db)"
    by (auto simp: query_trains_def split: option.splits)
  with assms show "map_of trains i = Some t \<Longrightarrow> t \<in> set (on_trains db) \<and> ot_id t = i"
    and "map_of s2t k = Some i \<Longrightarrow>
      \<exists>t\<in>set (on_trains db). ot_id t = i \<and> (ot_parent_sched t = k \<or> ot_parent_nre_sched t = Some k)"
    by simp_all
qed

text \<open>
  C14. Every movement that \<open>mvt_query\<close> returns is one it was asked about, of a schedule that counts on the day. Its actual time is
  that of TRUST if TRUST has reported, otherwise the last one reported; its expected time is Darwin's estimate if there
  is one, otherwise the last one; and a schedule of Darwin is shown only where Darwin has reported.
\<close>

theorem mvt_query_spec:
  assumes "ntrod_inv db" "mvt_query C mvts date db = Inr res" "d \<in> set (oq_mvts res)"
  shows "\<exists>mvt\<in>set mvts. \<exists>s\<in>set (on_schedules db).
    os_id s = om_parent_sched mvt \<and> od_parent_sched d = os_id s \<and> od_tiploc d = om_tiploc mvt \<and> od_action d = om_action mvt \<and>
    (\<forall>day. date = Some day \<longrightarrow> osms_is_authoritative C s day db = Inr True) \<and>
    (case od_parent_train d of
       None \<Rightarrow> os_darwin_id s = None \<and> od_time_actual d = None \<and> od_time_expected d = None
     | Some i \<Rightarrow> \<exists>t\<in>set (on_trains db). let rows = reports_of i (om_id mvt) db in
         ot_id t = i \<and> (ot_parent_sched t = os_id s \<or> ot_parent_nre_sched t = Some (os_id s)) \<and> od_canx d = ot_cancelled t \<and>
         (os_darwin_id s \<noteq> None \<longrightarrow> rows \<noteq> []) \<and>
         od_time_actual d = map_option osms_time_of (preferred mvt_source_trust (filter (\<lambda>r. \<not> otm_estimated r) rows)) \<and>
         od_time_expected d = map_option osms_time_of (preferred mvt_source_darwin (filter otm_estimated rows)))"
proof -
  obtain scheds where scheds: "res_fold (query_sched C date db) mvts [] = Inr scheds"
    using assms(2) by (auto simp: mvt_query_def res_bind_Inr)
  obtain trains s2t where trains: "query_trains date scheds db = (trains, s2t)" by fastforce
  obtain ret where ret: "res_mapM (query_mvt scheds trains s2t db) mvts = Inr ret" "Some d \<in> set ret"
    using assms(2,3) scheds trains by (auto simp: mvt_query_def res_map_Inr List.map_filter_def)
  obtain mvt where mvt: "mvt \<in> set mvts" "query_mvt scheds trains s2t db mvt = Inr (Some d)"
    using res_mapM_source [OF ret] by blast
  obtain s where s: "map_of scheds (om_parent_sched mvt) = Some s" using mvt(2) by (auto simp: query_mvt_def split: option.splits)
  note sched = query_scheds_spec [OF scheds s]
  have ids: "t = u" if "t \<in> set (on_trains db)" "u \<in> set (on_trains db)" "ot_id t = ot_id u" for t u
    using assms(1) distinct_mapD [OF _ that] by (auto simp: ntrod_inv_def osms_trains_ok_def serial_ok_def)
  show ?thesis
  proof (cases "map_of s2t (om_parent_sched mvt)")
    case None
    with mvt s sched show ?thesis
      by (intro bexI [of _ mvt] bexI [of _ s])
        (auto simp: query_mvt_def query_result_def no_reports_def split: if_splits)
  next
    case (Some i)
    then obtain t where t: "map_of trains i = Some t" using mvt(2) s by (auto simp: query_mvt_def split: option.splits)
    obtain u where u: "u \<in> set (on_trains db)" "ot_id u = i"
        "ot_parent_sched u = om_parent_sched mvt \<or> ot_parent_nre_sched u = Some (om_parent_sched mvt)"
      using query_trains_spec(2) [OF trains Some] by blast
    have "t = u" using query_trains_spec(1) [OF trains t] u ids by blast
    with u t Some mvt s sched show ?thesis
      by (intro bexI [of _ mvt] bexI [of _ s])
        (auto simp: query_mvt_def query_result_def query_reports_spec Let_def split: if_splits intro!: bexI [of _ u])
  qed
qed

text \<open>
  The platform that is shown depends on the order in which the rows come, which the query leaves open: a report that is skipped
  because TRUST has reported takes its platform with it.
\<close>

definition sample_report :: "int \<Rightarrow> string option \<Rightarrow> osms_train_mvt" where
  "sample_report source platform = \<lparr>otm_id = source, otm_parent_train = 1, otm_parent_mvt = 2, otm_time = from_hms 0 12 0,
     otm_source = source, otm_estimated = False, otm_platform = platform, otm_pfm_suppr = False\<rparr>"

lemma platform_depends_on_row_order:
  "qv_pfm_current (fold query_report [sample_report 1 (Some ''3''), sample_report 0 None] no_reports) = Some ''3''"
  "qv_pfm_current (fold query_report [sample_report 0 None, sample_report 1 (Some ''3'')] no_reports) = None"
  by (simp_all add: query_report_def note_platform_def sample_report_def no_reports_def osms_time_of_def mvt_source_trust_def)

lemma mvt_query_spec_witness:
  "\<exists>res d. mvt_query chrono_civil [on_mvts sample_after ! 0] (Some (NaiveDate 7)) sample_after = Inr res \<and>
     d \<in> set (oq_mvts res) \<and> od_tiploc d = ''EUSTON''"
proof -
  have inv: "ntrod_inv sample_after"
    by (simp add: sample_after_def sample_night_def ntrod_inv_def ntrod_ok_defs serial_ok_def mvt_place_def trust_place_def osms_tmvt_key_def)
  have "osms_is_authoritative chrono_civil (hd (on_schedules sample_night)) (NaiveDate 7) sample_after = Inr True"
    by (simp add: osms_is_authoritative_def sample_after_def sample_night_def osms_auth_step_def value_for_iso_weekday_def days_all_def
        chrono_civil_def chrono_orders less_stp_indicator_def)
  then obtain res where res: "mvt_query chrono_civil [on_mvts sample_after ! 0] (Some (NaiveDate 7)) sample_after = Inr res"
      "oq_mvts res \<noteq> []"
    by (simp add: mvt_query_def query_sched_def sample_after_def sample_night_def query_trains_def query_train_def query_mvt_def
        chrono_orders List.map_filter_simps Let_def)
  then obtain d where d: "d \<in> set (oq_mvts res)" by (cases "oq_mvts res") auto
  from mvt_query_spec [OF inv res(1) d] have "od_tiploc d = ''EUSTON''"
    by (auto simp: sample_after_def sample_night_def)
  with res d show ?thesis by blast
qed

end
