(* ===== verification/Osms_Navigate.thy ===== *)
theory Osms_Navigate
  imports Osms_Graph
begin

text \<open>
  \<open>osms-db/src/osm/navigate.rs\<close>: the way between two stations. The search over the graph is Dijkstra's, with a binary
  heap and stale entries, which ends when it first sees the goal; then the parents are followed back. Both loops are
  partial functions: \<open>None\<close> is a search that does not return.
\<close>

section \<open>The search\<close>

record ('g, 'd) light_node =
  ln_parent :: "(int \<times> 'g) option"
  ln_dist :: 'd

text \<open>A \<open>State\<close> is its cost and its id; \<open>state_less\<close> is \<open>cmp\<close> giving \<open>Less\<close>.\<close>

type_synonym 'd heap_state = "'d \<times> int"

definition state_less :: "'d::wellorder heap_state \<Rightarrow> 'd heap_state \<Rightarrow> bool" where
  "state_less s t \<longleftrightarrow> fst t < fst s \<or> fst s = fst t \<and> snd s < snd t"

text \<open>A \<open>BinaryHeap\<close> is the list of its entries; \<open>pop\<close> takes a greatest one. Equal entries cannot be told apart.\<close>

definition heap_pop :: "'d::wellorder heap_state list \<Rightarrow> ('d heap_state \<times> 'd heap_state list) option" where
  "heap_pop heap =
     (case heap of
        [] \<Rightarrow> None
      | s # rest \<Rightarrow> (let m = fold (\<lambda>x m. if state_less m x then x else m) rest s in Some (m, remove1 m heap)))"

type_synonym ('g, 'd) search_state = "(int \<times> ('g, 'd) light_node) list \<times> 'd heap_state list"

text \<open>One link of node \<open>here\<close>, which is at \<open>dist\<close>; the flag is \<open>break 'outer\<close>.\<close>

definition relax_link ::
    "('d \<Rightarrow> 'd \<Rightarrow> 'd) \<Rightarrow> int \<Rightarrow> int \<Rightarrow> 'd::wellorder \<Rightarrow> ('g, 'd) osm_link \<Rightarrow> ('g, 'd) search_state \<Rightarrow> bool \<times> ('g, 'd) search_state" where
  "relax_link add dest here dist link st =
     (case st of (nodes, heap) \<Rightarrow>
        let tent_dist = add (ol_distance link) dist;
            there = other_end link here;
            node = \<lparr>ln_parent = Some (here, ol_way link), ln_dist = tent_dist\<rparr>
        in case map_of nodes there of
             Some other \<Rightarrow>
               if tent_dist < ln_dist other
               then (False, (AList.update there node nodes, (tent_dist, there) # heap))
               else (False, (nodes, heap))
           | None \<Rightarrow>
               if there = dest then (True, (AList.update there node nodes, heap))
               else (False, (AList.update there node nodes, (tent_dist, there) # heap)))"

fun relax_links ::
    "('d \<Rightarrow> 'd \<Rightarrow> 'd) \<Rightarrow> int \<Rightarrow> int \<Rightarrow> 'd::wellorder \<Rightarrow> ('g, 'd) osm_link list \<Rightarrow> ('g, 'd) search_state \<Rightarrow> bool \<times> ('g, 'd) search_state" where
  "relax_links add dest here dist [] st = (False, st)"
| "relax_links add dest here dist (link # links) st =
     (case relax_link add dest here dist link st of
        (found, st1) \<Rightarrow> if found then (True, st1) else relax_links add dest here dist links st1)"

text \<open>The loop \<open>'outer\<close>; the result is the table of nodes.\<close>

partial_function (option) search ::
    "('d \<Rightarrow> 'd \<Rightarrow> 'd) \<Rightarrow> ('g, 'd::wellorder) osm_link list \<Rightarrow> int \<Rightarrow> ('g, 'd) search_state \<Rightarrow>
      (osms_error + (int \<times> ('g, 'd) light_node) list) option" where
  "search add links dest st =
     (case heap_pop (snd st) of
        None \<Rightarrow> Some (Inr (fst st))
      | Some ((cost, here), heap) \<Rightarrow>
          if here = dest then Some (Inl OPanic)
          else (case map_of (fst st) here of
                  None \<Rightarrow> Some (Inl OPanic)
                | Some node \<Rightarrow>
                    if ln_dist node < cost then search add links dest (fst st, heap)
                    else if cost \<noteq> ln_dist node then Some (Inl OPanic)
                    else (case relax_links add dest here (ln_dist node) (links_at here links) (fst st, heap) of
                            (found, st1) \<Rightarrow>
                              if found then Some (Inr (fst st1)) else search add links dest st1)))"

section \<open>The way back\<close>

text \<open>
  The way of a link is turned round unless it ends at the node it leads to. The query gives no row when that node
  is not in the table.
\<close>

definition oriented :: "('g, 'd) geo_ops \<Rightarrow> ('g, 'd) osm_db \<Rightarrow> 'g \<Rightarrow> int \<Rightarrow> 'g option" where
  "oriented G db geom here =
     map_option (\<lambda>n. if ge_intersects G (ge_end_point G geom) (nd_location n) then geom else ge_reverse G geom)
       (nth0 (filter (\<lambda>n. nd_id n = here) (og_nodes db)))"

partial_function (option) collect_path ::
    "('g, 'd) geo_ops \<Rightarrow> ('g, 'd) osm_db \<Rightarrow> (int \<times> ('g, 'd) light_node) list \<Rightarrow> ('g, 'd) light_node \<Rightarrow> int list \<Rightarrow> 'g list \<Rightarrow>
      (osms_error + int list \<times> 'g list) option" where
  "collect_path G db nodes cur_node path_nodes path =
     (case ln_parent cur_node of
        None \<Rightarrow> Some (Inr (path_nodes, path))
      | Some (parent_id, geom) \<Rightarrow>
          (case oriented G db geom (last path_nodes) of
             None \<Rightarrow> Some (Inl OPanic)
           | Some geom1 \<Rightarrow>
               (case map_of nodes parent_id of
                  None \<Rightarrow> Some (Inl OPanic)
                | Some parent \<Rightarrow> collect_path G db nodes parent (path_nodes @ [parent_id]) (geom1 # path))))"

section \<open>\<open>navigate\<close>\<close>

definition location_by_id :: "('g, 'd) osm_db \<Rightarrow> int \<Rightarrow> 'g railway_location option" where
  "location_by_id db i = nth0 (filter (\<lambda>l. rl_id l = i) (og_locations db))"

definition node_by_id :: "('g, 'd) osm_db \<Rightarrow> int \<Rightarrow> 'g osm_node option" where
  "node_by_id db i = nth0 (filter (\<lambda>n. nd_id n = i) (og_nodes db))"

definition node_in_part :: "('g, 'd) osm_db \<Rightarrow> int \<Rightarrow> int \<Rightarrow> 'g osm_node option" where
  "node_in_part db i part = nth0 (filter (\<lambda>n. nd_id n = i \<and> nd_graph_part n = part) (og_nodes db))"

definition start_search :: "('g, 'd) geo_ops \<Rightarrow> int \<Rightarrow> ('g, 'd) search_state" where
  "start_search G start = ([(start, \<lparr>ln_parent = None, ln_dist = ge_zero G\<rparr>)], [(ge_zero G, start)])"

definition navigate ::
    "('g, 'd::wellorder) geo_ops \<Rightarrow> ('g, 'd) osm_db \<Rightarrow> int \<Rightarrow> int \<Rightarrow> (osms_error + 'g station_path) option" where
  "navigate G db from to =
     (case location_by_id db from of
        None \<Rightarrow> Some (Inl (OStationNotFound from))
      | Some start_loc \<Rightarrow>
     (case location_by_id db to of
        None \<Rightarrow> Some (Inl (OStationNotFound to))
      | Some goal_loc \<Rightarrow>
     (case node_by_id db (rl_point start_loc) of
        None \<Rightarrow> Some (Inl (ODatabaseInconsistency ''station's node doesn't exist''))
      | Some start \<Rightarrow>
     (case node_in_part db (rl_point goal_loc) (nd_graph_part start) of
        None \<Rightarrow> Some (Inl (OIncorrectGraphPart from to))
      | Some dest \<Rightarrow>
     (case search (ge_add G) (og_links db) (nd_id dest) (start_search G (nd_id start)) of
        None \<Rightarrow> None
      | Some (Inl e) \<Rightarrow> Some (Inl e)
      | Some (Inr nodes) \<Rightarrow>
     (case map_of nodes (nd_id dest) of
        None \<Rightarrow> Some (Inl OPanic)
      | Some cur_node \<Rightarrow>
          map_option
            (res_map (\<lambda>(path_nodes, path).
               \<lparr>spt_id = -1, spt_s1 = from, spt_s2 = to, spt_way = ge_make_line G path, spt_nodes = path_nodes\<rparr>))
            (collect_path G db nodes cur_node [nd_id dest] [])))))))"

definition find_station_path :: "('g, 'd) osm_db \<Rightarrow> int \<Rightarrow> int \<Rightarrow> 'g station_path option" where
  "find_station_path db from to = nth0 (filter (\<lambda>p. spt_s1 p = from \<and> spt_s2 p = to) (og_paths db))"

definition navigate_cached ::
    "('g, 'd::wellorder) geo_ops \<Rightarrow> int \<Rightarrow> int \<Rightarrow> ('g, 'd) osm_db \<Rightarrow> (osms_error + int \<times> ('g, 'd) osm_db) option" where
  "navigate_cached G from to db =
     (case find_station_path db from to of
        Some p \<Rightarrow> Some (Inr (spt_id p, db))
      | None \<Rightarrow> map_option (\<lambda>r. res_bind r (\<lambda>path. insert_station_path path db)) (navigate G db from to))"

section \<open>The tree of parents\<close>

type_synonym ('g, 'd) node_map = "int \<Rightarrow> ('g, 'd) light_node option"

definition parents :: "('g, 'd) node_map \<Rightarrow> (int \<times> int) set" where
  "parents m = {(p, x). \<exists>n g. m x = Some n \<and> ln_parent n = Some (p, g)}"

definition ends :: "('g, 'd) osm_link \<Rightarrow> int set" where
  "ends l = {ol_p1 l, ol_p2 l}"

text \<open>
  Every node but the start has a parent, over a link, which is no further from the start; following the parents never
  comes back.
\<close>

definition tree_inv :: "'d::wellorder \<Rightarrow> ('g, 'd) osm_link list \<Rightarrow> int \<Rightarrow> ('g, 'd) node_map \<Rightarrow> bool" where
  "tree_inv zero links start m \<longleftrightarrow>
     m start = Some \<lparr>ln_parent = None, ln_dist = zero\<rparr> \<and>
     (\<forall>x n. m x = Some n \<longrightarrow> zero \<le> ln_dist n) \<and>
     (\<forall>x n. m x = Some n \<and> ln_parent n = None \<longrightarrow> x = start) \<and>
     (\<forall>x n p g. m x = Some n \<and> ln_parent n = Some (p, g) \<longrightarrow>
        (\<exists>np. m p = Some np \<and> ln_dist np \<le> ln_dist n) \<and> (\<exists>l\<in>set links. ends l = {p, x} \<and> ol_way l = g)) \<and>
     acyclic (parents m)"

lemma tree_invD:
  assumes "tree_inv zero links start m"
  shows "m start = Some \<lparr>ln_parent = None, ln_dist = zero\<rparr>"
    and "m x = Some n \<Longrightarrow> zero \<le> ln_dist n"
    and "m x = Some n \<Longrightarrow> ln_parent n = None \<Longrightarrow> x = start"
    and "m x = Some n \<Longrightarrow> ln_parent n = Some (p, g) \<Longrightarrow> \<exists>np. m p = Some np \<and> ln_dist np \<le> ln_dist n"
    and "m x = Some n \<Longrightarrow> ln_parent n = Some (p, g) \<Longrightarrow> \<exists>l\<in>set links. ends l = {p, x} \<and> ol_way l = g"
    and "acyclic (parents m)"
  using assms unfolding tree_inv_def by blast+

lemma parents_closer:
  assumes "tree_inv zero links start m" "(x, y) \<in> (parents m)\<^sup>+"
  shows "\<exists>nx ny. m x = Some nx \<and> m y = Some ny \<and> ln_dist nx \<le> ln_dist ny"
  using assms(2)
proof (induction rule: trancl_induct)
  case (base y)
  then obtain n g where "m y = Some n" "ln_parent n = Some (x, g)" by (auto simp: parents_def)
  with tree_invD(4) [OF assms(1) this] show ?case by blast
next
  case (step y z)
  from step.hyps(2) obtain n g where z: "m z = Some n" "ln_parent n = Some (y, g)" by (auto simp: parents_def)
  from step.IH obtain nx ny where "m x = Some nx" "m y = Some ny" "ln_dist nx \<le> ln_dist ny" by blast
  with tree_invD(4) [OF assms(1) z] z(1) show ?case by (auto intro: order_trans)
qed

text \<open>A node that is new or gets closer keeps the tree a tree.\<close>

lemma tree_inv_update:
  assumes inv: "tree_inv zero links start m" and p: "m p = Some np"
    and l: "l \<in> set links" "ends l = {p, x}" "ln_dist np \<le> t"
    and better: "\<And>n. m x = Some n \<Longrightarrow> t < ln_dist n"
  shows "tree_inv zero links start (m(x \<mapsto> \<lparr>ln_parent = Some (p, ol_way l), ln_dist = t\<rparr>))"
proof -
  let ?new = "\<lparr>ln_parent = Some (p, ol_way l), ln_dist = t\<rparr>"
  note D = tree_invD [OF inv]
  have zero: "zero \<le> t" using D(2) [OF p] l(3) by (rule order_trans)
  have start: "x \<noteq> start" using better [of "\<lparr>ln_parent = None, ln_dist = zero\<rparr>"] D(1) zero by auto
  have px: "p \<noteq> x" using better [of np] p l(3) by auto
  have far: "(x, p) \<notin> (parents m)\<^sup>*"
  proof
    assume "(x, p) \<in> (parents m)\<^sup>*"
    with px have "(x, p) \<in> (parents m)\<^sup>+" by (metis rtranclD)
    then obtain nx where "m x = Some nx" "ln_dist nx \<le> ln_dist np"
      using parents_closer [OF inv] p by fastforce
    with better [of nx] l(3) show False by simp
  qed
  let ?m = "m(x \<mapsto> ?new)"
  have sub: "parents ?m \<subseteq> insert (p, x) (parents m)" by (auto simp: parents_def split: if_splits)
  have "acyclic (insert (p, x) (parents m))" using D(6) far by (simp add: acyclic_insert)
  then have acyclic: "acyclic (parents ?m)" using sub by (rule acyclic_subset)
  have parent: "(\<exists>nq. ?m q = Some nq \<and> ln_dist nq \<le> ln_dist n) \<and> (\<exists>l\<in>set links. ends l = {q, y} \<and> ol_way l = g)"
    if y: "?m y = Some n" "ln_parent n = Some (q, g)" for y n q g
  proof (cases "y = x")
    case True
    with y have "q = p" "g = ol_way l" "ln_dist n = t" by auto
    with p px l True show ?thesis by (intro conjI bexI [of _ l]) simp_all
  next
    case False
    with y have old: "m y = Some n" by simp
    obtain nq where nq: "m q = Some nq" "ln_dist nq \<le> ln_dist n" using D(4) [OF old y(2)] by blast
    have "\<exists>nq. ?m q = Some nq \<and> ln_dist nq \<le> ln_dist n"
      using nq better [of nq] by (cases "q = x") (auto intro: order_trans)
    with D(5) [OF old y(2)] show ?thesis by blast
  qed
  show ?thesis
    unfolding tree_inv_def
  proof (intro conjI allI impI)
    show "?m start = Some \<lparr>ln_parent = None, ln_dist = zero\<rparr>" using start D(1) by simp
    show "zero \<le> ln_dist n" if "?m y = Some n" for y n
      using that zero D(2) [of y n] by (cases "y = x") auto
    show "y = start" if "?m y = Some n \<and> ln_parent n = None" for y n
      using that D(3) [of y n] by (cases "y = x") auto
    show "\<exists>nq. ?m q = Some nq \<and> ln_dist nq \<le> ln_dist n" if "?m y = Some n \<and> ln_parent n = Some (q, g)" for y n q g
      using parent that by blast
    show "\<exists>l\<in>set links. ends l = {q, y} \<and> ol_way l = g" if "?m y = Some n \<and> ln_parent n = Some (q, g)" for y n q g
      using parent that by blast
  qed (rule acyclic)
qed

section \<open>What the search keeps\<close>

text \<open>
  Entries of the heap are no better than the table; a node of the table either waits in the heap with its
  distance or has all its neighbours in the table, but for the one that is being expanded.
\<close>

definition heap_ok :: "('g, 'd::wellorder) node_map \<Rightarrow> 'd heap_state list \<Rightarrow> bool" where
  "heap_ok m heap \<longleftrightarrow> (\<forall>(c, i)\<in>set heap. \<exists>n. m i = Some n \<and> ln_dist n \<le> c)"

definition settled :: "('g, 'd) osm_link list \<Rightarrow> ('g, 'd) node_map \<Rightarrow> 'd heap_state list \<Rightarrow> int \<Rightarrow> bool" where
  "settled links m heap x \<longleftrightarrow>
     (\<exists>n. m x = Some n \<and> (ln_dist n, x) \<in> set heap) \<or> adjacent links `` {x} \<subseteq> dom m"

definition search_inv ::
    "'d::wellorder \<Rightarrow> ('g, 'd) osm_link list \<Rightarrow> int \<Rightarrow> int \<Rightarrow> int set \<Rightarrow> ('g, 'd) search_state \<Rightarrow> bool" where
  "search_inv zero links start dest expanding st \<longleftrightarrow>
     distinct (map fst (fst st)) \<and> tree_inv zero links start (map_of (fst st)) \<and>
     heap_ok (map_of (fst st)) (snd st) \<and> dest \<notin> dom (map_of (fst st)) \<and>
     (\<forall>x\<in>dom (map_of (fst st)) - expanding. settled links (map_of (fst st)) (snd st) x)"

text \<open>What gets smaller: the nodes not yet seen, else the distances.\<close>

definition seen_dists :: "(int \<times> ('g, 'd) light_node) list \<Rightarrow> 'd multiset" where
  "seen_dists nodes = image_mset (\<lambda>x. ln_dist (the (map_of nodes x))) (mset_set (dom (map_of nodes)))"

definition progress ::
    "('g, 'd::wellorder) osm_link list \<Rightarrow> int \<Rightarrow>
      ((int \<times> ('g, 'd) light_node) list \<times> (int \<times> ('g, 'd) light_node) list) set" where
  "progress links start =
     inv_image (less_than <*lex*> mult {(a, b). a < b})
       (\<lambda>nodes. (card (insert start (endpoints links) - dom (map_of nodes)), seen_dists nodes))"

lemma wf_progress: "wf (progress links start)"
  unfolding progress_def by (intro wf_inv_image wf_lex_prod wf_less_than wf_mult wf)

lemma trans_progress: "trans (progress links start)"
  unfolding progress_def by (intro trans_inv_image trans_lex_prod trans_less_than trans_mult) (auto simp: trans_def)

lemma ends_adjacent: "l \<in> set links \<Longrightarrow> ends l = {a, b} \<Longrightarrow> (a, b) \<in> adjacent links"
  by (auto simp: adjacent_def ends_def)

lemma links_at_ends: "l \<in> set (links_at n links) \<Longrightarrow> l \<in> set links \<and> ends l = {n, other_end l n}"
  by (auto simp: links_at_def other_end_def ends_def)

lemma progress_new:
  assumes "map_of nodes x = None" "x \<in> endpoints links"
  shows "(AList.update x n nodes, nodes) \<in> progress links start"
proof -
  have "insert start (endpoints links) - insert x (dom (map_of nodes)) \<subset> insert start (endpoints links) - dom (map_of nodes)"
    using assms by (auto simp: domIff)
  then have "card (insert start (endpoints links) - insert x (dom (map_of nodes)))
      < card (insert start (endpoints links) - dom (map_of nodes))"
    by (intro psubset_card_mono) simp_all
  then show ?thesis by (simp add: progress_def)
qed

lemma progress_closer:
  assumes "map_of nodes x = Some n" "ln_dist n' < ln_dist n"
  shows "(AList.update x n' nodes, nodes) \<in> progress links start"
proof -
  let ?D = "dom (map_of nodes)"
  have x: "x \<in> ?D" and dom: "insert x ?D = ?D" using assms(1) by auto
  have fin: "finite ?D" by (rule finite_dom_map_of)
  let ?rest = "image_mset (\<lambda>y. ln_dist (the (map_of nodes y))) (mset_set (?D - {x}))"
  have split: "mset_set ?D = add_mset x (mset_set (?D - {x}))"
    using fin x by (metis mset_set.remove)
  have old: "seen_dists nodes = add_mset (ln_dist n) ?rest"
    unfolding seen_dists_def split using assms(1) by simp
  have "image_mset (\<lambda>y. ln_dist (the (((map_of nodes)(x \<mapsto> n')) y))) (mset_set (?D - {x})) = ?rest"
    using fin by (intro image_mset_cong) auto
  then have new: "seen_dists (AList.update x n' nodes) = add_mset (ln_dist n') ?rest"
    by (simp add: seen_dists_def dom split)
  have "(seen_dists (AList.update x n' nodes), seen_dists nodes) \<in> mult {(a, b). a < b}"
    using one_step_implies_mult [of "{#ln_dist n#}" "{#ln_dist n'#}" "{(a, b). a < b}" ?rest] assms(2)
    by (simp add: old new)
  then show ?thesis by (simp add: progress_def dom)
qed

lemma settled_update:
  assumes "settled links m heap y" "y \<noteq> x"
  shows "settled links (m(x \<mapsto> n)) ((t, x) # heap) y"
  using assms by (auto simp: settled_def)

lemma heap_ok_update:
  assumes "heap_ok m heap" "\<And>k. m x = Some k \<Longrightarrow> ln_dist n \<le> ln_dist k"
  shows "heap_ok (m(x \<mapsto> n)) heap" "heap_ok (m(x \<mapsto> n)) ((ln_dist n, x) # heap)"
proof -
  show ok: "heap_ok (m(x \<mapsto> n)) heap"
    using assms unfolding heap_ok_def by (fastforce intro: order_trans)
  then show "heap_ok (m(x \<mapsto> n)) ((ln_dist n, x) # heap)" by (simp add: heap_ok_def)
qed

definition distances_grow :: "('d::wellorder \<Rightarrow> 'd \<Rightarrow> 'd) \<Rightarrow> 'd \<Rightarrow> bool" where
  "distances_grow add zero \<longleftrightarrow> (\<forall>w d. zero \<le> w \<longrightarrow> d \<le> add w d)"

text \<open>What one link does: it finds the goal, or it keeps the invariant and the other end is in the table.\<close>

lemma relax_link_inv:
  assumes inv: "search_inv zero links start dest {here} st" and add: "distances_grow add zero"
    and here: "map_of (fst st) here = Some n" "ln_dist n = dist"
    and l: "l \<in> set links" "ends l = {here, other_end l here}" "zero \<le> ol_distance l"
    and run: "relax_link add dest here dist l st = (found, st1)"
  shows "found \<Longrightarrow> tree_inv zero links start (map_of (fst st1)) \<and> dest \<in> dom (map_of (fst st1))"
    and "\<not> found \<Longrightarrow> search_inv zero links start dest {here} st1 \<and> map_of (fst st1) here = Some n \<and>
      other_end l here \<in> dom (map_of (fst st1)) \<and> dom (map_of (fst st)) \<subseteq> dom (map_of (fst st1)) \<and>
      (st1 = st \<or> (fst st1, fst st) \<in> progress links start)"
proof -
  obtain nodes heap where st: "st = (nodes, heap)" by (cases st)
  let ?x = "other_end l here" and ?t = "add (ol_distance l) dist"
  let ?n = "\<lparr>ln_parent = Some (here, ol_way l), ln_dist = ?t\<rparr>"
  have dist: "ln_dist n \<le> ?t" using add l(3) here(2) by (simp add: distances_grow_def)
  have tree: "tree_inv zero links start (map_of nodes)" and heap: "heap_ok (map_of nodes) heap"
    and nodest: "dest \<notin> dom (map_of nodes)" and distinct: "distinct (map fst nodes)"
    and rest: "\<And>y. y \<in> dom (map_of nodes) \<Longrightarrow> y \<noteq> here \<Longrightarrow> settled links (map_of nodes) heap y"
    using inv by (auto simp: search_inv_def st)
  have better: "tree_inv zero links start ((map_of nodes)(?x \<mapsto> ?n))"
    if "\<And>k. map_of nodes ?x = Some k \<Longrightarrow> ?t < ln_dist k"
    using here(1) l(1,2) dist that by (intro tree_inv_update [OF tree]) (auto simp: st)
  have keep: "search_inv zero links start dest {here} (AList.update ?x ?n nodes, (?t, ?x) # heap)"
    if "\<And>k. map_of nodes ?x = Some k \<Longrightarrow> ?t < ln_dist k" "?x \<noteq> dest"
  proof -
    have "settled links ((map_of nodes)(?x \<mapsto> ?n)) ((?t, ?x) # heap) y"
      if "y \<in> insert ?x (dom (map_of nodes))" "y \<noteq> here" for y
      using that rest by (cases "y = ?x") (auto simp: settled_def intro: settled_update)
    then show ?thesis
      using better [OF that(1)] that(2) heap_ok_update(2) [OF heap, of ?x ?n] that(1) nodest distinct
      by (auto simp: search_inv_def order_less_imp_le distinct_update)
  qed
  show "tree_inv zero links start (map_of (fst st1)) \<and> dest \<in> dom (map_of (fst st1))" if found
    using run that better by (auto simp: relax_link_def st Let_def split: option.splits if_splits)
  show "search_inv zero links start dest {here} st1 \<and> map_of (fst st1) here = Some n \<and>
      other_end l here \<in> dom (map_of (fst st1)) \<and> dom (map_of (fst st)) \<subseteq> dom (map_of (fst st1)) \<and>
      (st1 = st \<or> (fst st1, fst st) \<in> progress links start)" if "\<not> found"
  proof (cases "map_of nodes ?x")
    case None
    with run that have st1: "st1 = (AList.update ?x ?n nodes, (?t, ?x) # heap)" "?x \<noteq> dest"
      by (auto simp: relax_link_def st Let_def split: if_splits)
    have "?x \<noteq> here" using None here(1) st by auto
    moreover have "?x \<in> endpoints links" using adjacent_endpoints [OF ends_adjacent [OF l(1,2)]] .
    ultimately show ?thesis
      using keep [OF _ st1(2)] None here(1) progress_new [OF None] by (auto simp: st1(1) st)
  next
    case (Some k)
    show ?thesis
    proof (cases "?t < ln_dist k")
      case True
      with run that Some have st1: "st1 = (AList.update ?x ?n nodes, (?t, ?x) # heap)"
        by (auto simp: relax_link_def st Let_def)
      have "?x \<noteq> here" using Some True here dist by (auto simp: st)
      moreover have "?x \<noteq> dest" using Some nodest by auto
      ultimately show ?thesis
        using keep True Some here(1) progress_closer [OF Some, of ?n] by (auto simp: st1 st)
    next
      case False
      with run that Some have "st1 = st" by (auto simp: relax_link_def st Let_def)
      with inv here Some show ?thesis by (auto simp: st)
    qed
  qed
qed

lemma relax_links_inv:
  assumes "search_inv zero links start dest {here} st" and add: "distances_grow add zero"
    and "map_of (fst st) here = Some n" "ln_dist n = dist"
    and "\<And>l. l \<in> set ls \<Longrightarrow> l \<in> set links \<and> ends l = {here, other_end l here} \<and> zero \<le> ol_distance l"
    and "relax_links add dest here dist ls st = (found, st1)"
  shows "found \<Longrightarrow> tree_inv zero links start (map_of (fst st1)) \<and> dest \<in> dom (map_of (fst st1))"
    and "\<not> found \<Longrightarrow> search_inv zero links start dest {here} st1 \<and>
      (\<lambda>l. other_end l here) ` set ls \<subseteq> dom (map_of (fst st1)) \<and> dom (map_of (fst st)) \<subseteq> dom (map_of (fst st1)) \<and>
      (st1 = st \<or> (fst st1, fst st) \<in> progress links start)"
proof -
  have "(found \<longrightarrow> tree_inv zero links start (map_of (fst st1)) \<and> dest \<in> dom (map_of (fst st1))) \<and>
      (\<not> found \<longrightarrow> search_inv zero links start dest {here} st1 \<and>
        (\<lambda>l. other_end l here) ` set ls \<subseteq> dom (map_of (fst st1)) \<and> dom (map_of (fst st)) \<subseteq> dom (map_of (fst st1)) \<and>
        (st1 = st \<or> (fst st1, fst st) \<in> progress links start))"
    using assms(1,3,4,5,6)
  proof (induction ls arbitrary: st)
    case (Cons l ls)
    obtain found1 st2 where step: "relax_link add dest here dist l st = (found1, st2)"
      by (cases "relax_link add dest here dist l st")
    have l: "l \<in> set links" "ends l = {here, other_end l here}" "zero \<le> ol_distance l" using Cons.prems(4) by auto
    note one = relax_link_inv [OF Cons.prems(1) add Cons.prems(2,3) l step]
    show ?case
    proof (cases found1)
      case True
      with Cons.prems(5) step one(1) show ?thesis by auto
    next
      case False
      note two = one(2) [OF False]
      have run: "relax_links add dest here dist ls st2 = (found, st1)" using Cons.prems(5) step False by simp
      have rest: "l \<in> set links \<and> ends l = {here, other_end l here} \<and> zero \<le> ol_distance l" if "l \<in> set ls" for l
        using Cons.prems(4) that by simp
      have "search_inv zero links start dest {here} st2" "map_of (fst st2) here = Some n" using two by blast+
      note more = Cons.IH [OF this Cons.prems(3) rest run]
      have "st1 = st \<or> (fst st1, fst st) \<in> progress links start" if "\<not> found"
        using more two that transD [OF trans_progress, of "fst st1" "fst st2" links start "fst st"] by auto
      with more two show ?thesis unfolding list.set image_insert insert_subset by blast
    qed
  qed auto
  then show "found \<Longrightarrow> tree_inv zero links start (map_of (fst st1)) \<and> dest \<in> dom (map_of (fst st1))"
    and "\<not> found \<Longrightarrow> search_inv zero links start dest {here} st1 \<and>
      (\<lambda>l. other_end l here) ` set ls \<subseteq> dom (map_of (fst st1)) \<and> dom (map_of (fst st)) \<subseteq> dom (map_of (fst st1)) \<and>
      (st1 = st \<or> (fst st1, fst st) \<in> progress links start)"
    by blast+
qed

lemma fold_pick: "fold (\<lambda>x m. if P m x then x else m) xs a \<in> set (a # xs)"
  by (induction xs arbitrary: a) auto

lemma heap_pop_None [simp]: "heap_pop heap = None \<longleftrightarrow> heap = []"
  by (simp add: heap_pop_def Let_def split: list.split)

lemma heap_pop_Some: "heap_pop heap = Some (m, rest) \<Longrightarrow> m \<in> set heap \<and> rest = remove1 m heap"
  using fold_pick [of state_less "tl heap" "hd heap"]
  by (cases heap) (auto simp: heap_pop_def Let_def)

text \<open>The entry that is popped is not less than any other: its cost is least.\<close>

lemma fold_greatest: "\<forall>x\<in>set (a # xs). fst (fold (\<lambda>x m. if state_less m x then x else m) xs a) \<le> fst x"
proof (induction xs arbitrary: a)
  case (Cons y xs)
  have "fst (if state_less a y then y else a) \<le> fst a" "fst (if state_less a y then y else a) \<le> fst y"
    by (auto simp: state_less_def)
  with Cons.IH [of "if state_less a y then y else a"] show ?case
    by (auto simp del: state_less_def intro: order_trans split: if_splits)
qed simp

lemma heap_pop_least: "heap_pop heap = Some (m, rest) \<Longrightarrow> x \<in> set heap \<Longrightarrow> fst m \<le> fst x"
  using fold_greatest [of "hd heap" "tl heap"]
  by (cases heap) (auto simp: heap_pop_def Let_def)

section \<open>The search returns\<close>

definition search_order ::
    "('g, 'd::wellorder) osm_link list \<Rightarrow> int \<Rightarrow> (('g, 'd) search_state \<times> ('g, 'd) search_state) set" where
  "search_order links start = progress links start <*lex*> measure length"

lemma wf_search_order: "wf (search_order links start)"
  by (simp add: search_order_def wf_progress wf_lex_prod)

lemma search_inv_pop:
  assumes "search_inv zero links start dest {} (nodes, heap)" "(c, i) \<in> set heap" "map_of nodes i = Some n"
  shows "search_inv zero links start dest (if c = ln_dist n then {i} else {}) (nodes, remove1 (c, i) heap)"
proof -
  have "heap_ok (map_of nodes) (remove1 (c, i) heap)"
    using assms(1) notin_set_remove1 [of _ heap "(c, i)"] by (force simp: search_inv_def heap_ok_def)
  moreover have "settled links (map_of nodes) (remove1 (c, i) heap) x"
    if x: "x \<in> dom (map_of nodes)" "x = i \<longrightarrow> c \<noteq> ln_dist n" for x
  proof -
    have "settled links (map_of nodes) heap x" using assms(1) x(1) by (simp add: search_inv_def)
    moreover have "(ln_dist k, x) \<in> set (remove1 (c, i) heap)"
      if "map_of nodes x = Some k" "(ln_dist k, x) \<in> set heap" for k
      using that x(2) assms(3) by (cases "x = i") (auto simp: in_set_remove1)
    ultimately show ?thesis by (auto simp: settled_def)
  qed
  ultimately show ?thesis using assms(1) by (auto simp: search_inv_def)
qed

lemma search_spec:
  assumes add: "distances_grow add zero" and links: "\<forall>l\<in>set links. zero \<le> ol_distance l"
    and "search_inv zero links start dest {} st"
  shows "\<exists>nodes. search add links dest st = Some (Inr nodes) \<and> tree_inv zero links start (map_of nodes) \<and>
    (dest \<notin> dom (map_of nodes) \<longrightarrow> (\<forall>x\<in>dom (map_of nodes). adjacent links `` {x} \<subseteq> dom (map_of nodes)))"
  using assms(3)
proof (induction st rule: wf_induct_rule [OF wf_search_order [of links start]])
  case (1 st)
  obtain nodes heap where st: "st = (nodes, heap)" by (cases st)
  note inv = "1.prems" [unfolded st]
  show ?case
  proof (cases "heap_pop heap")
    case None
    then have "search add links dest st = Some (Inr nodes)" by (subst search.simps) (simp add: st heap_pop_def)
    with inv None show ?thesis by (auto simp: search_inv_def settled_def)
  next
    case (Some popped)
    obtain cost here rest where popped: "popped = ((cost, here), rest)" by (cases popped) auto
    note pop = Some [unfolded popped]
    have mem: "(cost, here) \<in> set heap" "rest = remove1 (cost, here) heap" using heap_pop_Some [OF pop] by blast+
    obtain n where n: "map_of nodes here = Some n" "ln_dist n \<le> cost"
      using inv mem(1) by (fastforce simp: search_inv_def heap_ok_def)
    have goal: "here \<noteq> dest" using inv n(1) by (auto simp: search_inv_def)
    note popped_inv = search_inv_pop [OF inv mem(1) n(1), folded mem(2)]
    have shorter: "((nodes', rest'), st) \<in> search_order links start"
      if "nodes' = nodes \<and> rest' = rest \<or> (nodes', nodes) \<in> progress links start" for nodes' rest'
      using that mem length_pos_if_in_set [OF mem(1)] by (auto simp: search_order_def st length_remove1)
    show ?thesis
    proof (cases "cost = ln_dist n")
      case False
      then have "search add links dest st = search add links dest (nodes, rest)"
        using pop n goal by (subst search.simps) (simp add: st)
      with "1.IH" [OF shorter] popped_inv False show ?thesis by simp
    next
      case True
      obtain found st1 where run: "relax_links add dest here (ln_dist n) (links_at here links) (nodes, rest) = (found, st1)"
        by (cases "relax_links add dest here (ln_dist n) (links_at here links) (nodes, rest)")
      have at: "l \<in> set links \<and> ends l = {here, other_end l here} \<and> zero \<le> ol_distance l"
        if "l \<in> set (links_at here links)" for l
        using links_at_ends [OF that] links by blast
      have inv1: "search_inv zero links start dest {here} (nodes, rest)" using popped_inv True by simp
      note relaxed = relax_links_inv [OF inv1 add _ refl at run, simplified, OF n(1)]
      have unfold: "search add links dest st = (if found then Some (Inr (fst st1)) else search add links dest st1)"
        using pop n(1) goal True run by (subst search.simps) (simp add: st)
      show ?thesis
      proof (cases found)
        case True
        with relaxed(1) unfold show ?thesis by auto
      next
        case False
        note more = relaxed(2) [OF False]
        have "adjacent links `` {here} = (\<lambda>l. other_end l here) ` set (links_at here links)"
          by (auto simp: adjacent_links_at)
        then have "settled links (map_of (fst st1)) (snd st1) here" using more by (simp add: settled_def)
        then have "search_inv zero links start dest {} st1" using more by (auto simp: search_inv_def)
        with "1.IH" [of st1] shorter [of "fst st1" "snd st1"] more unfold False show ?thesis by auto
      qed
    qed
  qed
qed

lemma start_inv:
  assumes "start \<noteq> dest"
  shows "search_inv (ge_zero G) links start dest {} (start_search G start)"
proof -
  have "parents (map_of (fst (start_search G start))) = {}"
    by (auto simp: parents_def start_search_def split: if_splits)
  then have "acyclic (parents (map_of (fst (start_search G start))))" by (simp add: acyclic_def)
  then show ?thesis
    using assms by (auto simp: search_inv_def start_search_def tree_inv_def heap_ok_def settled_def)
qed

section \<open>The way back is a way\<close>

lemma parents_connected:
  assumes "tree_inv zero links start m" "(p, x) \<in> parents m"
  shows "(p, x) \<in> adjacent links"
proof -
  obtain n g where "m x = Some n" "ln_parent n = Some (p, g)" using assms(2) by (auto simp: parents_def)
  from tree_invD(5) [OF assms(1) this] show ?thesis by (auto intro: ends_adjacent)
qed

lemma finite_parents: "finite (dom m) \<Longrightarrow> tree_inv zero links start m \<Longrightarrow> finite (parents m)"
proof -
  assume "finite (dom m)" and inv: "tree_inv zero links start m"
  have "parents m \<subseteq> dom m \<times> dom m"
    using tree_invD(4) [OF inv] by (fastforce simp: parents_def)
  then show ?thesis by (rule finite_subset) (simp add: \<open>finite (dom m)\<close>)
qed

text \<open>
  A route is given from its goal to its start, with the ways between its nodes from start to goal: every way is that of a
  link between its nodes, turned so that it leads towards the goal.
\<close>

fun route :: "('g, 'd) geo_ops \<Rightarrow> ('g, 'd) osm_db \<Rightarrow> int list \<Rightarrow> 'g list \<Rightarrow> bool" where
  "route G db [] ways \<longleftrightarrow> False"
| "route G db [n] ways \<longleftrightarrow> ways = []"
| "route G db (x # y # ns) ways \<longleftrightarrow> ways \<noteq> [] \<and>
     (\<exists>l\<in>set (og_links db). ends l = {y, x} \<and> oriented G db (ol_way l) x = Some (last ways)) \<and>
     route G db (y # ns) (butlast ways)"

fun chain :: "('g, 'd) node_map \<Rightarrow> int list \<Rightarrow> bool" where
  "chain m [] \<longleftrightarrow> False"
| "chain m [x] \<longleftrightarrow> (\<exists>n. m x = Some n \<and> ln_parent n = None)"
| "chain m (x # y # ns) \<longleftrightarrow> (y, x) \<in> parents m \<and> chain m (y # ns)"

lemma collect_path_spec:
  assumes inv: "tree_inv zero (og_links db) start (map_of nodes)"
    and fkey: "endpoints (og_links db) \<subseteq> nd_id ` set (og_nodes db)"
    and "map_of nodes x = Some n"
  shows "\<exists>rest ways. collect_path G db nodes n (before @ [x]) path = Some (Inr (before @ x # rest, ways @ path)) \<and>
    route G db (x # rest) ways \<and> last (x # rest) = start \<and> distinct (x # rest) \<and> chain (map_of nodes) (x # rest) \<and>
    (\<forall>y\<in>set rest. (y, x) \<in> (parents (map_of nodes))\<^sup>+)"
  using assms(3)
proof (induction x arbitrary: n before path
    rule: wf_induct_rule [OF finite_acyclic_wf [OF finite_parents [OF finite_dom_map_of inv] tree_invD(6) [OF inv]]])
  case (1 x)
  show ?case
  proof (cases "ln_parent n")
    case None
    then have "collect_path G db nodes n (before @ [x]) path = Some (Inr (before @ [x], path))"
      by (subst collect_path.simps) simp
    with None "1.prems" tree_invD(3) [OF inv "1.prems"] show ?thesis by (intro exI [of _ "[]"]) simp
  next
    case (Some parent)
    obtain p g where parent: "ln_parent n = Some (p, g)" using Some by (cases parent) auto
    obtain np where np: "map_of nodes p = Some np" using tree_invD(4) [OF inv "1.prems" parent] by blast
    obtain l where l: "l \<in> set (og_links db)" "ends l = {p, x}" "ol_way l = g"
      using tree_invD(5) [OF inv "1.prems" parent] by blast
    have edge: "(p, x) \<in> parents (map_of nodes)" using "1.prems" parent by (auto simp: parents_def)
    have "x \<in> endpoints (og_links db)" using l by (auto simp: endpoints_def ends_def doubleton_eq_iff)
    then obtain nx where nx: "nx \<in> set (og_nodes db)" "nd_id nx = x" using fkey by auto
    then obtain g1 where g1: "oriented G db g x = Some g1"
      by (cases "filter (\<lambda>n. nd_id n = x) (og_nodes db)") (auto simp: oriented_def filter_empty_conv)
    have unfold: "collect_path G db nodes n (before @ [x]) path = collect_path G db nodes np ((before @ [x]) @ [p]) (g1 # path)"
      by (subst collect_path.simps) (simp add: parent g1 np)
    obtain rest ways where ih:
      "collect_path G db nodes np ((before @ [x]) @ [p]) (g1 # path) = Some (Inr ((before @ [x]) @ p # rest, ways @ g1 # path))"
      "route G db (p # rest) ways" "last (p # rest) = start" "distinct (p # rest)"
      "chain (map_of nodes) (p # rest)" "\<forall>y\<in>set rest. (y, p) \<in> (parents (map_of nodes))\<^sup>+"
      using "1.IH" [OF edge np] by blast
    have above: "\<forall>y\<in>set (p # rest). (y, x) \<in> (parents (map_of nodes))\<^sup>+"
      using ih(6) edge by (auto intro: trancl_into_trancl)
    then have "x \<notin> set (p # rest)" using tree_invD(6) [OF inv] by (auto simp: acyclic_def)
    moreover have "route G db (x # p # rest) (ways @ [g1])" using ih(2) l g1 by auto
    ultimately show ?thesis
      using ih above unfold edge by (intro exI [of _ "p # rest"] exI [of _ "ways @ [g1]"]) simp
  qed
qed

lemma tree_connected:
  assumes inv: "tree_inv zero links start (map_of nodes)" and "x \<in> dom (map_of nodes)"
  shows "(start, x) \<in> connected links"
  using assms(2)
proof (induction x
    rule: wf_induct_rule [OF finite_acyclic_wf [OF finite_parents [OF finite_dom_map_of inv] tree_invD(6) [OF inv]]])
  case (1 x)
  then obtain n where n: "map_of nodes x = Some n" by blast
  show ?case
  proof (cases "ln_parent n")
    case None
    with tree_invD(3) [OF inv n] show ?thesis by simp
  next
    case (Some parent)
    then obtain p g where parent: "ln_parent n = Some (p, g)" by (cases parent) auto
    then have edge: "(p, x) \<in> parents (map_of nodes)" using n by (auto simp: parents_def)
    have "p \<in> dom (map_of nodes)" using tree_invD(4) [OF inv n parent] by blast
    from "1.IH" [OF edge this] parents_connected [OF inv edge] show ?thesis by (rule rtrancl_into_rtrancl)
  qed
qed

lemma closed_connected:
  assumes "\<forall>x\<in>A. adjacent links `` {x} \<subseteq> A" "s \<in> A" "(s, x) \<in> connected links"
  shows "x \<in> A"
  using assms(3) by (induction rule: rtrancl_induct) (use assms in auto)

section \<open>\<open>navigate\<close> is correct\<close>

text \<open>The keys of the schema, and lengths that are no less than zero.\<close>

definition osm_wf :: "('g, 'd::wellorder) geo_ops \<Rightarrow> ('g, 'd) osm_db \<Rightarrow> bool" where
  "osm_wf G db \<longleftrightarrow>
     distinct (map nd_id (og_nodes db)) \<and> endpoints (og_links db) \<subseteq> nd_id ` set (og_nodes db) \<and>
     rl_point ` set (og_locations db) \<subseteq> nd_id ` set (og_nodes db) \<and>
     (\<forall>l\<in>set (og_links db). ge_zero G \<le> ol_distance l)"

text \<open>What \<open>separate_nodes\<close> establishes.\<close>

definition parts_match :: "('g, 'd) osm_db \<Rightarrow> bool" where
  "parts_match db \<longleftrightarrow>
     (\<forall>n\<in>set (og_nodes db). \<forall>m\<in>set (og_nodes db).
        nd_graph_part n = nd_graph_part m \<longleftrightarrow> (nd_id n, nd_id m) \<in> connected (og_links db))"

lemma nth0_filter_mem: "nth0 (filter P xs) = Some x \<Longrightarrow> x \<in> set xs \<and> P x"
  by (cases "filter P xs") (auto simp: filter_eq_Cons_iff)

lemma filter_key:
  "distinct (map f xs) \<Longrightarrow> x \<in> set xs \<Longrightarrow> filter (\<lambda>y. f y = f x) xs = [x]"
proof (induction xs)
  case (Cons y ys)
  show ?case
  proof (cases "x = y")
    case True
    with Cons.prems(1) have "f x \<notin> f ` set ys" by simp
    then have "filter (\<lambda>z. f z = f x) ys = []" by (metis (mono_tags, lifting) filter_False image_eqI)
    with True show ?thesis by simp
  next
    case False
    with Cons.prems have "x \<in> set ys" "f y \<noteq> f x" by auto
    with Cons show ?thesis by simp
  qed
qed simp

lemma node_by_id_key:
  assumes "distinct (map nd_id (og_nodes db))" "n \<in> set (og_nodes db)"
  shows "node_by_id db (nd_id n) = Some n"
    and "node_in_part db (nd_id n) c = (if nd_graph_part n = c then Some n else None)"
proof -
  note key = filter_key [OF assms]
  then show "node_by_id db (nd_id n) = Some n" by (simp add: node_by_id_def)
  have "filter (\<lambda>m. nd_id m = nd_id n \<and> nd_graph_part m = c) (og_nodes db) =
      filter (\<lambda>m. nd_graph_part m = c) (filter (\<lambda>m. nd_id m = nd_id n) (og_nodes db))"
    unfolding filter_filter by (rule filter_cong) auto
  then show "node_in_part db (nd_id n) c = (if nd_graph_part n = c then Some n else None)"
    using key by (simp add: node_in_part_def)
qed

text \<open>The search between two nodes of one part finds the goal, and the way back is a route.\<close>

lemma search_connected:
  assumes wf: "osm_wf G db" and add: "distances_grow (ge_add G) (ge_zero G)"
    and "(start, goal) \<in> connected (og_links db)" "start \<noteq> goal"
  shows "\<exists>nodes n path_nodes ways. search (ge_add G) (og_links db) goal (start_search G start) = Some (Inr nodes) \<and>
    map_of nodes goal = Some n \<and> collect_path G db nodes n [goal] [] = Some (Inr (path_nodes, ways)) \<and>
    route G db path_nodes ways \<and> hd path_nodes = goal \<and> last path_nodes = start \<and> distinct path_nodes"
proof -
  obtain nodes where nodes: "search (ge_add G) (og_links db) goal (start_search G start) = Some (Inr nodes)"
    and tree: "tree_inv (ge_zero G) (og_links db) start (map_of nodes)"
    and closed: "goal \<notin> dom (map_of nodes) \<longrightarrow>
      (\<forall>x\<in>dom (map_of nodes). adjacent (og_links db) `` {x} \<subseteq> dom (map_of nodes))"
    using search_spec [OF add _ start_inv [OF assms(4), of G "og_links db"]] wf by (auto simp: osm_wf_def)
  have "start \<in> dom (map_of nodes)" using tree_invD(1) [OF tree] by blast
  then have "goal \<in> dom (map_of nodes)" using closed closed_connected [OF _ _ assms(3)] by blast
  then obtain n where n: "map_of nodes goal = Some n" by blast
  have "endpoints (og_links db) \<subseteq> nd_id ` set (og_nodes db)" using wf by (simp add: osm_wf_def)
  from collect_path_spec [OF tree this n, where G = G and before = "[]" and path = "[]"]
  obtain rest ways where "collect_path G db nodes n ([] @ [goal]) [] = Some (Inr ([] @ goal # rest, ways @ []))"
      "route G db (goal # rest) ways" "last (goal # rest) = start" "distinct (goal # rest)" by blast
  with nodes n show ?thesis by (intro exI conjI) auto
qed

lemma search_same_node: "search add links start (start_search G start) = Some (Inl OPanic)"
  by (subst search.simps) (simp add: start_search_def heap_pop_def)

lemma navigate_located:
  assumes "osm_wf G db" "distances_grow (ge_add G) (ge_zero G)" "parts_match db"
    and a: "location_by_id db from = Some a" and b: "location_by_id db to = Some b"
  shows "navigate G db from to = Some (Inl (OIncorrectGraphPart from to)) \<and> (rl_point a, rl_point b) \<notin> connected (og_links db) \<or>
    navigate G db from to = Some (Inl OPanic) \<and> rl_point a = rl_point b \<or>
    (\<exists>path ways. navigate G db from to = Some (Inr path) \<and> spt_s1 path = from \<and> spt_s2 path = to \<and>
      hd (spt_nodes path) = rl_point b \<and> last (spt_nodes path) = rl_point a \<and> distinct (spt_nodes path) \<and>
      route G db (spt_nodes path) ways \<and> spt_way path = ge_make_line G ways)"
proof -
  have "a \<in> set (og_locations db)" "b \<in> set (og_locations db)"
    using nth0_filter_mem [OF a [unfolded location_by_id_def]] nth0_filter_mem [OF b [unfolded location_by_id_def]] by blast+
  then have "rl_point a \<in> nd_id ` set (og_nodes db)" "rl_point b \<in> nd_id ` set (og_nodes db)"
    using assms(1) by (auto simp: osm_wf_def)
  then obtain na nb where na: "na \<in> set (og_nodes db)" "nd_id na = rl_point a"
    and nb: "nb \<in> set (og_nodes db)" "nd_id nb = rl_point b" by auto
  have "distinct (map nd_id (og_nodes db))" using assms(1) by (simp add: osm_wf_def)
  note key = node_by_id_key(1) [OF this na(1), unfolded na(2)] node_by_id_key(2) [OF this nb(1), unfolded nb(2)]
  have part: "nd_graph_part nb = nd_graph_part na \<longleftrightarrow> (rl_point a, rl_point b) \<in> connected (og_links db)"
    using assms(3) na nb unfolding parts_match_def by metis
  consider (apart) "(rl_point a, rl_point b) \<notin> connected (og_links db)" | (same) "rl_point a = rl_point b"
    | (way) "(rl_point a, rl_point b) \<in> connected (og_links db)" "rl_point a \<noteq> rl_point b" by blast
  then show ?thesis
  proof cases
    case apart
    then have "nd_graph_part nb \<noteq> nd_graph_part na" using part by blast
    then have "navigate G db from to = Some (Inl (OIncorrectGraphPart from to))" by (simp add: navigate_def a b key)
    with apart show ?thesis by blast
  next
    case same
    then have "nd_graph_part nb = nd_graph_part na" using part by simp
    then have "navigate G db from to = Some (Inl OPanic)"
      by (simp add: navigate_def a b key na(2) nb(2)) (simp add: same search_same_node)
    with same show ?thesis by blast
  next
    case way
    obtain nodes n path_nodes ways where
      "search (ge_add G) (og_links db) (rl_point b) (start_search G (rl_point a)) = Some (Inr nodes)"
      "map_of nodes (rl_point b) = Some n" "collect_path G db nodes n [rl_point b] [] = Some (Inr (path_nodes, ways))"
      and route: "route G db path_nodes ways" "hd path_nodes = rl_point b" "last path_nodes = rl_point a" "distinct path_nodes"
      using search_connected [OF assms(1,2) way] by blast
    then have "navigate G db from to = Some (Inr \<lparr>spt_id = -1, spt_s1 = from, spt_s2 = to,
        spt_way = ge_make_line G ways, spt_nodes = path_nodes\<rparr>)"
      using part way(1) by (simp add: navigate_def a b key na nb)
    with route show ?thesis by fastforce
  qed
qed

text \<open>
  C6. When the parts of the graph are right, \<open>navigate\<close> always returns, and it says the truth: a station that is
  not found is not there, stations that are reported to be in different parts are not connected, and otherwise the answer
  is a route from one to the other that visits no node twice, with its ways turned so that they lead to the goal.
  It panics exactly if both stations are the same node.
\<close>

theorem navigate_spec:
  assumes "osm_wf G db" "distances_grow (ge_add G) (ge_zero G)" "parts_match db"
  shows "case navigate G db from to of
      None \<Rightarrow> False
    | Some (Inl e) \<Rightarrow>
        e = OStationNotFound from \<and> location_by_id db from = None \<or> e = OStationNotFound to \<and> location_by_id db to = None \<or>
        (\<exists>a b. location_by_id db from = Some a \<and> location_by_id db to = Some b \<and>
          (e = OIncorrectGraphPart from to \<and> (rl_point a, rl_point b) \<notin> connected (og_links db) \<or>
           e = OPanic \<and> rl_point a = rl_point b))
    | Some (Inr path) \<Rightarrow>
        \<exists>a b ways. location_by_id db from = Some a \<and> location_by_id db to = Some b \<and>
          spt_s1 path = from \<and> spt_s2 path = to \<and> hd (spt_nodes path) = rl_point b \<and> last (spt_nodes path) = rl_point a \<and>
          distinct (spt_nodes path) \<and> route G db (spt_nodes path) ways \<and> spt_way path = ge_make_line G ways"
proof (cases "location_by_id db from"; cases "location_by_id db to")
  fix a b
  assume "location_by_id db from = Some a" "location_by_id db to = Some b"
  with navigate_located [OF assms this] show ?thesis by auto
qed (simp_all add: navigate_def)

lemma separate_parts_match:
  assumes "\<forall>n\<in>set (og_nodes db0). nd_graph_part n = 0" "separate_nodes db0 = Some db"
  shows "parts_match db" "osm_wf G db0 \<Longrightarrow> osm_wf G db" "location_by_id db = location_by_id db0" "og_links db = og_links db0"
proof -
  obtain db' cur where "separate_nodes db0 = Some db'" "labels_ok cur db'" "unlabelled db' = []"
      and same: "\<exists>nodes. db' = db0\<lparr>og_nodes := nodes\<rparr>" "bare_nodes db' = bare_nodes db0"
    using separate_loop_spec [of 1 db0] assms(1) by (auto simp: separate_nodes_def labels_ok_def)
  then have labels: "labels_ok cur db" "unlabelled db = []" and db: "db' = db" using assms(2) by auto
  show "parts_match db"
    unfolding parts_match_def
  proof (intro ballI iffI)
    fix n m
    assume "n \<in> set (og_nodes db)" "m \<in> set (og_nodes db)"
    moreover from this have "nd_graph_part n \<noteq> 0" using labels(2) by (auto simp: unlabelled_def filter_empty_conv)
    ultimately show "nd_graph_part n = nd_graph_part m \<Longrightarrow> (nd_id n, nd_id m) \<in> connected (og_links db)"
      and "(nd_id n, nd_id m) \<in> connected (og_links db) \<Longrightarrow> nd_graph_part n = nd_graph_part m"
      using labels(1) unfolding labels_ok_def by blast+
  qed
  have "map nd_id (bare_nodes d) = map nd_id (og_nodes d)" for d :: "('a, 'b) osm_db" by (simp add: bare_nodes_def)
  then have ids: "map nd_id (og_nodes db) = map nd_id (og_nodes db0)" using same(2) unfolding db by metis
  then have "nd_id ` set (og_nodes db) = nd_id ` set (og_nodes db0)" by (metis list.set_map)
  with ids same(1) show "osm_wf G db0 \<Longrightarrow> osm_wf G db" unfolding db by (auto simp: osm_wf_def)
  show "location_by_id db = location_by_id db0" "og_links db = og_links db0"
    using same(1) unfolding db by (auto simp: location_by_id_def fun_eq_iff)
qed

section \<open>A small railway\<close>

text \<open>Euston and Harrow with a siding between them, joined directly by a long way and by a short one over the siding.\<close>

definition sample_geo :: "(string, nat) geo_ops" where
  "sample_geo = \<lparr>ge_add = (+), ge_zero = 0, ge_intersects = (\<lambda>p q. p = q), ge_end_point = (\<lambda>w. [last w]), ge_reverse = rev,
     ge_make_line = concat, ge_centroid = Some, ge_line = (@), ge_length = length\<rparr>"

definition sample_place :: "int \<Rightarrow> string \<Rightarrow> int \<Rightarrow> string railway_location" where
  "sample_place i name point = \<lparr>rl_id = i, rl_name = name, rl_point = point, rl_area = '''', rl_stanox = None,
     rl_tiploc = [name], rl_crs = [], rl_defect = None\<rparr>"

definition sample_railway :: "(string, nat) osm_db" where
  "sample_railway =
     \<lparr>og_nodes = [sample_node 1\<lparr>nd_location := ''E''\<rparr>, sample_node 2\<lparr>nd_location := ''S''\<rparr>,
        sample_node 3\<lparr>nd_location := ''H''\<rparr>, sample_node 4\<lparr>nd_location := ''I''\<rparr>],
      og_links = [\<lparr>ol_p1 = 1, ol_p2 = 2, ol_way = ''ES'', ol_distance = 1\<rparr>, \<lparr>ol_p1 = 3, ol_p2 = 2, ol_way = ''HS'', ol_distance = 1\<rparr>,
        \<lparr>ol_p1 = 3, ol_p2 = 1, ol_way = ''HE'', ol_distance = 10\<rparr>],
      og_locations = [sample_place 1 ''EUSTON'' 1, sample_place 2 ''HARROW'' 3, sample_place 3 ''ISLAND'' 4],
      og_paths = [], og_crossings = [], og_node_seq = 5, og_location_seq = 4, og_path_seq = 1, og_crossing_seq = 1\<rparr>"

definition sample_parts :: "(string, nat) osm_db" where
  "sample_parts = sample_railway\<lparr>og_nodes := [sample_node 1\<lparr>nd_location := ''E'', nd_graph_part := 1\<rparr>,
     sample_node 2\<lparr>nd_location := ''S'', nd_graph_part := 1\<rparr>, sample_node 3\<lparr>nd_location := ''H'', nd_graph_part := 1\<rparr>,
     sample_node 4\<lparr>nd_location := ''I'', nd_graph_part := 2\<rparr>]\<rparr>"

lemma sample_separation: "separate_nodes sample_railway = Some sample_parts"
  unfolding separate_nodes_def sample_railway_def sample_parts_def
  by (subst separate_loop.simps, simp add: graph_eval)+

lemma sample_fresh: "\<forall>n\<in>set (og_nodes sample_railway). nd_graph_part n = 0"
  by (simp add: sample_railway_def sample_node_def)

lemma sample_osm_wf: "osm_wf sample_geo sample_railway"
  by (simp add: osm_wf_def sample_railway_def sample_geo_def sample_node_def sample_place_def endpoints_def)

lemma sample_grow: "distances_grow (ge_add sample_geo) (ge_zero sample_geo)"
  by (simp add: distances_grow_def sample_geo_def)

definition sample_found :: "(int \<times> (string, nat) light_node) list" where
  "sample_found = [(1, \<lparr>ln_parent = None, ln_dist = 0\<rparr>), (2, \<lparr>ln_parent = Some (1, ''ES''), ln_dist = 1\<rparr>),
     (3, \<lparr>ln_parent = Some (1, ''HE''), ln_dist = 10\<rparr>)]"

lemma sample_search:
  "search (ge_add sample_geo) (og_links sample_parts) 3 (start_search sample_geo 1) = Some (Inr sample_found)"
  by (subst search.simps) (simp add: start_search_def heap_pop_def sample_geo_def sample_parts_def sample_railway_def
      sample_found_def links_at_def relax_link_def other_end_def)

lemma sample_collected:
  "collect_path sample_geo sample_parts sample_found \<lparr>ln_parent = Some (1, ''HE''), ln_dist = 10\<rparr> [3] [] =
     Some (Inr ([3, 1], [''EH'']))"
  by (subst collect_path.simps, simp add: sample_found_def oriented_def sample_geo_def sample_parts_def sample_node_def)+

lemmas sample_tables = sample_parts_def sample_railway_def sample_node_def sample_place_def

text \<open>
  The search ends when it first sees the goal: it takes the direct way of length 10, although there is one of length 2.
\<close>

lemma navigate_not_shortest:
  "navigate sample_geo sample_parts 1 2 =
     Some (Inr \<lparr>spt_id = -1, spt_s1 = 1, spt_s2 = 2, spt_way = ''EH'', spt_nodes = [3, 1]\<rparr>) \<and>
   route sample_geo sample_parts [3, 2, 1] [''ES'', ''SH'']"
proof
  have "location_by_id sample_parts 1 = Some (sample_place 1 ''EUSTON'' 1)"
      "location_by_id sample_parts 2 = Some (sample_place 2 ''HARROW'' 3)"
      "node_by_id sample_parts 1 = Some (sample_node 1\<lparr>nd_location := ''E'', nd_graph_part := 1\<rparr>)"
      "node_in_part sample_parts 3 1 = Some (sample_node 3\<lparr>nd_location := ''H'', nd_graph_part := 1\<rparr>)"
    by (simp_all add: location_by_id_def node_by_id_def node_in_part_def sample_tables)
  moreover have "rl_point (sample_place i nm n) = n" "nd_id (sample_node n\<lparr>nd_location := w, nd_graph_part := c\<rparr>) = n" for i nm n w c
    by (simp_all add: sample_place_def sample_node_def)
  moreover have "map_of sample_found 3 = Some \<lparr>ln_parent = Some (1, ''HE''), ln_dist = 10\<rparr>"
    by (simp add: sample_found_def)
  ultimately show "navigate sample_geo sample_parts 1 2 =
      Some (Inr \<lparr>spt_id = -1, spt_s1 = 1, spt_s2 = 2, spt_way = ''EH'', spt_nodes = [3, 1]\<rparr>)"
    by (simp add: navigate_def sample_search sample_collected) (simp add: sample_geo_def)
  show "route sample_geo sample_parts [3, 2, 1] [''ES'', ''SH'']"
    by (simp add: ends_def oriented_def sample_tables sample_geo_def insert_commute)
qed

lemma navigate_spec_witness:
  "\<exists>path. navigate sample_geo sample_parts 1 2 = Some (Inr path) \<and> hd (spt_nodes path) = 3 \<and> last (spt_nodes path) = 1"
proof -
  have "location_by_id sample_parts 1 = Some (sample_place 1 ''EUSTON'' 1)"
      "location_by_id sample_parts 2 = Some (sample_place 2 ''HARROW'' 3)"
    unfolding separate_parts_match(3) [OF sample_fresh sample_separation]
    by (simp_all add: location_by_id_def sample_railway_def sample_place_def)
  moreover have "(1, 3) \<in> connected (og_links sample_parts)"
    by (rule r_into_rtrancl) (auto simp: adjacent_def sample_parts_def sample_railway_def)
  ultimately show ?thesis
    using navigate_spec [OF separate_parts_match(2) [OF sample_fresh sample_separation sample_osm_wf] sample_grow
      separate_parts_match(1) [OF sample_fresh sample_separation], of 1 2]
    by (auto simp: sample_place_def split: option.splits sum.splits)
qed

end
