(* ===== verification/Osms_Stations.thy ===== *)
theory Osms_Stations
  imports Osms_Navigate
begin

text \<open>
  Stations in the graph: \<open>osm/mod.rs\<close> of \<open>osms-db\<close>. A station is a node of its own in the middle of its area, with links to
  both ends of the links that cross the area. What a geometry is and \<open>haversine_length\<close> are parameters. A transaction that
  is not committed leaves the tables as they were; the numbers a sequence skips then are not modelled.
\<close>

section \<open>Deleting a node\<close>

text \<open>
  \<open>ON DELETE CASCADE\<close> deletes the links and the stations of the node with it; \<open>ON DELETE RESTRICT\<close> keeps a station
  that a path starts or ends at.
\<close>

definition delete_node :: "int \<Rightarrow> ('g, 'd) osm_db \<Rightarrow> osms_error + ('g, 'd) osm_db" where
  "delete_node i db =
     (let gone = map rl_id (filter (\<lambda>l. rl_point l = i) (og_locations db)) in
      if \<exists>p\<in>set (og_paths db). spt_s1 p \<in> set gone then Inl (OPg ''station_paths_s1_fkey'')
      else if \<exists>p\<in>set (og_paths db). spt_s2 p \<in> set gone then Inl (OPg ''station_paths_s2_fkey'')
      else Inr (db\<lparr>og_nodes := filter (\<lambda>n. nd_id n \<noteq> i) (og_nodes db),
        og_links := filter (\<lambda>l. ol_p1 l \<noteq> i \<and> ol_p2 l \<noteq> i) (og_links db),
        og_locations := filter (\<lambda>l. rl_point l \<noteq> i) (og_locations db)\<rparr>))"

definition remove_railway_location :: "int \<Rightarrow> ('g, 'd) osm_db \<Rightarrow> osms_error + ('g, 'd) osm_db" where
  "remove_railway_location i db =
     res_fold (\<lambda>sta. delete_node (rl_point sta)) (filter (\<lambda>l. rl_id l = i) (og_locations db)) db"

section \<open>Making a station\<close>

text \<open>One link that crosses the area; the state is the set \<open>connected\<close> and the database.\<close>

definition connect_link ::
    "('g, 'd) geo_ops \<Rightarrow> int \<Rightarrow> 'g \<Rightarrow> ('g, 'd) osm_link \<Rightarrow> int list \<times> ('g, 'd) osm_db \<Rightarrow>
      osms_error + int list \<times> ('g, 'd) osm_db" where
  "connect_link G nd centroid link st =
     (case st of (joined, db) \<Rightarrow>
        if ol_p1 link = ol_p2 link then Inr (joined, db)
        else if ol_p1 link \<in> set joined then Inr (joined, db)
        else if ol_p2 link \<in> set joined then Inr (ol_p1 link # joined, db)
        else
          res_bind (ok_or (OMessage ''foreign key fail'') (node_by_id db (ol_p1 link))) (\<lambda>pt1.
          res_bind (ok_or (OMessage ''foreign key fail'') (node_by_id db (ol_p2 link))) (\<lambda>pt2.
          let to_station = ge_line G (nd_location pt1) centroid;
              from_station = ge_line G centroid (nd_location pt2)
          in res_bind (link_insert \<lparr>ol_p1 = ol_p1 link, ol_p2 = nd, ol_way = to_station, ol_distance = ge_length G to_station\<rparr> db) (\<lambda>db1.
             res_map (\<lambda>db2. (ol_p2 link # ol_p1 link # joined, db2))
               (link_insert \<lparr>ol_p1 = nd, ol_p2 = ol_p2 link, ol_way = from_station, ol_distance = ge_length G from_station\<rparr> db1)))))"

definition process_railway_location ::
    "('g, 'd) geo_ops \<Rightarrow> string \<Rightarrow> 'g \<Rightarrow> ('g, 'd) osm_db \<Rightarrow> osms_error + int \<times> ('g, 'd) osm_db" where
  "process_railway_location G name poly db =
     (let lks = filter (\<lambda>l. ge_intersects G (ol_way l) poly) (og_links db);
          defect = if lks = [] then Some 1 else None
      in res_bind (ok_or OPanic (ge_centroid G poly)) (\<lambda>centroid.
         res_bind (node_insert centroid db) (\<lambda>(nd, db1).
         res_bind (res_fold (connect_link G nd centroid) lks ([], db1)) (\<lambda>(_, db2).
         insert_location \<lparr>rl_id = -1, rl_name = name, rl_point = nd, rl_area = poly, rl_stanox = None, rl_tiploc = [],
           rl_crs = [], rl_defect = defect\<rparr> db2))))"

text \<open>\<open>UPDATE railway_locations SET stanox = $1, tiploc = $2, crs = $3 WHERE id = $4\<close>, with the unique \<open>stanox\<close>.\<close>

definition set_location_codes ::
    "string option \<Rightarrow> string list \<Rightarrow> string list \<Rightarrow> int \<Rightarrow> ('g, 'd) osm_db \<Rightarrow> osms_error + ('g, 'd) osm_db" where
  "set_location_codes stanox tiploc crs i db =
     (if stanox \<noteq> None \<and> (\<exists>l\<in>set (og_locations db). rl_id l \<noteq> i \<and> rl_stanox l = stanox)
      then Inl (OPg ''railway_locations_stanox_key'')
      else Inr (db\<lparr>og_locations := map (\<lambda>l. if rl_id l = i
              then l\<lparr>rl_stanox := stanox, rl_tiploc := tiploc, rl_crs := crs\<rparr> else l) (og_locations db)\<rparr>))"

definition update_railway_location ::
    "('g, 'd) geo_ops \<Rightarrow> int \<Rightarrow> 'g \<Rightarrow> ('g, 'd) osm_db \<Rightarrow> osms_error + int \<times> ('g, 'd) osm_db" where
  "update_railway_location G i area db =
     res_bind (ok_or (OMessage ''No such location.'') (location_by_id db i)) (\<lambda>rloc.
     res_bind (remove_railway_location i db) (\<lambda>db1.
     res_bind (process_railway_location G (rl_name rloc) area db1) (\<lambda>(new_id, db2).
     res_map (\<lambda>db3. (new_id, db3))
       (set_location_codes (rl_stanox rloc) (rl_tiploc rloc) (rl_crs rloc) new_id db2))))"

section \<open>The schema holds\<close>

definition osm_inv :: "('g, 'd::wellorder) geo_ops \<Rightarrow> ('g, 'd) osm_db \<Rightarrow> bool" where
  "osm_inv G db \<longleftrightarrow>
     distinct (map nd_id (og_nodes db)) \<and> (\<forall>n\<in>set (og_nodes db). nd_id n < og_node_seq db) \<and>
     (\<forall>l\<in>set (og_links db). ol_p1 l \<in> nd_id ` set (og_nodes db) \<and> ol_p2 l \<in> nd_id ` set (og_nodes db) \<and>
        ge_zero G \<le> ol_distance l) \<and>
     distinct (map (\<lambda>l. (ol_p1 l, ol_p2 l)) (og_links db)) \<and>
     (\<forall>l\<in>set (og_locations db). rl_point l \<in> nd_id ` set (og_nodes db) \<and> rl_id l < og_location_seq db) \<and>
     distinct (map rl_id (og_locations db)) \<and> distinct (List.map_filter rl_stanox (og_locations db)) \<and>
     distinct (map (\<lambda>p. (spt_s1 p, spt_s2 p)) (og_paths db)) \<and>
     (\<forall>p\<in>set (og_paths db). spt_s1 p \<in> rl_id ` set (og_locations db) \<and> spt_s2 p \<in> rl_id ` set (og_locations db))"

lemma osm_inv_wf: "osm_inv G db \<Longrightarrow> osm_wf G db"
  by (auto simp: osm_inv_def osm_wf_def endpoints_def)

lemma map_filter_append: "List.map_filter f (xs @ ys) = List.map_filter f xs @ List.map_filter f ys"
  by (simp add: List.map_filter_def)

lemma set_map_filter: "y \<in> set (List.map_filter f xs) \<longleftrightarrow> (\<exists>x\<in>set xs. f x = Some y)"
  by (auto simp: List.map_filter_def image_iff)

lemma distinct_map_filter_filter: "distinct (List.map_filter f xs) \<Longrightarrow> distinct (List.map_filter f (filter P xs))"
  by (induction xs) (auto simp: List.map_filter_simps set_map_filter split: option.splits)

lemma node_insert_inv:
  assumes "osm_inv G db" "node_insert loc db = Inr (i, db')"
  shows "osm_inv G db'" and "i = og_node_seq db" and "i \<notin> nd_id ` set (og_nodes db)"
    and "db' = db\<lparr>og_nodes := og_nodes db' , og_node_seq := og_node_seq db + 1\<rparr>"
    and "\<exists>n. og_nodes db' = og_nodes db @ [n] \<and> nd_id n = i \<and> nd_graph_part n = 0 \<and> nd_location n = loc"
proof -
  have fresh: "og_node_seq db \<notin> nd_id ` set (og_nodes db)" using assms(1) by (auto simp: osm_inv_def)
  obtain n where n: "i = og_node_seq db" "db' = db\<lparr>og_nodes := og_nodes db @ [n], og_node_seq := og_node_seq db + 1\<rparr>"
      "nd_id n = i" "nd_graph_part n = 0" "nd_location n = loc"
    using assms(2) by (auto simp: node_insert_def insert_osm_node_def split: if_splits)
  show "osm_inv G db'"
    using assms(1) fresh unfolding n(2) osm_inv_def by (auto simp: n(1,3) dest: bspec intro: less_imp_le)
  show "i = og_node_seq db" "i \<notin> nd_id ` set (og_nodes db)" using n fresh by simp_all
  show "db' = db\<lparr>og_nodes := og_nodes db' , og_node_seq := og_node_seq db + 1\<rparr>" by (simp add: n(2))
  show "\<exists>n. og_nodes db' = og_nodes db @ [n] \<and> nd_id n = i \<and> nd_graph_part n = 0 \<and> nd_location n = loc"
    using n by (intro exI [of _ n]) simp
qed

lemma link_insert_inv:
  assumes "osm_inv G db" "link_insert l db = Inr db'" "ge_zero G \<le> ol_distance l"
  shows "osm_inv G db'" and "\<exists>links. db' = db\<lparr>og_links := og_links db @ links\<rparr> \<and> set links \<subseteq> {l}"
proof -
  consider "db' = db" | (new) "db' = db\<lparr>og_links := og_links db @ [l]\<rparr>" "ol_p1 l \<in> nd_id ` set (og_nodes db)"
      "ol_p2 l \<in> nd_id ` set (og_nodes db)" "(ol_p1 l, ol_p2 l) \<notin> (\<lambda>l. (ol_p1 l, ol_p2 l)) ` set (og_links db)"
    using assms(2) by (fastforce simp: link_insert_def split: if_splits)
  then show "osm_inv G db'"
  proof cases
    case new
    with assms(1,3) show ?thesis unfolding new(1) osm_inv_def by auto
  qed (simp add: assms(1))
  show "\<exists>links. db' = db\<lparr>og_links := og_links db @ links\<rparr> \<and> set links \<subseteq> {l}"
    using assms(2)
    by (auto simp: link_insert_def split: if_splits intro: exI [of _ "[]"] exI [of _ "[l]"])
qed

lemma insert_location_inv:
  assumes "osm_inv G db" "insert_location l db = Inr (i, db')"
  shows "osm_inv G db'" and "i = og_location_seq db" and "i \<notin> rl_id ` set (og_locations db)"
    and "db' = db\<lparr>og_locations := og_locations db @ [l\<lparr>rl_id := i\<rparr>], og_location_seq := og_location_seq db + 1\<rparr>"
proof -
  have fresh: "og_location_seq db \<notin> rl_id ` set (og_locations db)" using assms(1) by (auto simp: osm_inv_def)
  have db': "i = og_location_seq db"
      "db' = db\<lparr>og_locations := og_locations db @ [l\<lparr>rl_id := i\<rparr>], og_location_seq := og_location_seq db + 1\<rparr>"
      and point: "rl_point l \<in> nd_id ` set (og_nodes db)"
      and stanox: "\<And>s. rl_stanox l = Some s \<Longrightarrow> s \<notin> set (List.map_filter rl_stanox (og_locations db))"
    using assms(2) by (auto simp: insert_location_def set_map_filter split: if_splits) (metis image_eqI)
  have "distinct (List.map_filter rl_stanox (og_locations db @ [l\<lparr>rl_id := i\<rparr>]))"
    using assms(1) stanox by (cases "rl_stanox l") (auto simp: osm_inv_def map_filter_append List.map_filter_simps)
  then show "osm_inv G db'"
    using assms(1) fresh point unfolding db'(2) osm_inv_def by (auto simp: db'(1) dest: bspec intro: less_imp_le)
  show "i = og_location_seq db" "i \<notin> rl_id ` set (og_locations db)"
      "db' = db\<lparr>og_locations := og_locations db @ [l\<lparr>rl_id := i\<rparr>], og_location_seq := og_location_seq db + 1\<rparr>"
    using db' fresh by simp_all
qed

lemma delete_node_inv:
  assumes "osm_inv G db" "delete_node i db = Inr db'"
  shows "osm_inv G db'"
    and "db' = db\<lparr>og_nodes := filter (\<lambda>n. nd_id n \<noteq> i) (og_nodes db),
      og_links := filter (\<lambda>l. ol_p1 l \<noteq> i \<and> ol_p2 l \<noteq> i) (og_links db),
      og_locations := filter (\<lambda>l. rl_point l \<noteq> i) (og_locations db)\<rparr>"
proof -
  let ?gone = "map rl_id (filter (\<lambda>l. rl_point l = i) (og_locations db))"
  have free: "spt_s1 p \<notin> set ?gone" "spt_s2 p \<notin> set ?gone" if "p \<in> set (og_paths db)" for p
    using assms(2) that by (auto simp: delete_node_def Let_def split: if_splits)
  show db': "db' = db\<lparr>og_nodes := filter (\<lambda>n. nd_id n \<noteq> i) (og_nodes db),
      og_links := filter (\<lambda>l. ol_p1 l \<noteq> i \<and> ol_p2 l \<noteq> i) (og_links db),
      og_locations := filter (\<lambda>l. rl_point l \<noteq> i) (og_locations db)\<rparr>"
    using assms(2) by (auto simp: delete_node_def Let_def split: if_splits)
  have kept: "k \<in> rl_id ` {l \<in> set (og_locations db). rl_point l \<noteq> i}"
    if "k \<in> rl_id ` set (og_locations db)" "k \<notin> set ?gone" for k
    using that by auto
  have paths: "\<forall>p\<in>set (og_paths db). spt_s1 p \<in> rl_id ` {l \<in> set (og_locations db). rl_point l \<noteq> i} \<and>
      spt_s2 p \<in> rl_id ` {l \<in> set (og_locations db). rl_point l \<noteq> i}"
    using assms(1) kept free unfolding osm_inv_def by blast
  have nodes: "x \<in> nd_id ` {n \<in> set (og_nodes db). nd_id n \<noteq> i}" if "x \<in> nd_id ` set (og_nodes db)" "x \<noteq> i" for x
    using that by auto
  show "osm_inv G db'"
    using assms(1) paths nodes unfolding db' osm_inv_def
    by (simp add: distinct_map_filter distinct_map_filter_filter)
qed

definition lengths_ok :: "('g, 'd::wellorder) geo_ops \<Rightarrow> bool" where
  "lengths_ok G \<longleftrightarrow> (\<forall>w. ge_zero G \<le> ge_length G w)"

lemma connect_link_inv:
  assumes "osm_inv G db" "lengths_ok G" "connect_link G nd c link (joined, db) = Inr (joined', db')"
  shows "osm_inv G db' \<and> (\<exists>links. db' = db\<lparr>og_links := og_links db @ links\<rparr>)"
proof (cases "db' = db")
  case True
  with assms(1) show ?thesis by (intro conjI exI [of _ "[]"]) auto
next
  case False
  with assms(3) obtain l1 l2 db1 where l1: "link_insert l1 db = Inr db1" "ge_zero G \<le> ol_distance l1"
    and l2: "link_insert l2 db1 = Inr db'" "ge_zero G \<le> ol_distance l2"
    using assms(2)
    by (auto simp: connect_link_def lengths_ok_def Let_def res_bind_Inr res_map_Inr split: if_splits)
  note one = link_insert_inv [OF assms(1) l1] and two = link_insert_inv [OF link_insert_inv(1) [OF assms(1) l1] l2]
  obtain ls1 where "db1 = db\<lparr>og_links := og_links db @ ls1\<rparr>" using one(2) by blast
  moreover obtain ls2 where "db' = db1\<lparr>og_links := og_links db1 @ ls2\<rparr>" using two(2) by blast
  ultimately have "db' = db\<lparr>og_links := og_links db @ (ls1 @ ls2)\<rparr>" by simp
  with two(1) show ?thesis by blast
qed

lemma connect_links_inv:
  assumes "osm_inv G db" "lengths_ok G" "res_fold (connect_link G nd c) links (joined, db) = Inr (joined', db')"
  shows "osm_inv G db' \<and> (\<exists>links. db' = db\<lparr>og_links := og_links db @ links\<rparr>)"
  using assms(1,3)
proof (induction links arbitrary: joined db)
  case Nil
  then show ?case by (intro conjI exI [of _ "[]"]) auto
next
  case (Cons l ls)
  obtain st where step: "connect_link G nd c l (joined, db) = Inr st" "res_fold (connect_link G nd c) ls st = Inr (joined', db')"
    using Cons.prems(2) by (auto split: sum.splits)
  obtain joined1 db1 where st: "st = (joined1, db1)" by (cases st)
  obtain ls1 where one: "osm_inv G db1" "db1 = db\<lparr>og_links := og_links db @ ls1\<rparr>"
    using connect_link_inv [OF Cons.prems(1) assms(2)] step(1) st by blast
  obtain ls2 where "osm_inv G db'" "db' = db1\<lparr>og_links := og_links db1 @ ls2\<rparr>"
    using Cons.IH [OF one(1)] step(2) st by blast
  moreover from this one(2) have "db' = db\<lparr>og_links := og_links db @ (ls1 @ ls2)\<rparr>" by simp
  ultimately show ?case by blast
qed

lemma process_location_inv:
  assumes "osm_inv G db" "lengths_ok G" "process_railway_location G name poly db = Inr (i, db')"
  shows "osm_inv G db'" and "i \<notin> rl_id ` set (og_locations db)"
    and "\<exists>n links l. og_nodes db' = og_nodes db @ [n] \<and> og_links db' = og_links db @ links \<and>
      og_locations db' = og_locations db @ [l] \<and> og_paths db' = og_paths db \<and>
      nd_graph_part n = 0 \<and> nd_id n \<notin> nd_id ` set (og_nodes db) \<and>
      rl_id l = i \<and> rl_name l = name \<and> rl_area l = poly \<and> rl_point l = nd_id n \<and> rl_stanox l = None"
proof -
  obtain centroid nd db1 joined db2 where centroid: "ge_centroid G poly = Some centroid"
    and node: "node_insert centroid db = Inr (nd, db1)"
    and links: "res_fold (connect_link G nd centroid) (filter (\<lambda>l. ge_intersects G (ol_way l) poly) (og_links db)) ([], db1) = Inr (joined, db2)"
    and loc: "insert_location \<lparr>rl_id = -1, rl_name = name, rl_point = nd, rl_area = poly, rl_stanox = None, rl_tiploc = [],
           rl_crs = [], rl_defect = (if filter (\<lambda>l. ge_intersects G (ol_way l) poly) (og_links db) = [] then Some 1 else None)\<rparr> db2 = Inr (i, db')"
    using assms(3) by (auto simp: process_railway_location_def Let_def res_bind_Inr split: prod.splits)
  note one = node_insert_inv [OF assms(1) node]
  obtain n where n: "og_nodes db1 = og_nodes db @ [n]" "nd_id n = nd" "nd_graph_part n = 0" using one(5) by blast
  obtain ls where two: "osm_inv G db2" "db2 = db1\<lparr>og_links := og_links db1 @ ls\<rparr>"
    using connect_links_inv [OF one(1) assms(2) links] by blast
  note three = insert_location_inv [OF two(1) loc]
  show "osm_inv G db'" by (rule three(1))
  have tables: "og_nodes db1 = og_nodes db @ [n]" "og_links db1 = og_links db" "og_locations db1 = og_locations db"
      "og_paths db1 = og_paths db" by (subst one(4), simp add: n)+
  show "i \<notin> rl_id ` set (og_locations db)" using three(3) by (simp add: two(2) tables)
  show "\<exists>n links l. og_nodes db' = og_nodes db @ [n] \<and> og_links db' = og_links db @ links \<and>
      og_locations db' = og_locations db @ [l] \<and> og_paths db' = og_paths db \<and>
      nd_graph_part n = 0 \<and> nd_id n \<notin> nd_id ` set (og_nodes db) \<and>
      rl_id l = i \<and> rl_name l = name \<and> rl_area l = poly \<and> rl_point l = nd_id n \<and> rl_stanox l = None"
    by (intro exI [of _ n] exI [of _ ls] exI, intro conjI)
      ((subst three(4), simp add: two(2) tables)+, use one(3) n in simp_all)
qed

lemma remove_location_inv:
  assumes "osm_inv G db" "remove_railway_location i db = Inr db'"
  shows "osm_inv G db' \<and> set (og_nodes db') \<subseteq> set (og_nodes db) \<and> set (og_locations db') \<subseteq> set (og_locations db)"
proof -
  have "osm_inv G d' \<and> set (og_nodes d') \<subseteq> set (og_nodes d) \<and> set (og_locations d') \<subseteq> set (og_locations d)"
    if "res_fold (\<lambda>sta. delete_node (rl_point sta)) ls d = Inr d'" "osm_inv G d" for ls d d'
    using that
  proof (induction ls arbitrary: d)
    case (Cons l ls)
    obtain d1 where step: "delete_node (rl_point l) d = Inr d1"
        and rest: "res_fold (\<lambda>sta. delete_node (rl_point sta)) ls d1 = Inr d'"
      using Cons.prems(1) by (auto split: sum.splits)
    note one = delete_node_inv [OF Cons.prems(2) step]
    have "set (og_nodes d1) \<subseteq> set (og_nodes d)" "set (og_locations d1) \<subseteq> set (og_locations d)"
      by (subst one(2), simp)+
    with Cons.IH [OF rest one(1)] show ?case by blast
  qed simp
  then show ?thesis using assms by (simp add: remove_railway_location_def)
qed

lemma nth0_filter_key:
  assumes "distinct (map f xs)" "x \<in> set xs"
  shows "nth0 (filter (\<lambda>y. f y = f x) xs) = Some x"
  using filter_key [OF assms] by simp

lemma map_filter_codes_distinct:
  assumes "distinct (List.map_filter rl_stanox ls)" "distinct (map rl_id ls)"
    and "stanox = None \<or> (\<forall>l\<in>set ls. rl_id l \<noteq> i \<longrightarrow> rl_stanox l \<noteq> stanox)"
  shows "distinct (List.map_filter rl_stanox (map (\<lambda>l. if rl_id l = i
    then l\<lparr>rl_stanox := stanox, rl_tiploc := tiploc, rl_crs := crs\<rparr> else l) ls))"
  using assms
proof (induction ls)
  case (Cons l ls)
  let ?f = "\<lambda>l. if rl_id l = i then l\<lparr>rl_stanox := stanox, rl_tiploc := tiploc, rl_crs := crs\<rparr> else l"
  have ih: "distinct (List.map_filter rl_stanox (map ?f ls))"
    using Cons by (auto simp: List.map_filter_simps split: option.splits)
  have "s \<notin> set (List.map_filter rl_stanox (map ?f ls))" if s: "rl_stanox (?f l) = Some s" for s
  proof
    assume "s \<in> set (List.map_filter rl_stanox (map ?f ls))"
    then obtain k where k: "k \<in> set ls" "rl_stanox (?f k) = Some s" by (auto simp: set_map_filter)
    have "rl_id l \<notin> rl_id ` set ls" using Cons.prems(2) by simp
    then have ids: "rl_id k \<noteq> rl_id l" using k(1) by (metis image_eqI)
    show False
    proof (cases "rl_id l = i \<or> rl_id k = i")
      case True
      with ids s k Cons.prems(3) show False by (auto split: if_splits)
    next
      case False
      with s k have "s \<in> set (List.map_filter rl_stanox ls)" "rl_stanox l = Some s" by (auto simp: set_map_filter)
      with Cons.prems(1) show False by (simp add: List.map_filter_simps)
    qed
  qed
  with ih show ?case by (cases "rl_stanox (?f l)") (simp_all add: List.map_filter_simps)
qed (simp add: List.map_filter_simps)

lemma osm_inv_locations:
  assumes "osm_inv G db" "map rl_id ls = map rl_id (og_locations db)" "distinct (List.map_filter rl_stanox ls)"
    and "\<forall>l\<in>set ls. rl_point l \<in> nd_id ` set (og_nodes db) \<and> rl_id l < og_location_seq db"
  shows "osm_inv G (db\<lparr>og_locations := ls\<rparr>)"
proof -
  have "rl_id ` set ls = rl_id ` set (og_locations db)" using assms(2) by (metis list.set_map)
  with assms show ?thesis by (simp add: osm_inv_def)
qed

lemma set_codes_inv:
  assumes "osm_inv G db" "set_location_codes stanox tiploc crs i db = Inr db'"
  shows "osm_inv G db'" and "og_nodes db' = og_nodes db" and "og_links db' = og_links db" and "og_paths db' = og_paths db"
    and "og_locations db' = map (\<lambda>l. if rl_id l = i
      then l\<lparr>rl_stanox := stanox, rl_tiploc := tiploc, rl_crs := crs\<rparr> else l) (og_locations db)"
proof -
  let ?f = "\<lambda>l. if rl_id l = i then l\<lparr>rl_stanox := stanox, rl_tiploc := tiploc, rl_crs := crs\<rparr> else l"
  have db': "db' = db\<lparr>og_locations := map ?f (og_locations db)\<rparr>"
    and codes: "stanox = None \<or> (\<forall>l\<in>set (og_locations db). rl_id l \<noteq> i \<longrightarrow> rl_stanox l \<noteq> stanox)"
    using assms(2) by (auto simp: set_location_codes_def split: if_splits)
  have "distinct (List.map_filter rl_stanox (map ?f (og_locations db)))"
    using assms(1) codes by (intro map_filter_codes_distinct) (auto simp: osm_inv_def)
  moreover have "\<forall>l\<in>set (map ?f (og_locations db)). rl_point l \<in> nd_id ` set (og_nodes db) \<and> rl_id l < og_location_seq db"
    using assms(1) by (auto simp: osm_inv_def)
  ultimately show "osm_inv G db'" unfolding db' by (intro osm_inv_locations [OF assms(1)]) simp_all
  show "og_nodes db' = og_nodes db" "og_links db' = og_links db" "og_paths db' = og_paths db"
      "og_locations db' = map ?f (og_locations db)" by (simp_all add: db')
qed

lemma update_location_spec:
  assumes "osm_inv G db" "lengths_ok G" "update_railway_location G i area db = Inr (new_id, db')"
  shows "osm_inv G db'"
    and "\<exists>old new n. location_by_id db i = Some old \<and> location_by_id db' new_id = Some new \<and>
      rl_name new = rl_name old \<and> rl_stanox new = rl_stanox old \<and> rl_tiploc new = rl_tiploc old \<and> rl_crs new = rl_crs old \<and>
      rl_area new = area \<and> n \<in> set (og_nodes db') \<and> nd_id n = rl_point new \<and> nd_graph_part n = 0 \<and>
      set (og_nodes db') - {n} \<subseteq> set (og_nodes db) \<and>
      (\<forall>l\<in>set (og_locations db'). rl_id l \<noteq> new_id \<longrightarrow> l \<in> set (og_locations db) \<and> rl_point l \<noteq> rl_point new)"
proof -
  obtain rloc db1 db2 where rloc: "location_by_id db i = Some rloc" and remove: "remove_railway_location i db = Inr db1"
    and process: "process_railway_location G (rl_name rloc) area db1 = Inr (new_id, db2)"
    and codes: "set_location_codes (rl_stanox rloc) (rl_tiploc rloc) (rl_crs rloc) new_id db2 = Inr db'"
    using assms(3) by (auto simp: update_railway_location_def res_bind_Inr res_map_Inr split: prod.splits)
  note one = remove_location_inv [OF assms(1) remove]
  note two = process_location_inv [OF conjunct1 [OF one] assms(2) process]
  note three = set_codes_inv [OF two(1) codes]
  show "osm_inv G db'" by (rule three(1))
  obtain n links l where new: "og_nodes db2 = og_nodes db1 @ [n]" "og_locations db2 = og_locations db1 @ [l]"
      "nd_graph_part n = 0" "nd_id n \<notin> nd_id ` set (og_nodes db1)"
      "rl_id l = new_id" "rl_name l = rl_name rloc" "rl_area l = area" "rl_point l = nd_id n"
    using two(3) by blast
  let ?new = "l\<lparr>rl_stanox := rl_stanox rloc, rl_tiploc := rl_tiploc rloc, rl_crs := rl_crs rloc\<rparr>"
  have others: "rl_id k \<noteq> new_id" if "k \<in> set (og_locations db1)" for k using two(2) that by auto
  have locs: "og_locations db' = og_locations db1 @ [?new]"
    using others new(5) by (simp add: three(5) new(2) map_idI)
  have "location_by_id db' new_id = Some ?new"
    using nth0_filter_key [of rl_id "og_locations db'" ?new] three(1) new(5)
    by (simp add: osm_inv_def location_by_id_def locs)
  moreover have "rl_point k \<noteq> nd_id n" if "k \<in> set (og_locations db1)" for k
  proof -
    have "rl_point k \<in> nd_id ` set (og_nodes db1)" using one that by (simp add: osm_inv_def)
    with new(4) show ?thesis by metis
  qed
  ultimately show "\<exists>old new n. location_by_id db i = Some old \<and> location_by_id db' new_id = Some new \<and>
      rl_name new = rl_name old \<and> rl_stanox new = rl_stanox old \<and> rl_tiploc new = rl_tiploc old \<and> rl_crs new = rl_crs old \<and>
      rl_area new = area \<and> n \<in> set (og_nodes db') \<and> nd_id n = rl_point new \<and> nd_graph_part n = 0 \<and>
      set (og_nodes db') - {n} \<subseteq> set (og_nodes db) \<and>
      (\<forall>l\<in>set (og_locations db'). rl_id l \<noteq> new_id \<longrightarrow> l \<in> set (og_locations db) \<and> rl_point l \<noteq> rl_point new)"
    using rloc one new by (intro exI [of _ rloc] exI [of _ ?new] exI [of _ n]) (auto simp: three(2) locs)
qed


lemma sample_parts_inv: "osm_inv sample_geo sample_parts"
  by (simp add: osm_inv_def sample_tables sample_geo_def List.map_filter_simps)

lemma sample_lengths: "lengths_ok sample_geo"
  by (simp add: lengths_ok_def sample_geo_def)

definition sample_corrected :: "(string, nat) osm_db" where
  "sample_corrected =
     \<lparr>og_nodes = [sample_node 2\<lparr>nd_location := ''S'', nd_graph_part := 1\<rparr>, sample_node 3\<lparr>nd_location := ''H'', nd_graph_part := 1\<rparr>,
        sample_node 4\<lparr>nd_location := ''I'', nd_graph_part := 2\<rparr>, sample_node 5\<lparr>nd_location := ''HS''\<rparr>],
      og_links = [\<lparr>ol_p1 = 3, ol_p2 = 2, ol_way = ''HS'', ol_distance = 1\<rparr>, \<lparr>ol_p1 = 3, ol_p2 = 5, ol_way = ''HHS'', ol_distance = 3\<rparr>,
        \<lparr>ol_p1 = 5, ol_p2 = 2, ol_way = ''HSS'', ol_distance = 3\<rparr>],
      og_locations = [sample_place 2 ''HARROW'' 3, sample_place 3 ''ISLAND'' 4,
        (sample_place 4 ''EUSTON'' 5)\<lparr>rl_area := ''HS''\<rparr>],
      og_paths = [], og_crossings = [], og_node_seq = 6, og_location_seq = 5, og_path_seq = 1, og_crossing_seq = 1\<rparr>"

lemma sample_update: "update_railway_location sample_geo 1 ''HS'' sample_parts = Inr (4, sample_corrected)"
  by (simp add: update_railway_location_def remove_railway_location_def delete_node_def process_railway_location_def
      set_location_codes_def location_by_id_def sample_tables sample_geo_def node_insert_def insert_osm_node_def
      connect_link_def node_by_id_def link_insert_def insert_location_def sample_corrected_def Let_def)


end
