(* ===== verification/Osms_Geo.thy ===== *)
theory Osms_Geo
  imports Osms_Stations Osms_Live
begin

text \<open>
  \<open>geo_process_schedule\<close> of \<open>osm/mod.rs\<close>: the movements of a schedule are joined by paths over the railway. The state is the
  timetable and the railway; \<open>None\<close> stands for a search that does not return, and the error is \<open>OPanic\<close> where an \<open>unwrap\<close>
  or an assertion fails.
\<close>

section \<open>Joining movements\<close>

type_synonym ('g, 'd) geo_state = "ntrod_db \<times> ('g, 'd) osm_db"

definition station_of_tiploc :: "string \<Rightarrow> ('g, 'd) osm_db \<Rightarrow> 'g railway_location option" where
  "station_of_tiploc tiploc g = nth0 (filter (\<lambda>l. tiploc \<in> set (rl_tiploc l)) (og_locations g))"

definition located_mvts :: "int \<Rightarrow> ('g, 'd) geo_state \<Rightarrow> osms_mvt list" where
  "located_mvts sched st =
     sort_key mvt_order (filter (\<lambda>m. om_parent_sched m = sched \<and>
       (\<exists>l\<in>set (og_locations (snd st)). om_tiploc m \<in> set (rl_tiploc l))) (on_mvts (fst st)))"

definition set_paths :: "int \<Rightarrow> int \<Rightarrow> int \<Rightarrow> ntrod_db \<Rightarrow> ntrod_db" where
  "set_paths pid start_mvt end_mvt n =
     n\<lparr>on_mvts := map (\<lambda>m. if om_id m = end_mvt then m\<lparr>om_ends_path := Some pid\<rparr> else m)
        (map (\<lambda>m. if om_id m = start_mvt then m\<lparr>om_starts_path := Some pid\<rparr> else m) (on_mvts n))\<rparr>"

definition schedule_max_arrival_skips :: nat where
  "schedule_max_arrival_skips = 2"

text \<open>The search for the movement that the path of \<open>start_mvt\<close> ends at.\<close>

fun geo_route ::
    "('g, 'd::wellorder) geo_ops \<Rightarrow> osms_mvt \<Rightarrow> int \<Rightarrow> osms_mvt list \<Rightarrow> nat \<Rightarrow> ('g, 'd) geo_state \<Rightarrow>
      ((osms_error + unit) \<times> ('g, 'd) geo_state) option" where
  "geo_route G start_mvt start_stn [] arrs_skipped st = Some (Inr (), st)"
| "geo_route G start_mvt start_stn (end_mvt # mvts) arrs_skipped st =
     (if om_action end_mvt = action_arrival \<or> om_action end_mvt = action_pass then
        case station_of_tiploc (om_tiploc end_mvt) (snd st) of
          None \<Rightarrow> Some (Inl OPanic, st)
        | Some end_stn \<Rightarrow>
            if rl_id end_stn = start_stn then geo_route G start_mvt start_stn mvts arrs_skipped st
            else
              (case navigate_cached G start_stn (rl_id end_stn) (snd st) of
                 None \<Rightarrow> None
               | Some (Inr (pid, g)) \<Rightarrow> Some (Inr (), (set_paths pid (om_id start_mvt) (om_id end_mvt) (fst st), g))
               | Some (Inl OPanic) \<Rightarrow> Some (Inl OPanic, st)
               | Some (Inl e) \<Rightarrow>
                   if om_action end_mvt = action_arrival then
                     if schedule_max_arrival_skips < arrs_skipped + 1 then Some (Inr (), st)
                     else geo_route G start_mvt start_stn mvts (arrs_skipped + 1) st
                   else geo_route G start_mvt start_stn mvts arrs_skipped st)
      else geo_route G start_mvt start_stn mvts arrs_skipped st)"

definition geo_start :: "osms_mvt \<Rightarrow> bool" where
  "geo_start m \<longleftrightarrow> om_action m = action_departure \<or> om_action m = action_pass"

text \<open>The outer loop; the movements from \<open>start_ptr\<close> on are the list.\<close>

function geo_loop ::
    "('g, 'd::wellorder) geo_ops \<Rightarrow> osms_mvt list \<Rightarrow> ('g, 'd) geo_state \<Rightarrow> ((osms_error + unit) \<times> ('g, 'd) geo_state) option" where
  "geo_loop G mvts st =
     (case dropWhile (\<lambda>m. \<not> geo_start m) mvts of
        [] \<Rightarrow> Some (Inr (), st)
      | start_mvt # rest \<Rightarrow>
          (case station_of_tiploc (om_tiploc start_mvt) (snd st) of
             None \<Rightarrow> Some (Inl OPanic, st)
           | Some start_stn \<Rightarrow>
               if rest = [] then Some (Inr (), st)
               else
                 (case geo_route G start_mvt (rl_id start_stn) rest 0 st of
                    None \<Rightarrow> None
                  | Some (Inl e, st1) \<Rightarrow> Some (Inl e, st1)
                  | Some (Inr _, st1) \<Rightarrow> geo_loop G rest st1)))"
  by auto

lemma dropWhile_Cons_length: "dropWhile P xs = y # ys \<Longrightarrow> length ys < length xs"
  using length_dropWhile_le [of P xs] by simp

termination geo_loop
  by (relation "measure (\<lambda>(G, mvts, st). length mvts)") (auto dest: dropWhile_Cons_length [OF sym] dropWhile_Cons_length)

declare geo_loop.simps [simp del]

definition geo_process_schedule ::
    "('g, 'd::wellorder) geo_ops \<Rightarrow> int \<Rightarrow> ('g, 'd) geo_state \<Rightarrow> ((osms_error + unit) \<times> ('g, 'd) geo_state) option" where
  "geo_process_schedule G sched st = geo_loop G (located_mvts sched st) st"

section \<open>Paths that fit\<close>

text \<open>A path that a movement starts or ends is a path from or to the station at its TIPLOC.\<close>

definition path_fits :: "('g, 'd) osm_db \<Rightarrow> ('g station_path \<Rightarrow> int) \<Rightarrow> string \<Rightarrow> int option \<Rightarrow> bool" where
  "path_fits g k tiploc p \<longleftrightarrow>
     (case p of None \<Rightarrow> True
      | Some i \<Rightarrow> \<exists>l path. station_of_tiploc tiploc g = Some l \<and> path \<in> set (og_paths g) \<and> spt_id path = i \<and> k path = rl_id l)"

definition paths_fit :: "('g, 'd) geo_state \<Rightarrow> bool" where
  "paths_fit st \<longleftrightarrow>
     (\<forall>m\<in>set (on_mvts (fst st)). path_fits (snd st) spt_s1 (om_tiploc m) (om_starts_path m) \<and>
        path_fits (snd st) spt_s2 (om_tiploc m) (om_ends_path m))"

text \<open>What the navigation changes: paths are added.\<close>

definition same_railway :: "('g, 'd) osm_db \<Rightarrow> ('g, 'd) osm_db \<Rightarrow> bool" where
  "same_railway g g' \<longleftrightarrow> og_nodes g' = og_nodes g \<and> og_links g' = og_links g \<and> og_locations g' = og_locations g \<and>
     set (og_paths g) \<subseteq> set (og_paths g')"

lemma same_railway_refl [simp]: "same_railway g g" by (simp add: same_railway_def)

lemma same_railway_trans: "same_railway a b \<Longrightarrow> same_railway b c \<Longrightarrow> same_railway a c"
  by (auto simp: same_railway_def)

definition railway_ok :: "('g, 'd::wellorder) geo_ops \<Rightarrow> ('g, 'd) osm_db \<Rightarrow> bool" where
  "railway_ok G g \<longleftrightarrow> osm_wf G g \<and> distances_grow (ge_add G) (ge_zero G) \<and> parts_match g \<and>
     distinct (map rl_id (og_locations g)) \<and> inj_on rl_point (set (og_locations g))"

lemma railway_ok_same: "same_railway g g' \<Longrightarrow> railway_ok G g \<Longrightarrow> railway_ok G g'"
  by (simp add: same_railway_def railway_ok_def osm_wf_def parts_match_def)

lemma path_fits_same: "same_railway g g' \<Longrightarrow> path_fits g k t p \<Longrightarrow> path_fits g' k t p"
  by (auto simp: same_railway_def path_fits_def station_of_tiploc_def split: option.splits)

lemma navigate_cached_fits:
  assumes ok: "railway_ok G g" and a: "a \<in> set (og_locations g)" and b: "b \<in> set (og_locations g)" and ne: "rl_id a \<noteq> rl_id b"
  shows "navigate_cached G (rl_id a) (rl_id b) g = Some (Inl (OIncorrectGraphPart (rl_id a) (rl_id b))) \<or>
    (\<exists>pid g'. navigate_cached G (rl_id a) (rl_id b) g = Some (Inr (pid, g')) \<and> same_railway g g' \<and>
      (\<exists>path\<in>set (og_paths g'). spt_id path = pid \<and> spt_s1 path = rl_id a \<and> spt_s2 path = rl_id b))"
proof (cases "find_station_path g (rl_id a) (rl_id b)")
  case (Some p)
  then have "p \<in> set (og_paths g)" "spt_s1 p = rl_id a" "spt_s2 p = rl_id b"
    using nth0_filter_Some [OF Some [unfolded find_station_path_def]] by blast+
  with Some show ?thesis by (auto simp: navigate_cached_def)
next
  case None
  have loc: "location_by_id g (rl_id a) = Some a" "location_by_id g (rl_id b) = Some b"
    using ok nth0_filter_key [of rl_id "og_locations g"] a b by (simp_all add: location_by_id_def railway_ok_def)
  have "rl_point a \<noteq> rl_point b" using ok a b ne by (auto simp: railway_ok_def inj_on_def)
  then consider (apart) "navigate G g (rl_id a) (rl_id b) = Some (Inl (OIncorrectGraphPart (rl_id a) (rl_id b)))"
    | (way) path where "navigate G g (rl_id a) (rl_id b) = Some (Inr path)" "spt_s1 path = rl_id a" "spt_s2 path = rl_id b"
    using navigate_located [OF _ _ _ loc, of G] ok by (auto simp: railway_ok_def)
  then show ?thesis
  proof cases
    case apart
    with None show ?thesis by (simp add: navigate_cached_def)
  next
    case way
    have "List.find (\<lambda>q. spt_s1 q = spt_s1 path \<and> spt_s2 q = spt_s2 path) (og_paths g) = None"
      using None way by (auto simp: find_station_path_def filter_empty_conv find_None_iff)
    then show ?thesis
      using None way a b
      by (auto simp: navigate_cached_def insert_station_path_def same_railway_def intro!: bexI)
  qed
qed

text \<open>The invariant of the loops; \<open>ms\<close> are the movements of the schedule.\<close>

definition geo_ok :: "('g, 'd::wellorder) geo_ops \<Rightarrow> osms_mvt list \<Rightarrow> ('g, 'd) geo_state \<Rightarrow> bool" where
  "geo_ok G ms st \<longleftrightarrow> railway_ok G (snd st) \<and> paths_fit st \<and>
     (\<forall>k\<in>set ms. station_of_tiploc (om_tiploc k) (snd st) \<noteq> None \<and>
        (\<forall>row\<in>set (on_mvts (fst st)). om_id row = om_id k \<longrightarrow> om_tiploc row = om_tiploc k))"

lemma set_paths_ok:
  assumes ok: "geo_ok G ms (n, g)" and k: "k \<in> set ms" "j \<in> set ms" and same: "same_railway g g'"
    and path: "path \<in> set (og_paths g')" "station_of_tiploc (om_tiploc k) g = Some a" "station_of_tiploc (om_tiploc j) g = Some b"
      "spt_s1 path = rl_id a" "spt_s2 path = rl_id b"
  shows "geo_ok G ms (set_paths (spt_id path) (om_id k) (om_id j) n, g')"
proof -
  let ?n = "set_paths (spt_id path) (om_id k) (om_id j) n"
  have stations: "station_of_tiploc t g' = station_of_tiploc t g" for t
    using same by (simp add: same_railway_def station_of_tiploc_def)
  have rows: "\<exists>row\<in>set (on_mvts n). om_id r = om_id row \<and> om_tiploc r = om_tiploc row \<and>
      om_starts_path r = (if om_id row = om_id k then Some (spt_id path) else om_starts_path row) \<and>
      om_ends_path r = (if om_id row = om_id j then Some (spt_id path) else om_ends_path row)" if "r \<in> set (on_mvts ?n)" for r
    using that by (force simp: set_paths_def split: if_splits)
  have known: "om_id row = om_id i \<longrightarrow> om_tiploc row = om_tiploc i" if "row \<in> set (on_mvts n)" "i \<in> set ms" for row i
    using ok that by (simp add: geo_ok_def)
  have "path_fits g' spt_s1 (om_tiploc k) (Some (spt_id path))" "path_fits g' spt_s2 (om_tiploc j) (Some (spt_id path))"
    using path by (auto simp: path_fits_def stations)
  moreover have "path_fits g' spt_s1 (om_tiploc row) (om_starts_path row) \<and> path_fits g' spt_s2 (om_tiploc row) (om_ends_path row)"
    if "row \<in> set (on_mvts n)" for row
    using ok that path_fits_same [OF same] by (simp add: geo_ok_def paths_fit_def)
  ultimately have "path_fits g' spt_s1 (om_tiploc r) (om_starts_path r) \<and> path_fits g' spt_s2 (om_tiploc r) (om_ends_path r)"
    if "r \<in> set (on_mvts ?n)" for r
    using rows [OF that] known k by (metis (full_types))
  moreover have "om_id r = om_id i \<longrightarrow> om_tiploc r = om_tiploc i" if "r \<in> set (on_mvts ?n)" "i \<in> set ms" for r i
    using rows [OF that(1)] known that(2) by metis
  ultimately show ?thesis
    using ok railway_ok_same [OF same] by (auto simp: geo_ok_def paths_fit_def stations)
qed

lemma geo_route_ok:
  assumes "geo_ok G ms st" "start \<in> set ms" "station_of_tiploc (om_tiploc start) (snd st) = Some s" "set rest \<subseteq> set ms"
  shows "\<exists>st'. geo_route G start (rl_id s) rest skipped st = Some (Inr (), st') \<and> geo_ok G ms st'"
  using assms(4)
proof (induction rest arbitrary: skipped)
  case Nil
  then show ?case using assms(1) by simp
next
  case (Cons k rest)
  obtain n g where st: "st = (n, g)" by (cases st)
  obtain e where e: "station_of_tiploc (om_tiploc k) g = Some e"
    using assms(1) Cons.prems by (auto simp: geo_ok_def st)
  have mem: "s \<in> set (og_locations g)" "e \<in> set (og_locations g)"
    using assms(3) e nth0_filter_Some unfolding station_of_tiploc_def st by fastforce+
  have ok: "railway_ok G g" using assms(1) by (simp add: geo_ok_def st)
  show ?case
  proof (cases "(om_action k = action_arrival \<or> om_action k = action_pass) \<and> rl_id e \<noteq> rl_id s")
    case False
    with Cons e show ?thesis by (auto simp: st)
  next
    case True
    from navigate_cached_fits [OF ok mem] True
    consider "navigate_cached G (rl_id s) (rl_id e) g = Some (Inl (OIncorrectGraphPart (rl_id s) (rl_id e)))"
      | pid g' path where "navigate_cached G (rl_id s) (rl_id e) g = Some (Inr (pid, g'))" "same_railway g g'"
        "path \<in> set (og_paths g')" "spt_id path = pid" "spt_s1 path = rl_id s" "spt_s2 path = rl_id e" by auto
    then show ?thesis
    proof cases
      case 1
      with True e Cons assms(1) show ?thesis by (auto simp: st)
    next
      case 2
      have "geo_ok G ms (set_paths pid (om_id start) (om_id k) n, g')"
        using set_paths_ok [OF assms(1) [unfolded st] assms(2) _ 2(2,3) _ e 2(5,6)] assms(3) Cons.prems 2(4) by (simp add: st)
      with 2 True e show ?thesis by (auto simp: st)
    qed
  qed
qed

lemma geo_loop_ok:
  assumes "geo_ok G ms st" "set mvts \<subseteq> set ms"
  shows "\<exists>st'. geo_loop G mvts st = Some (Inr (), st') \<and> geo_ok G ms st'"
  using assms
proof (induction mvts arbitrary: st rule: length_induct)
  case (1 mvts)
  show ?case
  proof (cases "dropWhile (\<lambda>m. \<not> geo_start m) mvts")
    case Nil
    have "geo_loop G mvts st = Some (Inr (), st)" by (subst geo_loop.simps) (simp only: Nil list.case)
    with 1(2) show ?thesis by blast
  next
    case (Cons k rest)
    have sub: "k \<in> set ms" "set rest \<subseteq> set ms"
      using 1(3) set_dropWhileD [of _ "\<lambda>m. \<not> geo_start m" mvts] by (auto simp: Cons)
    obtain s where s: "station_of_tiploc (om_tiploc k) (snd st) = Some s"
      using 1(2) sub(1) by (auto simp: geo_ok_def)
    obtain st1 where route: "geo_route G k (rl_id s) rest 0 st = Some (Inr (), st1)" "geo_ok G ms st1"
      using geo_route_ok [OF 1(2) sub(1) s sub(2)] by blast
    have "length rest < length mvts" by (rule dropWhile_Cons_length [OF Cons])
    with 1(1) sub(2) route(2) obtain st' where st': "geo_loop G rest st1 = Some (Inr (), st')" "geo_ok G ms st'" by blast
    have "geo_loop G mvts st = Some (Inr (), if rest = [] then st else st')"
      by (subst geo_loop.simps) (simp add: Cons s route(1) st'(1))
    with 1(2) st'(2) show ?thesis by auto
  qed
qed

text \<open>
  On a railway whose parts are right and whose stations are nodes of their own, the processing of a schedule always returns
  without an error, and afterwards still every path that a movement starts is a path from the station of the movement,
  and every path that it ends is a path to it.
\<close>

theorem geo_process_schedule_fits:
  assumes "railway_ok G (snd st)" "paths_fit st" "distinct (map om_id (on_mvts (fst st)))"
  shows "\<exists>st'. geo_process_schedule G sched st = Some (Inr (), st') \<and> railway_ok G (snd st') \<and> paths_fit st'"
proof -
  have "station_of_tiploc (om_tiploc k) (snd st) \<noteq> None" if "k \<in> set (located_mvts sched st)" for k
    using that by (auto simp: located_mvts_def station_of_tiploc_def filter_empty_conv)
  moreover have "om_tiploc row = om_tiploc k"
    if "k \<in> set (located_mvts sched st)" "row \<in> set (on_mvts (fst st))" "om_id row = om_id k" for k row
    using that distinct_mapD [OF assms(3), of row k] by (auto simp: located_mvts_def)
  ultimately have "geo_ok G (located_mvts sched st) st" using assms by (auto simp: geo_ok_def)
  from geo_loop_ok [OF this order_refl] show ?thesis by (auto simp: geo_process_schedule_def geo_ok_def)
qed

lemma sample_railway_ok: "railway_ok sample_geo sample_parts"
proof -
  have "osm_wf sample_geo sample_parts" by (rule osm_inv_wf) (rule sample_parts_inv)
  moreover have "parts_match sample_parts" by (rule separate_parts_match(1) [OF sample_fresh sample_separation])
  ultimately show ?thesis using sample_grow by (simp add: railway_ok_def sample_tables)
qed

lemma geo_process_schedule_fits_witness:
  "\<exists>st'. geo_process_schedule sample_geo 1 (sample_night, sample_parts) = Some (Inr (), st') \<and> paths_fit st'"
proof -
  have "paths_fit (sample_night, sample_parts)" "distinct (map om_id (on_mvts sample_night))"
    by (simp_all add: paths_fit_def path_fits_def sample_night_def)
  then show ?thesis
    using geo_process_schedule_fits [of sample_geo "(sample_night, sample_parts)" 1] sample_railway_ok by auto
qed

end
