(* ===== verification/Osms_Setup.thy ===== *)
theory Osms_Setup
  imports Osms_Geo Msn
begin

text \<open>
  \<open>osms-db-setup/src/make.rs\<close>: the import of the schedule files, of CORPUS and of the station names, the name of a
  place, and the processing of all schedules by one thread. Making the nodes, links and stations of the railway from
  OpenStreetMap is not modelled. The data are the timetable of theory \<open>Osms_Ntrod\<close> and the tables that only the
  import uses. Reading a line of JSON is a parameter; a line is \<open>None\<close> where the reader fails.
\<close>

section \<open>Tables\<close>

record osms_file =
  ofl_id :: int
  ofl_timestamp :: int
  ofl_metatype :: string
  ofl_metaseq :: int

record msn_entry =
  me_tiploc :: string
  me_name :: string
  me_cate :: int
  me_crs :: string

record 'p naptan_entry =
  ne_atco :: string
  ne_tiploc :: string
  ne_crs :: string
  ne_name :: string
  ne_loc :: 'p

record 'p setup_db =
  su_db :: ntrod_db
  su_files :: "osms_file list"
  su_file_seq :: int
  su_msn :: "msn_entry list"
  su_naptan :: "'p naptan_entry list"

definition osms_file_insert :: "osms_file \<Rightarrow> 'p setup_db \<Rightarrow> osms_error + 'p setup_db" where
  "osms_file_insert f s =
     (if \<exists>r\<in>set (su_files s). ofl_timestamp r = ofl_timestamp f then Inl (OPg ''schedule_files_timestamp_key'')
      else Inr (s\<lparr>su_files := su_files s @ [f\<lparr>ofl_id := su_file_seq s\<rparr>], su_file_seq := su_file_seq s + 1\<rparr>))"

definition msn_entry_insert :: "msn_entry \<Rightarrow> 'p setup_db \<Rightarrow> osms_error + 'p setup_db" where
  "msn_entry_insert e s = Inr (s\<lparr>su_msn := su_msn s @ [e]\<rparr>)"

definition naptan_insert :: "'p naptan_entry \<Rightarrow> 'p setup_db \<Rightarrow> osms_error + 'p setup_db" where
  "naptan_insert e s =
     (if \<exists>r\<in>set (su_naptan s). ne_atco r = ne_atco e then Inl (OPg ''naptan_entries_atco_key'')
      else if \<exists>r\<in>set (su_naptan s). ne_tiploc r = ne_tiploc e then Inl (OPg ''naptan_entries_pkey'')
      else Inr (s\<lparr>su_naptan := su_naptan s @ [e]\<rparr>))"

section \<open>The record of a schedule\<close>

type_synonym itps_mvt = "string \<times> naive_time \<times> int \<times> string option \<times> naive_time option"

fun sched_mvts :: "location_record \<Rightarrow> itps_mvt list" where
  "sched_mvts (Originating _ tiploc_code departure public_departure platform _ _ _ _) =
     [(tiploc_code, departure, action_departure, platform, public_departure)]"
| "sched_mvts (Intermediate _ tiploc_code arrival departure public_arrival public_departure platform _ _ _ _ _) =
     [(tiploc_code, arrival, action_arrival, platform, public_arrival),
      (tiploc_code, departure, action_departure, platform, public_departure)]"
| "sched_mvts (Pass _ tiploc_code pass _ _ _) = [(tiploc_code, pass, action_pass, None, None)]"
| "sched_mvts (Terminating _ tiploc_code arrival public_arrival platform _) =
     [(tiploc_code, arrival, action_arrival, platform, public_arrival)]"

definition update_osms_mvt :: "int \<Rightarrow> (osms_mvt \<Rightarrow> osms_mvt) \<Rightarrow> ntrod_db \<Rightarrow> ntrod_db" where
  "update_osms_mvt i f db = db\<lparr>on_mvts := map (\<lambda>m. if om_id m = i then f m else m) (on_mvts db)\<rparr>"

text \<open>\<open>UPDATE schedule_movements SET idx\<close>, which can violate \<open>schedule_movements_unique_idx\<close>.\<close>

definition update_mvt_idx :: "osms_mvt \<Rightarrow> int \<Rightarrow> ntrod_db \<Rightarrow> osms_error + ntrod_db" where
  "update_mvt_idx m i db =
     (if \<exists>r\<in>set (on_mvts db). om_id r \<noteq> om_id m \<and> om_parent_sched r = om_parent_sched m \<and> om_idx r = Some i
      then Inl (OPg ''schedule_movements_unique_idx'')
      else Inr (update_osms_mvt (om_id m) (\<lambda>r. r\<lparr>om_idx := Some i\<rparr>) db))"

text \<open>A movement that is as it was, but for its platform, its public time and a missing index.\<close>

definition refresh_mvt :: "nat \<Rightarrow> osms_mvt \<Rightarrow> string option \<Rightarrow> naive_time option \<Rightarrow> ntrod_db \<Rightarrow> osms_error + ntrod_db" where
  "refresh_mvt i m platform public_time db =
     (let db1 = (if om_platform m \<noteq> platform then update_osms_mvt (om_id m) (\<lambda>r. r\<lparr>om_platform := platform\<rparr>) db else db);
          db2 = (if om_public_time m \<noteq> public_time
                 then update_osms_mvt (om_id m) (\<lambda>r. r\<lparr>om_public_time := public_time\<rparr>) db1 else db1)
      in if om_idx m = None then update_mvt_idx m (int i) db2 else Inr db2)"

text \<open>The comparison, up to the first movement that differs; the flag is \<open>valid\<close>.\<close>

fun compare_mvts :: "(nat \<times> osms_mvt \<times> itps_mvt) list \<Rightarrow> ntrod_db \<Rightarrow> osms_error + bool \<times> ntrod_db" where
  "compare_mvts [] db = Inr (True, db)"
| "compare_mvts ((i, m, (tiploc, time, action, platform, public_time)) # rest) db =
     (if om_tiploc m = tiploc \<and> om_time m = time \<and> om_action m = action
      then res_bind (refresh_mvt i m platform public_time db) (compare_mvts rest)
      else Inr (False, db))"

definition sched_orig_mvts :: "int \<Rightarrow> ntrod_db \<Rightarrow> osms_mvt list" where
  "sched_orig_mvts sid db = sort_key mvt_order (filter (\<lambda>m. om_parent_sched m = sid) (on_mvts db))"

definition itps_row :: "schedule_record \<Rightarrow> int \<Rightarrow> osms_schedule" where
  "itps_row rec metaseq =
     \<lparr>os_id = -1, os_uid = sc_train_uid rec, os_start_date = sc_schedule_start_date rec,
      os_end_date = sc_schedule_end_date rec, os_days = sc_schedule_days_runs rec, os_stp_indicator = sc_stp_indicator rec,
      os_signalling_id = ss_signalling_id (sc_schedule_segment rec), os_geo_generation = 0, os_source = sched_source_itps,
      os_file_metaseq = Some metaseq, os_darwin_id = None\<rparr>"

definition itps_mvts :: "schedule_record \<Rightarrow> itps_mvt list" where
  "itps_mvts rec = concat (map sched_mvts (ss_schedule_location (sc_schedule_segment rec)))"

text \<open>A duplicate record: whether the movements stay. If they do not, they are deleted.\<close>

definition reuse_mvts :: "int \<Rightarrow> itps_mvt list \<Rightarrow> ntrod_db \<Rightarrow> osms_error + bool \<times> ntrod_db" where
  "reuse_mvts sid mvts db =
     (let orig_mvts = sched_orig_mvts sid db
      in res_map (\<lambda>(valid, db1). if valid then (True, db1) else (False, delete_osms_mvts (\<lambda>m. om_parent_sched m = sid) db1))
           (if length orig_mvts \<noteq> length mvts then Inr (False, db)
            else compare_mvts (List.enumerate 0 (zip orig_mvts mvts)) db))"

text \<open>The new rows are those of \<open>process_vstp\<close>: \<open>vstp_mvt_insert\<close>.\<close>

definition apply_osms_record :: "schedule_record \<Rightarrow> int \<Rightarrow> ntrod_db \<Rightarrow> osms_error + ntrod_db" where
  "apply_osms_record rec metaseq db =
     (case rec of
        SchedDelete train_uid _ schedule_start_date stp_indicator \<Rightarrow>
          delete_osms_schedules (\<lambda>s. os_uid s = train_uid \<and> os_start_date s = schedule_start_date \<and>
            os_stp_indicator s = stp_indicator \<and> os_source s = sched_source_itps) db
      | SchedCreate _ _ _ _ _ _ _ _ _ _ _ \<Rightarrow>
          res_bind (osms_schedule_insert (itps_row rec metaseq) db) (\<lambda>((sid, updated), db1).
          res_bind (if updated then reuse_mvts sid (itps_mvts rec) db1 else Inr (False, db1)) (\<lambda>(untouched, db2).
            if untouched then Inr db2
            else res_fold (vstp_mvt_insert sid) (List.enumerate 0 (itps_mvts rec)) db2)))"

section \<open>Files\<close>

text \<open>A line; \<open>metaseq\<close> is set by the record \<open>Timetable\<close>.\<close>

definition apply_osms_timetable :: "timetable_record \<Rightarrow> 'p setup_db \<Rightarrow> osms_error + int option \<times> 'p setup_db" where
  "apply_osms_timetable rec s =
     (let metaseq = sint (tm_sequence (tt_metadata rec))
      in if \<exists>f\<in>set (su_files s). ofl_timestamp f = uint (tt_timestamp rec) then Inl OScheduleFileExists
         else if (\<exists>f\<in>set (su_files s). metaseq < ofl_metaseq f) \<and> tm_ty (tt_metadata rec) = ''full''
         then Inl (OScheduleFileImportInvalid ''sequence number error'')
         else res_map (Pair (Some metaseq)) (osms_file_insert
           \<lparr>ofl_id = -1, ofl_timestamp = uint (tt_timestamp rec), ofl_metatype = tm_ty (tt_metadata rec), ofl_metaseq = metaseq\<rparr> s))"

definition apply_osms_line ::
    "(string \<Rightarrow> schedule_file_record option) \<Rightarrow> string option \<Rightarrow> int option \<times> 'p setup_db \<Rightarrow> osms_error + int option \<times> 'p setup_db" where
  "apply_osms_line parse line st =
     (case line of
        None \<Rightarrow> Inl OIo
      | Some l \<Rightarrow>
          (case parse l of
             Some (RecSchedule rec) \<Rightarrow>
               (case fst st of
                  Some ms \<Rightarrow> res_map (\<lambda>db. (fst st, (snd st)\<lparr>su_db := db\<rparr>)) (apply_osms_record rec ms (su_db (snd st)))
                | None \<Rightarrow> Inl OInvalidScheduleFile)
           | Some (RecTimetable rec) \<Rightarrow> apply_osms_timetable rec (snd st)
           | _ \<Rightarrow> Inr st))"

text \<open>The whole file is one transaction: with an error nothing of it is kept.\<close>

definition apply_osms_file ::
    "(string \<Rightarrow> schedule_file_record option) \<Rightarrow> string option list \<Rightarrow> 'p setup_db \<Rightarrow> osms_error + 'p setup_db" where
  "apply_osms_file parse lines s = res_map snd (res_fold (apply_osms_line parse) lines (None, s))"

definition osms_corpus_entries :: "corpus_data \<Rightarrow> ntrod_db \<Rightarrow> osms_error + ntrod_db" where
  "osms_corpus_entries data = res_fold osms_corpus_insert (filter contains_data (tiploc_data data))"

section \<open>Names\<close>

fun cate_i32 :: "cate_type \<Rightarrow> int" where
  "cate_i32 Cate_Not = 0"
| "cate_i32 Cate_Small = 1"
| "cate_i32 Cate_Medium = 2"
| "cate_i32 Cate_Large = 3"
| "cate_i32 Cate_SubsidiaryTiploc = 9"

definition osms_msn_line :: "nom \<Rightarrow> msn_chrono \<Rightarrow> string option \<Rightarrow> 'p setup_db \<Rightarrow> osms_error + 'p setup_db" where
  "osms_msn_line N T line s =
     (case line of
        None \<Rightarrow> Inl OIo
      | Some l \<Rightarrow>
          (case snd (msn_record_p N T l) of
             MsnStation st \<Rightarrow> msn_entry_insert \<lparr>me_tiploc = ms_tiploc st, me_name = ms_name st,
               me_cate = cate_i32 (ms_cate_type st), me_crs = ms_crs st\<rparr> s
           | _ \<Rightarrow> Inr s))"

definition osms_msn_entries :: "nom \<Rightarrow> msn_chrono \<Rightarrow> string option list \<Rightarrow> 'p setup_db \<Rightarrow> osms_error + 'p setup_db" where
  "osms_msn_entries N T lines s = res_fold (osms_msn_line N T) lines s"

text \<open>A record of the CSV file is \<open>None\<close> if it cannot be read; PostGIS transforms the coordinates.\<close>

record naptan_csv =
  nc_atcocode :: string
  nc_tiploccode :: string
  nc_crscode :: string
  nc_stationname :: string
  nc_easting :: u32
  nc_northing :: u32

definition naptan_line :: "(u32 \<Rightarrow> u32 \<Rightarrow> 'p option) \<Rightarrow> naptan_csv option \<Rightarrow> 'p setup_db \<Rightarrow> osms_error + 'p setup_db" where
  "naptan_line transform result s =
     res_bind (ok_or (OMessage ''csv'') result) (\<lambda>rec.
     res_bind (ok_or (OMessage ''couldn't transform point'') (transform (nc_easting rec) (nc_northing rec))) (\<lambda>pgp.
     naptan_insert \<lparr>ne_atco = nc_atcocode rec, ne_tiploc = nc_tiploccode rec, ne_crs = nc_crscode rec,
       ne_name = nc_stationname rec, ne_loc = pgp\<rparr> s))"

definition naptan_entries ::
    "(u32 \<Rightarrow> u32 \<Rightarrow> 'p option) \<Rightarrow> naptan_csv option list \<Rightarrow> 'p setup_db \<Rightarrow> osms_error + 'p setup_db" where
  "naptan_entries transform rdr s = res_fold (naptan_line transform) rdr s"

text \<open>\<open>titlecase\<close> is a crate; \<open>replace\<close> removes \<open>Rail Station\<close> with the space before it wherever it occurs.\<close>

function remove_all_str :: "string \<Rightarrow> string \<Rightarrow> string" where
  "remove_all_str p [] = []"
| "remove_all_str p (c # cs) =
     (if p \<noteq> [] \<and> take (length p) (c # cs) = p then remove_all_str p (drop (length p) (c # cs))
      else c # remove_all_str p cs)"
  by pat_completeness auto
termination by (relation "measure (\<lambda>(p, s). length s)") (auto simp: neq_Nil_conv)

definition tiploc_to_readable :: "(string \<Rightarrow> string) \<Rightarrow> string \<Rightarrow> 'p setup_db \<Rightarrow> string" where
  "tiploc_to_readable titlecase tpl s =
     (let desc =
        (case nth0 (filter (\<lambda>e. me_tiploc e = tpl) (su_msn s)) of
           Some e \<Rightarrow> Some (me_name e)
         | None \<Rightarrow>
             (case Option.bind (nth0 (filter (\<lambda>e. ce_nlcdesc e \<noteq> None \<and> ce_tiploc e = Some tpl) (on_corpus (su_db s)))) ce_nlcdesc of
                Some e \<Rightarrow> Some e
              | None \<Rightarrow> map_option (\<lambda>e. remove_all_str '' Rail Station'' (ne_name e))
                  (nth0 (filter (\<lambda>e. ne_tiploc e = tpl) (su_naptan s)))))
      in case desc of Some d \<Rightarrow> titlecase d | None \<Rightarrow> ''[TIPLOC '' @ tpl @ '']'')"

section \<open>Processing all schedules\<close>

text \<open>A thread; the schedule it has locked is the first that \<open>SKIP LOCKED LIMIT 1\<close> finds, as no other thread runs.\<close>

definition pending_schedules :: "ntrod_db \<Rightarrow> osms_schedule list" where
  "pending_schedules n = filter (\<lambda>s. os_geo_generation s = 0 \<and> os_source s \<noteq> sched_source_darwin) (on_schedules n)"

definition set_geo_generation :: "int \<Rightarrow> ntrod_db \<Rightarrow> ntrod_db" where
  "set_geo_generation i n =
     n\<lparr>on_schedules := map (\<lambda>s. if os_id s = i then s\<lparr>os_geo_generation := 1\<rparr> else s) (on_schedules n)\<rparr>"

partial_function (option) geo_thread ::
    "('g, 'd::wellorder) geo_ops \<Rightarrow> ('g, 'd) geo_state \<Rightarrow> ((osms_error + unit) \<times> ('g, 'd) geo_state) option" where
  "geo_thread G st =
     (case pending_schedules (fst st) of
        [] \<Rightarrow> Some (Inr (), st)
      | sched # _ \<Rightarrow>
          Option.bind (geo_process_schedule G (os_id sched) st) (\<lambda>(r, st1).
            case r of
              Inl e \<Rightarrow> Some (Inl OPanic, st1)
            | Inr _ \<Rightarrow> geo_thread G (set_geo_generation (os_id sched) (fst st1), snd st1)))"

definition geo_process_schedules ::
    "('g, 'd::wellorder) geo_ops \<Rightarrow> ('g, 'd) geo_state \<Rightarrow> ((osms_error + unit) \<times> ('g, 'd) geo_state) option" where
  "geo_process_schedules G st =
     map_option (\<lambda>(r, st1). (map_err (\<lambda>_. OMessage ''thread failed'') r, st1)) (geo_thread G st)"

section \<open>What the processing of a schedule leaves alone\<close>

definition keeps_sched :: "int \<Rightarrow> ntrod_db \<Rightarrow> ntrod_db \<Rightarrow> bool" where
  "keeps_sched sid n n' \<longleftrightarrow>
     filter (\<lambda>m. om_parent_sched m = sid) (on_mvts n') = filter (\<lambda>m. om_parent_sched m = sid) (on_mvts n)"

definition mvt_keys :: "ntrod_db \<Rightarrow> (int \<times> int) list" where
  "mvt_keys n = map (\<lambda>m. (om_id m, om_parent_sched m)) (on_mvts n)"

definition keeps_rows :: "ntrod_db \<Rightarrow> ntrod_db \<Rightarrow> bool" where
  "keeps_rows n n' \<longleftrightarrow> on_schedules n' = on_schedules n \<and> mvt_keys n' = mvt_keys n"

lemma keeps_refl [simp]: "keeps_sched sid n n" "keeps_rows n n"
  by (simp_all add: keeps_sched_def keeps_rows_def)

lemma keeps_trans: "keeps_sched sid a b \<Longrightarrow> keeps_sched sid b c \<Longrightarrow> keeps_sched sid a c"
    "keeps_rows a b \<Longrightarrow> keeps_rows b c \<Longrightarrow> keeps_rows a c"
  by (simp_all add: keeps_sched_def keeps_rows_def)

lemma filter_map_same: "(\<And>x. P (f x) = P x) \<Longrightarrow> \<forall>x\<in>set xs. P x \<longrightarrow> f x = x \<Longrightarrow> filter P (map f xs) = filter P xs"
  by (induction xs) auto

text \<open>\<open>ids\<close> belong to movements of another schedule.\<close>

definition foreign_ids :: "int \<Rightarrow> int set \<Rightarrow> ntrod_db \<Rightarrow> bool" where
  "foreign_ids sid ids n \<longleftrightarrow> (\<forall>(i, s)\<in>set (mvt_keys n). s = sid \<longrightarrow> i \<notin> ids)"

lemma foreign_rows: "keeps_rows n n' \<Longrightarrow> foreign_ids sid ids n' = foreign_ids sid ids n"
  by (simp add: keeps_rows_def foreign_ids_def)

lemma set_paths_keeps:
  "keeps_rows n (set_paths pid a b n)" "foreign_ids sid {a, b} n \<Longrightarrow> keeps_sched sid n (set_paths pid a b n)"
  by (auto simp: keeps_rows_def keeps_sched_def mvt_keys_def set_paths_def foreign_ids_def intro!: filter_map_same)

lemma geo_route_step:
  assumes "geo_route G start s (e # rest) k st = Some (r, st')"
  obtains "st' = st" | k' where "geo_route G start s rest k' st = Some (r, st')"
  | pid g where "st' = (set_paths pid (om_id start) (om_id e) (fst st), g)"
proof (cases "(om_action e = action_arrival \<or> om_action e = action_pass) \<and>
    (\<exists>l. station_of_tiploc (om_tiploc e) (snd st) = Some l \<and> rl_id l \<noteq> s)")
  case False
  with assms that(1,2) show ?thesis by (auto split: if_splits option.splits)
next
  case True
  then obtain l where l: "station_of_tiploc (om_tiploc e) (snd st) = Some l" "rl_id l \<noteq> s" by blast
  have act: "om_action e = action_arrival \<or> om_action e = action_pass" using True by blast
  obtain q where q: "navigate_cached G s (rl_id l) (snd st) = Some q" using assms l act by (auto split: option.splits)
  show ?thesis
  proof (cases q)
    case (Inr a)
    obtain pid g where "a = (pid, g)" by (cases a)
    with assms act l q Inr have "st' = (set_paths pid (om_id start) (om_id e) (fst st), g)" by simp
    then show ?thesis by (rule that(3))
  next
    case (Inl x)
    show ?thesis
    proof (cases "x = OPanic")
      case True
      with assms act l q Inl that(1) show ?thesis by simp
    next
      case False
      then have "geo_route G start s (e # rest) k st = (if om_action e = action_arrival then
                     if schedule_max_arrival_skips < k + 1 then Some (Inr (), st)
                     else geo_route G start s rest (k + 1) st
                   else geo_route G start s rest k st)"
        using act l q Inl by (cases x) simp_all
      with assms that(1,2) show ?thesis by (auto split: if_splits)
    qed
  qed
qed

lemma geo_route_keeps:
  assumes "geo_route G start s rest k st = Some (r, st')"
  shows "keeps_rows (fst st) (fst st') \<and>
    (foreign_ids sid (insert (om_id start) (om_id ` set rest)) (fst st) \<longrightarrow> keeps_sched sid (fst st) (fst st'))"
  using assms
proof (induction rest arbitrary: k)
  case (Cons e rest)
  have sub: "foreign_ids sid B n" if "foreign_ids sid A n" "B \<subseteq> A" for A B n using that by (fastforce simp: foreign_ids_def)
  from Cons.prems show ?case
  proof (cases rule: geo_route_step)
    case (2 k')
    from Cons.IH [OF this] show ?thesis using sub by (metis insert_mono list.set_intros(2) image_mono subsetI)
  next
    case 3
    then show ?thesis using set_paths_keeps sub [of _ _ "{om_id start, om_id e}"] by simp
  qed simp
qed simp

lemma geo_loop_keeps:
  assumes "geo_loop G mvts st = Some (r, st')"
  shows "keeps_rows (fst st) (fst st') \<and> (foreign_ids sid (om_id ` set mvts) (fst st) \<longrightarrow> keeps_sched sid (fst st) (fst st'))"
  using assms
proof (induction mvts arbitrary: st rule: length_induct)
  case (1 mvts)
  show ?case
  proof (cases "dropWhile (\<lambda>m. \<not> geo_start m) mvts")
    case Nil
    with 1(2) show ?thesis by (subst (asm) geo_loop.simps) simp
  next
    case (Cons e rest)
    have sub: "insert (om_id e) (om_id ` set rest) \<subseteq> om_id ` set mvts"
      using set_dropWhileD [of _ "\<lambda>m. \<not> geo_start m" mvts] by (auto simp: Cons)
    consider "st' = st" | s st1 r1 where "geo_route G e s rest 0 st = Some (r1, st1)"
        "st' = st1 \<or> geo_loop G rest st1 = Some (r, st')"
      using 1(2) by (subst (asm) geo_loop.simps) (auto simp: Cons split: option.splits if_splits sum.splits)
    then show ?thesis
    proof cases
      case 2
      have short: "length rest < length mvts" by (rule dropWhile_Cons_length [OF Cons])
      note route = geo_route_keeps [OF 2(1), of sid]
      have "keeps_rows (fst st1) (fst st') \<and> (foreign_ids sid (om_id ` set rest) (fst st1) \<longrightarrow> keeps_sched sid (fst st1) (fst st'))"
        using 2(2)
      proof
        assume "geo_loop G rest st1 = Some (r, st')"
        with 1(1) short show ?thesis by blast
      qed simp
      moreover have "foreign_ids sid (insert (om_id e) (om_id ` set rest)) (fst st) \<and> foreign_ids sid (om_id ` set rest) (fst st)"
        if "foreign_ids sid (om_id ` set mvts) (fst st)" using that sub by (fastforce simp: foreign_ids_def)
      ultimately show ?thesis using route keeps_trans foreign_rows by blast
    qed simp
  qed
qed

text \<open>Only the movements of the schedule that is processed change.\<close>

lemma geo_process_keeps:
  assumes "geo_process_schedule G i st = Some (r, st')" "distinct (map om_id (on_mvts (fst st)))"
  shows "keeps_rows (fst st) (fst st')" "sid \<noteq> i \<Longrightarrow> keeps_sched sid (fst st) (fst st')"
proof -
  have "foreign_ids sid (om_id ` set (located_mvts i st)) (fst st)" if "sid \<noteq> i"
    unfolding foreign_ids_def
  proof clarify
    fix l assume "(om_id l, sid) \<in> set (mvt_keys (fst st))" "l \<in> set (located_mvts i st)"
    then obtain m where "m \<in> set (on_mvts (fst st))" "om_id m = om_id l" "om_parent_sched m = sid" "l \<in> set (on_mvts (fst st))"
        "om_parent_sched l = i" by (auto simp: mvt_keys_def located_mvts_def)
    with distinct_mapD [OF assms(2), of m l] that show False by auto
  qed
  then show "keeps_rows (fst st) (fst st')" "sid \<noteq> i \<Longrightarrow> keeps_sched sid (fst st) (fst st')"
    using geo_loop_keeps [OF assms(1) [unfolded geo_process_schedule_def], of sid] by blast+
qed

section \<open>All schedules are processed\<close>

definition is_pending :: "osms_schedule \<Rightarrow> bool" where
  "is_pending s \<longleftrightarrow> os_geo_generation s = 0 \<and> os_source s \<noteq> sched_source_darwin"

definition processed_schedule :: "osms_schedule \<Rightarrow> osms_schedule" where
  "processed_schedule s = (if is_pending s then s\<lparr>os_geo_generation := 1\<rparr> else s)"

lemma pending_schedules: "pending_schedules n = filter is_pending (on_schedules n)"
  by (simp add: pending_schedules_def is_pending_def [abs_def])

lemma ids_of_keys: "map om_id (on_mvts n) = map fst (mvt_keys n)"
  by (simp add: mvt_keys_def comp_def)

lemma processed_not_pending [simp]: "\<not> is_pending (processed_schedule s)" "os_id (processed_schedule s) = os_id s"
  by (simp_all add: processed_schedule_def is_pending_def)

lemma processed_id: "\<not> is_pending s \<Longrightarrow> processed_schedule s = s" by (simp add: processed_schedule_def)

lemma set_generation_tables [simp]:
  "on_mvts (set_geo_generation i n) = on_mvts n" "mvt_keys (set_geo_generation i n) = mvt_keys n"
  "keeps_sched sid a (set_geo_generation i n) = keeps_sched sid a n"
  "paths_fit (set_geo_generation i n, g) = paths_fit (n, g)"
  by (simp_all add: set_geo_generation_def mvt_keys_def keeps_sched_def paths_fit_def)

lemma processed_step:
  assumes "distinct (map os_id ss)" "s \<in> set ss" "is_pending s"
  defines "ss' \<equiv> map (\<lambda>r. if os_id r = os_id s then r\<lparr>os_geo_generation := 1\<rparr> else r) ss"
  shows "map os_id ss' = map os_id ss" "map processed_schedule ss' = map processed_schedule ss"
    "length (filter is_pending ss') < length (filter is_pending ss)"
    "\<forall>r\<in>set ss. os_id r = i \<longrightarrow> \<not> is_pending r \<Longrightarrow> \<forall>r\<in>set ss'. os_id r = i \<longrightarrow> \<not> is_pending r"
proof -
  have s: "r = s" if "r \<in> set ss" "os_id r = os_id s" for r using distinct_mapD [OF assms(1) that(1) assms(2)] that(2) by auto
  show "map os_id ss' = map os_id ss" by (simp add: ss'_def comp_def)
  show "map processed_schedule ss' = map processed_schedule ss"
    using s assms(3) by (auto simp: ss'_def processed_schedule_def is_pending_def)
  show "\<forall>r\<in>set ss. os_id r = i \<longrightarrow> \<not> is_pending r \<Longrightarrow> \<forall>r\<in>set ss'. os_id r = i \<longrightarrow> \<not> is_pending r"
    by (auto simp: ss'_def is_pending_def)
  have "filter is_pending ss' = filter (\<lambda>r. is_pending r \<and> os_id r \<noteq> os_id s) ss"
    unfolding ss'_def by (induction ss) (auto simp: is_pending_def)
  moreover have "length (filter (\<lambda>r. is_pending r \<and> os_id r \<noteq> os_id s) ss) < length (filter is_pending ss)"
    using assms(2,3) length_filter_less [of s "filter is_pending ss" "\<lambda>r. os_id r \<noteq> os_id s"]
    by (simp add: conj_commute)
  ultimately show "length (filter is_pending ss') < length (filter is_pending ss)" by simp
qed

lemma geo_thread_processes:
  assumes "railway_ok G (snd st)" "paths_fit st" "distinct (map om_id (on_mvts (fst st)))"
    and "distinct (map os_id (on_schedules (fst st)))"
  shows "\<exists>st'. geo_thread G st = Some (Inr (), st') \<and> railway_ok G (snd st') \<and> paths_fit st' \<and>
    on_schedules (fst st') = map processed_schedule (on_schedules (fst st)) \<and> mvt_keys (fst st') = mvt_keys (fst st) \<and>
    ((\<forall>s\<in>set (on_schedules (fst st)). os_id s = sid \<longrightarrow> \<not> is_pending s) \<longrightarrow> keeps_sched sid (fst st) (fst st'))"
  using assms
proof (induction "length (pending_schedules (fst st))" arbitrary: st rule: less_induct)
  case less
  show ?case
  proof (cases "pending_schedules (fst st)")
    case Nil
    then have "map processed_schedule (on_schedules (fst st)) = on_schedules (fst st)"
      by (intro map_idI processed_id) (simp add: pending_schedules filter_empty_conv)
    with Nil less.prems show ?thesis by (subst geo_thread.simps) simp
  next
    case (Cons s rest)
    then have s: "s \<in> set (on_schedules (fst st))" "is_pending s"
      using Cons_eq_filterD [of s rest is_pending "on_schedules (fst st)"] by (auto simp: pending_schedules)
    obtain st1 where run: "geo_process_schedule G (os_id s) st = Some (Inr (), st1)" "railway_ok G (snd st1)" "paths_fit st1"
      using geo_process_schedule_fits [OF less.prems(1,2,3)] by blast
    note keep = geo_process_keeps [OF run(1) less.prems(3)]
    define st2 where "st2 = (set_geo_generation (os_id s) (fst st1), snd st1)"
    have rows: "on_schedules (fst st2) = map (\<lambda>r. if os_id r = os_id s then r\<lparr>os_geo_generation := 1\<rparr> else r) (on_schedules (fst st))"
        "mvt_keys (fst st2) = mvt_keys (fst st)" "railway_ok G (snd st2)" "paths_fit st2"
      using keep(1) run(2,3) by (simp_all add: st2_def keeps_rows_def set_geo_generation_def mvt_keys_def paths_fit_def)
    note step = processed_step [OF less.prems(4) s, folded rows(1)]
    have "length (pending_schedules (fst st2)) < length (pending_schedules (fst st))" unfolding pending_schedules by (rule step(3))
    from less.hyps [OF this rows(3,4)] less.prems(3,4)
    obtain st3 where st3: "geo_thread G st2 = Some (Inr (), st3)" "railway_ok G (snd st3)" "paths_fit st3"
        "on_schedules (fst st3) = map processed_schedule (on_schedules (fst st))" "mvt_keys (fst st3) = mvt_keys (fst st)"
        "(\<forall>r\<in>set (on_schedules (fst st2)). os_id r = sid \<longrightarrow> \<not> is_pending r) \<longrightarrow> keeps_sched sid (fst st2) (fst st3)"
      unfolding ids_of_keys step(1,2) rows(2) by blast
    have "geo_thread G st = Some (Inr (), st3)"
      using st3(1) by (subst geo_thread.simps) (simp add: Cons run(1) st2_def)
    moreover have "keeps_sched sid (fst st) (fst st3)" if "\<forall>r\<in>set (on_schedules (fst st)). os_id r = sid \<longrightarrow> \<not> is_pending r"
    proof -
      have "keeps_sched sid (fst st) (fst st2)" using keep(2) that s by (auto simp: st2_def)
      then show ?thesis using st3(6) step(4) [OF that] keeps_trans(1) by blast
    qed
    ultimately show ?thesis using st3 by blast
  qed
qed

text \<open>Two lists with the same classes agree on a union of classes on each of which they agree.\<close>

lemma filter_by_classes:
  assumes "map f xs = map f ys" "\<And>c. P c \<Longrightarrow> filter (\<lambda>x. f x = c) xs = filter (\<lambda>x. f x = c) ys"
  shows "filter (\<lambda>x. P (f x)) xs = filter (\<lambda>x. P (f x)) ys"
  using assms
proof (induction xs arbitrary: ys)
  case (Cons x xs)
  then obtain y ys' where ys: "ys = y # ys'" "f x = f y" "map f xs = map f ys'" by (cases ys) auto
  have "filter (\<lambda>x. f x = c) xs = filter (\<lambda>x. f x = c) ys' \<and> (f x = c \<longrightarrow> x = y)" if "P c" for c
    using Cons.prems(2) [OF that] ys by (cases "f y = c") simp_all
  then show ?case using Cons.IH [OF ys(3)] ys by auto
qed simp


section \<open>What the import stores\<close>

definition same_place :: "osms_mvt \<Rightarrow> itps_mvt \<Rightarrow> bool" where
  "same_place m x \<longleftrightarrow> (case x of (tiploc, time, action, _, _) \<Rightarrow> om_tiploc m = tiploc \<and> om_time m = time \<and> om_action m = action)"

definition itps_content :: "osms_mvt \<Rightarrow> itps_mvt" where
  "itps_content m = (om_tiploc m, om_time m, om_action m, om_platform m, om_public_time m)"

definition refreshed :: "itps_mvt \<Rightarrow> osms_mvt \<Rightarrow> osms_mvt" where
  "refreshed x m = (case x of (_, _, _, platform, public_time) \<Rightarrow> m\<lparr>om_platform := platform, om_public_time := public_time\<rparr>)"

lemma refreshed_fields [simp]:
  "om_id (refreshed x m) = om_id m" "om_parent_sched (refreshed x m) = om_parent_sched m" "om_idx (refreshed x m) = om_idx m"
  "om_tiploc (refreshed x m) = om_tiploc m" "om_time (refreshed x m) = om_time m" "om_action (refreshed x m) = om_action m"
  "om_starts_path (refreshed x m) = om_starts_path m" "om_ends_path (refreshed x m) = om_ends_path m"
  by (simp_all add: refreshed_def split: prod.splits)

lemma refreshed_content: "same_place m x \<Longrightarrow> itps_content (refreshed x m) = x"
  by (auto simp: same_place_def itps_content_def refreshed_def split: prod.splits)

lemma compare_step:
  "compare_mvts ((i, m, x) # rest) db =
     (if same_place m x then res_bind (refresh_mvt i m (fst (snd (snd (snd x)))) (snd (snd (snd (snd x)))) db) (compare_mvts rest)
      else Inr (False, db))"
  by (cases x) (simp add: same_place_def)

declare compare_mvts.simps(2) [simp del]

lemma compare_valid: "compare_mvts L db = Inr (valid, db') \<Longrightarrow> valid = list_all (\<lambda>(i, m, x). same_place m x) L"
  by (induction L arbitrary: db) (auto simp: compare_step res_bind_Inr split: if_splits)

text \<open>Rows that are not compared stay, and the others keep their place and their paths.\<close>

definition row_kept :: "int set \<Rightarrow> osms_mvt \<Rightarrow> osms_mvt \<Rightarrow> bool" where
  "row_kept ids m m' \<longleftrightarrow> om_id m' = om_id m \<and> om_parent_sched m' = om_parent_sched m \<and> (om_id m \<notin> ids \<longrightarrow> m' = m)"

definition only_rows :: "int set \<Rightarrow> ntrod_db \<Rightarrow> ntrod_db \<Rightarrow> bool" where
  "only_rows ids db db' \<longleftrightarrow> (\<exists>f. db' = db\<lparr>on_mvts := map f (on_mvts db)\<rparr> \<and> (\<forall>m. row_kept ids m (f m)))"

lemma only_rows_refl [simp]: "only_rows ids db db"
  by (auto simp: only_rows_def row_kept_def intro!: exI [of _ id])

lemma only_rows_trans: "only_rows ids a b \<Longrightarrow> only_rows ids b c \<Longrightarrow> only_rows ids a c"
  unfolding only_rows_def
proof (elim exE conjE)
  fix f g assume "b = a\<lparr>on_mvts := map f (on_mvts a)\<rparr>" "c = b\<lparr>on_mvts := map g (on_mvts b)\<rparr>"
      "\<forall>m. row_kept ids m (f m)" "\<forall>m. row_kept ids m (g m)"
  then show "\<exists>f. c = a\<lparr>on_mvts := map f (on_mvts a)\<rparr> \<and> (\<forall>m. row_kept ids m (f m))"
    by (intro exI [of _ "g \<circ> f"]) (auto simp: row_kept_def)
qed

lemma only_rows_mono: "only_rows ids a b \<Longrightarrow> ids \<subseteq> ids' \<Longrightarrow> only_rows ids' a b"
  by (fastforce simp: only_rows_def row_kept_def)

lemma update_mvt_only:
  "(\<And>r. om_id (f r) = om_id r \<and> om_parent_sched (f r) = om_parent_sched r) \<Longrightarrow> only_rows {i} db (update_osms_mvt i f db)"
  by (auto simp: only_rows_def row_kept_def update_osms_mvt_def intro!: exI [of _ "\<lambda>m. if om_id m = i then f m else m"])

lemma refresh_only: "refresh_mvt i m p t db = Inr db' \<Longrightarrow> only_rows {om_id m} db db'"
  by (auto simp: refresh_mvt_def Let_def update_mvt_idx_def update_mvt_only split: if_splits
      intro!: only_rows_trans [OF _ update_mvt_only])

lemma compare_only: "compare_mvts L db = Inr (valid, db') \<Longrightarrow> only_rows ((\<lambda>(i, m, x). om_id m) ` set L) db db'"
proof (induction L arbitrary: db)
  case (Cons a L)
  obtain i m x where a: "a = (i, m, x)" by (cases a)
  from Cons.prems consider "db' = db"
    | db1 where "refresh_mvt i m (fst (snd (snd (snd x)))) (snd (snd (snd (snd x)))) db = Inr db1" "compare_mvts L db1 = Inr (valid, db')"
    by (auto simp: a compare_step res_bind_Inr split: if_splits)
  then show ?case
  proof cases
    case 2
    show ?thesis
      by (rule only_rows_trans [OF only_rows_mono [OF refresh_only [OF 2(1)]] only_rows_mono [OF Cons.IH [OF 2(2)]]]) (force simp: a)+
  qed simp
qed simp

text \<open>The comparison that succeeds, when every row has its index.\<close>

definition fill :: "(nat \<times> osms_mvt \<times> itps_mvt) list \<Rightarrow> osms_mvt \<Rightarrow> osms_mvt" where
  "fill L r = (case map_of (map (\<lambda>(i, m, x). (om_id m, x)) L) (om_id r) of None \<Rightarrow> r | Some x \<Rightarrow> refreshed x r)"

lemma refresh_exact:
  assumes "om_idx m \<noteq> None" "\<forall>r\<in>set (on_mvts db). om_id r = om_id m \<longrightarrow> r = m"
  shows "refresh_mvt i m (fst (snd (snd (snd x)))) (snd (snd (snd (snd x)))) db =
    Inr (update_osms_mvt (om_id m) (refreshed x) db)"
proof -
  obtain a b c p t where x: "x = (a, b, c, p, t)" by (cases x)
  let ?P = "\<lambda>r. r\<lparr>om_platform := p\<rparr>" and ?T = "\<lambda>r. r\<lparr>om_public_time := t\<rparr>" and ?U = "\<lambda>f. update_osms_mvt (om_id m) f db"
  have upd: "?U f = ?U (refreshed x)" if "f m = refreshed x m" for f
    unfolding update_osms_mvt_def using that assms(2) by (intro arg_cong [where f = "\<lambda>ms. db\<lparr>on_mvts := ms\<rparr>"] map_cong) auto
  have both: "update_osms_mvt (om_id m) ?T (?U ?P) = ?U (refreshed x)"
    by (simp add: update_osms_mvt_def refreshed_def x)
  obtain k where k: "om_idx m = Some k" using assms(1) by blast
  have none: "?U id = db" by (simp add: update_osms_mvt_def cong: if_cong)
  have "refresh_mvt i m p t db = Inr (?U (refreshed x))"
  proof (cases "om_platform m = p"; cases "om_public_time m = t")
    assume "om_platform m = p" "om_public_time m = t"
    then show ?thesis using k upd [of id, unfolded none] by (simp add: refresh_mvt_def refreshed_def x)
  next
    assume "om_platform m = p" "om_public_time m \<noteq> t"
    then show ?thesis using k upd [of ?T] by (simp add: refresh_mvt_def refreshed_def x)
  next
    assume "om_platform m \<noteq> p" "om_public_time m = t"
    then show ?thesis using k upd [of ?P] by (simp add: refresh_mvt_def refreshed_def x)
  next
    assume "om_platform m \<noteq> p" "om_public_time m \<noteq> t"
    then show ?thesis using k both by (simp add: refresh_mvt_def)
  qed
  then show ?thesis by (simp add: x)
qed

lemma compare_exact:
  assumes "compare_mvts L db = Inr (True, db')" "list_all (\<lambda>(i, m, x). om_idx m \<noteq> None) L"
    and "distinct (map (\<lambda>(i, m, x). om_id m) L)" "\<forall>(i, m, x)\<in>set L. \<forall>r\<in>set (on_mvts db). om_id r = om_id m \<longrightarrow> r = m"
  shows "db' = db\<lparr>on_mvts := map (fill L) (on_mvts db)\<rparr>"
  using assms
proof (induction L arbitrary: db)
  case Nil
  have "fill [] = id" by (auto simp: fill_def)
  with Nil show ?case by simp
next
  case (Cons a L)
  obtain i m x where a: "a = (i, m, x)" by (cases a)
  let ?db = "update_osms_mvt (om_id m) (refreshed x) db"
  have run: "compare_mvts L ?db = Inr (True, db')"
    using Cons.prems(1,2,4) by (auto simp: a compare_step refresh_exact split: if_splits)
  have other: "om_id k \<noteq> om_id m" if "(j, k, y) \<in> set L" for j k y
    using Cons.prems(3) that by (force simp: a)
  have "\<forall>(j, k, y)\<in>set L. \<forall>r\<in>set (on_mvts ?db). om_id r = om_id k \<longrightarrow> r = k"
    using Cons.prems(4) other by (fastforce simp: a update_osms_mvt_def)
  then have "db' = ?db\<lparr>on_mvts := map (fill L) (on_mvts ?db)\<rparr>"
    using Cons.IH [OF run] Cons.prems(2,3) by (simp add: a)
  moreover have "fill L (if om_id r = om_id m then refreshed x r else r) = fill (a # L) r" for r
  proof (cases "om_id r = om_id m")
    case True
    then have "map_of (map (\<lambda>(i, m, x). (om_id m, x)) L) (om_id r) = None"
      using other by (force simp: map_of_eq_None_iff)
    with True show ?thesis by (simp add: fill_def a)
  qed (simp add: fill_def a)
  ultimately show ?case by (simp add: update_osms_mvt_def comp_def)
qed

lemma sort_key_map: "(\<And>x. k (f x) = k x) \<Longrightarrow> sort_key k (map f xs) = map f (sort_key k xs)"
proof (induction xs)
  case (Cons x xs)
  have "insort_key k (f x) (map f ys) = map f (insort_key k x ys)" for ys by (induction ys) (simp_all add: Cons.prems)
  with Cons show ?case by simp
qed simp

lemma insert_mvts_exact:
  assumes "res_fold (vstp_mvt_insert sid) (List.enumerate k ms) db = Inr db'"
  shows "\<exists>new. db' = db\<lparr>on_mvts := on_mvts db @ new, on_mvt_seq := on_mvt_seq db'\<rparr> \<and> map itps_content new = ms \<and>
    map om_idx new = map (\<lambda>i. Some (int i)) [k..<k + length ms] \<and>
    (\<forall>m\<in>set new. om_parent_sched m = sid \<and> om_starts_path m = None \<and> om_ends_path m = None)"
  using assms
proof (induction ms arbitrary: k db)
  case Nil
  then show ?case by (intro exI [of _ "[]"]) simp
next
  case (Cons x ms)
  obtain a b c p t where x: "x = (a, b, c, p, t)" by (cases x)
  obtain db1 where one: "vstp_mvt_insert sid (k, x) db = Inr db1"
    and rest: "res_fold (vstp_mvt_insert sid) (List.enumerate (Suc k) ms) db1 = Inr db'"
    using Cons.prems by (auto split: sum.splits)
  let ?m = "\<lparr>om_id = on_mvt_seq db, om_parent_sched = sid, om_tiploc = a, om_action = c, om_time = b, om_starts_path = None,
    om_ends_path = None, om_idx = Some (int k), om_platform = p, om_public_time = t\<rparr>"
  have db1: "db1 = db\<lparr>on_mvts := on_mvts db @ [?m], on_mvt_seq := on_mvt_seq db + 1\<rparr>"
    using one by (auto simp: x vstp_mvt_insert_def osms_mvt_insert_def res_map_Inr split: if_splits)
  from Cons.IH [OF rest] obtain new where new: "db' = db1\<lparr>on_mvts := on_mvts db1 @ new, on_mvt_seq := on_mvt_seq db'\<rparr>"
      "map itps_content new = ms" "map om_idx new = map (\<lambda>i. Some (int i)) [Suc k..<Suc k + length ms]"
      "\<forall>m\<in>set new. om_parent_sched m = sid \<and> om_starts_path m = None \<and> om_ends_path m = None" by blast
  have "db' = db\<lparr>on_mvts := on_mvts db @ ?m # new, on_mvt_seq := on_mvt_seq db'\<rparr>" by (subst new(1)) (simp add: db1)
  moreover have "[k..<k + length (x # ms)] = k # [Suc k..<Suc k + length ms]" by (simp add: upt_conv_Cons del: upt_Suc)
  moreover have "map om_idx (?m # new) = map (\<lambda>i. Some (int i)) (k # [Suc k..<Suc k + length ms])" using new(3) by simp
  moreover have "map itps_content (?m # new) = x # ms" using new(2) by (simp add: itps_content_def x)
  ultimately show ?case using new(4) by (intro exI [of _ "?m # new"]) (simp del: upt_Suc)
qed

text \<open>Rows in the order of their insertion are in the order of the query.\<close>

lemma sorted_by_idx:
  "map om_idx new = map (\<lambda>i. Some (int i)) [k..<n] \<Longrightarrow> sort_key mvt_order new = new"
proof (rule sort_key_id_if_sorted)
  assume idx: "map om_idx new = map (\<lambda>i. Some (int i)) [k..<n]"
  then have len: "length new = n - k" by (metis length_map length_upt)
  have "om_idx (new ! i) = Some (int (k + i))" if "i < length new" for i
    using arg_cong [OF idx, where f = "\<lambda>xs. xs ! i"] that len by simp
  then show "sorted (map mvt_order new)"
    by (auto simp: sorted_iff_nth_mono_less mvt_order_def less_eq_prod_def)
qed

lemma reuse_cases:
  assumes "reuse_mvts sid mvts db = Inr (untouched, db')" "distinct (map om_id (on_mvts db))"
  obtains (kept) "untouched" "list_all2 same_place (sched_orig_mvts sid db) mvts"
      "compare_mvts (List.enumerate 0 (zip (sched_orig_mvts sid db) mvts)) db = Inr (True, db')"
  | (deleted) "\<not> untouched" "\<not> list_all2 same_place (sched_orig_mvts sid db) mvts"
      "db' = delete_osms_mvts (\<lambda>m. om_parent_sched m = sid) db"
proof (cases "length (sched_orig_mvts sid db) = length mvts")
  case False
  with assms that(2) show ?thesis by (auto simp: reuse_mvts_def list_all2_conv_all_nth)
next
  case True
  let ?L = "List.enumerate 0 (zip (sched_orig_mvts sid db) mvts)"
  let ?del = "delete_osms_mvts (\<lambda>m. om_parent_sched m = sid)"
  obtain valid db1 where run: "compare_mvts ?L db = Inr (valid, db1)"
      "(untouched, db') = (if valid then (True, db1) else (False, ?del db1))"
    using assms(1) True unfolding reuse_mvts_def Let_def res_map_Inr by force
  have "list_all (\<lambda>(i, m, x). same_place m x) (List.enumerate k zs) = list_all (\<lambda>(m, x). same_place m x) zs" for k zs
    by (induction zs arbitrary: k) auto
  then have valid: "valid = list_all2 same_place (sched_orig_mvts sid db) mvts"
    using compare_valid [OF run(1)] True by (simp add: list_all2_iff list_all_iff)
  obtain f where f: "db1 = db\<lparr>on_mvts := map f (on_mvts db)\<rparr>" "\<And>m. row_kept (om_id ` set (sched_orig_mvts sid db)) m (f m)"
  proof -
    have "(\<lambda>(i, m, x). om_id m) ` set ?L \<subseteq> om_id ` set (sched_orig_mvts sid db)"
      by (auto simp: enumerate_eq_zip dest: set_zip_rightD set_zip_leftD)
    from only_rows_mono [OF compare_only [OF run(1)] this] that show ?thesis by (auto simp: only_rows_def)
  qed
  have own: "om_parent_sched m = sid" if "m \<in> set (on_mvts db)" "om_id m \<in> om_id ` set (sched_orig_mvts sid db)" for m
    using that distinct_mapD [OF assms(2) that(1)] by (auto simp: sched_orig_mvts_def)
  have "filter (\<lambda>m. om_parent_sched m \<noteq> sid) (map f (on_mvts db)) = filter (\<lambda>m. om_parent_sched m \<noteq> sid) (on_mvts db)"
    using f(2) own by (intro filter_map_same) (auto simp: row_kept_def)
  moreover have "om_id ` set (filter (\<lambda>m. om_parent_sched m = sid) (map f (on_mvts db))) =
      om_id ` set (filter (\<lambda>m. om_parent_sched m = sid) (on_mvts db))"
    using f(2) by (simp add: filter_map comp_def row_kept_def image_image del: set_filter)
  ultimately have "?del db1 = ?del db" by (simp add: f(1) delete_osms_mvts_def delete_tmvts_def Let_def del: set_filter)
  then show ?thesis using run valid that by (cases valid) simp_all
qed

text \<open>What a record that creates a schedule does.\<close>

lemma apply_create:
  "rec = SchedCreate uid tt start end_date days bh st stp at atoc seg \<Longrightarrow> apply_osms_record rec metaseq db =
     res_bind (osms_schedule_insert (itps_row rec metaseq) db) (\<lambda>((sid, updated), db1).
     res_bind (if updated then reuse_mvts sid (itps_mvts rec) db1 else Inr (False, db1)) (\<lambda>(untouched, db2).
       if untouched then Inr db2 else res_fold (vstp_mvt_insert sid) (List.enumerate 0 (itps_mvts rec)) db2))"
  by (erule ssubst) (simp only: apply_osms_record_def schedule_record.case)

lemma create_cases:
  assumes "ntrod_inv db" "apply_osms_record rec metaseq db = Inr db'" "rec = SchedCreate uid tt start end_date days bh st stp at atoc seg"
  obtains (kept) sid db1 where "osms_schedule_insert (itps_row rec metaseq) db = Inr ((sid, True), db1)" "ntrod_inv db1"
      "on_mvts db1 = on_mvts db" "list_all2 same_place (sched_orig_mvts sid db) (itps_mvts rec)"
      "compare_mvts (List.enumerate 0 (zip (sched_orig_mvts sid db1) (itps_mvts rec))) db1 = Inr (True, db')"
  | (replaced) sid updated db1 new where "osms_schedule_insert (itps_row rec metaseq) db = Inr ((sid, updated), db1)" "ntrod_inv db'"
      "updated \<longrightarrow> \<not> list_all2 same_place (sched_orig_mvts sid db) (itps_mvts rec)"
      "on_schedules db' = on_schedules db1" "on_mvts db' = filter (\<lambda>m. om_parent_sched m \<noteq> sid) (on_mvts db) @ new"
      "map itps_content new = itps_mvts rec" "sort_key mvt_order new = new"
      "\<forall>m\<in>set new. om_parent_sched m = sid \<and> om_starts_path m = None \<and> om_ends_path m = None"
proof -
  obtain sid updated db1 untouched db2 where ins: "osms_schedule_insert (itps_row rec metaseq) db = Inr ((sid, updated), db1)"
    and reuse: "(if updated then reuse_mvts sid (itps_mvts rec) db1 else Inr (False, db1)) = Inr (untouched, db2)"
    and fin: "(if untouched then Inr db2 else res_fold (vstp_mvt_insert sid) (List.enumerate 0 (itps_mvts rec)) db2) = Inr db'"
    using assms(2) unfolding apply_create [OF assms(3)] by (auto simp: res_bind_Inr)
  have inv: "ntrod_inv db1" by (rule schedule_insert_inv(1) [OF assms(1) ins])
  have same: "on_mvts db1 = on_mvts db" using ins by (cases rule: schedule_insert_cases) simp_all
  then have orig: "sched_orig_mvts sid db1 = sched_orig_mvts sid db" by (simp add: sched_orig_mvts_def)
  have ids: "distinct (map om_id (on_mvts db1))" using inv by (simp add: ntrod_inv_def mvts_ok_def serial_ok_def)
  have store: thesis if "\<not> untouched" "ntrod_inv db2" "on_schedules db2 = on_schedules db1"
      "on_mvts db2 = filter (\<lambda>m. om_parent_sched m \<noteq> sid) (on_mvts db)"
      "updated \<longrightarrow> \<not> list_all2 same_place (sched_orig_mvts sid db) (itps_mvts rec)"
  proof -
    have run: "res_fold (vstp_mvt_insert sid) (List.enumerate 0 (itps_mvts rec)) db2 = Inr db'" using fin that(1) by simp
    from insert_mvts_exact [OF run]
    obtain new where new: "db' = db2\<lparr>on_mvts := on_mvts db2 @ new, on_mvt_seq := on_mvt_seq db'\<rparr>" "map itps_content new = itps_mvts rec"
        "map om_idx new = map (\<lambda>i. Some (int i)) [0..<0 + length (itps_mvts rec)]"
        "\<forall>m\<in>set new. om_parent_sched m = sid \<and> om_starts_path m = None \<and> om_ends_path m = None"
      by blast
    have "on_schedules db' = on_schedules db1" "on_mvts db' = filter (\<lambda>m. om_parent_sched m \<noteq> sid) (on_mvts db) @ new"
      by (subst new(1), simp add: that(3,4))+
    from replaced [OF ins vstp_mvts_inv [OF that(2) run] that(5) this new(2) sorted_by_idx [OF new(3)] new(4)] show thesis .
  qed
  show thesis
  proof (cases updated)
    case True
    with reuse have "reuse_mvts sid (itps_mvts rec) db1 = Inr (untouched, db2)" by simp
    from this ids show thesis
      by (cases rule: reuse_cases) (use True fin kept [OF _ inv same] store ins in \<open>simp_all add: orig same inv delete_osms_mvts_inv delete_osms_mvts_tables\<close>)
  next
    case False
    from ins have "sid = on_schedule_seq db" by (cases rule: schedule_insert_cases) (use False in simp_all)
    then have "filter (\<lambda>m. om_parent_sched m \<noteq> sid) (on_mvts db) = on_mvts db"
      using assms(1) by (fastforce simp: filter_id_conv ntrod_inv_def mvts_ok_def schedules_ok_def serial_ok_def)
    with False reuse same inv show thesis by (intro store) simp_all
  qed
qed

lemma fill_content:
  assumes "list_all2 same_place ms xs" "distinct (map om_id ms)"
  shows "map (\<lambda>m. itps_content (fill (List.enumerate k (zip ms xs)) m)) ms = xs"
proof (rule nth_equalityI)
  have "map (\<lambda>(i, m, x). (om_id m, x)) (List.enumerate k zs) = map (\<lambda>(m, x). (om_id m, x)) zs" for zs :: "(osms_mvt \<times> itps_mvt) list"
    by (induction zs arbitrary: k) auto
  then have "fill (List.enumerate k (zip ms xs)) r =
      (case map_of (zip (map om_id ms) xs) (om_id r) of None \<Rightarrow> r | Some x \<Rightarrow> refreshed x r)" for r
    by (simp add: fill_def zip_map1)
  moreover have len: "length xs = length ms" using assms(1) by (simp add: list_all2_lengthD)
  moreover have "map_of (zip (map om_id ms) xs) (om_id (ms ! j)) = Some (xs ! j)" if "j < length ms" for j
    using map_of_zip_nth [of "map om_id ms" xs j] assms(2) len that by simp
  ultimately show "map (\<lambda>m. itps_content (fill (List.enumerate k (zip ms xs)) m)) ms ! j = xs ! j"
    if "j < length (map (\<lambda>m. itps_content (fill (List.enumerate k (zip ms xs)) m)) ms)" for j
    using that list_all2_nthD [OF assms(1), of j] by (simp add: refreshed_content)
qed (use assms(1) in \<open>simp add: list_all2_lengthD\<close>)

lemma fill_place [simp]: "om_parent_sched (fill L m) = om_parent_sched m" "mvt_order (fill L m) = mvt_order m"
  by (simp_all add: fill_def mvt_order_def split: option.split)

lemma kept_content:
  assumes "compare_mvts (List.enumerate 0 (zip (sched_orig_mvts sid db) mvts)) db = Inr (True, db')" "ntrod_inv db"
    and "list_all2 same_place (sched_orig_mvts sid db) mvts" "\<forall>m\<in>set (on_mvts db). om_idx m \<noteq> None"
  shows "map itps_content (sched_orig_mvts sid db') = mvts" "on_schedules db' = on_schedules db"
proof -
  let ?L = "List.enumerate 0 (zip (sched_orig_mvts sid db) mvts)"
  have ids: "distinct (map om_id (on_mvts db))" using assms(2) by (simp add: ntrod_inv_def mvts_ok_def serial_ok_def)
  have sub: "set (sched_orig_mvts sid db) \<subseteq> set (on_mvts db)" by (auto simp: sched_orig_mvts_def)
  have dist: "distinct (map om_id (sched_orig_mvts sid db))"
    using ids by (simp add: sched_orig_mvts_def distinct_map inj_on_def)
  have mem: "m \<in> set (sched_orig_mvts sid db)" if "(i, m, x) \<in> set ?L" for i m x
    using that by (auto simp: enumerate_eq_zip dest: set_zip_rightD set_zip_leftD)
  have "map (\<lambda>(i, m, x). om_id m) (List.enumerate k zs) = map om_id (map fst zs)" for k and zs :: "(osms_mvt \<times> itps_mvt) list"
    by (induction zs arbitrary: k) auto
  then have "map (\<lambda>(i, m, x). om_id m) ?L = map om_id (sched_orig_mvts sid db)"
    using list_all2_lengthD [OF assms(3)] by (simp only: map_fst_zip)
  then have "distinct (map (\<lambda>(i, m, x). om_id m) ?L)" using dist by simp
  moreover have keys: "r = m" if "(i, m, x) \<in> set ?L" "r \<in> set (on_mvts db)" "om_id r = om_id m" for i m x r
    using distinct_mapD [OF ids that(2) _ that(3)] mem [OF that(1)] sub by blast
  moreover have "list_all (\<lambda>(i, m, x). om_idx m \<noteq> None) ?L" using mem sub assms(4) unfolding list_all_iff by blast
  moreover have "\<forall>(i, m, x)\<in>set ?L. \<forall>r\<in>set (on_mvts db). om_id r = om_id m \<longrightarrow> r = m"
    using keys by auto
  ultimately have db': "db' = db\<lparr>on_mvts := map (fill ?L) (on_mvts db)\<rparr>" using compare_exact [OF assms(1)] by blast
  then show "on_schedules db' = on_schedules db" by simp
  have "sched_orig_mvts sid db' = map (fill ?L) (sched_orig_mvts sid db)"
    by (simp add: db' sched_orig_mvts_def filter_map comp_def sort_key_map)
  then show "map itps_content (sched_orig_mvts sid db') = mvts" using fill_content [OF assms(3) dist, of 0] by (simp add: comp_def)
qed

text \<open>
  C17. Where every movement has an index, a record of a schedule file that creates a schedule leaves the schedule with the data
  of the record, and with movements that are, in the order in which they are read, those of the locations of the record: whether
  the schedule is new, is known with other movements, which are replaced, or is known with the same ones, which are brought up
  to date.
\<close>

theorem itps_movements_spec:
  assumes "ntrod_inv db" "\<forall>m\<in>set (on_mvts db). om_idx m \<noteq> None" "apply_osms_record rec metaseq db = Inr db'"
    and "rec = SchedCreate uid tt start end_date days bh st stp at atoc seg"
  shows "\<exists>s\<in>set (on_schedules db'). osms_sched_key s = (uid, start, stp, sched_source_itps) \<and>
    os_end_date s = end_date \<and> os_days s = days \<and> os_signalling_id s = ss_signalling_id seg \<and> os_file_metaseq s = Some metaseq \<and>
    map itps_content (sched_orig_mvts (os_id s) db') = concat (map sched_mvts (ss_schedule_location seg))"
proof -
  have row: "\<exists>s\<in>set (on_schedules db1). os_id s = sid \<and> osms_sched_key s = (uid, start, stp, sched_source_itps) \<and>
      os_end_date s = end_date \<and> os_days s = days \<and> os_signalling_id s = ss_signalling_id seg \<and> os_file_metaseq s = Some metaseq"
    if "osms_schedule_insert (itps_row rec metaseq) db = Inr ((sid, updated), db1)" for sid updated db1
    using that
  proof (cases rule: schedule_insert_cases)
    case (1 r)
    show ?thesis
      by (rule bexI [of _ "merge_schedule (itps_row rec metaseq) r"])
        (use 1 in \<open>auto simp: merge_schedule_def itps_row_def assms(4) osms_sched_key_def\<close>)
  next
    case 2
    then show ?thesis by (simp add: itps_row_def assms(4) osms_sched_key_def)
  qed
  have mvts: "itps_mvts rec = concat (map sched_mvts (ss_schedule_location seg))" by (simp add: itps_mvts_def assms(4))
  from assms(1,3,4) show ?thesis
  proof (cases rule: create_cases)
    case (kept sid db1)
    have "sched_orig_mvts sid db = sched_orig_mvts sid db1" using kept(3) by (simp add: sched_orig_mvts_def)
    with kept_content [OF kept(5,2)] kept(3,4) assms(2) row [OF kept(1)] show ?thesis by (auto simp: mvts)
  next
    case (replaced sid updated db1 new)
    have "filter (\<lambda>m. om_parent_sched m = sid) (on_mvts db') = new" using replaced(5,8) by (auto simp: filter_empty_conv)
    with replaced(4,6,7) row [OF replaced(1)] show ?thesis by (auto simp: sched_orig_mvts_def mvts)
  qed
qed

text \<open>
  C15. A schedule that has been processed and whose movements are replaced by a later file is never routed again: its
  mark stays, so that the processing passes over it, and its new movements stay without paths.
\<close>

theorem replaced_schedule_never_routed:
  assumes "ntrod_inv db" "apply_osms_record rec metaseq db = Inr db'"
    and "rec = SchedCreate uid tt start end_date days bh st stp at atoc seg"
    and "s \<in> set (on_schedules db)" "osms_sched_key s = (uid, start, stp, sched_source_itps)" "os_geo_generation s = 1"
    and "\<not> list_all2 same_place (sched_orig_mvts (os_id s) db) (concat (map sched_mvts (ss_schedule_location seg)))"
    and "railway_ok G g" "paths_fit (db, g)"
  shows "\<exists>n g'. geo_process_schedules G (db', g) = Some (Inr (), (n, g')) \<and>
    map itps_content (sched_orig_mvts (os_id s) n) = concat (map sched_mvts (ss_schedule_location seg)) \<and>
    (\<forall>m\<in>set (sched_orig_mvts (os_id s) n). om_starts_path m = None \<and> om_ends_path m = None)"
proof -
  have mvts: "itps_mvts rec = concat (map sched_mvts (ss_schedule_location seg))" by (simp add: itps_mvts_def assms(3))
  have key: "osms_sched_key s = osms_sched_key (itps_row rec metaseq)" using assms(5) by (simp add: assms(3) itps_row_def osms_sched_key_def)
  have uniq: "r = s" if "r \<in> set (on_schedules db)" "osms_sched_key r = osms_sched_key s" for r
    using distinct_mapD [of osms_sched_key, OF _ that(1) assms(4) that(2)] assms(1) by (simp add: ntrod_inv_def schedules_ok_def)
  have ins: "sid = os_id s \<and> updated \<and> merge_schedule (itps_row rec metaseq) s \<in> set (on_schedules db1)"
    if "osms_schedule_insert (itps_row rec metaseq) db = Inr ((sid, updated), db1)" for sid updated db1
    using that by (cases rule: schedule_insert_cases) (use uniq key assms(4) in auto)
  from assms(1,2,3) show ?thesis
  proof (cases rule: create_cases)
    case kept
    then show ?thesis using ins assms(7) by (auto simp: mvts)
  next
    case (replaced sid updated db1 new)
    note s = ins [OF replaced(1)]
    have new: "filter (\<lambda>m. om_parent_sched m = os_id s) (on_mvts db') = new"
      using replaced(5,8) s by (auto simp: filter_empty_conv)
    have "paths_fit (db', g)" using assms(9) replaced(5,8) by (auto simp: paths_fit_def path_fits_def)
    moreover have ids: "distinct (map om_id (on_mvts db'))" "distinct (map os_id (on_schedules db'))"
      using replaced(2) by (simp_all add: ntrod_inv_def mvts_ok_def schedules_ok_def serial_ok_def)
    moreover have "\<not> is_pending r" if "r \<in> set (on_schedules db')" "os_id r = os_id s" for r
    proof -
      have "merge_schedule (itps_row rec metaseq) s \<in> set (on_schedules db')" using s replaced(4) by simp
      then have "r = merge_schedule (itps_row rec metaseq) s"
        using distinct_mapD [OF ids(2) that(1)] that(2) by (simp add: merge_schedule_def)
      then show ?thesis by (simp add: is_pending_def merge_schedule_def assms(6))
    qed
    ultimately obtain st where st: "geo_thread G (db', g) = Some (Inr (), st)" "keeps_sched (os_id s) db' (fst st)"
      using geo_thread_processes [of G "(db', g)" "os_id s"] assms(8) by auto
    then have "sched_orig_mvts (os_id s) (fst st) = new"
      using replaced(7) new by (simp add: sched_orig_mvts_def keeps_sched_def)
    moreover have "geo_process_schedules G (db', g) = Some (Inr (), (fst st, snd st))"
      using st(1) by (simp add: geo_process_schedules_def map_err_def)
    ultimately show ?thesis using replaced(6,8) by (intro exI [of _ "fst st"] exI [of _ "snd st"]) (simp add: mvts)
  qed
qed

section \<open>The import keeps the constraints\<close>

lemma update_mvt_inv:
  assumes "ntrod_inv db" "\<And>r. om_id (f r) = om_id r \<and> om_parent_sched (f r) = om_parent_sched r"
    and "uniq_on mvt_place (on_mvts (update_osms_mvt i f db))"
  shows "ntrod_inv (update_osms_mvt i f db)"
proof -
  let ?f = "\<lambda>m. if om_id m = i then f m else m"
  have ids: "om_id (?f m) = om_id m" for m using assms(2) by simp
  have "om_id ` set (map ?f (on_mvts db)) = om_id ` set (on_mvts db)" by (rule image_map_same) (rule ids)
  moreover have "serial_ok om_id n (map ?f (on_mvts db)) = serial_ok om_id n (on_mvts db)" for n
    by (rule serial_map) (rule ids)
  ultimately show ?thesis
    using assms unfolding ntrod_inv_def ntrod_ok_defs update_osms_mvt_def by auto
qed

lemma update_mvt_keys: "(\<And>r. om_id (f r) = om_id r \<and> om_parent_sched (f r) = om_parent_sched r) \<Longrightarrow>
    mvt_keys (update_osms_mvt i f db) = mvt_keys db"
  by (simp add: mvt_keys_def update_osms_mvt_def)

lemma uniq_on_map: "(\<And>r. k (f r) = k r) \<Longrightarrow> uniq_on k (map f xs) = uniq_on k xs"
  by (induction xs) (auto split: option.splits)

lemma update_place_inv:
  assumes "ntrod_inv db" "\<And>r. om_id (f r) = om_id r \<and> om_parent_sched (f r) = om_parent_sched r \<and> om_idx (f r) = om_idx r"
  shows "ntrod_inv (update_osms_mvt i f db)"
proof (rule update_mvt_inv [OF assms(1)])
  have "mvt_place (if om_id r = i then f r else r) = mvt_place r" for r using assms(2) by (simp add: mvt_place_def)
  then show "uniq_on mvt_place (on_mvts (update_osms_mvt i f db))"
    using assms(1) by (simp add: update_osms_mvt_def uniq_on_map ntrod_inv_def mvts_ok_def)
qed (use assms(2) in simp)

lemma update_idx_inv:
  assumes "ntrod_inv db" "update_mvt_idx m i db = Inr db'" "(om_id m, om_parent_sched m) \<in> set (mvt_keys db)"
  shows "ntrod_inv db'"
proof -
  let ?f = "\<lambda>r. r\<lparr>om_idx := Some i\<rparr>" and ?v = "Some (om_parent_sched m, i)"
  have ok: "uniq_on mvt_place (on_mvts db)" "distinct (map om_id (on_mvts db))"
    using assms(1) by (simp_all add: ntrod_inv_def mvts_ok_def serial_ok_def)
  have free: "mvt_place r \<noteq> ?v" if "r \<in> set (on_mvts db)" "om_id r \<noteq> om_id m" for r
    using assms(2) that by (auto simp: update_mvt_idx_def mvt_place_def split: if_splits)
  have own: "om_parent_sched r = om_parent_sched m" if "r \<in> set (on_mvts db)" "om_id r = om_id m" for r
    using assms(3) distinct_mapD [OF ok(2) that(1)] that(2) by (auto simp: mvt_keys_def)
  let ?g = "\<lambda>r. r\<lparr>om_idx := Some i, om_parent_sched := om_parent_sched m\<rparr>"
  have "uniq_on mvt_place (map (\<lambda>r. if om_id r = om_id m then ?g r else r) (on_mvts db))"
    by (rule uniq_on_upsert [OF ok, where v = ?v]) (use free in \<open>auto simp: mvt_place_def\<close>)
  moreover have "map (\<lambda>r. if om_id r = om_id m then ?g r else r) (on_mvts db) =
      map (\<lambda>r. if om_id r = om_id m then ?f r else r) (on_mvts db)"
    using own by auto
  ultimately have "ntrod_inv (update_osms_mvt (om_id m) ?f db)"
    by (intro update_mvt_inv [OF assms(1)]) (simp_all add: update_osms_mvt_def)
  then show ?thesis using assms(2) by (simp add: update_mvt_idx_def split: if_splits)
qed

lemma refresh_inv:
  assumes "ntrod_inv db" "refresh_mvt i m p t db = Inr db'" "(om_id m, om_parent_sched m) \<in> set (mvt_keys db)"
  shows "ntrod_inv db' \<and> mvt_keys db' = mvt_keys db"
proof -
  let ?P = "update_osms_mvt (om_id m) (\<lambda>r. r\<lparr>om_platform := p\<rparr>)" and ?T = "update_osms_mvt (om_id m) (\<lambda>r. r\<lparr>om_public_time := t\<rparr>)"
  define db1 where "db1 = (if om_platform m \<noteq> p then ?P db else db)"
  define db2 where "db2 = (if om_public_time m \<noteq> t then ?T db1 else db1)"
  have run: "(if om_idx m = None then update_mvt_idx m (int i) db2 else Inr db2) = Inr db'"
    using assms(2) by (simp only: refresh_mvt_def Let_def db1_def db2_def)
  have two: "ntrod_inv db2" "mvt_keys db2 = mvt_keys db"
    using assms(1) by (simp_all add: db1_def db2_def update_place_inv update_mvt_keys)
  then have "ntrod_inv db'" using run update_idx_inv [of db2 m "int i" db'] assms(3) by (auto split: if_splits)
  moreover have "mvt_keys db' = mvt_keys db"
    using run two(2) by (auto simp: update_mvt_idx_def update_mvt_keys split: if_splits)
  ultimately show ?thesis by blast
qed

lemma compare_inv:
  assumes "compare_mvts L db = Inr (valid, db')" "ntrod_inv db" "\<forall>(i, m, x)\<in>set L. (om_id m, om_parent_sched m) \<in> set (mvt_keys db)"
  shows "ntrod_inv db'"
  using assms
proof (induction L arbitrary: db)
  case (Cons a L)
  obtain i m x where a: "a = (i, m, x)" by (cases a)
  from Cons.prems(1) consider "db' = db"
    | db1 where "refresh_mvt i m (fst (snd (snd (snd x)))) (snd (snd (snd (snd x)))) db = Inr db1" "compare_mvts L db1 = Inr (valid, db')"
    by (auto simp: a compare_step res_bind_Inr split: if_splits)
  then show ?case
  proof cases
    case 2
    have "ntrod_inv db1 \<and> mvt_keys db1 = mvt_keys db" using refresh_inv [OF Cons.prems(2) 2(1)] Cons.prems(3) by (simp add: a)
    with Cons.IH [OF 2(2)] Cons.prems(3) show ?thesis by simp
  qed (use Cons.prems in simp)
qed simp

lemma apply_record_inv:
  assumes "ntrod_inv db" "apply_osms_record rec metaseq db = Inr db'"
  shows "ntrod_inv db'"
proof (cases rec)
  case SchedDelete
  with assms show ?thesis by (auto simp: apply_osms_record_def intro: delete_osms_schedules_inv)
next
  case SchedCreate
  from assms this show ?thesis
  proof (cases rule: create_cases)
    case (kept sid db1)
    have "(om_id m, om_parent_sched m) \<in> set (mvt_keys db1)"
      if "(i, m, x) \<in> set (List.enumerate 0 (zip (sched_orig_mvts sid db1) (itps_mvts rec)))" for i m x
    proof -
      have "m \<in> set (sched_orig_mvts sid db1)" using that by (auto simp: enumerate_eq_zip dest: set_zip_rightD set_zip_leftD)
      then show ?thesis by (auto simp: sched_orig_mvts_def mvt_keys_def)
    qed
    then show ?thesis by (intro compare_inv [OF kept(5,2)]) auto
  qed
qed

lemma apply_timetable_files:
  "apply_osms_timetable rec s = Inr (k, s') \<Longrightarrow> su_db s' = su_db s \<and>
     (distinct (map ofl_timestamp (su_files s)) \<longrightarrow> distinct (map ofl_timestamp (su_files s')))"
  by (auto simp: apply_osms_timetable_def osms_file_insert_def Let_def res_map_Inr split: if_splits; blast)

text \<open>
  A schedule file keeps the constraints of the timetable, whatever its lines are, and the time stamps of the
  files that have been imported stay different from one another.
\<close>

theorem osms_import_consistent:
  assumes "ntrod_inv (su_db s)" "distinct (map ofl_timestamp (su_files s))" "apply_osms_file parse lines s = Inr s'"
  shows "ntrod_inv (su_db s') \<and> distinct (map ofl_timestamp (su_files s'))"
proof -
  let ?I = "\<lambda>st :: int option \<times> 'p setup_db. ntrod_inv (su_db (snd st)) \<and> distinct (map ofl_timestamp (su_files (snd st)))"
  obtain r where r: "res_fold (apply_osms_line parse) lines (None, s) = Inr r" "s' = snd r"
    using assms(3) by (auto simp: apply_osms_file_def res_map_Inr)
  have "?I st'" if "?I st" "apply_osms_line parse line st = Inr st'" for line st st'
  proof (cases line)
    case (Some l)
    show ?thesis
    proof (cases "parse l")
      case (Some rec)
      with \<open>line = Some l\<close> that show ?thesis
        by (cases rec; cases st') (auto simp: apply_osms_line_def res_map_Inr intro: apply_record_inv split: option.splits
            dest!: apply_timetable_files)
    qed (use \<open>line = Some l\<close> that in \<open>simp add: apply_osms_line_def\<close>)
  qed (use that in \<open>simp add: apply_osms_line_def\<close>)
  from res_fold_invariant [where P = ?I, OF this _ r(1)] assms(1,2) r(2) show ?thesis by simp
qed

section \<open>Examples\<close>

definition sample_moved :: "naive_time \<Rightarrow> schedule_record" where
  "sample_moved departure = SchedCreate ''C1'' CreateType_Create (NaiveDate 1) (NaiveDate 91) days_all None
     TrainStatus_PassengerAndParcels StpPermanent YesOrNo_Y None
     \<lparr>ss_train_category = None, ss_signalling_id = Some ''1A01'', ss_headcode = None, ss_business_sector = None,
      ss_power_type = None, ss_timing_load = None, ss_speed = None, ss_operating_characteristics = None,
      ss_train_class = None, ss_sleepers = None, ss_reservations = None, ss_catering_code = None, ss_service_branding = None,
      ss_schedule_location =
        [Originating OrigLoc_Originating ''EUSTON'' departure None (Some ''3'') None None None None,
         Terminating TermLoc_Terminating ''HARROW'' (from_hms 0 10 0) None None None]\<rparr>"

definition sample_processed :: ntrod_db where
  "sample_processed = sample_night\<lparr>on_schedules := map (\<lambda>s. s\<lparr>os_geo_generation := 1\<rparr>) (on_schedules sample_night)\<rparr>"

lemma sample_processed_inv: "ntrod_inv sample_processed"
  by (simp add: sample_processed_def sample_night_def ntrod_inv_def ntrod_ok_defs serial_ok_def mvt_place_def trust_place_def)

lemmas sample_moved_simps = sample_processed_def sample_night_def sample_moved_def itps_row_def itps_mvts_def apply_osms_record_def
  osms_schedule_insert_def osms_sched_key_def sched_source_itps_def merge_schedule_def reuse_mvts_def sched_orig_mvts_def
  enumerate_eq_zip compare_step same_place_def delete_osms_mvts_def delete_tmvts_def vstp_mvt_insert_def osms_mvt_insert_def
  mvt_order_def action_departure_def action_arrival_def

lemma sample_moved_applied: "\<exists>db'. apply_osms_record (sample_moved (from_hms 23 55 0)) 5 sample_processed = Inr db'"
  by (simp add: sample_moved_simps Let_def from_hms_def)

lemma sample_refreshed: "\<exists>db'. apply_osms_record (sample_moved (from_hms 23 50 0)) 5 sample_processed = Inr db'"
  by (simp add: sample_moved_simps Let_def refresh_mvt_def update_osms_mvt_def)


lemma itps_movements_spec_witness:
  "\<exists>db' s. apply_osms_record (sample_moved (from_hms 23 50 0)) 5 sample_processed = Inr db' \<and> s \<in> set (on_schedules db') \<and>
     os_end_date s = NaiveDate 91 \<and>
     map itps_content (sched_orig_mvts (os_id s) db') =
       [(''EUSTON'', from_hms 23 50 0, 1, Some ''3'', None), (''HARROW'', from_hms 0 10 0, 0, None, None)]"
proof -
  obtain db' where db': "apply_osms_record (sample_moved (from_hms 23 50 0)) 5 sample_processed = Inr db'"
    using sample_refreshed by blast
  have "\<forall>m\<in>set (on_mvts sample_processed). om_idx m \<noteq> None" by (simp add: sample_processed_def sample_night_def)
  from itps_movements_spec [OF sample_processed_inv this db' sample_moved_def] db' show ?thesis
    by (auto simp: action_departure_def action_arrival_def)
qed

lemma replaced_schedule_never_routed_witness:
  "\<exists>db' n g'. apply_osms_record (sample_moved (from_hms 23 55 0)) 5 sample_processed = Inr db' \<and>
     geo_process_schedules sample_geo (db', sample_parts) = Some (Inr (), (n, g')) \<and>
     map om_starts_path (sched_orig_mvts 1 n) = [None, None]"
proof -
  obtain db' where db': "apply_osms_record (sample_moved (from_hms 23 55 0)) 5 sample_processed = Inr db'"
    using sample_moved_applied by blast
  let ?s = "hd (on_schedules sample_processed)"
  have s: "?s \<in> set (on_schedules sample_processed)" "osms_sched_key ?s = (''C1'', NaiveDate 1, StpPermanent, sched_source_itps)"
      "os_geo_generation ?s = 1" "os_id ?s = 1" "paths_fit (sample_processed, sample_parts)"
    by (simp_all add: sample_processed_def sample_night_def osms_sched_key_def sched_source_itps_def paths_fit_def path_fits_def)
  have changed: "\<not> list_all2 same_place (sched_orig_mvts 1 sample_processed)
      [(''EUSTON'', from_hms 23 55 0, 1, Some ''3'', None), (''HARROW'', from_hms 0 10 0, 0, None, None)]"
    by (simp add: sched_orig_mvts_def sample_processed_def sample_night_def mvt_order_def same_place_def from_hms_def)
  from replaced_schedule_never_routed [OF sample_processed_inv db' sample_moved_def s(1,2,3) _ sample_railway_ok s(5)] changed
  obtain n g' where n: "geo_process_schedules sample_geo (db', sample_parts) = Some (Inr (), (n, g'))"
      "map itps_content (sched_orig_mvts 1 n) = [(''EUSTON'', from_hms 23 55 0, 1, Some ''3'', None), (''HARROW'', from_hms 0 10 0, 0, None, None)]"
      "\<forall>m\<in>set (sched_orig_mvts 1 n). om_starts_path m = None"
    by (auto simp: s(4) action_departure_def action_arrival_def)
  from n(2) obtain a b where "sched_orig_mvts 1 n = [a, b]" by (auto simp: map_eq_Cons_conv)
  with n db' show ?thesis by auto
qed

end
